(* ===== verification/Prelude.thy ===== *)
theory Prelude
  imports Main "HOL-Library.Word"
begin

text \<open>
  The prelude of the development: the shape every operation of the control plane is translated
  into, and the lemmas the component theories share.

  A Go function that reads and writes the database, publishes on the bus and may return an error
  becomes a function from the state to a pair of its result and the state it leaves behind: the
  writes made before an early \<open>return err\<close> stay, exactly as they do in the program.
  \<open>bnd\<close> is the idiom \<open>x, err := f(); if err != nil { return err }\<close>, \<open>attempt\<close> is a call whose error
  the caller inspects, logs or drops, and \<open>mapE\<close> is \<open>fmt.Errorf("...: %w", err)\<close>.

  The second half is a small Hoare calculus for these functions. A triple names what holds after
  a normal return and what holds after an error return; one rule per combinator lets the component
  proofs be syntax directed (collection \<open>tri\<close>).
\<close>

named_theorems tri \<open>rules of the Hoare calculus, one per combinator and per operation\<close>
named_theorems op_defs \<open>definitions of the operations, to unfold when a handler is run step by step\<close>

section \<open>Computations with errors over a state\<close>

type_synonym ('w, 'e, 'a) comp = "'w \<Rightarrow> ('e + 'a) \<times> 'w"

definition ret :: "'a \<Rightarrow> ('w, 'e, 'a) comp" where
  "ret x = (\<lambda>w. (Inr x, w))"

definition throw :: "'e \<Rightarrow> ('w, 'e, 'a) comp" where
  "throw e = (\<lambda>w. (Inl e, w))"

definition bnd :: "('w, 'e, 'a) comp \<Rightarrow> ('a \<Rightarrow> ('w, 'e, 'b) comp) \<Rightarrow> ('w, 'e, 'b) comp" where
  "bnd m f = (\<lambda>w. case m w of (Inl e, w') \<Rightarrow> (Inl e, w') | (Inr x, w') \<Rightarrow> f x w')"

definition attempt :: "('w, 'e, 'a) comp \<Rightarrow> ('w, 'f, 'e + 'a) comp" where
  "attempt m = (\<lambda>w. case m w of (r, w') \<Rightarrow> (Inr r, w'))"

definition mapE :: "('e \<Rightarrow> 'f) \<Rightarrow> ('w, 'e, 'a) comp \<Rightarrow> ('w, 'f, 'a) comp" where
  "mapE h m = (\<lambda>w. case m w of (Inl e, w') \<Rightarrow> (Inl (h e), w') | (Inr x, w') \<Rightarrow> (Inr x, w'))"

definition gets :: "('w \<Rightarrow> 'a) \<Rightarrow> ('w, 'e, 'a) comp" where
  "gets f = (\<lambda>w. (Inr (f w), w))"

definition modify :: "('w \<Rightarrow> 'w) \<Rightarrow> ('w, 'e, unit) comp" where
  "modify f = (\<lambda>w. (Inr (), f w))"

text \<open>A loop whose body may return an error, which ends the loop.\<close>

fun forE :: "'x list \<Rightarrow> ('x \<Rightarrow> ('w, 'e, unit) comp) \<Rightarrow> ('w, 'e, unit) comp" where
  "forE [] f = ret ()"
| "forE (x # xs) f = bnd (f x) (\<lambda>_. forE xs f)"

text \<open>A loop that collects: \<open>Some\<close> is an \<open>append\<close>, \<open>None\<close> a \<open>continue\<close>.\<close>

fun collectE :: "'x list \<Rightarrow> ('x \<Rightarrow> ('w, 'e, 'y option) comp) \<Rightarrow> ('w, 'e, 'y list) comp" where
  "collectE [] f = ret []"
| "collectE (x # xs) f =
     bnd (f x) (\<lambda>r. bnd (collectE xs f) (\<lambda>ys. ret (case r of None \<Rightarrow> ys | Some y \<Rightarrow> y # ys)))"

definition result :: "('e + 'a) \<times> 'w \<Rightarrow> 'e + 'a" where
  "result r = fst r"

definition final :: "('e + 'a) \<times> 'w \<Rightarrow> 'w" where
  "final r = snd r"

lemma result_pair [simp]: "result (r, w) = r"
  by (simp add: result_def)

lemma final_pair [simp]: "final (r, w) = w"
  by (simp add: final_def)

lemma ret_run [simp]: "ret x w = (Inr x, w)"
  by (simp add: ret_def)

lemma throw_run [simp]: "throw e w = (Inl e, w)"
  by (simp add: throw_def)

lemma gets_run [simp]: "gets f w = (Inr (f w), w)"
  by (simp add: gets_def)

lemma modify_run [simp]: "modify f w = (Inr (), f w)"
  by (simp add: modify_def)

lemma bnd_run: "bnd m f w = (case m w of (Inl e, w') \<Rightarrow> (Inl e, w') | (Inr x, w') \<Rightarrow> f x w')"
  by (simp add: bnd_def)

lemma bnd_ret [simp]: "bnd (ret x) f = f x"
  by (simp add: bnd_def)

lemma bnd_throw [simp]: "bnd (throw e) f = throw e"
  by (simp add: bnd_def throw_def)

lemma attempt_run: "attempt m w = (case m w of (r, w') \<Rightarrow> (Inr r, w'))"
  by (simp add: attempt_def)

lemma mapE_run:
  "mapE h m w = (case m w of (Inl e, w') \<Rightarrow> (Inl (h e), w') | (Inr x, w') \<Rightarrow> (Inr x, w'))"
  by (simp add: mapE_def)

text \<open>Running a handler forward: the next call is known to succeed or to fail.\<close>

lemma bnd_Inr: "m w = (Inr x, w') \<Longrightarrow> bnd m f w = f x w'"
  by (simp add: bnd_run)

lemma bnd_Inl: "m w = (Inl e, w') \<Longrightarrow> bnd m f w = (Inl e, w')"
  by (simp add: bnd_run)

lemma mapE_Inr: "m w = (Inr x, w') \<Longrightarrow> mapE h m w = (Inr x, w')"
  by (simp add: mapE_run)

lemma mapE_Inl: "m w = (Inl e, w') \<Longrightarrow> mapE h m w = (Inl (h e), w')"
  by (simp add: mapE_run)

lemma attempt_eq: "m w = (r, w') \<Longrightarrow> attempt m w = (Inr r, w')"
  by (simp add: attempt_run)

lemmas runs = bnd_run attempt_run mapE_run

lemma bnd_cong:
  "(\<And>x w'. m w = (Inr x, w') \<Longrightarrow> f x w' = g x w') \<Longrightarrow> bnd m f w = bnd m g w"
  by (simp add: bnd_run split: prod.splits sum.splits)

text \<open>Running a handler backward: what a normal return says about the calls it made.\<close>

lemma bnd_Inr_iff:
  "bnd m f w = (Inr y, w'') \<longleftrightarrow> (\<exists>x w'. m w = (Inr x, w') \<and> f x w' = (Inr y, w''))"
  by (auto simp: bnd_run split: prod.splits sum.splits)

lemma mapE_Inr_iff: "mapE h m w = (Inr x, w') \<longleftrightarrow> m w = (Inr x, w')"
  by (auto simp: mapE_run split: prod.splits sum.splits)

lemma attempt_Inr_iff: "attempt m w = (Inr r, w') \<longleftrightarrow> m w = (r, w')"
  by (auto simp: attempt_run split: prod.splits)

lemmas inverts = bnd_Inr_iff mapE_Inr_iff attempt_Inr_iff

lemma bnd_attempt_cong:
  "(\<And>r w'. m w = (r, w') \<Longrightarrow> f r w' = g r w') \<Longrightarrow> bnd (attempt m) f w = bnd (attempt m) g w"
  by (simp add: bnd_run attempt_run split: prod.splits)

section \<open>Triples\<close>

definition triple ::
  "('w \<Rightarrow> bool) \<Rightarrow> ('w, 'e, 'a) comp \<Rightarrow> ('a \<Rightarrow> 'w \<Rightarrow> bool) \<Rightarrow> ('e \<Rightarrow> 'w \<Rightarrow> bool) \<Rightarrow> bool" where
  "triple P m Q E \<longleftrightarrow>
     (\<forall>w. P w \<longrightarrow> (case m w of (Inl e, w') \<Rightarrow> E e w' | (Inr x, w') \<Rightarrow> Q x w'))"

lemma tripleI:
  assumes "\<And>w x w'. P w \<Longrightarrow> m w = (Inr x, w') \<Longrightarrow> Q x w'"
    and "\<And>w e w'. P w \<Longrightarrow> m w = (Inl e, w') \<Longrightarrow> E e w'"
  shows "triple P m Q E"
  unfolding triple_def using assms by (auto split: prod.splits sum.splits)

lemma tripleD:
  assumes "triple P m Q E" and "P w"
  shows "case m w of (Inl e, w') \<Rightarrow> E e w' | (Inr x, w') \<Rightarrow> Q x w'"
  using assms by (simp add: triple_def)

lemma triple_Inr: "triple P m Q E \<Longrightarrow> P w \<Longrightarrow> m w = (Inr x, w') \<Longrightarrow> Q x w'"
  by (drule tripleD) auto

lemma triple_Inl: "triple P m Q E \<Longrightarrow> P w \<Longrightarrow> m w = (Inl e, w') \<Longrightarrow> E e w'"
  by (drule tripleD) auto

lemma triple_conseq:
  assumes "triple P' m Q' E'"
    and "\<And>w. P w \<Longrightarrow> P' w" and "\<And>x w. Q' x w \<Longrightarrow> Q x w" and "\<And>e w. E' e w \<Longrightarrow> E e w"
  shows "triple P m Q E"
  using assms unfolding triple_def by (fastforce split: prod.splits sum.splits)

lemma triple_pre: "triple P' m Q E \<Longrightarrow> (\<And>w. P w \<Longrightarrow> P' w) \<Longrightarrow> triple P m Q E"
  by (rule triple_conseq)

lemma triple_ret [tri]: "(\<And>w. P w \<Longrightarrow> Q x w) \<Longrightarrow> triple P (ret x) Q E"
  by (simp add: triple_def)

lemma triple_throw [tri]: "(\<And>w. P w \<Longrightarrow> E e w) \<Longrightarrow> triple P (throw e) Q E"
  by (simp add: triple_def)

lemma triple_gets: "triple (\<lambda>w. Q (f w) w) (gets f) Q E"
  by (simp add: triple_def)

lemma triple_modify: "triple (\<lambda>w. Q () (f w)) (modify f) Q E"
  by (simp add: triple_def)

lemma triple_bnd:
  assumes "triple P m R E" and "\<And>x. triple (R x) (f x) Q E"
  shows "triple P (bnd m f) Q E"
  using assms unfolding triple_def bnd_def by (fastforce split: prod.splits sum.splits)

lemma triple_mapE:
  assumes "triple P m Q (\<lambda>e. E (h e))"
  shows "triple P (mapE h m) Q E"
  using assms unfolding triple_def mapE_def by (fastforce split: prod.splits sum.splits)

lemma triple_attempt:
  assumes "triple P m (\<lambda>x. Q (Inr x)) (\<lambda>e. Q (Inl e))"
  shows "triple P (attempt m) Q E"
  using assms unfolding triple_def attempt_def by (fastforce split: prod.splits sum.splits)

section \<open>Invariants of computations\<close>

text \<open>\<open>keeps I m\<close>: whatever \<open>m\<close> returns, an error or a value, \<open>I\<close> still holds.\<close>

definition keeps :: "('w \<Rightarrow> bool) \<Rightarrow> ('w, 'e, 'a) comp \<Rightarrow> bool" where
  "keeps I m \<longleftrightarrow> (\<forall>w. I w \<longrightarrow> I (snd (m w)))"

lemma keepsI: "(\<And>w. I w \<Longrightarrow> I (snd (m w))) \<Longrightarrow> keeps I m"
  by (simp add: keeps_def)

lemma keepsD: "keeps I m \<Longrightarrow> I w \<Longrightarrow> I (snd (m w))"
  by (simp add: keeps_def)

lemma keeps_run: "keeps I m \<Longrightarrow> I w \<Longrightarrow> m w = (r, w') \<Longrightarrow> I w'"
  by (drule keepsD) auto

lemma keeps_triple: "keeps I m \<longleftrightarrow> triple I m (\<lambda>_. I) (\<lambda>_. I)"
  unfolding keeps_def triple_def by (fastforce split: prod.splits sum.splits)

lemma keeps_ret [tri]: "keeps I (ret x)"
  by (simp add: keeps_def)

lemma keeps_throw [tri]: "keeps I (throw e)"
  by (simp add: keeps_def)

lemma keeps_gets [tri]: "keeps I (gets f)"
  by (simp add: keeps_def)

lemma keeps_modify: "(\<And>w. I w \<Longrightarrow> I (f w)) \<Longrightarrow> keeps I (modify f)"
  by (simp add: keeps_def)

lemma keeps_bnd [tri]: "keeps I m \<Longrightarrow> (\<And>x. keeps I (f x)) \<Longrightarrow> keeps I (bnd m f)"
  unfolding keeps_def bnd_def by (fastforce split: prod.splits sum.splits)

lemma keeps_attempt [tri]: "keeps I m \<Longrightarrow> keeps I (attempt m)"
  unfolding keeps_def attempt_def by (auto split: prod.splits)

lemma keeps_mapE [tri]: "keeps I m \<Longrightarrow> keeps I (mapE h m)"
  unfolding keeps_def mapE_def by (fastforce split: prod.splits sum.splits)

lemma keeps_if [tri]: "(b \<Longrightarrow> keeps I m) \<Longrightarrow> (\<not> b \<Longrightarrow> keeps I n) \<Longrightarrow> keeps I (if b then m else n)"
  by simp

lemma keeps_case_option [tri]:
  "(x = None \<Longrightarrow> keeps I m) \<Longrightarrow> (\<And>y. x = Some y \<Longrightarrow> keeps I (f y)) \<Longrightarrow> keeps I (case x of None \<Rightarrow> m | Some y \<Rightarrow> f y)"
  by (cases x) auto

lemma keeps_case_sum [tri]:
  "(\<And>e. x = Inl e \<Longrightarrow> keeps I (f e)) \<Longrightarrow> (\<And>y. x = Inr y \<Longrightarrow> keeps I (g y)) \<Longrightarrow> keeps I (case x of Inl e \<Rightarrow> f e | Inr y \<Rightarrow> g y)"
  by (cases x) auto

lemma keeps_case_prod [tri]:
  "(\<And>a b. x = (a, b) \<Longrightarrow> keeps I (f a b)) \<Longrightarrow> keeps I (case x of (a, b) \<Rightarrow> f a b)"
  by (cases x) auto

lemma keeps_bnd_run:
  assumes "keeps J m" and "\<And>w x w'. J w \<Longrightarrow> m w = (Inr x, w') \<Longrightarrow> keeps J (f x)"
  shows "keeps J (bnd m f)"
proof (rule keepsI)
  fix w assume J: "J w"
  obtain r w' where run: "m w = (r, w')" by fastforce
  show "J (snd (bnd m f w))"
  proof (cases r)
    case (Inl e)
    with keepsD [OF assms(1) J] show ?thesis by (simp add: run bnd_run)
  next
    case (Inr x)
    have "J w'" using keepsD [OF assms(1) J] by (simp add: run)
    with keepsD [OF assms(2) [OF J run [unfolded Inr]]] show ?thesis by (simp add: run Inr bnd_run)
  qed
qed

lemma keeps_case_list [tri]:
  "(x = [] \<Longrightarrow> keeps I m) \<Longrightarrow> (\<And>y ys. x = y # ys \<Longrightarrow> keeps I (f y ys)) \<Longrightarrow> keeps I (case x of [] \<Rightarrow> m | y # ys \<Rightarrow> f y ys)"
  by (cases x) auto

lemma keeps_forE [tri]: "(\<And>x. x \<in> set xs \<Longrightarrow> keeps I (f x)) \<Longrightarrow> keeps I (forE xs f)"
  by (induction xs) (auto intro!: tri)

lemma keeps_collectE [tri]: "(\<And>x. x \<in> set xs \<Longrightarrow> keeps I (f x)) \<Longrightarrow> keeps I (collectE xs f)"
  by (induction xs) (auto intro!: tri)

section \<open>Lists and Go strings\<close>

text \<open>\<open>strings.HasPrefix\<close>, \<open>strings.TrimPrefix\<close>, \<open>strings.Index\<close> and \<open>strings.Contains\<close>.\<close>

fun has_prefix :: "'a list \<Rightarrow> 'a list \<Rightarrow> bool" where
  "has_prefix [] ys = True"
| "has_prefix (x # xs) [] = False"
| "has_prefix (x # xs) (y # ys) = (x = y \<and> has_prefix xs ys)"

lemma has_prefix_iff: "has_prefix xs ys \<longleftrightarrow> (\<exists>zs. ys = xs @ zs)"
  by (induction xs ys rule: has_prefix.induct) auto

lemma has_prefix_append [simp]: "has_prefix xs (xs @ ys)"
  by (auto simp: has_prefix_iff)

lemma has_prefix_self [simp]: "has_prefix xs xs"
  by (auto simp: has_prefix_iff)

fun index_of :: "'a list \<Rightarrow> 'a list \<Rightarrow> nat option" where
  "index_of pat [] = (if pat = [] then Some 0 else None)"
| "index_of pat (y # ys) =
     (if has_prefix pat (y # ys) then Some 0 else map_option Suc (index_of pat ys))"

definition contains :: "'a list \<Rightarrow> 'a list \<Rightarrow> bool" where
  "contains s pat \<longleftrightarrow> index_of pat s \<noteq> None"

lemma index_of_Some:
  "index_of pat s = Some k \<Longrightarrow> k + length pat \<le> length s \<and> has_prefix pat (drop k s)"
proof (induction s arbitrary: k)
  case Nil
  then show ?case by (auto split: if_splits)
next
  case (Cons y ys)
  show ?case
  proof (cases "has_prefix pat (y # ys)")
    case True
    with Cons.prems have "k = 0" by simp
    moreover from True have "length pat \<le> length (y # ys)"
      by (auto simp: has_prefix_iff dest: arg_cong [of _ _ length])
    ultimately show ?thesis using True by simp
  next
    case False
    with Cons.prems obtain j where "index_of pat ys = Some j" "k = Suc j" by auto
    with Cons.IH show ?thesis by auto
  qed
qed

lemma index_of_Some_length: "index_of pat s = Some k \<Longrightarrow> k + length pat \<le> length s"
  using index_of_Some by blast

lemma index_of_None: "index_of pat s = None \<longleftrightarrow> (\<forall>us vs. s \<noteq> us @ pat @ vs)"
proof (induction s)
  case Nil
  then show ?case by auto
next
  case (Cons y ys)
  have "(\<exists>us vs. y # ys = us @ pat @ vs)
      \<longleftrightarrow> has_prefix pat (y # ys) \<or> (\<exists>us vs. ys = us @ pat @ vs)"
    by (auto simp: has_prefix_iff Cons_eq_append_conv)
  with Cons show ?case by auto
qed

lemma contains_iff: "contains s pat \<longleftrightarrow> (\<exists>us vs. s = us @ pat @ vs)"
  unfolding contains_def index_of_None by blast

lemma index_of_min: "index_of pat s = Some k \<Longrightarrow> j < k \<Longrightarrow> \<not> has_prefix pat (drop j s)"
proof (induction s arbitrary: j k)
  case (Cons y ys)
  then show ?case by (cases j) (auto split: if_splits)
qed (auto split: if_splits)

lemma index_of_take:
  assumes "index_of pat s = Some k" and "pat \<noteq> []"
  shows "\<not> contains (take k s) pat"
proof
  assume "contains (take k s) pat"
  then obtain us vs where t: "take k s = us @ pat @ vs" by (auto simp: contains_iff)
  then have "s = us @ pat @ vs @ drop k s" by (metis append.assoc append_take_drop_id)
  then have "drop (length us) s = pat @ vs @ drop k s" by (metis append_eq_conv_conj)
  then have "has_prefix pat (drop (length us) s)" by (auto simp: has_prefix_iff)
  moreover have "length us < k" using arg_cong [OF t, of length] assms(2) by (cases pat) auto
  ultimately show False using index_of_min [OF assms(1)] by blast
qed

text \<open>The first element satisfying a predicate, and a list updated where one is satisfied.\<close>

definition update_where :: "('a \<Rightarrow> bool) \<Rightarrow> ('a \<Rightarrow> 'a) \<Rightarrow> 'a list \<Rightarrow> 'a list" where
  "update_where p f xs = map (\<lambda>x. if p x then f x else x) xs"

lemma length_update_where [simp]: "length (update_where p f xs) = length xs"
  by (simp add: update_where_def)

lemma update_where_Nil [simp]: "update_where p f [] = []"
  by (simp add: update_where_def)

lemma update_where_Cons [simp]:
  "update_where p f (x # xs) = (if p x then f x else x) # update_where p f xs"
  by (simp add: update_where_def)

lemma set_update_where:
  "x \<in> set (update_where p f xs) \<longleftrightarrow> (\<exists>y \<in> set xs. x = (if p y then f y else y))"
  by (auto simp: update_where_def)

lemma map_update_where: "(\<And>x. g (f x) = g x) \<Longrightarrow> map g (update_where p f xs) = map g xs"
  by (simp add: update_where_def)

lemma find_Some_set: "List.find p xs = Some x \<Longrightarrow> x \<in> set xs \<and> p x"
  by (induction xs) (auto split: if_splits)

lemma find_None_all: "List.find p xs = None \<longleftrightarrow> (\<forall>x \<in> set xs. \<not> p x)"
  by (induction xs) auto

lemma find_update_where_other:
  assumes "\<And>x. p x \<Longrightarrow> \<not> q x \<and> \<not> q (f x)"
  shows "List.find q (update_where p f xs) = List.find q xs"
  using assms by (induction xs) auto

lemma find_update_where_same:
  assumes "\<And>x. p (f x) = p x"
  shows "List.find p (update_where p f xs) = map_option f (List.find p xs)"
  using assms by (induction xs) auto

text \<open>\<open>strconv.Itoa\<close> and the verbs \<open>%d\<close>, \<open>%02d\<close> and \<open>%q\<close> of \<open>fmt\<close>; bytes from 0x80 up are taken for printable.\<close>

definition digit :: "nat \<Rightarrow> char" where
  "digit n = char_of (48 + n)"

fun dec :: "nat \<Rightarrow> string" where
  "dec n = (if n < 10 then [digit n] else dec (n div 10) @ [digit (n mod 10)])"

declare dec.simps [simp del]

definition itoa :: "int \<Rightarrow> string" where
  "itoa n = (if n < 0 then ''-'' @ dec (nat (- n)) else dec (nat n))"

definition itoa02 :: "int \<Rightarrow> string" where
  "itoa02 n = (if 0 \<le> n \<and> n < 10 then ''0'' @ itoa n else itoa n)"

definition hex_digit :: "nat \<Rightarrow> char" where
  "hex_digit n = (if n < 10 then char_of (48 + n) else char_of (87 + n))"

definition quote_char :: "char \<Rightarrow> string" where
  "quote_char c = (let n = of_char c :: nat in
     if n = 34 then [CHR 0x5C, CHR 0x22] else if n = 92 then [CHR 0x5C, CHR 0x5C]
     else if n = 7 then [CHR 0x5C, CHR 0x61] else if n = 8 then [CHR 0x5C, CHR 0x62]
     else if n = 12 then [CHR 0x5C, CHR 0x66] else if n = 10 then [CHR 0x5C, CHR 0x6E]
     else if n = 13 then [CHR 0x5C, CHR 0x72] else if n = 9 then [CHR 0x5C, CHR 0x74]
     else if n = 11 then [CHR 0x5C, CHR 0x76]
     else if n < 32 \<or> n = 127 then [CHR 0x5C, CHR 0x78, hex_digit (n div 16), hex_digit (n mod 16)]
     else [c])"

definition quoted :: "string \<Rightarrow> string" where
  "quoted s = [CHR 0x22] @ concat (map quote_char s) @ [CHR 0x22]"

text \<open>A printed number reads back, so two numbers print alike only when they are equal.\<close>

definition undigit :: "char \<Rightarrow> nat" where
  "undigit c = of_char c - 48"

definition undec :: "string \<Rightarrow> nat" where
  "undec s = foldl (\<lambda>n c. 10 * n + undigit c) 0 s"

lemma undigit_digit [simp]: "n < 10 \<Longrightarrow> undigit (digit n) = n"
  by (simp add: undigit_def digit_def of_char_of take_bit_eq_mod)

lemma undec_dec [simp]: "undec (dec n) = n"
proof (induction n rule: dec.induct)
  case (1 n)
  show ?case
  proof (cases "n < 10")
    case True
    then show ?thesis by (simp add: dec.simps [of n] undec_def)
  next
    case False
    with 1 have "undec (dec (n div 10)) = n div 10" by simp
    with False show ?thesis by (simp add: dec.simps [of n] undec_def)
  qed
qed

lemma dec_inj: "dec m = dec n \<longleftrightarrow> m = n"
  by (metis undec_dec)

text \<open>
  \<open>strings.TrimSpace\<close> on UTF-8 bytes: the encodings of the runes \<open>unicode.IsSpace\<close> accepts are
  stripped from both ends. \<open>utf8.RuneCountInString\<close> counts the bytes that start a rune.
\<close>

definition space_runes :: "string list" where
  "space_runes =
     [[CHR 0x09], [CHR 0x0A], [CHR 0x0B], [CHR 0x0C], [CHR 0x0D], [CHR 0x20],
      [CHR 0xC2, CHR 0x85], [CHR 0xC2, CHR 0xA0], [CHR 0xE1, CHR 0x9A, CHR 0x80]]
     @ map (\<lambda>n. [CHR 0xE2, CHR 0x80, char_of (0x80 + n)]) [0 ..< 11]
     @ [[CHR 0xE2, CHR 0x80, CHR 0xA8], [CHR 0xE2, CHR 0x80, CHR 0xA9], [CHR 0xE2, CHR 0x80, CHR 0xAF],
        [CHR 0xE2, CHR 0x81, CHR 0x9F], [CHR 0xE3, CHR 0x80, CHR 0x80]]"

fun strip :: "string list \<Rightarrow> string \<Rightarrow> string" where
  "strip rs [] = []"
| "strip rs (c # s) = (case List.find (\<lambda>r. r \<noteq> [] \<and> has_prefix r (c # s)) rs of
       None \<Rightarrow> c # s
     | Some r \<Rightarrow> strip rs (drop (length r - 1) s))"

definition trim_space :: "string \<Rightarrow> string" where
  "trim_space s = rev (strip (map rev space_runes) (rev (strip space_runes s)))"

text \<open>Nothing is stripped off a text whose ends are not the ends of spaces.\<close>

lemma strip_stops:
  assumes "s \<noteq> [] \<Longrightarrow> \<forall>r \<in> set rs. r = [] \<or> hd r \<noteq> hd s"
  shows "strip rs s = s"
proof (cases s)
  case (Cons c t)
  then have "List.find (\<lambda>r. r \<noteq> [] \<and> has_prefix r (c # t)) rs = None"
    using assms by (auto simp: find_None_iff has_prefix_iff neq_Nil_conv)
  with Cons show ?thesis by simp
qed simp

lemma trim_space_plain:
  assumes "\<And>c. c \<in> set s \<Longrightarrow> 32 < (of_char c :: nat) \<and> (of_char c :: nat) < 127"
  shows "trim_space s = s"
proof -
  have ends: "\<forall>r \<in> set space_runes. r \<noteq> [] \<and> \<not> (32 < (of_char (hd r) :: nat) \<and> (of_char (hd r) :: nat) < 127)"
    "\<forall>r \<in> set (map rev space_runes). r \<noteq> [] \<and> \<not> (32 < (of_char (hd r) :: nat) \<and> (of_char (hd r) :: nat) < 127)"
    by (simp_all add: space_runes_def)
  have "strip space_runes s = s" using ends(1) assms by (intro strip_stops) (metis hd_in_set)
  moreover have "strip (map rev space_runes) (rev s) = rev s"
    using ends(2) assms by (intro strip_stops) (metis hd_in_set set_rev)
  ultimately show ?thesis by (simp add: trim_space_def)
qed

definition rune_count :: "string \<Rightarrow> nat" where
  "rune_count s = length (filter (\<lambda>c. (of_char c :: nat) < 0x80 \<or> 0xC0 \<le> (of_char c :: nat)) s)"

end
