(* ===== verification/Domain.thy ===== *)
theory Domain
  imports Prelude
begin

text \<open>
  The resource model of the control plane (\<open>src/core/domain\<close>): the ranked roles, the lifecycle of
  a deployment, the records of the deploy pipeline and of deploy protection, and the errors the
  services return.

  A Go struct is a record whose fields carry a short prefix for the struct. A pointer field that
  may be nil is an option. A timestamp is the number of nanoseconds since the Unix epoch. A
  \<open>[]byte\<close> or Go string is a list of bytes. A \<open>float64\<close> is its 64 bits; only the quotas
  compute with one, on numbers rounded to 53 bits.
\<close>

type_synonym time = int
type_synonym float64 = "64 word"
type_synonym bytes = string

section \<open>Roles (team.go)\<close>

definition RoleMember :: string where "RoleMember = ''member''"
definition RoleAdmin :: string where "RoleAdmin = ''admin''"
definition RoleOwner :: string where "RoleOwner = ''owner''"

definition RoleRank :: "string \<Rightarrow> int" where
  "RoleRank role =
     (if role = RoleMember then 1
      else if role = RoleAdmin then 2
      else if role = RoleOwner then 3
      else 0)"

definition ValidRole :: "string \<Rightarrow> bool" where
  "ValidRole role \<longleftrightarrow> RoleRank role > 0"

definition CanGrantRole :: "string \<Rightarrow> string \<Rightarrow> bool" where
  "CanGrantRole actorRole subjectRole =
     (let need = (if subjectRole = RoleOwner then RoleOwner else RoleAdmin)
      in RoleRank actorRole \<ge> RoleRank need)"

lemmas role_names = RoleMember_def RoleAdmin_def RoleOwner_def

lemma RoleRank_range: "0 \<le> RoleRank r \<and> RoleRank r \<le> 3"
  by (simp add: RoleRank_def)

lemma RoleRank_consts [simp]:
  "RoleRank RoleMember = 1" "RoleRank RoleAdmin = 2" "RoleRank RoleOwner = 3" "RoleRank [] = 0"
  by (simp_all add: RoleRank_def role_names)

lemma ValidRole_iff: "ValidRole r \<longleftrightarrow> r = RoleMember \<or> r = RoleAdmin \<or> r = RoleOwner"
  by (simp add: ValidRole_def RoleRank_def)

lemma RoleRank_inj: "ValidRole r \<Longrightarrow> RoleRank r = RoleRank s \<Longrightarrow> r = s"
  by (auto simp: ValidRole_def RoleRank_def split: if_splits)

lemma CanGrantRole_iff:
  "CanGrantRole a s \<longleftrightarrow> a = RoleOwner \<or> (a = RoleAdmin \<and> s \<noteq> RoleOwner)"
  by (auto simp: CanGrantRole_def RoleRank_def role_names)

section \<open>Environments, servers and applications (deploy.go, domain.go)\<close>

record environment =
  env_ID :: string
  env_ProjectID :: string
  env_Name :: string
  env_Kind :: string
  env_CreatedAt :: time
  env_UpdatedAt :: time

definition EnvPreview :: string where "EnvPreview = ''preview''"

record appSource =
  src_Kind :: string
  src_GitHubInstallationID :: "int option"
  src_Repo :: string
  src_Branch :: string
  src_DeployKeyID :: "string option"
  src_Image :: string
  src_RegistryID :: "string option"

record appBuild =
  bld_Kind :: string
  bld_DockerfilePath :: string
  bld_Context :: string
  bld_PushRegistryID :: "string option"
  bld_PushRepository :: string

record volumeMount =
  vol_Name :: string
  vol_Path :: string
  vol_BackedUp :: bool

record appRuntime =
  rt_ServerID :: string
  rt_Port :: int
  rt_Replicas :: int
  rt_CPULimit :: "float64 option"
  rt_MemoryLimitMB :: "int option"

record appRoute =
  route_Domain :: string
  route_HTTPS :: bool
  route_PathPrefix :: string

record appHealth =
  hc_Kind :: string
  hc_Path :: string
  hc_IntervalSeconds :: int
  hc_TimeoutSeconds :: int
  hc_Retries :: int

record portMapping =
  pm_HostPort :: int
  pm_ContainerPort :: int
  pm_Protocol :: string

record replicaObservation =
  ro_Index :: int
  ro_ContainerID :: string
  ro_RevisionID :: string
  ro_State :: string
  ro_Detail :: string

record appAccess =
  acc_IPAllowlistEnabled :: bool
  acc_IPAllowlist :: "string list"
  acc_PreviewPasswordEnabled :: bool
  acc_PreviewPasswordHash :: string
  acc_PreviewPasswordSetAt :: "time option"
  acc_MaintenanceMode :: bool
  acc_MaintenanceSince :: "time option"

record application =
  app_ID :: string
  app_EnvironmentID :: string
  app_Name :: string
  app_Source :: appSource
  app_Build :: appBuild
  app_Runtime :: appRuntime
  app_Route :: appRoute
  app_Health :: appHealth
  app_Volumes :: "volumeMount list"
  app_Ports :: "portMapping list"
  app_DesiredRevisionID :: "string option"
  app_Status :: string
  app_StatusDetail :: string
  app_ObservedRevisionID :: string
  app_StatusObservedAt :: "time option"
  app_Access :: appAccess
  app_RestartToken :: string
  app_Replicas :: "replicaObservation list"
  app_EnvAppliedAt :: "time option" \<comment> \<open>column \<open>env_applied_at\<close>\<close>

definition AppRunning :: string where "AppRunning = ''running''"
definition AppDeploying :: string where "AppDeploying = ''deploying''"
definition AppStopped :: string where "AppStopped = ''stopped''"
definition AppError :: string where "AppError = ''error''"
definition AppDegraded :: string where "AppDegraded = ''degraded''"
definition AppUnknown :: string where "AppUnknown = ''unknown''"

lemmas app_states =
  AppRunning_def AppDeploying_def AppStopped_def AppError_def AppDegraded_def AppUnknown_def

record server =
  srv_ID :: string
  srv_Name :: string
  srv_Status :: string
  srv_Role :: string
  srv_EnrolledAt :: "time option"

definition StatusRunning :: string where "StatusRunning = ''running''"
definition RoleAll :: string where "RoleAll = ''all''"
definition RoleBuilder :: string where "RoleBuilder = ''builder''"
definition RoleWorker :: string where "RoleWorker = ''worker''"

definition Builds :: "server \<Rightarrow> bool" where
  "Builds s \<longleftrightarrow> srv_Role s = RoleAll \<or> srv_Role s = RoleBuilder \<or> srv_Role s = []"

definition Runs :: "server \<Rightarrow> bool" where
  "Runs s \<longleftrightarrow> srv_Role s \<noteq> RoleBuilder"

section \<open>Revisions and deployments (deploy.go)\<close>

text \<open>
  \<open>configSnapshot\<close> of \<open>scheduler.go\<close>: the configuration a revision freezes. The stored bytes are
  represented by what \<open>json.Unmarshal\<close> makes of them: \<open>None\<close> for bytes that do not parse.
\<close>

record configSnapshot =
  cs_Port :: int
  cs_Network :: string
  cs_Pull :: bool
  cs_Route :: appRoute
  cs_Health :: appHealth

record revision =
  rev_ID :: string
  rev_ApplicationID :: string
  rev_Image :: string
  rev_SourceCommit :: string
  rev_ConfigSnapshot :: "configSnapshot option"
  rev_PromotedFromRevisionID :: string

datatype deploymentStatus =
    DeployQueued
  | DeployBuilding
  | DeployDistributing
  | DeployRollingOut
  | DeploySucceeded
  | DeployFailed
  | DeployAwaitingApproval

fun status_text :: "deploymentStatus \<Rightarrow> string" where
  "status_text DeployQueued = ''queued''"
| "status_text DeployBuilding = ''building''"
| "status_text DeployDistributing = ''distributing''"
| "status_text DeployRollingOut = ''rolling_out''"
| "status_text DeploySucceeded = ''succeeded''"
| "status_text DeployFailed = ''failed''"
| "status_text DeployAwaitingApproval = ''awaiting_approval''"

definition Terminal :: "deploymentStatus \<Rightarrow> bool" where
  "Terminal s \<longleftrightarrow> s = DeploySucceeded \<or> s = DeployFailed"

definition Parked :: "deploymentStatus \<Rightarrow> bool" where
  "Parked s \<longleftrightarrow> s = DeployAwaitingApproval"

lemma status_text_inj: "status_text s = status_text t \<longleftrightarrow> s = t"
  by (cases s; cases t) simp_all

lemma Terminal_simps [simp]:
  "Terminal DeploySucceeded" "Terminal DeployFailed"
  "\<not> Terminal DeployQueued" "\<not> Terminal DeployBuilding" "\<not> Terminal DeployDistributing"
  "\<not> Terminal DeployRollingOut" "\<not> Terminal DeployAwaitingApproval"
  by (simp_all add: Terminal_def)

lemma Parked_simps [simp]:
  "Parked DeployAwaitingApproval"
  "\<not> Parked DeployQueued" "\<not> Parked DeployBuilding" "\<not> Parked DeployDistributing"
  "\<not> Parked DeployRollingOut" "\<not> Parked DeploySucceeded" "\<not> Parked DeployFailed"
  by (simp_all add: Parked_def)

record deployment =
  dep_ID :: string
  dep_ApplicationID :: string
  dep_RevisionID :: string
  dep_Status :: deploymentStatus
  dep_Trigger :: string
  dep_Detail :: string
  dep_BuilderServerID :: "string option"
  dep_CreatedAt :: time
  dep_StartedAt :: "time option" \<comment> \<open>column \<open>started_at\<close>\<close>
  dep_FinishedAt :: "time option"
  dep_EnvResolvedAt :: "time option" \<comment> \<open>column \<open>env_resolved_at\<close>\<close>

record deployKey =
  dk_ID :: string
  dk_PrivateKeyCT :: bytes
  dk_PrivateKeyNonce :: bytes

record envVar =
  ev_Key :: string
  ev_ValueCT :: bytes
  ev_ValueNonce :: bytes
  ev_SharedRefs :: "string list"

record sharedVariable =
  sv_ID :: string
  sv_ProjectID :: string
  sv_EnvironmentID :: "string option"
  sv_Key :: string
  sv_ValueCT :: bytes
  sv_ValueNonce :: bytes

record scheduledTask =
  st_ID :: string
  st_ApplicationID :: string
  st_Name :: string
  st_Schedule :: string
  st_Command :: "string list"
  st_Enabled :: bool

record scheduledTaskRun =
  str_ID :: string
  str_TaskID :: string
  str_StartedAt :: time
  str_FinishedAt :: "time option"
  str_ExitCode :: "int option"
  str_Status :: string
  str_OutputTail :: string

section \<open>Managed databases (database.go)\<close>

text \<open>The engine column; services only create rows whose engine is \<open>Valid\<close>.\<close>

datatype dbEngine =
    EnginePostgreSQL
  | EngineMySQL
  | EngineMariaDB
  | EngineMongoDB
  | EngineRedis
  | EngineValkey

fun engine_text :: "dbEngine \<Rightarrow> string" where
  "engine_text EnginePostgreSQL = ''postgresql''"
| "engine_text EngineMySQL = ''mysql''"
| "engine_text EngineMariaDB = ''mariadb''"
| "engine_text EngineMongoDB = ''mongodb''"
| "engine_text EngineRedis = ''redis''"
| "engine_text EngineValkey = ''valkey''"

definition NeedsPassword :: "dbEngine \<Rightarrow> bool" where
  "NeedsPassword e \<longleftrightarrow> e \<noteq> EngineRedis \<and> e \<noteq> EngineValkey"

record engineSpec =
  es_Image :: string
  es_DataPath :: string
  es_HealthCmd :: string
  es_RootUser :: string
  es_PasswordEnv :: string
  es_DatabaseEnv :: string
  es_DefaultDatabase :: string

fun EngineDefaults :: "dbEngine \<Rightarrow> string \<Rightarrow> engineSpec" where
  "EngineDefaults EnginePostgreSQL version =
     \<lparr> es_Image = ''postgres:'' @ version, es_DataPath = ''/var/lib/postgresql/data'',
       es_HealthCmd = ''pg_isready -U postgres'', es_RootUser = ''postgres'',
       es_PasswordEnv = ''POSTGRES_PASSWORD'', es_DatabaseEnv = ''POSTGRES_DB'',
       es_DefaultDatabase = ''postgres'' \<rparr>"
| "EngineDefaults EngineMySQL version =
     \<lparr> es_Image = ''mysql:'' @ version, es_DataPath = ''/var/lib/mysql'',
       es_HealthCmd = ''mysqladmin ping -u root --silent'', es_RootUser = ''root'',
       es_PasswordEnv = ''MYSQL_ROOT_PASSWORD'', es_DatabaseEnv = ''MYSQL_DATABASE'',
       es_DefaultDatabase = [] \<rparr>"
| "EngineDefaults EngineMariaDB version =
     \<lparr> es_Image = ''mariadb:'' @ version, es_DataPath = ''/var/lib/mysql'',
       es_HealthCmd = ''mariadb-admin ping -u root --silent'', es_RootUser = ''root'',
       es_PasswordEnv = ''MARIADB_ROOT_PASSWORD'', es_DatabaseEnv = ''MARIADB_DATABASE'',
       es_DefaultDatabase = [] \<rparr>"
| "EngineDefaults EngineMongoDB version =
     \<lparr> es_Image = ''mongo:'' @ version, es_DataPath = ''/data/db'',
       es_HealthCmd = ''mongosh --eval '' @ [CHR 0x22] @ ''db.adminCommand('' @ [CHR 0x27] @ ''ping'' @ [CHR 0x27]
         @ '')'' @ [CHR 0x22] @ '' --quiet'', es_RootUser = ''root'',
       es_PasswordEnv = ''MONGO_INITDB_ROOT_PASSWORD'', es_DatabaseEnv = ''MONGO_INITDB_DATABASE'',
       es_DefaultDatabase = [] \<rparr>"
| "EngineDefaults EngineRedis version =
     \<lparr> es_Image = ''redis:'' @ version, es_DataPath = ''/data'', es_HealthCmd = ''redis-cli ping'',
       es_RootUser = [], es_PasswordEnv = [], es_DatabaseEnv = [], es_DefaultDatabase = [] \<rparr>"
| "EngineDefaults EngineValkey version =
     \<lparr> es_Image = ''valkey/valkey:'' @ version, es_DataPath = ''/data'', es_HealthCmd = ''valkey-cli ping'',
       es_RootUser = [], es_PasswordEnv = [], es_DatabaseEnv = [], es_DefaultDatabase = [] \<rparr>"

definition DbStopped :: string where "DbStopped = ''stopped''"
definition DbDesiredRunning :: string where "DbDesiredRunning = ''running''"
definition DbDesiredStopped :: string where "DbDesiredStopped = ''stopped''"

record database =
  db_ID :: string
  db_EnvironmentID :: string
  db_Name :: string
  db_Engine :: dbEngine
  db_Version :: string
  db_ServerID :: string
  db_CPULimit :: "float64 option"
  db_MemoryLimitMB :: "int option"
  db_InitialDatabase :: string
  db_VolumeName :: string
  db_DataPath :: string
  db_ExposePort :: "int option"
  db_Network :: string
  db_RootPasswordCT :: bytes
  db_RootPasswordNonce :: bytes
  db_RequirePassword :: bool
  db_DesiredRevisionID :: "string option"
  db_DesiredState :: string
  db_Status :: string
  db_StatusDetail :: string
  db_ObservedRevisionID :: string
  db_StatusObservedAt :: "time option"
  db_PendingDelete :: bool
  db_DeleteVolume :: bool

record databaseRevision =
  dbr_ID :: string
  dbr_DatabaseID :: string

section \<open>Deploy protection (protection.go)\<close>

definition ApprovalPending :: string where "ApprovalPending = ''pending''"
definition ApprovalApproved :: string where "ApprovalApproved = ''approved''"
definition ApprovalRejected :: string where "ApprovalRejected = ''rejected''"

lemmas approval_states = ApprovalPending_def ApprovalApproved_def ApprovalRejected_def

definition BreakGlassTTL :: time where "BreakGlassTTL = 30 * 60 * 1000000000"
definition MaxFreezeWindows :: nat where "MaxFreezeWindows = 8"
definition MaxBreakGlassReason :: nat where "MaxBreakGlassReason = 500"
definition MaxRejectReason :: nat where "MaxRejectReason = 500"
definition MinutesPerDay :: int where "MinutesPerDay = 24 * 60"
definition MinutesPerWeek :: int where "MinutesPerWeek = 7 * MinutesPerDay"

record freezeWindow =
  fw_ID :: string
  fw_EnvironmentID :: string
  fw_StartDOW :: int
  fw_StartMinute :: int
  fw_EndDOW :: int
  fw_EndMinute :: int
  fw_Timezone :: string

definition StartOfWeekMinute :: "freezeWindow \<Rightarrow> int" where
  "StartOfWeekMinute w = fw_StartDOW w * MinutesPerDay + fw_StartMinute w"

definition EndOfWeekMinute :: "freezeWindow \<Rightarrow> int" where
  "EndOfWeekMinute w = fw_EndDOW w * MinutesPerDay + fw_EndMinute w"

definition Wraps :: "freezeWindow \<Rightarrow> bool" where
  "Wraps w \<longleftrightarrow> StartOfWeekMinute w > EndOfWeekMinute w"

record environmentProtection =
  ep_EnvironmentID :: string
  ep_RequireApproval :: bool
  ep_MinApproverRole :: string
  ep_FreezeEnabled :: bool
  ep_Windows :: "freezeWindow list"

definition DefaultProtection :: "string \<Rightarrow> environmentProtection" where
  "DefaultProtection environmentID =
     \<lparr> ep_EnvironmentID = environmentID, ep_RequireApproval = False,
       ep_MinApproverRole = RoleOwner, ep_FreezeEnabled = False, ep_Windows = [] \<rparr>"

record deployApproval =
  da_DeploymentID :: string
  da_EnvironmentID :: string
  da_RequestedBy :: string
  da_RequestedByEmail :: string
  da_RequiredRole :: string
  da_State :: string
  da_DecidedBy :: string
  da_DecidedByEmail :: string
  da_DecidedAt :: "time option"
  da_Reason :: string

definition Pending :: "deployApproval \<Rightarrow> bool" where
  "Pending a \<longleftrightarrow> da_State a = ApprovalPending"

record breakGlassGrant =
  bg_ID :: string
  bg_EnvironmentID :: string
  bg_OpenedBy :: string
  bg_OpenedByEmail :: string
  bg_Reason :: string
  bg_CreatedAt :: time
  bg_ExpiresAt :: time

definition Active :: "breakGlassGrant \<Rightarrow> time \<Rightarrow> bool" where
  "Active g now \<longleftrightarrow> bg_ExpiresAt g > now"

record deployAdmission =
  adm_Frozen :: bool
  adm_FreezeDetail :: string
  adm_NeedsApproval :: bool
  adm_RequiredRole :: string

definition zeroAdmission :: deployAdmission where
  "zeroAdmission =
     \<lparr> adm_Frozen = False, adm_FreezeDetail = [], adm_NeedsApproval = False, adm_RequiredRole = [] \<rparr>"

definition Clear :: "deployAdmission \<Rightarrow> bool" where
  "Clear a \<longleftrightarrow> \<not> adm_Frozen a \<and> \<not> adm_NeedsApproval a"

record teamMember =
  tmb_TeamID :: string
  tmb_UserID :: string
  tmb_Role :: string

record team =
  team_ID :: string
  team_Name :: string

record user =
  usr_ID :: string
  usr_Email :: string
  usr_PasswordHash :: string
  usr_Role :: string
  usr_DisplayName :: string
  usr_Timezone :: string
  usr_TOTPEnabled :: bool

section \<open>Sessions, invitations and access requests (domain.go, access.go)\<close>

text \<open>The token hash is a column of the sessions table; \<open>domain.Session\<close> leaves it out.\<close>

record session =
  ses_ID :: string
  ses_UserID :: string
  ses_TokenHash :: bytes
  ses_ExpiresAt :: time

text \<open>The columns \<open>totp_secret_enc\<close> and \<open>totp_secret_nonce\<close> are kept beside the account; empty is NULL.\<close>

record totpSecret =
  ts_CT :: bytes
  ts_Nonce :: bytes
  ts_Enabled :: bool

record recoveryCode =
  rc_ID :: string
  rc_UserID :: string
  rc_CodeHash :: bytes
  rc_UsedAt :: "time option"

record emailChange =
  ech_ID :: string
  ech_UserID :: string
  ech_NewEmail :: string
  ech_TokenHash :: bytes
  ech_ExpiresAt :: time
  ech_ConsumedAt :: "time option"

section \<open>Abilities of a credential\<close>

type_synonym ability = string

definition AbilityRead :: ability where "AbilityRead = ''read''"
definition AbilityWrite :: ability where "AbilityWrite = ''write''"
definition AbilityDeploy :: ability where "AbilityDeploy = ''deploy''"
definition AbilityEnv :: ability where "AbilityEnv = ''env''"
definition AbilityServers :: ability where "AbilityServers = ''servers''"
definition AbilityAdmin :: ability where "AbilityAdmin = ''admin''"

lemmas abilities = AbilityRead_def AbilityWrite_def AbilityDeploy_def AbilityEnv_def AbilityServers_def AbilityAdmin_def

definition ValidAbility :: "ability \<Rightarrow> bool" where
  "ValidAbility a \<longleftrightarrow> a \<in> {AbilityRead, AbilityWrite, AbilityDeploy, AbilityEnv, AbilityServers, AbilityAdmin}"

definition AllAbilities :: "ability list" where
  "AllAbilities = [AbilityRead, AbilityWrite, AbilityDeploy]"

definition Implies :: "ability \<Rightarrow> ability \<Rightarrow> bool" where
  "Implies held want \<longleftrightarrow>
     (if held = want then True
      else if held \<noteq> AbilityWrite then False
      else want \<in> {AbilityEnv, AbilityServers, AbilityAdmin})"

definition HasAbility :: "ability list \<Rightarrow> ability \<Rightarrow> bool" where
  "HasAbility held want \<longleftrightarrow> list_ex (\<lambda>a. Implies a want) held"

record apiToken =
  tok_ID :: string
  tok_UserID :: string
  tok_Name :: string
  tok_Abilities :: "ability list"
  tok_ProjectID :: string
  tok_TokenHash :: bytes
  tok_LastUsedAt :: "time option"
  tok_ExpiresAt :: "time option"

section \<open>Invitations and access requests\<close>

definition InviteTTL :: time where "InviteTTL = 7 * 24 * 3600 * 1000000000"

definition InviteStatePending :: string where "InviteStatePending = ''pending''"
definition InviteStateAccepted :: string where "InviteStateAccepted = ''accepted''"
definition InviteStateRevoked :: string where "InviteStateRevoked = ''revoked''"
definition InviteStateExpired :: string where "InviteStateExpired = ''expired''"

definition AccessRequestPending :: string where "AccessRequestPending = ''pending''"
definition AccessRequestGranted :: string where "AccessRequestGranted = ''granted''"
definition AccessRequestDenied :: string where "AccessRequestDenied = ''denied''"

definition AccessMessageMax :: nat where "AccessMessageMax = 500"

record teamInvite =
  inv_ID :: string
  inv_TeamID :: string
  inv_Email :: string
  inv_Role :: string
  inv_TokenHash :: bytes
  inv_InvitedBy :: "string option"
  inv_InvitedByLabel :: string
  inv_ExpiresAt :: time
  inv_AcceptedAt :: "time option"
  inv_RevokedAt :: "time option"

definition InviteState :: "teamInvite \<Rightarrow> time \<Rightarrow> string" where
  "InviteState i now =
     (if inv_AcceptedAt i \<noteq> None then InviteStateAccepted
      else if inv_RevokedAt i \<noteq> None then InviteStateRevoked
      else if \<not> now < inv_ExpiresAt i then InviteStateExpired
      else InviteStatePending)"

definition Acceptable :: "teamInvite \<Rightarrow> time \<Rightarrow> bool" where
  "Acceptable i now \<longleftrightarrow> InviteState i now = InviteStatePending"

record accessRequest =
  acr_ID :: string
  acr_TeamID :: string
  acr_UserID :: string
  acr_UserEmail :: string
  acr_CurrentRole :: string
  acr_RequestedRole :: string
  acr_Message :: string
  acr_State :: string
  acr_DecidedBy :: "string option"
  acr_DecidedByLabel :: string
  acr_DecisionReason :: string
  acr_DecidedAt :: "time option"

section \<open>Resource quotas (quota.go)\<close>

definition QuotaScopeProject :: string where "QuotaScopeProject = ''project''"
definition QuotaScopeTeam :: string where "QuotaScopeTeam = ''team''"
definition QuotaMemory :: string where "QuotaMemory = ''memory''"
definition QuotaDisk :: string where "QuotaDisk = ''disk''"
definition QuotaPreviews :: string where "QuotaPreviews = ''previews''"
definition QuotaOK :: string where "QuotaOK = ''ok''"
definition QuotaWarn :: string where "QuotaWarn = ''warn''"
definition QuotaExceeded :: string where "QuotaExceeded = ''exceeded''"

lemmas quota_names =
  QuotaScopeProject_def QuotaScopeTeam_def QuotaMemory_def QuotaDisk_def QuotaPreviews_def QuotaOK_def QuotaWarn_def QuotaExceeded_def

record resourceQuota =
  rq_ID :: string
  rq_ProjectID :: string
  rq_TeamID :: string
  rq_MemoryLimitBytes :: "int option"
  rq_DiskLimitBytes :: "int option"
  rq_PreviewLimit :: "int option"
  rq_UpdatedBy :: string

record quotaUsage =
  qu_Dimension :: string
  qu_Used :: int
  qu_Limit :: "int option"
  qu_State :: string
  qu_Committed :: "int option"
  qu_UncappedProjects :: "int option"

record quotaAdmission =
  qa_Allowed :: bool
  qa_Dimension :: string
  qa_Reason :: string
  qa_Unlimited :: "string list"

record quotaReport =
  qr_ScopeKind :: string
  qr_ScopeID :: string
  qr_Usage :: "quotaUsage list"
  qr_UncountedComposeStacks :: int
  qr_Unlimited :: "string list"

text \<open>Rows the meter reads: a sample of the disk usage of a resource (kind, id, bytes, start of the bucket), a preview environment.\<close>

record diskSample =
  smp_Kind :: string
  smp_ID :: string
  smp_Bytes :: int
  smp_Bucket :: time

record previewRow =
  prw_SourceAppID :: string
  prw_Status :: string

text \<open>
  Floating point where it is visible: \<open>round53 n\<close> is the \<open>float64\<close> next to \<open>n\<close>, ties to even, and a \<open>float64\<close> product of naturals is the
  rounded product. The literal 0.9 is the \<open>float64\<close> 8106479329266893 / 2^53.
\<close>

definition half_even :: "nat \<Rightarrow> nat \<Rightarrow> nat" where
  "half_even a b = (let q = a div b; r = a mod b in if b < 2 * r \<or> b = 2 * r \<and> odd q then q + 1 else q)"

fun excess_bits :: "nat \<Rightarrow> nat" where
  "excess_bits n = (if n < 2 ^ 53 then 0 else Suc (excess_bits (n div 2)))"

declare excess_bits.simps [simp del]

definition round53 :: "nat \<Rightarrow> nat" where
  "round53 n = (let s = 2 ^ excess_bits n in half_even n s * s)"

definition float_tenth9 :: nat where "float_tenth9 = 8106479329266893"

text \<open>A negative reading compares like zero: the limit is positive.\<close>

definition QuotaState :: "int \<Rightarrow> int option \<Rightarrow> string" where
  "QuotaState used limit =
     (case limit of None \<Rightarrow> QuotaOK
      | Some l \<Rightarrow>
          if l \<le> 0 then QuotaOK
          else if used \<ge> l then QuotaExceeded
          else if round53 (nat used) * 2 ^ 53 \<ge> round53 (round53 (nat l) * float_tenth9) then QuotaWarn
          else QuotaOK)"

text \<open>How a list of names reads in a sentence (\<open>joinList\<close> of quota.go).\<close>

fun join_more :: "string list \<Rightarrow> string" where
  "join_more [] = []"
| "join_more [s] = '' and '' @ s"
| "join_more (s # items) = '', '' @ s @ join_more items"

definition joinList :: "string list \<Rightarrow> string" where
  "joinList items = (case items of [] \<Rightarrow> [] | s # rest \<Rightarrow> s @ join_more rest)"

section \<open>Errors\<close>

text \<open>
  The errors the modelled services return. \<open>ValidationError\<close> is the protection service's,
  \<open>AccessInvalid\<close> that of package access, \<open>Invalid\<close> the plain one of teams, auth and quota. \<open>Wrapped\<close> is \<open>fmt.Errorf("<text>: %w", err)\<close>: the text
  grows and \<open>errors.Is\<close> and \<open>errors.As\<close> look through it. \<open>Driver\<close> is whatever the database, the bus
  or another collaborator returned. \<open>OutOfFuel\<close> is not an error of the program: it is how the
  model says that a recursion was cut off, and \<open>Scheduler\<close> proves that it never is.
\<close>

datatype error =
    ErrNotFound
  | ErrConflict
  | Driver string
  | Wrapped string error
  | ErrRevisionNotBuilt
  | FrozenError string
  | QuotaError string string
  | UnlimitedError "string list"
  | ErrNotPromotable string
  | ErrNotParked
  | ErrCannotCancel deploymentStatus
  | ErrNeverDeployed
  | ErrRevisionDataInvalid
  | UnresolvedReferenceError string string string
  | NoBuilder
  | NoRegistryService string
  | ErrMalformedReference
  | ErrTooManyReferences
  | ErrExpansionTooLarge
  | MissingReferenceError string
  | ErrAlreadyDecided
  | ErrSelfApproval
  | ErrPreviewProtection
  | ValidationError string
  | ResyncFailed nat nat
  | ErrInUse
  | TeamsForbidden
  | ErrLastOwner
  | ErrTeamNotEmpty
  | ErrUserNotFound
  | AccessForbidden
  | ErrInvalidInvite
  | ErrAlreadyMember
  | ErrRequestOpen
  | ErrNotMember
  | ErrDecided
  | ErrInvalidCredentials
  | ErrTOTPRequired
  | ErrInvalidSession
  | ErrSessionNotFound
  | ErrSamePassword
  | RateLimitedError time bool
  | ErrTOTPAlreadyEnabled
  | ErrTOTPNotEnrolled
  | ErrInvalidTOTPCode
  | ErrTokenNotFound
  | ErrInvalidAbility
  | ErrInvalidEmailChange
  | ErrEmailInUse
  | ErrSameEmail
  | Invalid string
  | AccessInvalid string
  | OutOfFuel

fun root_cause :: "error \<Rightarrow> error" where
  "root_cause (Wrapped s e) = root_cause e"
| "root_cause e = e"

text \<open>\<open>errors.Is(err, target)\<close> for a sentinel, which is never itself a wrapped error.\<close>

definition errors_is :: "error \<Rightarrow> error \<Rightarrow> bool" where
  "errors_is e target \<longleftrightarrow> root_cause e = target"

lemma root_cause_idem [simp]: "root_cause (root_cause e) = root_cause e"
  by (induction e rule: root_cause.induct) simp_all

lemma errors_is_Wrapped [simp]: "errors_is (Wrapped s e) t = errors_is e t"
  by (simp add: errors_is_def)

text \<open>\<open>err.Error()\<close>, where it ends up in a deployment's detail.\<close>

primrec error_text :: "error \<Rightarrow> string" where
  "error_text ErrNotFound = ''store: not found''"
| "error_text ErrConflict = ''store: already exists''"
| "error_text (Driver s) = s"
| "error_text (Wrapped s e) = s @ '': '' @ error_text e"
| "error_text ErrRevisionNotBuilt = ''scheduler: revision was never built''"
| "error_text (FrozenError s) = s"
| "error_text (QuotaError s t) = t"
| "error_text (UnlimitedError rs) =
     ''these resources have no memory limit, so a memory quota could not be enforced: '' @ joinList rs"
| "error_text (ErrNotPromotable s) = s"
| "error_text ErrNotParked = ''scheduler: deployment is not awaiting approval''"
| "error_text (ErrCannotCancel s) =
     ''scheduler: deployment can no longer be cancelled: '' @ status_text s"
| "error_text ErrNeverDeployed = ''scheduler: application has never deployed''"
| "error_text ErrRevisionDataInvalid = ''scheduler: revision data is invalid''"
| "error_text (UnresolvedReferenceError a b c) =
     ''environment variable '' @ a @ '' references {{shared.'' @ b
     @ ''}}, which is not defined in this project or in environment '' @ quoted c"
| "error_text NoBuilder =
     ''no builder available: target server has role worker and no builder-role server is running''"
| "error_text (NoRegistryService s) =
     ''scheduler: application names registry '' @ s @ '' but no registry service is wired''"
| "error_text ErrMalformedReference =
     ''value contains '' @ [CHR 0x22] @ ''{{'' @ [CHR 0xE2, CHR 0x80, CHR 0xA6] @ ''}}'' @ [CHR 0x22]
     @ '' that is not a well-formed {{shared.KEY}} reference''"
| "error_text ErrTooManyReferences =
     ''a value may contain at most 16 shared-variable references''"
| "error_text ErrExpansionTooLarge =
     ''expanding this value'' @ [CHR 0x27] @ ''s shared-variable references exceeds the 2 MiB limit''"
| "error_text (MissingReferenceError k) = ''{{shared.'' @ k @ ''}} is not defined in this scope''"
| "error_text ErrAlreadyDecided = ''protection: this deploy has already been decided''"
| "error_text ErrSelfApproval =
     ''protection: you cannot approve your own deploy while another approver exists''"
| "error_text ErrPreviewProtection = ''protection: preview environments cannot be protected''"
| "error_text (ValidationError s) = ''protection: '' @ s"
| "error_text (ResyncFailed i n) =
     ''scheduler: '' @ dec i @ '' of '' @ dec n @ '' servers could not be nudged to resync''"
| "error_text ErrInUse = ''store: still referenced''"
| "error_text TeamsForbidden = ''teams: insufficient role''"
| "error_text ErrLastOwner = ''teams: a team must keep at least one owner''"
| "error_text ErrTeamNotEmpty = ''teams: team still owns projects''"
| "error_text ErrUserNotFound = ''teams: user not found''"
| "error_text AccessForbidden = ''access: insufficient role''"
| "error_text ErrInvalidInvite = ''access: that invitation link is not valid''"
| "error_text ErrAlreadyMember = ''access: already a member of this team''"
| "error_text ErrRequestOpen = ''access: a request from you is already open on this team''"
| "error_text ErrNotMember = ''access: the requester is no longer a member of this team''"
| "error_text ErrDecided = ''access: that request has already been decided''"
| "error_text ErrInvalidCredentials = ''auth: invalid credentials''"
| "error_text ErrTOTPRequired = ''auth: two-factor code required''"
| "error_text ErrInvalidSession = ''auth: invalid or expired session''"
| "error_text ErrSessionNotFound = ''auth: session not found''"
| "error_text ErrSamePassword = ''auth: new password matches the current one''"
| "error_text (RateLimitedError d f) = ''auth: too many attempts, try again later''"
| "error_text ErrTOTPAlreadyEnabled = ''auth: two-factor already enabled''"
| "error_text ErrTOTPNotEnrolled = ''auth: two-factor not enrolled''"
| "error_text ErrInvalidTOTPCode = ''auth: invalid two-factor code''"
| "error_text ErrTokenNotFound = ''auth: token not found''"
| "error_text ErrInvalidAbility =
     ''auth: abilities must be a non-empty subset of read, write, deploy, env, servers, admin''"
| "error_text ErrInvalidEmailChange = ''auth: that confirmation link is not valid''"
| "error_text ErrEmailInUse = ''auth: that address is already in use''"
| "error_text ErrSameEmail = ''auth: that is already your address''"
| "error_text (Invalid s) = s"
| "error_text (AccessInvalid s) = ''access: '' @ s"
| "error_text OutOfFuel = []"

type_synonym ('w, 'a) go = "('w, error, 'a) comp"

end
