(* ===== verification/Limiter.thy ===== *)
theory Limiter
  imports Domain
begin

text \<open>
  The sliding-window throttle of failed sign-ins (\<open>src/core/auth/ratelimit.go\<close>). A limiter is the
  record of its fields; each method takes the instant its clock reads and returns the limiter it
  leaves behind. The Go maps are partial functions, and a key that \<open>delete\<close> removed is undefined.
  A nil \<open>*Limiter\<close>, which never throttles, is \<open>None\<close>.

  The specification keeps the whole history of failures of a key since its last reset and counts
  those inside the window. As long as the clock never goes back the limiter answers as the history
  does, although it forgets what has left the window.
\<close>

section \<open>The limiter\<close>

record limiter =
  lim_max :: int
  lim_window :: time
  lim_attempts :: "string \<rightharpoonup> time list"
  lim_refused :: "string \<rightharpoonup> bool"

definition NewLimiter :: "int \<Rightarrow> time \<Rightarrow> limiter" where
  "NewLimiter m window =
     \<lparr> lim_max = m, lim_window = window, lim_attempts = Map.empty, lim_refused = Map.empty \<rparr>"

definition prune :: "time \<Rightarrow> string \<Rightarrow> limiter \<Rightarrow> time list \<times> limiter" where
  "prune now key l =
     (let cutoff = now - lim_window l;
          kept = filter (\<lambda>t. t > cutoff) (case lim_attempts l key of None \<Rightarrow> [] | Some ts \<Rightarrow> ts);
          l1 = (if int (length kept) < lim_max l then l\<lparr>lim_refused := (lim_refused l)(key := None)\<rparr> else l)
      in if kept = [] then ([], l1\<lparr>lim_attempts := (lim_attempts l1)(key := None)\<rparr>)
         else (kept, l1\<lparr>lim_attempts := (lim_attempts l1)(key \<mapsto> kept)\<rparr>))"

definition Allow :: "time \<Rightarrow> string \<Rightarrow> limiter \<Rightarrow> bool \<times> limiter" where
  "Allow now key l = (case prune now key l of (kept, l') \<Rightarrow> (int (length kept) < lim_max l, l'))"

text \<open>
  \<open>kept[0]\<close> exists whenever the limit is positive; \<open>None\<close> is the panic of a throttled key without
  attempts.
\<close>

definition RetryAfter :: "time \<Rightarrow> string \<Rightarrow> limiter \<Rightarrow> time option \<times> limiter" where
  "RetryAfter now key l =
     (case prune now key l of (kept, l') \<Rightarrow>
        (if int (length kept) < lim_max l then Some 0
         else (case kept of [] \<Rightarrow> None | t # _ \<Rightarrow> Some (t + lim_window l - now)), l'))"

definition Fail :: "time \<Rightarrow> string \<Rightarrow> limiter \<Rightarrow> limiter" where
  "Fail now key l =
     (case prune now key l of (kept, l') \<Rightarrow> l'\<lparr>lim_attempts := (lim_attempts l')(key \<mapsto> kept @ [now])\<rparr>)"

definition Reset :: "string \<Rightarrow> limiter \<Rightarrow> limiter" where
  "Reset key l = l\<lparr>lim_attempts := (lim_attempts l)(key := None), lim_refused := (lim_refused l)(key := None)\<rparr>"

definition Refuse :: "time \<Rightarrow> string \<Rightarrow> limiter \<Rightarrow> bool \<times> limiter" where
  "Refuse now key l =
     (case prune now key l of (kept, l') \<Rightarrow>
        if int (length kept) < lim_max l then (False, l')
        else if lim_refused l' key = Some True then (False, l')
        else (True, l'\<lparr>lim_refused := (lim_refused l')(key \<mapsto> True)\<rparr>))"

text \<open>Go's integer division truncates towards zero.\<close>

definition second :: time where "second = 1000000000"

definition tdiv :: "int \<Rightarrow> int \<Rightarrow> int" where
  "tdiv a b = sgn a * sgn b * (\<bar>a\<bar> div \<bar>b\<bar>)"

definition RetryAfterSeconds :: "time \<Rightarrow> int" where
  "RetryAfterSeconds wait = (let secs = tdiv (wait + second - 1) second in if secs < 1 then 1 else secs)"

section \<open>Several limiters at once\<close>

text \<open>
  \<open>throttle\<close> asks every limiter about its key. The result is the longest wait among the blocked
  ones and whether one of them refuses for the first time, or \<open>None\<close> when all allow.
\<close>

fun throttle_loop ::
  "time \<Rightarrow> (limiter option \<times> string) list \<Rightarrow> time \<Rightarrow> bool \<Rightarrow> bool \<Rightarrow> (time \<times> bool \<times> bool) \<times> limiter option list" where
  "throttle_loop now [] wait blocked first = ((wait, blocked, first), [])"
| "throttle_loop now ((None, key) # ls) wait blocked first =
     (case throttle_loop now ls wait blocked first of (r, ls') \<Rightarrow> (r, None # ls'))"
| "throttle_loop now ((Some l, key) # ls) wait blocked first =
     (case Allow now key l of (ok, l1) \<Rightarrow>
        if ok then (case throttle_loop now ls wait blocked first of (r, ls') \<Rightarrow> (r, Some l1 # ls'))
        else
          (case Refuse now key l1 of (opens, l2) \<Rightarrow>
           case RetryAfter now key l2 of (d, l3) \<Rightarrow>
             (case throttle_loop now ls
                (case d of Some d \<Rightarrow> if d > wait then d else wait | None \<Rightarrow> wait) True (first \<or> opens) of
              (r, ls') \<Rightarrow> (r, Some l3 # ls'))))"

definition throttle ::
  "time \<Rightarrow> (limiter option \<times> string) list \<Rightarrow> (time \<times> bool) option \<times> limiter option list" where
  "throttle now ls =
     (case throttle_loop now ls 0 False False of ((wait, blocked, first), ls') \<Rightarrow>
        (if \<not> blocked then None else Some (wait, first), ls'))"


lemma throttle_loop_blocked:
  "fst (snd (fst (throttle_loop now ls wait blocked first)))
   \<longleftrightarrow> blocked \<or> (\<exists>l k. (Some l, k) \<in> set ls \<and> \<not> fst (Allow now k l))"
proof (induction ls arbitrary: wait blocked first)
  case (Cons x ls)
  obtain m key where x: "x = (m, key)" by fastforce
  show ?case
  proof (cases m)
    case None
    with x Cons.IH show ?thesis by (simp add: case_prod_unfold)
  next
    case (Some l)
    have "fst (snd (fst (throttle_loop now (x # ls) wait blocked first)))
        \<longleftrightarrow> (blocked \<or> \<not> fst (Allow now key l)) \<or> (\<exists>l k. (Some l, k) \<in> set ls \<and> \<not> fst (Allow now k l))"
      unfolding x Some using Cons.IH by (simp add: case_prod_unfold)
    with x Some show ?thesis by auto
  qed
qed simp

lemma throttle_allows:
  assumes "throttle now ls = (None, ls')"
  shows "(Some l, k) \<in> set ls \<Longrightarrow> fst (Allow now k l)"
  using assms throttle_loop_blocked [of now ls 0 False False] by (auto simp: throttle_def split: prod.splits if_splits)

section \<open>The history of failures\<close>

definition in_window :: "time \<Rightarrow> time \<Rightarrow> time list \<Rightarrow> time list" where
  "in_window window now ts = filter (\<lambda>t. t > now - window) ts"

definition remembered :: "limiter \<Rightarrow> string \<Rightarrow> time list" where
  "remembered l key = (case lim_attempts l key of None \<Rightarrow> [] | Some ts \<Rightarrow> ts)"

lemma in_window_later: "now \<le> now' \<Longrightarrow> in_window w now' (in_window w now ts) = in_window w now' ts"
  by (auto simp: in_window_def intro: filter_cong)

lemma in_window_append [simp]: "in_window w now (xs @ ys) = in_window w now xs @ in_window w now ys"
  by (simp add: in_window_def)

lemma prune_kept: "fst (prune now key l) = in_window (lim_window l) now (remembered l key)"
  by (simp add: prune_def in_window_def remembered_def Let_def)

lemma prune_limits [simp]:
  "lim_max (snd (prune now key l)) = lim_max l" "lim_window (snd (prune now key l)) = lim_window l"
  by (simp_all add: prune_def Let_def)

lemma prune_remembered:
  "remembered (snd (prune now key l)) k = (if k = key then fst (prune now key l) else remembered l k)"
  by (auto simp: prune_def remembered_def Let_def)

lemma prune_pair: "prune now key l = (in_window (lim_window l) now (remembered l key), snd (prune now key l))"
  by (metis prune_kept prod.collapse)

lemmas limiter_ops = Allow_def Fail_def Refuse_def RetryAfter_def Reset_def

lemma Allow_answer: "fst (Allow now key l) \<longleftrightarrow> int (length (in_window (lim_window l) now (remembered l key))) < lim_max l"
  unfolding Allow_def by (subst prune_pair) simp

lemma limits_kept [simp]:
  "lim_max (snd (Allow now key l)) = lim_max l" "lim_window (snd (Allow now key l)) = lim_window l"
  "lim_max (Fail now key l) = lim_max l" "lim_window (Fail now key l) = lim_window l"
  "lim_max (Reset key l) = lim_max l" "lim_window (Reset key l) = lim_window l"
  "lim_max (snd (Refuse now key l)) = lim_max l" "lim_window (snd (Refuse now key l)) = lim_window l"
  "lim_max (snd (RetryAfter now key l)) = lim_max l" "lim_window (snd (RetryAfter now key l)) = lim_window l"
  by (simp_all add: limiter_ops case_prod_unfold)

text \<open>What each method does to what is remembered of a key.\<close>

lemma remembered_after:
  "remembered (snd (Allow now key l)) k = (if k = key then in_window (lim_window l) now (remembered l key) else remembered l k)"
  "remembered (snd (Refuse now key l)) k = (if k = key then in_window (lim_window l) now (remembered l key) else remembered l k)"
  "remembered (snd (RetryAfter now key l)) k = (if k = key then in_window (lim_window l) now (remembered l key) else remembered l k)"
  "remembered (Fail now key l) k = (if k = key then in_window (lim_window l) now (remembered l key) @ [now] else remembered l k)"
  "remembered (Reset key l) k = (if k = key then [] else remembered l k)"
proof -
  have upd: "remembered (l'\<lparr>lim_refused := g\<rparr>) k = remembered l' k" for l' g k by (simp add: remembered_def)
  show "remembered (snd (Allow now key l)) k = (if k = key then in_window (lim_window l) now (remembered l key) else remembered l k)"
    unfolding Allow_def by (subst prune_pair) (simp add: prune_remembered prune_kept)
  show "remembered (snd (Refuse now key l)) k = (if k = key then in_window (lim_window l) now (remembered l key) else remembered l k)"
    unfolding Refuse_def by (subst prune_pair) (simp add: prune_remembered prune_kept upd)
  show "remembered (snd (RetryAfter now key l)) k = (if k = key then in_window (lim_window l) now (remembered l key) else remembered l k)"
    unfolding RetryAfter_def by (subst prune_pair) (simp add: prune_remembered prune_kept)
  show "remembered (Fail now key l) k = (if k = key then in_window (lim_window l) now (remembered l key) @ [now] else remembered l k)"
    unfolding Fail_def by (subst prune_pair) (use prune_remembered [of now key l k] in \<open>auto simp: remembered_def\<close>)
  show "remembered (Reset key l) k = (if k = key then [] else remembered l k)"
    by (simp add: Reset_def remembered_def)
qed

datatype limiter_call =
    AllowCall string
  | FailCall string
  | ResetCall string
  | RefuseCall string
  | RetryAfterCall string

fun limiter_step :: "time \<times> limiter_call \<Rightarrow> limiter \<Rightarrow> limiter" where
  "limiter_step (t, AllowCall k) l = snd (Allow t k l)"
| "limiter_step (t, FailCall k) l = Fail t k l"
| "limiter_step (t, ResetCall k) l = Reset k l"
| "limiter_step (t, RefuseCall k) l = snd (Refuse t k l)"
| "limiter_step (t, RetryAfterCall k) l = snd (RetryAfter t k l)"

text \<open>All failures of a key since its last reset.\<close>

fun failure_step :: "string \<Rightarrow> time \<times> limiter_call \<Rightarrow> time list \<Rightarrow> time list" where
  "failure_step k (t, FailCall j) h = (if j = k then h @ [t] else h)"
| "failure_step k (t, ResetCall j) h = (if j = k then [] else h)"
| "failure_step k (t, _) h = h"

definition failures :: "string \<Rightarrow> (time \<times> limiter_call) list \<Rightarrow> time list" where
  "failures k calls = fold (failure_step k) calls []"

definition limiter_after :: "int \<Rightarrow> time \<Rightarrow> (time \<times> limiter_call) list \<Rightarrow> limiter" where
  "limiter_after m window calls = fold limiter_step calls (NewLimiter m window)"

definition tracks :: "time \<Rightarrow> limiter \<Rightarrow> string \<Rightarrow> time list \<Rightarrow> bool" where
  "tracks now l k h \<longleftrightarrow> in_window (lim_window l) now (remembered l k) = in_window (lim_window l) now h"

lemma tracks_later: "tracks now l k h \<Longrightarrow> now \<le> now' \<Longrightarrow> tracks now' l k h"
  unfolding tracks_def by (metis in_window_later)

lemma in_window_idem [simp]: "in_window w now (in_window w now ts) = in_window w now ts"
  by (rule in_window_later) simp

lemma tracks_step:
  assumes "tracks t l k h"
  shows "tracks t (limiter_step (t, c) l) k (failure_step k (t, c) h)"
  using assms by (cases c) (auto simp: tracks_def remembered_after)

lemma limits_step [simp]:
  "lim_max (limiter_step c l) = lim_max l" "lim_window (limiter_step c l) = lim_window l"
  by (cases "(c, l)" rule: limiter_step.cases; simp)+

lemma tracks_run:
  assumes "tracks t0 l k h" "sorted (t0 # map fst calls)" "\<And>t c. (t, c) \<in> set calls \<Longrightarrow> t \<le> now" "t0 \<le> now"
  shows "tracks now (fold limiter_step calls l) k (fold (failure_step k) calls h)
    \<and> lim_max (fold limiter_step calls l) = lim_max l \<and> lim_window (fold limiter_step calls l) = lim_window l"
  using assms
proof (induction calls arbitrary: t0 l h)
  case Nil
  then show ?case by (auto intro: tracks_later)
next
  case (Cons c calls)
  obtain t a where c: "c = (t, a)" by fastforce
  have "tracks t l k h" using tracks_later [OF Cons.prems(1)] Cons.prems(2) c by simp
  then have "tracks t (limiter_step c l) k (failure_step k c h)" using tracks_step c by simp
  moreover have "sorted (t # map fst calls)" "t \<le> now" "\<And>t c. (t, c) \<in> set calls \<Longrightarrow> t \<le> now"
    using Cons.prems(2,3) c by auto
  ultimately show ?case using Cons.IH by auto
qed

lemma limiter_tracks:
  assumes "sorted (map fst calls @ [now])"
  shows "tracks now (limiter_after m w calls) k (failures k calls)"
    and "lim_max (limiter_after m w calls) = m" and "lim_window (limiter_after m w calls) = w"
proof -
  have start: "tracks t0 (NewLimiter m w) k []" for t0 by (simp add: tracks_def remembered_def NewLimiter_def)
  define t0 where "t0 = (case calls of [] \<Rightarrow> now | c # _ \<Rightarrow> fst c)"
  have ord: "sorted (t0 # map fst calls)" "t0 \<le> now" "\<And>t c. (t, c) \<in> set calls \<Longrightarrow> t \<le> now"
    using assms by (force simp: t0_def sorted_append split: list.splits)+
  from tracks_run [OF start ord(1) ord(3) ord(2)]
  show "tracks now (limiter_after m w calls) k (failures k calls)"
    "lim_max (limiter_after m w calls) = m" "lim_window (limiter_after m w calls) = w"
    by (auto simp: limiter_after_def failures_def NewLimiter_def)
qed

text \<open>
  C17. The throttle refines its specification. Whatever calls were made before, in whatever
  order, as long as the clock did not go back, a key is allowed exactly when fewer than the limit
  of its failures since its last reset lie inside the window; what the limiter forgot never counts.
\<close>

theorem Allow_counts_window:
  assumes "sorted (map fst calls @ [now])"
  shows "fst (Allow now key (limiter_after m window calls))
    \<longleftrightarrow> int (length (filter (\<lambda>t. t > now - window) (failures key calls))) < m"
  using limiter_tracks [OF assms, of m window] by (simp add: Allow_answer tracks_def in_window_def)

theorem Allow_counts_window_witness:
  "\<not> fst (Allow 40 ''a'' (limiter_after 2 100 [(10, FailCall ''a''), (20, FailCall ''b''), (30, FailCall ''a'')]))
   \<and> fst (Allow 110 ''a'' (limiter_after 2 100 [(10, FailCall ''a''), (20, FailCall ''b''), (30, FailCall ''a'')]))"
  using Allow_counts_window [of "[(10, FailCall ''a''), (20, FailCall ''b''), (30, FailCall ''a'')]" 40 "''a''" 2 100]
    Allow_counts_window [of "[(10, FailCall ''a''), (20, FailCall ''b''), (30, FailCall ''a'')]" 110 "''a''" 2 100]
  by (simp add: failures_def)

section \<open>Guessing under the throttle\<close>

text \<open>A client that only ever fails: the instants at which an attempt was let through.\<close>

fun guesses :: "string \<Rightarrow> time list \<Rightarrow> limiter \<Rightarrow> time list" where
  "guesses key [] l = []"
| "guesses key (t # ts) l =
     (case Allow t key l of (ok, l1) \<Rightarrow>
        if ok then t # guesses key ts (Fail t key l1)
        else guesses key ts (snd (Refuse t key l1)))"

definition in_span :: "time \<Rightarrow> time \<Rightarrow> time list \<Rightarrow> time list" where
  "in_span window T ts = filter (\<lambda>t. T - window < t \<and> t \<le> T) ts"

lemma in_span_snoc:
  assumes "\<And>T. int (length (in_span w T h)) \<le> m" "int (length (in_window w t h)) < m" "\<forall>x \<in> set h. x \<le> t"
  shows "int (length (in_span w T (h @ [t]))) \<le> m"
proof (cases "t \<le> T \<and> T - w < t")
  case False
  then show ?thesis using assms(1) [of T] by (auto simp: in_span_def)
next
  case True
  have "length (in_span w T h) \<le> length (in_window w t h)"
    unfolding in_span_def in_window_def length_filter_conv_card
    by (rule card_mono) (use True in auto)
  with assms(2) True show ?thesis by (simp add: in_span_def)
qed

lemma guesses_bounded:
  assumes "sorted (h @ ts)" "\<And>T. int (length (in_span (lim_window l) T h)) \<le> lim_max l"
    and "\<And>t. t \<in> set ts \<Longrightarrow> tracks t l key h"
  shows "int (length (in_span (lim_window l) T (h @ guesses key ts l))) \<le> lim_max l"
  using assms
proof (induction ts arbitrary: h l)
  case (Cons t ts)
  let ?w = "lim_window l"
  obtain ok l1 where al: "Allow t key l = (ok, l1)" by fastforce
  have l1: "l1 = snd (Allow t key l)" "lim_window l1 = ?w" "lim_max l1 = lim_max l"
    using al limits_kept(1,2) [of t key l] by simp_all
  have tr: "tracks t l key h" using Cons.prems(3) by simp
  have later: "t \<le> x" if "x \<in> set ts" for x using Cons.prems(1) that by (auto simp: sorted_append)
  have before: "\<forall>x \<in> set h. x \<le> t" using Cons.prems(1) by (auto simp: sorted_append)
  show ?case
  proof (cases ok)
    case True
    have few: "int (length (in_window ?w t h)) < lim_max l"
      using Allow_answer [of t key l] al True tr by (simp add: tracks_def)
    have tr2: "tracks x (Fail t key l1) key (h @ [t])" if "x \<in> set ts" for x
    proof (rule tracks_later [OF _ later [OF that]])
      show "tracks t (Fail t key l1) key (h @ [t])"
        using tr unfolding tracks_def by (simp add: remembered_after l1)
    qed
    have "int (length (in_span (lim_window (Fail t key l1)) T ((h @ [t]) @ guesses key ts (Fail t key l1)))) \<le> lim_max (Fail t key l1)"
    proof (rule Cons.IH)
      show "sorted ((h @ [t]) @ ts)" using Cons.prems(1) by simp
      show "\<And>T. int (length (in_span (lim_window (Fail t key l1)) T (h @ [t]))) \<le> lim_max (Fail t key l1)"
        using in_span_snoc [OF Cons.prems(2) few before] by (simp add: l1(2,3))
    qed (rule tr2)
    then show ?thesis using al True by (simp add: l1(2,3))
  next
    case False
    let ?l2 = "snd (Refuse t key l1)"
    have tr2: "tracks x ?l2 key h" if "x \<in> set ts" for x
      by (rule tracks_later [OF _ later [OF that]])
        (use tr in \<open>simp add: tracks_def remembered_after l1\<close>)
    have "int (length (in_span (lim_window ?l2) T (h @ guesses key ts ?l2))) \<le> lim_max ?l2"
    proof (rule Cons.IH)
      show "sorted (h @ ts)" using Cons.prems(1) by (auto simp: sorted_append)
      show "\<And>T. int (length (in_span (lim_window ?l2) T h)) \<le> lim_max ?l2"
        using Cons.prems(2) by (simp add: l1(2,3))
    qed (rule tr2)
    then show ?thesis using al False by (simp add: l1(2,3))
  qed
qed simp

text \<open>
  C18. Guessing is bounded. However fast and however long a client keeps failing, in any span as
  long as the window at most the limit of its attempts are let through.
\<close>

theorem guesses_per_window:
  assumes "sorted ts" "0 \<le> m"
  shows "int (length (filter (\<lambda>t. T - window < t \<and> t \<le> T) (guesses key ts (NewLimiter m window)))) \<le> m"
proof -
  have "int (length (in_span (lim_window (NewLimiter m window)) T ([] @ guesses key ts (NewLimiter m window))))
      \<le> lim_max (NewLimiter m window)"
    by (rule guesses_bounded) (use assms in \<open>auto simp: in_span_def NewLimiter_def tracks_def remembered_def\<close>)
  then show ?thesis by (simp add: in_span_def NewLimiter_def)
qed

theorem guesses_per_window_witness:
  "guesses ''a'' [1, 2, 3, 4, 50, 51, 52] (NewLimiter 2 20) = [1, 2, 50, 51]
   \<and> int (length (filter (\<lambda>t. 60 - 20 < t \<and> t \<le> 60) (guesses ''a'' [1, 2, 3, 4, 50, 51, 52] (NewLimiter 2 20)))) \<le> 2"
proof
  show "guesses ''a'' [1, 2, 3, 4, 50, 51, 52] (NewLimiter 2 20) = [1, 2, 50, 51]" by code_simp
  show "int (length (filter (\<lambda>t. 60 - 20 < t \<and> t \<le> 60) (guesses ''a'' [1, 2, 3, 4, 50, 51, 52] (NewLimiter 2 20)))) \<le> 2"
    by (rule guesses_per_window) simp_all
qed

section \<open>How long to wait\<close>

lemma failures_sorted:
  "sorted (map fst calls) \<Longrightarrow> sorted (failures k calls) \<and> set (failures k calls) \<subseteq> fst ` set calls"
proof (induction calls rule: rev_induct)
  case (snoc c calls)
  obtain t a where c: "c = (t, a)" by fastforce
  have "sorted (failures k calls)" "set (failures k calls) \<subseteq> fst ` set calls" "\<forall>x \<in> fst ` set calls. x \<le> t"
    using snoc c by (auto simp: sorted_append)
  then show ?case using c by (cases a) (auto simp: failures_def sorted_append)
qed (simp add: failures_def)

lemma drop_oldest:
  assumes "sorted (x # xs)"
  shows "length (in_window w t (x # xs)) < length (x # xs) \<longleftrightarrow> x \<le> t - w"
proof
  assume "x \<le> t - w"
  then show "length (in_window w t (x # xs)) < length (x # xs)" by (simp add: in_window_def le_imp_less_Suc)
next
  assume short: "length (in_window w t (x # xs)) < length (x # xs)"
  show "x \<le> t - w"
  proof (rule ccontr)
    assume "\<not> x \<le> t - w"
    then have "in_window w t (x # xs) = x # xs" using assms by (auto simp: in_window_def filter_id_conv)
    with short show False by simp
  qed
qed

text \<open>
  The wait a throttled client is told is exact, as long as no more failures than the limit
  were recorded inside the window: the key is refused until that much time has passed and allowed
  from then on.
\<close>

theorem RetryAfter_exact:
  assumes "sorted (map fst calls @ [now])" "0 < m"
    and "int (length (filter (\<lambda>t. t > now - window) (failures key calls))) = m"
  shows "\<exists>d > 0. fst (RetryAfter now key (limiter_after m window calls)) = Some d
    \<and> (\<forall>t. now \<le> t \<longrightarrow> (fst (Allow t key (snd (RetryAfter now key (limiter_after m window calls)))) \<longleftrightarrow> now + d \<le> t))"
proof -
  let ?l = "limiter_after m window calls"
  note track = limiter_tracks [OF assms(1), of m window]
  have kept: "in_window window now (remembered ?l key) = in_window window now (failures key calls)"
    using track(1) track(3) by (simp add: tracks_def)
  obtain x xs where x: "in_window window now (failures key calls) = x # xs"
    using assms(2,3) by (cases "in_window window now (failures key calls)") (auto simp: in_window_def)
  have len: "int (length (x # xs)) = m" using assms(3) x by (simp add: in_window_def)
  have "sorted (failures key calls)" using failures_sorted assms(1) by (auto simp: sorted_append)
  then have sorted: "sorted (x # xs)" using x sorted_wrt_filter unfolding in_window_def by metis
  have new: "x > now - window" 
  proof -
    have "x \<in> set (in_window window now (failures key calls))" using x by simp
    then show ?thesis by (simp add: in_window_def)
  qed
  have ra: "fst (RetryAfter now key ?l) = Some (x + window - now)"
    unfolding RetryAfter_def by (subst prune_pair) (use kept x len track in simp)
  have al: "fst (Allow t key (snd (RetryAfter now key ?l))) \<longleftrightarrow> now + (x + window - now) \<le> t" if "now \<le> t" for t
    using drop_oldest [OF sorted, of window t] len
    by (simp add: Allow_answer remembered_after kept x track) linarith
  from ra al new show ?thesis by (intro exI [of _ "x + window - now"]) auto
qed

theorem RetryAfter_exact_witness:
  "fst (Allow 101 ''a'' (snd (RetryAfter 60 ''a'' (limiter_after 2 100 [(1, FailCall ''a''), (50, FailCall ''a'')]))))"
proof -
  obtain d where d: "fst (RetryAfter 60 ''a'' (limiter_after 2 100 [(1, FailCall ''a''), (50, FailCall ''a'')])) = Some d"
    "\<forall>t. 60 \<le> t \<longrightarrow> (fst (Allow t ''a'' (snd (RetryAfter 60 ''a'' (limiter_after 2 100 [(1, FailCall ''a''), (50, FailCall ''a'')]))))
       \<longleftrightarrow> 60 + d \<le> t)"
    using RetryAfter_exact [of "[(1, FailCall ''a''), (50, FailCall ''a'')]" 60 2 100 "''a''"]
    by (auto simp: failures_def)
  have "fst (RetryAfter 60 ''a'' (limiter_after 2 100 [(1, FailCall ''a''), (50, FailCall ''a'')])) = Some 41" by code_simp
  with d show ?thesis by auto
qed

text \<open>
  With more failures than the limit inside the window, which sign-ins running at the
  same time record, the wait is too short: three failures against a limit of two, and the client
  that waited as told is refused again.
\<close>

theorem RetryAfter_too_short:
  "(let l = limiter_after 2 100 [(1, FailCall ''a''), (2, FailCall ''a''), (50, FailCall ''a'')];
        (d, l') = RetryAfter 60 ''a'' l
    in d = Some 41 \<and> \<not> fst (Allow (60 + 41) ''a'' l'))"
  by code_simp

end
