(* ===== verification/Store.thy ===== *)
theory Store
  imports Limiter "HOL-Library.List_Lexorder" "HOL-Library.Product_Lexorder" "HOL-Library.Char_ord"
begin

text \<open>
  The state the control plane works on, and the operations of \<open>src/core/store\<close> and \<open>src/core/bus\<close>
  the deploy pipeline and deploy protection call.

  A table is the list of its rows in insertion order, so \<open>ORDER BY created_at\<close> is the list itself
  and \<open>ORDER BY created_at DESC\<close> its reverse. Each operation is its SQL statement (in
  \<open>src/core/store/queries\<close>): primary keys and the foreign keys of inserts are enforced, a statement
  that returns no row is \<open>ErrNotFound\<close>, and the \<open>wrap\<close>/\<open>wrapCreate\<close> mapping of errors is kept.

  Every call to the database or the bus may fail. Which ones do is decided by \<open>w_faults\<close>, an
  arbitrary function from the number of the call to the driver's error text; a call that fails
  changes nothing else. All theorems hold for every such function, so for every pattern of
  infrastructure failures.
\<close>

section \<open>Work items\<close>

text \<open>The messages of \<open>src/proto/cypherpanel/agent/v1/work.proto\<close> the scheduler publishes.\<close>

type_synonym uint32 = "32 word"

record registryAuthMsg =
  ra_ServerAddress :: string
  ra_Username :: string
  ra_Token :: string

record registryPush =
  rp_Image :: string
  rp_Auth :: registryAuthMsg

record buildWorkMsg =
  bw_DeploymentId :: string
  bw_AppId :: string
  bw_RepoUrl :: string
  bw_CommitSha :: string
  bw_DockerfilePath :: string
  bw_BuildContext :: string
  bw_Image :: string
  bw_DeployKeyPem :: string
  bw_BuildKind :: string
  bw_RuntimePort :: uint32
  bw_SourceAuth :: "registryAuthMsg option"
  bw_Push :: "registryPush option"
  bw_GitCredential :: "(string \<times> string) option"

record accessSpecMsg =
  as_AllowCidrs :: "string list"
  as_BasicAuthUsers :: "string list"
  as_Maintenance :: bool

record routeSpec =
  rs_Domain :: string
  rs_Https :: bool
  rs_PathPrefix :: string
  rs_Access :: "accessSpecMsg option"

record healthCheck =
  hs_Kind :: string
  hs_Path :: string
  hs_IntervalSeconds :: uint32
  hs_TimeoutSeconds :: uint32
  hs_Retries :: uint32

record wireTask =
  wt_Id :: string
  wt_Schedule :: string
  wt_Command :: "string list"

record appSpec =
  spec_AppId :: string
  spec_EnvironmentId :: string
  spec_RevisionId :: string
  spec_Image :: string
  spec_Port :: uint32
  spec_Env :: "(string \<times> string) list"
  spec_Network :: string
  spec_Health :: healthCheck
  spec_Route :: routeSpec
  spec_ScheduledTasks :: "wireTask list"
  spec_Pull :: bool
  spec_RegistryAuth :: "registryAuthMsg option"
  spec_RestartToken :: string
  spec_CpuLimit :: float64
  spec_MemoryLimitMb :: uint32
  spec_Volumes :: "(string \<times> string) list"
  spec_Ports :: "(uint32 \<times> uint32 \<times> string) list"
  spec_ReplicaIndexes :: "uint32 list"

record dbSpecMsg =
  ds_DbId :: string
  ds_EnvironmentId :: string
  ds_RevisionId :: string
  ds_Engine :: string
  ds_Image :: string
  ds_VolumeName :: string
  ds_DataPath :: string
  ds_Network :: string
  ds_Env :: "(string \<times> string) list"
  ds_HealthCmd :: string
  ds_ExposePort :: uint32
  ds_CpuLimit :: float64
  ds_MemoryLimitMb :: uint32

datatype work =
    BuildWork buildWorkMsg
  | RolloutWork string appSpec
  | RemoveWork string string
  | PushImageWork string string string
  | DistributeWork string string string string
  | ConvergeWork appSpec
  | ResyncWork string
  | DbProvisionWork string dbSpecMsg
  | DbRemoveWork string string bool

text \<open>What the sinks (notifiers, outbound webhooks, the inbox) are handed.\<close>

record deployNotice =
  dn_ProjectID :: string
  dn_ApplicationID :: string
  dn_ApplicationName :: string
  dn_Commit :: string
  dn_DeploymentID :: string
  dn_RequiredRole :: string
  dn_RequestedBy :: string
  dn_RequesterEmail :: string
  dn_ActorEmail :: string
  dn_Reason :: string

record inviteNotice =
  in_TeamID :: string
  in_TeamName :: string
  in_InviteID :: string
  in_InviterID :: string
  in_Email :: string
  in_Role :: string

record accessNotice =
  an_TeamID :: string
  an_TeamName :: string
  an_RequestID :: string
  an_RequesterID :: string
  an_RequesterEmail :: string
  an_CurrentRole :: string
  an_RequestedRole :: string
  an_Message :: string
  an_ActorEmail :: string
  an_Reason :: string

text \<open>An inbox item as far as its scope goes: whose it is, and of which project or team.\<close>

record inboxItem =
  ib_ID :: string
  ib_UserID :: string
  ib_ProjectID :: "string option"
  ib_TeamID :: "string option"

datatype event =
    NotifyDeploy application deployment
  | NotifyAppHealth application string string
  | DeployAwaitingApprovalItem deployNotice
  | DeployApprovedItem deployNotice
  | DeployRejectedItem deployNotice
  | InviteAcceptedItem inviteNotice
  | AccessRequestedItem accessNotice
  | AccessGrantedItem accessNotice
  | AccessDeniedItem accessNotice
  | Mail "string list" string string
  | QuotaItem string string string string
  | Audit string string string

section \<open>The state\<close>

record world =
  w_apps :: "application list"
  w_revs :: "revision list"
  w_deps :: "deployment list"
  w_envs :: "environment list"
  w_servers :: "server list"
  w_envvars :: "(string \<times> envVar) list"
  w_shared :: "sharedVariable list"
  w_keys :: "deployKey list"
  w_tasks :: "scheduledTask list"
  w_runs :: "scheduledTaskRun list"
  w_prot :: "environmentProtection list"
  w_approvals :: "deployApproval list"
  w_grants :: "breakGlassGrant list"
  w_members :: "teamMember list"
  w_projects :: "(string \<times> string) list"
  w_users :: "user list"
  w_dbs :: "database list"
  w_dbrevs :: "databaseRevision list"
  w_teams :: "team list"
  w_invites :: "teamInvite list"
  w_requests :: "accessRequest list"
  w_sessions :: "session list"
  w_inbox :: "inboxItem list"
  w_totp :: "(string \<times> bytes \<times> bytes) list"
  w_recovery :: "recoveryCode list"
  w_tokens :: "apiToken list"
  w_changes :: "emailChange list"
  w_quotas :: "resourceQuota list"
  w_quotaStates :: "((string \<times> string \<times> string) \<times> string) list"
  w_disk :: "diskSample list"
  w_previews :: "previewRow list"
  w_stacks :: "(string \<times> string) list" \<comment> \<open>compose stacks: id and environment\<close>
  w_byAddress :: "limiter option"
  w_byAccount :: "limiter option"
  w_byInvite :: "limiter option"
  w_bus :: "(string \<times> string \<times> work) list"
  w_consumers :: "string list"
  w_events :: "event list"
  w_now :: time
  w_dbnow :: time
  w_io :: nat
  w_faults :: "nat \<Rightarrow> string option"

type_synonym 'a op = "(world, 'a) go"

text \<open>One round trip to the database or the bus.\<close>

definition io :: "unit op" where
  "io = (\<lambda>w. (case w_faults w (w_io w) of None \<Rightarrow> Inr () | Some msg \<Rightarrow> Inl (Driver msg),
              w\<lparr>w_io := Suc (w_io w)\<rparr>))"

text \<open>A statement, with the operation's name wrapped around whatever error it returns.\<close>

definition query :: "string \<Rightarrow> 'a op \<Rightarrow> 'a op" where
  "query name m = mapE (Wrapped (''store: '' @ name)) (bnd io (\<lambda>_. m))"

definition one_row :: "('x \<Rightarrow> bool) \<Rightarrow> (world \<Rightarrow> 'x list) \<Rightarrow> 'x op" where
  "one_row p tab = (\<lambda>w. case List.find p (tab w) of None \<Rightarrow> (Inl ErrNotFound, w) | Some x \<Rightarrow> (Inr x, w))"

definition many_rows :: "(world \<Rightarrow> 'x list) \<Rightarrow> 'x list op" where
  "many_rows f = gets f"

text \<open>What a call costs when it changes nothing, and a computation that only reads.\<close>

definition bump :: "world \<Rightarrow> world" where
  "bump w = w\<lparr>w_io := Suc (w_io w)\<rparr>"

definition at_rest :: "world \<Rightarrow> world" where
  "at_rest w = w\<lparr>w_io := 0\<rparr>"

definition reads :: "'a op \<Rightarrow> bool" where
  "reads m \<longleftrightarrow> (\<forall>v. keeps (\<lambda>w. at_rest w = v) m)"

named_theorems rd \<open>operations that only read\<close>

lemma readsI: "(\<And>w. at_rest (snd (m w)) = at_rest w) \<Longrightarrow> reads m"
  by (simp add: reads_def keeps_def)

lemma readsD: "reads m \<Longrightarrow> at_rest (snd (m w)) = at_rest w"
  by (simp add: reads_def keeps_def)

lemma reads_run: "reads m \<Longrightarrow> m w = (r, w') \<Longrightarrow> at_rest w' = at_rest w"
  by (metis readsD snd_conv)

lemma reads_keeps:
  assumes "reads m" and "\<And>w. J (at_rest w) = J w"
  shows "keeps J m"
  by (rule keepsI) (metis assms readsD)

lemma at_rest_bump [simp]: "at_rest (bump w) = at_rest w"
  by (simp add: at_rest_def bump_def)

lemma seen_through: "(\<And>w. f (at_rest w) = f w) \<Longrightarrow> at_rest w' = at_rest w \<Longrightarrow> f w' = f w"
  by metis

lemma at_rest_eqD:
  assumes "at_rest w' = at_rest w"
  shows "w_apps w' = w_apps w" "w_revs w' = w_revs w" "w_deps w' = w_deps w" "w_envs w' = w_envs w"
    "w_servers w' = w_servers w" "w_envvars w' = w_envvars w" "w_shared w' = w_shared w" "w_keys w' = w_keys w"
    "w_tasks w' = w_tasks w" "w_runs w' = w_runs w" "w_prot w' = w_prot w" "w_approvals w' = w_approvals w"
    "w_grants w' = w_grants w" "w_members w' = w_members w" "w_projects w' = w_projects w" "w_users w' = w_users w"
    "w_bus w' = w_bus w" "w_consumers w' = w_consumers w" "w_events w' = w_events w" "w_now w' = w_now w"
    "w_dbnow w' = w_dbnow w" "w_faults w' = w_faults w" "w_dbs w' = w_dbs w" "w_dbrevs w' = w_dbrevs w"
    "w_teams w' = w_teams w" "w_invites w' = w_invites w" "w_requests w' = w_requests w" "w_sessions w' = w_sessions w"
    "w_inbox w' = w_inbox w" "w_byAddress w' = w_byAddress w" "w_byAccount w' = w_byAccount w"
    "w_byInvite w' = w_byInvite w" "w_totp w' = w_totp w" "w_recovery w' = w_recovery w" "w_tokens w' = w_tokens w"
    "w_changes w' = w_changes w" "w_quotas w' = w_quotas w" "w_quotaStates w' = w_quotaStates w"
    "w_disk w' = w_disk w" "w_previews w' = w_previews w" "w_stacks w' = w_stacks w"
  by (rule seen_through [OF _ assms], simp add: at_rest_def)+

lemma io_run: "io w = (case w_faults w (w_io w) of None \<Rightarrow> Inr () | Some msg \<Rightarrow> Inl (Driver msg), bump w)"
  by (simp add: io_def bump_def)

lemma io_Inr_iff: "io w = (Inr u, w') \<longleftrightarrow> w_faults w (w_io w) = None \<and> w' = bump w"
  by (auto simp: io_run split: option.splits)

lemma query_Inr_iff:
  "query n m w = (Inr x, w') \<longleftrightarrow> w_faults w (w_io w) = None \<and> m (bump w) = (Inr x, w')"
  by (auto simp: query_def inverts io_Inr_iff)

lemma query_cases:
  obtains msg where "query n m w = (Inl (Wrapped (''store: '' @ n) (Driver msg)), bump w)"
  | e w' where "m (bump w) = (Inl e, w')" "query n m w = (Inl (Wrapped (''store: '' @ n) e), w')"
  | x w' where "m (bump w) = (Inr x, w')" "query n m w = (Inr x, w')"
  by (cases "w_faults w (w_io w)"; cases "m (bump w)"; cases "fst (m (bump w))")
    (auto simp: query_def runs io_run)

lemma one_row_Inr_iff: "one_row p tab w = (Inr x, w') \<longleftrightarrow> List.find p (tab w) = Some x \<and> w' = w"
  by (auto simp: one_row_def split: option.splits)

lemma one_row_Inl_iff:
  "one_row p tab w = (Inl e, w') \<longleftrightarrow> List.find p (tab w) = None \<and> e = ErrNotFound \<and> w' = w"
  by (auto simp: one_row_def split: option.splits)

lemma reads_io [rd]: "reads io"
  by (simp add: readsI io_run)

lemma reads_ret [rd]: "reads (ret x)"
  by (simp add: readsI)

lemma reads_throw [rd]: "reads (throw e)"
  by (simp add: readsI)

lemma reads_gets [rd]: "reads (gets f)"
  by (simp add: readsI)

lemma reads_bnd [rd]: "reads m \<Longrightarrow> (\<And>x. reads (f x)) \<Longrightarrow> reads (bnd m f)"
  by (simp add: reads_def keeps_bnd)

lemma reads_attempt [rd]: "reads m \<Longrightarrow> reads (attempt m)"
  by (simp add: reads_def keeps_attempt)

lemma reads_mapE [rd]: "reads m \<Longrightarrow> reads (mapE h m)"
  by (simp add: reads_def keeps_mapE)

lemma reads_if [rd]: "(b \<Longrightarrow> reads m) \<Longrightarrow> (\<not> b \<Longrightarrow> reads n) \<Longrightarrow> reads (if b then m else n)"
  by simp

lemma reads_case_option [rd]:
  "(x = None \<Longrightarrow> reads m) \<Longrightarrow> (\<And>y. x = Some y \<Longrightarrow> reads (f y)) \<Longrightarrow> reads (case x of None \<Rightarrow> m | Some y \<Rightarrow> f y)"
  by (cases x) auto

lemma reads_case_sum [rd]:
  "(\<And>e. x = Inl e \<Longrightarrow> reads (f e)) \<Longrightarrow> (\<And>y. x = Inr y \<Longrightarrow> reads (g y)) \<Longrightarrow> reads (case x of Inl e \<Rightarrow> f e | Inr y \<Rightarrow> g y)"
  by (cases x) auto

lemma reads_case_prod [rd]: "(\<And>a b. x = (a, b) \<Longrightarrow> reads (f a b)) \<Longrightarrow> reads (case x of (a, b) \<Rightarrow> f a b)"
  by (cases x) auto

lemma reads_case_list [rd]:
  "(x = [] \<Longrightarrow> reads m) \<Longrightarrow> (\<And>y ys. x = y # ys \<Longrightarrow> reads (f y ys)) \<Longrightarrow> reads (case x of [] \<Rightarrow> m | y # ys \<Rightarrow> f y ys)"
  by (cases x) auto

lemma reads_collectE [rd]: "(\<And>x. x \<in> set xs \<Longrightarrow> reads (f x)) \<Longrightarrow> reads (collectE xs f)"
  by (simp add: reads_def keeps_collectE)

lemma reads_query [rd]: "reads m \<Longrightarrow> reads (query n m)"
  unfolding query_def by (intro rd)

lemma reads_one_row [rd]: "reads (one_row p tab)"
  by (rule readsI) (simp add: one_row_def split: option.split)

lemma reads_many_rows [rd]: "reads (many_rows f)"
  unfolding many_rows_def by (intro rd)

section \<open>Applications, environments, servers\<close>

definition GetApplication :: "string \<Rightarrow> application op" where
  "GetApplication i = query ''getting application'' (one_row (\<lambda>a. app_ID a = i) w_apps)"

definition ListApplicationsByServer :: "string \<Rightarrow> application list op" where
  "ListApplicationsByServer sid = query ''listing applications by server''
     (many_rows (\<lambda>w. rev (filter (\<lambda>a. rt_ServerID (app_Runtime a) = sid) (w_apps w))))"

definition upd_app :: "string \<Rightarrow> (application \<Rightarrow> application) \<Rightarrow> world \<Rightarrow> world" where
  "upd_app i f w = w\<lparr>w_apps := update_where (\<lambda>a. app_ID a = i) f (w_apps w)\<rparr>"

definition SetApplicationDesiredRevision :: "string \<Rightarrow> string \<Rightarrow> application op" where
  "SetApplicationDesiredRevision i rid = query ''setting desired revision''
     (bnd (modify (upd_app i (app_DesiredRevisionID_update (\<lambda>_. Some rid))))
          (\<lambda>_. one_row (\<lambda>a. app_ID a = i) w_apps))"

definition SetApplicationStatus :: "string \<Rightarrow> string \<Rightarrow> string \<Rightarrow> unit op" where
  "SetApplicationStatus i st detail = query ''setting status''
     (modify (upd_app i (\<lambda>a. a\<lparr>app_Status := st, app_StatusDetail := detail\<rparr>)))"

definition SetApplicationObservedStatus ::
  "string \<Rightarrow> string \<Rightarrow> string \<Rightarrow> string \<Rightarrow> time \<Rightarrow> unit op" where
  "SetApplicationObservedStatus i st detail rid at = query ''setting observed status''
     (modify (upd_app i (\<lambda>a. a\<lparr>app_Status := st, app_StatusDetail := detail,
        app_ObservedRevisionID := rid, app_StatusObservedAt := Some at\<rparr>)))"

definition SetApplicationReplicaStatus :: "string \<Rightarrow> replicaObservation list \<Rightarrow> unit op" where
  "SetApplicationReplicaStatus i reps = query ''recording replica status''
     (modify (upd_app i (app_Replicas_update (\<lambda>_. reps))))"

definition BumpApplicationRestartToken :: "string \<Rightarrow> string \<Rightarrow> application op" where
  "BumpApplicationRestartToken i tok = query ''restarting application''
     (bnd (modify (upd_app i (app_RestartToken_update (\<lambda>_. tok))))
          (\<lambda>_. one_row (\<lambda>a. app_ID a = i) w_apps))"

definition GetEnvironment :: "string \<Rightarrow> environment op" where
  "GetEnvironment i = query ''getting environment'' (one_row (\<lambda>e. env_ID e = i) w_envs)"

definition ListServers :: "server list op" where
  "ListServers = query ''listing servers'' (many_rows (\<lambda>w. rev (w_servers w)))"

definition GetServer :: "string \<Rightarrow> server op" where
  "GetServer i = query ''getting server'' (one_row (\<lambda>s. srv_ID s = i) w_servers)"

definition ListEnvVars :: "string \<Rightarrow> envVar list op" where
  "ListEnvVars i = query ''listing env vars''
     (many_rows (\<lambda>w. sort_key ev_Key (map snd (filter (\<lambda>p. fst p = i) (w_envvars w)))))"

definition GetDeployKey :: "string \<Rightarrow> deployKey op" where
  "GetDeployKey i = query ''getting deploy key'' (one_row (\<lambda>k. dk_ID k = i) w_keys)"

definition GetUserByID :: "string \<Rightarrow> user op" where
  "GetUserByID i = query ''getting user by id'' (one_row (\<lambda>u. usr_ID u = i) w_users)"

text \<open>
  \<open>SELECT DISTINCT ON (key) ... ORDER BY key, (environment_id IS NOT NULL) DESC\<close>: per key the
  environment-scoped row if there is one, else the project-scoped row.
\<close>

fun distinct_on :: "('x \<Rightarrow> 'k) \<Rightarrow> 'x list \<Rightarrow> 'x list" where
  "distinct_on k [] = []"
| "distinct_on k (x # xs) = x # filter (\<lambda>y. k y \<noteq> k x) (distinct_on k xs)"

definition ListSharedVariablesInScope :: "string \<Rightarrow> string \<Rightarrow> sharedVariable list op" where
  "ListSharedVariablesInScope pid eid = query ''listing shared variables in scope''
     (many_rows (\<lambda>w. distinct_on sv_Key (sort_key (\<lambda>v. (sv_Key v, sv_EnvironmentID v = None))
        (filter (\<lambda>v. sv_ProjectID v = pid
           \<and> (sv_EnvironmentID v = None \<or> sv_EnvironmentID v = Some eid)) (w_shared w)))))"

section \<open>Revisions\<close>

definition GetRevision :: "string \<Rightarrow> revision op" where
  "GetRevision i = query ''getting revision'' (one_row (\<lambda>r. rev_ID r = i) w_revs)"

definition CreateRevision :: "string \<Rightarrow> string \<Rightarrow> string \<Rightarrow> configSnapshot option \<Rightarrow> revision op" where
  "CreateRevision i appID commit snap = query ''creating revision''
     (\<lambda>w. if \<exists>r \<in> set (w_revs w). rev_ID r = i then (Inl ErrConflict, w)
          else if \<forall>a \<in> set (w_apps w). app_ID a \<noteq> appID then (Inl ErrNotFound, w)
          else let r = \<lparr> rev_ID = i, rev_ApplicationID = appID, rev_Image = [],
                         rev_SourceCommit = commit, rev_ConfigSnapshot = snap,
                         rev_PromotedFromRevisionID = [] \<rparr>
               in (Inr r, w\<lparr>w_revs := w_revs w @ [r]\<rparr>))"

definition CreatePromotedRevision :: "string \<Rightarrow> string \<Rightarrow> string \<Rightarrow> configSnapshot option \<Rightarrow> string \<Rightarrow> string \<Rightarrow> revision op" where
  "CreatePromotedRevision i appID sourceCommit snap img fromRevisionID = query ''creating the promoted revision''
     (\<lambda>w. if \<exists>r \<in> set (w_revs w). rev_ID r = i then (Inl ErrConflict, w)
          else if \<forall>a \<in> set (w_apps w). app_ID a \<noteq> appID then (Inl ErrNotFound, w)
          else if fromRevisionID \<noteq> [] \<and> (\<forall>r \<in> set (w_revs w). rev_ID r \<noteq> fromRevisionID) then (Inl ErrNotFound, w)
          else let r = \<lparr> rev_ID = i, rev_ApplicationID = appID, rev_Image = img,
                         rev_SourceCommit = sourceCommit, rev_ConfigSnapshot = snap,
                         rev_PromotedFromRevisionID = fromRevisionID \<rparr>
               in (Inr r, w\<lparr>w_revs := w_revs w @ [r]\<rparr>))"

definition upd_rev :: "string \<Rightarrow> (revision \<Rightarrow> revision) \<Rightarrow> world \<Rightarrow> world" where
  "upd_rev i f w = w\<lparr>w_revs := update_where (\<lambda>r. rev_ID r = i) f (w_revs w)\<rparr>"

definition SetRevisionImage :: "string \<Rightarrow> string \<Rightarrow> revision op" where
  "SetRevisionImage i img = query ''setting revision image''
     (bnd (modify (upd_rev i (rev_Image_update (\<lambda>_. img))))
          (\<lambda>_. one_row (\<lambda>r. rev_ID r = i) w_revs))"

definition SetRevisionSourceCommit :: "string \<Rightarrow> string \<Rightarrow> revision op" where
  "SetRevisionSourceCommit i sha = query ''setting revision commit''
     (bnd (modify (upd_rev i (rev_SourceCommit_update (\<lambda>_. sha))))
          (\<lambda>_. one_row (\<lambda>r. rev_ID r = i) w_revs))"

definition ListRevisionsByApplication :: "string \<Rightarrow> revision list op" where
  "ListRevisionsByApplication appID = query ''listing revisions''
     (many_rows (\<lambda>w. rev (filter (\<lambda>r. rev_ApplicationID r = appID) (w_revs w))))"

section \<open>Deployments\<close>

definition GetDeployment :: "string \<Rightarrow> deployment op" where
  "GetDeployment i = query ''getting deployment'' (one_row (\<lambda>d. dep_ID d = i) w_deps)"

definition CreateDeployment :: "string \<Rightarrow> string \<Rightarrow> string \<Rightarrow> string \<Rightarrow> deployment op" where
  "CreateDeployment i appID revID trigger = query ''creating deployment''
     (\<lambda>w. if \<exists>d \<in> set (w_deps w). dep_ID d = i then (Inl ErrConflict, w)
          else if \<forall>a \<in> set (w_apps w). app_ID a \<noteq> appID then (Inl ErrNotFound, w)
          else if \<forall>r \<in> set (w_revs w). rev_ID r \<noteq> revID then (Inl ErrNotFound, w)
          else let d = \<lparr> dep_ID = i, dep_ApplicationID = appID, dep_RevisionID = revID,
                         dep_Status = DeployQueued, dep_Trigger = trigger, dep_Detail = [],
                         dep_BuilderServerID = None, dep_CreatedAt = w_dbnow w,
                         dep_StartedAt = None, dep_FinishedAt = None, dep_EnvResolvedAt = None \<rparr>
               in (Inr d, w\<lparr>w_deps := w_deps w @ [d]\<rparr>))"

definition upd_dep :: "string \<Rightarrow> (deployment \<Rightarrow> deployment) \<Rightarrow> world \<Rightarrow> world" where
  "upd_dep i f w = w\<lparr>w_deps := update_where (\<lambda>d. dep_ID d = i) f (w_deps w)\<rparr>"

definition set_status :: "time \<Rightarrow> deploymentStatus \<Rightarrow> string \<Rightarrow> deployment \<Rightarrow> deployment" where
  "set_status now st detail d = d\<lparr>
     dep_Status := st, dep_Detail := detail,
     dep_StartedAt := (if dep_StartedAt d = None \<and> st \<noteq> DeployQueued \<and> st \<noteq> DeployAwaitingApproval
                       then Some now else dep_StartedAt d),
     dep_FinishedAt := (if Terminal st then Some now else dep_FinishedAt d)\<rparr>"

definition UpdateDeploymentStatus :: "string \<Rightarrow> deploymentStatus \<Rightarrow> string \<Rightarrow> deployment op" where
  "UpdateDeploymentStatus i st detail = query ''updating deployment status''
     (bnd (modify (\<lambda>w. upd_dep i (set_status (w_dbnow w) st detail) w))
          (\<lambda>_. one_row (\<lambda>d. dep_ID d = i) w_deps))"

definition SetDeploymentBuilder :: "string \<Rightarrow> string \<Rightarrow> deployment op" where
  "SetDeploymentBuilder i sid = query ''setting deployment builder''
     (bnd (modify (upd_dep i (dep_BuilderServerID_update (\<lambda>_. Some sid))))
          (\<lambda>_. one_row (\<lambda>d. dep_ID d = i) w_deps))"

definition SetDeploymentEnvResolved :: "string \<Rightarrow> unit op" where
  "SetDeploymentEnvResolved i = query ''stamping resolved environment''
     (modify (\<lambda>w. upd_dep i (dep_EnvResolvedAt_update (\<lambda>_. Some (w_dbnow w))) w))"

definition ApplyDeploymentEnvStamp :: "string \<Rightarrow> unit op" where
  "ApplyDeploymentEnvStamp i = query ''applying resolved environment stamp''
     (modify (\<lambda>w. case List.find (\<lambda>d. dep_ID d = i) (w_deps w) of
        None \<Rightarrow> w
      | Some d \<Rightarrow> (case dep_EnvResolvedAt d of
            None \<Rightarrow> w
          | Some t \<Rightarrow> upd_app (dep_ApplicationID d) (app_EnvAppliedAt_update (\<lambda>_. Some t)) w)))"

text \<open>The two queue queries: neither terminal nor awaiting approval, oldest first.\<close>

definition active :: "deployment \<Rightarrow> bool" where
  "active d \<longleftrightarrow> \<not> Terminal (dep_Status d) \<and> dep_Status d \<noteq> DeployAwaitingApproval"

definition queue_of :: "string \<Rightarrow> deployment list \<Rightarrow> deployment list" where
  "queue_of appID ds = filter (\<lambda>d. dep_ApplicationID d = appID \<and> active d) ds"

definition ListActiveDeployments :: "deployment list op" where
  "ListActiveDeployments = query ''listing active deployments'' (many_rows (\<lambda>w. filter active (w_deps w)))"

definition ListActiveDeploymentsByApplication :: "string \<Rightarrow> deployment list op" where
  "ListActiveDeploymentsByApplication appID = query ''listing active deployments for app''
     (many_rows (\<lambda>w. queue_of appID (w_deps w)))"

section \<open>Scheduled tasks\<close>

definition GetScheduledTask :: "string \<Rightarrow> scheduledTask op" where
  "GetScheduledTask i = query ''getting scheduled task'' (one_row (\<lambda>t. st_ID t = i) w_tasks)"

definition ListEnabledScheduledTasksByApp :: "string \<Rightarrow> scheduledTask list op" where
  "ListEnabledScheduledTasksByApp appID = query ''listing enabled scheduled tasks''
     (many_rows (\<lambda>w. filter (\<lambda>t. st_ApplicationID t = appID \<and> st_Enabled t) (w_tasks w)))"

definition CreateTaskRun :: "scheduledTaskRun \<Rightarrow> scheduledTaskRun op" where
  "CreateTaskRun r = query ''creating task run''
     (\<lambda>w. if \<exists>x \<in> set (w_runs w). str_ID x = str_ID r then (Inl ErrConflict, w)
          else if \<forall>t \<in> set (w_tasks w). st_ID t \<noteq> str_TaskID r then (Inl ErrNotFound, w)
          else (Inr r, w\<lparr>w_runs := w_runs w @ [r]\<rparr>))"

text \<open>
  \<open>DELETE ... WHERE id NOT IN (SELECT id ... ORDER BY started_at DESC LIMIT keep)\<close>. Runs that
  started at the same instant keep their insertion order.
\<close>

definition kept_runs :: "string \<Rightarrow> nat \<Rightarrow> scheduledTaskRun list \<Rightarrow> scheduledTaskRun list" where
  "kept_runs taskID keep rs =
     take keep (sort_key (\<lambda>r. - str_StartedAt r) (filter (\<lambda>r. str_TaskID r = taskID) rs))"

definition DeleteOldTaskRuns :: "string \<Rightarrow> nat \<Rightarrow> unit op" where
  "DeleteOldTaskRuns taskID keep = query ''pruning task runs''
     (modify (\<lambda>w. w\<lparr>w_runs := filter (\<lambda>r. str_TaskID r \<noteq> taskID
        \<or> str_ID r \<in> str_ID ` set (kept_runs taskID keep (w_runs w))) (w_runs w)\<rparr>))"

section \<open>Databases\<close>

definition GetDatabase :: "string \<Rightarrow> database op" where
  "GetDatabase i = query ''getting database'' (one_row (\<lambda>d. db_ID d = i) w_dbs)"

definition GetDatabaseRevision :: "string \<Rightarrow> databaseRevision op" where
  "GetDatabaseRevision i = query ''getting database revision'' (one_row (\<lambda>r. dbr_ID r = i) w_dbrevs)"

definition ListDatabasesByServer :: "string \<Rightarrow> database list op" where
  "ListDatabasesByServer sid = query ''listing databases by server''
     (many_rows (\<lambda>w. rev (filter (\<lambda>d. db_ServerID d = sid \<and> \<not> db_PendingDelete d) (w_dbs w))))"

definition SetDatabaseObservedStatus ::
  "string \<Rightarrow> string \<Rightarrow> string \<Rightarrow> string \<Rightarrow> time \<Rightarrow> unit op" where
  "SetDatabaseObservedStatus i st detail rid at = query ''setting database observed status''
     (modify (\<lambda>w. w\<lparr>w_dbs := update_where (\<lambda>d. db_ID d = i)
        (\<lambda>d. d\<lparr>db_Status := st, db_StatusDetail := detail, db_ObservedRevisionID := rid,
              db_StatusObservedAt := Some at\<rparr>) (w_dbs w)\<rparr>))"

text \<open>The revisions of a database go with it (\<open>ON DELETE CASCADE\<close>).\<close>

definition DeleteDatabase :: "string \<Rightarrow> unit op" where
  "DeleteDatabase i = query ''deleting database''
     (modify (\<lambda>w. w\<lparr>w_dbs := filter (\<lambda>d. db_ID d \<noteq> i) (w_dbs w),
                     w_dbrevs := filter (\<lambda>r. dbr_DatabaseID r \<noteq> i) (w_dbrevs w)\<rparr>))"

section \<open>Deploy protection\<close>

definition ordered_windows :: "freezeWindow list \<Rightarrow> freezeWindow list" where
  "ordered_windows ws = sort_key (\<lambda>x. (fw_StartDOW x, fw_StartMinute x, fw_ID x)) ws"

definition GetEnvironmentProtection :: "string \<Rightarrow> environmentProtection op" where
  "GetEnvironmentProtection i =
     bnd (query ''getting environment protection'' (one_row (\<lambda>p. ep_EnvironmentID p = i) w_prot))
     (\<lambda>row. bnd (query ''listing freeze windows'' (ret (ordered_windows (ep_Windows row))))
     (\<lambda>ws. ret (row\<lparr>ep_Windows := ws\<rparr>)))"

text \<open>
  One transaction: begin, upsert, delete, insert (only when there are windows), list, commit. A
  failure at any point rolls the whole of it back.
\<close>

definition SetEnvironmentProtection :: "environmentProtection \<Rightarrow> environmentProtection op" where
  "SetEnvironmentProtection p =
     bnd (query ''beginning tx'' (ret ())) (\<lambda>_.
     bnd (query ''saving environment protection'' (\<lambda>w.
            if \<forall>e \<in> set (w_envs w). env_ID e \<noteq> ep_EnvironmentID p then (Inl ErrNotFound, w)
            else (Inr (), w))) (\<lambda>_.
     bnd (query ''clearing freeze windows'' (ret ())) (\<lambda>_.
     bnd (if ep_Windows p \<noteq> [] then query ''inserting freeze windows'' (\<lambda>w.
            if distinct (map fw_ID (ep_Windows p)) \<and> (\<forall>q \<in> set (w_prot w). ep_EnvironmentID q \<noteq> ep_EnvironmentID p
                 \<longrightarrow> set (map fw_ID (ep_Windows q)) \<inter> set (map fw_ID (ep_Windows p)) = {})
            then (Inr (), w) else (Inl ErrConflict, w))
          else ret ()) (\<lambda>_.
     bnd (query ''listing freeze windows'' (ret ())) (\<lambda>_.
     bnd (query ''committing environment protection''
            (modify (\<lambda>w. w\<lparr>w_prot := filter (\<lambda>q. ep_EnvironmentID q \<noteq> ep_EnvironmentID p) (w_prot w)
                           @ [p]\<rparr>))) (\<lambda>_.
     ret (p\<lparr>ep_Windows := ordered_windows (ep_Windows p)\<rparr>)))))))"

definition CreateDeployApproval :: "string \<Rightarrow> string \<Rightarrow> string \<Rightarrow> string \<Rightarrow> deployApproval op" where
  "CreateDeployApproval depID envID requestedBy role = query ''creating deploy approval''
     (\<lambda>w. if \<not> ValidRole role then (Inl (Driver ''deploy_approvals_role_valid''), w)
          else if \<exists>a \<in> set (w_approvals w). da_DeploymentID a = depID then (Inl ErrConflict, w)
          else if \<forall>d \<in> set (w_deps w). dep_ID d \<noteq> depID then (Inl ErrNotFound, w)
          else if \<forall>e \<in> set (w_envs w). env_ID e \<noteq> envID then (Inl ErrNotFound, w)
          else if requestedBy \<noteq> [] \<and> (\<forall>u \<in> set (w_users w). usr_ID u \<noteq> requestedBy)
               then (Inl ErrNotFound, w)
          else let a = \<lparr> da_DeploymentID = depID, da_EnvironmentID = envID,
                         da_RequestedBy = requestedBy, da_RequestedByEmail = [],
                         da_RequiredRole = role, da_State = ApprovalPending, da_DecidedBy = [],
                         da_DecidedByEmail = [], da_DecidedAt = None, da_Reason = [] \<rparr>
               in (Inr a, w\<lparr>w_approvals := w_approvals w @ [a]\<rparr>))"

text \<open>\<open>COALESCE(users.email, '')\<close> of the left joins.\<close>

definition email_of :: "world \<Rightarrow> string \<Rightarrow> string" where
  "email_of w i = (case List.find (\<lambda>u. usr_ID u = i) (w_users w) of None \<Rightarrow> [] | Some u \<Rightarrow> usr_Email u)"

definition joined :: "world \<Rightarrow> deployApproval \<Rightarrow> deployApproval" where
  "joined w a = a\<lparr>da_RequestedByEmail := email_of w (da_RequestedBy a),
                  da_DecidedByEmail := email_of w (da_DecidedBy a)\<rparr>"

definition GetDeployApproval :: "string \<Rightarrow> deployApproval op" where
  "GetDeployApproval depID = query ''getting deploy approval''
     (bnd (one_row (\<lambda>a. da_DeploymentID a = depID) w_approvals) (\<lambda>a. gets (\<lambda>w. joined w a)))"

text \<open>
  \<open>UPDATE ... WHERE deployment_id = $1 AND state = 'pending' RETURNING *\<close>. No row back means the
  approval does not exist or was decided already, and a second read tells which.
\<close>

definition decide_row :: "time \<Rightarrow> string \<Rightarrow> string \<Rightarrow> string \<Rightarrow> deployApproval \<Rightarrow> deployApproval" where
  "decide_row now st by reason a =
     a\<lparr>da_State := st, da_DecidedBy := by, da_DecidedAt := Some now, da_Reason := reason\<rparr>"

definition DecideDeployApproval :: "string \<Rightarrow> string \<Rightarrow> string \<Rightarrow> string \<Rightarrow> deployApproval op" where
  "DecideDeployApproval depID st by reason =
     bnd (query ''deciding deploy approval'' (\<lambda>w.
            if by \<noteq> [] \<and> (\<forall>u \<in> set (w_users w). usr_ID u \<noteq> by)
            then (Inl (Driver ''deploy_approvals_decided_by_fkey''), w)
            else if \<exists>a \<in> set (w_approvals w). da_DeploymentID a = depID \<and> Pending a
            then (Inr True, w\<lparr>w_approvals := update_where (\<lambda>a. da_DeploymentID a = depID \<and> Pending a)
                    (decide_row (w_dbnow w) st by reason) (w_approvals w)\<rparr>)
            else (Inr False, w)))
     (\<lambda>updated. if updated then GetDeployApproval depID
        else bnd (query ''deciding deploy approval''
                    (one_row (\<lambda>a. da_DeploymentID a = depID) w_approvals))
             (\<lambda>_. throw (Wrapped ''store: deciding deploy approval'' ErrConflict)))"

definition ListDeployApprovalsByEnvironment :: "string \<Rightarrow> string \<Rightarrow> nat \<Rightarrow> deployApproval list op" where
  "ListDeployApprovalsByEnvironment envID st limit = query ''listing deploy approvals''
     (many_rows (\<lambda>w. map (joined w) (take limit (rev (filter (\<lambda>a. da_EnvironmentID a = envID
        \<and> (st = [] \<or> da_State a = st)) (w_approvals w))))))"

definition ListDeployApprovalsByApplication ::
  "string \<Rightarrow> string list \<Rightarrow> (string \<rightharpoonup> deployApproval) op" where
  "ListDeployApprovalsByApplication appID depIDs =
     (if depIDs = [] then ret Map.empty
      else query ''listing deploy approvals by application''
        (gets (\<lambda>w. map_of (map (\<lambda>a. (da_DeploymentID a, joined w a)) (filter (\<lambda>a.
           da_DeploymentID a \<in> set depIDs \<and> (\<exists>d \<in> set (w_deps w).
             dep_ID d = da_DeploymentID a \<and> dep_ApplicationID d = appID)) (w_approvals w))))))"

definition CountQualifiedApprovers :: "string \<Rightarrow> string \<Rightarrow> string \<Rightarrow> nat op" where
  "CountQualifiedApprovers pid minRole exclude = query ''counting qualified approvers''
     (gets (\<lambda>w. length (filter (\<lambda>m. (\<exists>p \<in> set (w_projects w). fst p = pid \<and> snd p = tmb_TeamID m)
        \<and> tmb_UserID m \<noteq> exclude \<and> RoleRank (tmb_Role m) \<ge> RoleRank minRole) (w_members w))))"

definition CreateBreakGlassGrant :: "breakGlassGrant \<Rightarrow> breakGlassGrant op" where
  "CreateBreakGlassGrant g = query ''creating break-glass grant''
     (\<lambda>w. if \<exists>x \<in> set (w_grants w). bg_ID x = bg_ID g then (Inl ErrConflict, w)
          else if \<forall>e \<in> set (w_envs w). env_ID e \<noteq> bg_EnvironmentID g then (Inl ErrNotFound, w)
          else if bg_OpenedBy g \<noteq> [] \<and> (\<forall>u \<in> set (w_users w). usr_ID u \<noteq> bg_OpenedBy g)
               then (Inl ErrNotFound, w)
          else let g' = g\<lparr>bg_CreatedAt := w_dbnow w, bg_OpenedByEmail := []\<rparr>
               in (Inr g', w\<lparr>w_grants := w_grants w @ [g']\<rparr>))"

definition BreakGlassOpen :: "string \<Rightarrow> time \<Rightarrow> bool op" where
  "BreakGlassOpen envID now = query ''counting break-glass grants''
     (gets (\<lambda>w. \<exists>g \<in> set (w_grants w). bg_EnvironmentID g = envID \<and> Active g now))"

definition ListBreakGlassGrants :: "string \<Rightarrow> nat \<Rightarrow> breakGlassGrant list op" where
  "ListBreakGlassGrants envID limit = query ''listing break-glass grants''
     (many_rows (\<lambda>w. map (\<lambda>g. g\<lparr>bg_OpenedByEmail := email_of w (bg_OpenedBy g)\<rparr>)
        (take limit (rev (filter (\<lambda>g. bg_EnvironmentID g = envID) (w_grants w))))))"

section \<open>The bus and the sinks\<close>

definition PublishWork :: "string \<Rightarrow> string \<Rightarrow> work \<Rightarrow> unit op" where
  "PublishWork subject msgID wk = bnd io (\<lambda>_. modify (\<lambda>w. w\<lparr>w_bus := w_bus w @ [(subject, msgID, wk)]\<rparr>))"

definition EnsureWorkConsumer :: "string \<Rightarrow> unit op" where
  "EnsureWorkConsumer sid =
     bnd io (\<lambda>_. modify (\<lambda>w. w\<lparr>w_consumers := List.insert sid (w_consumers w)\<rparr>))"

definition emit :: "event \<Rightarrow> unit op" where
  "emit e = modify (\<lambda>w. w\<lparr>w_events := w_events w @ [e]\<rparr>)"

definition now_op :: "time op" where
  "now_op = gets w_now"

lemmas store_ops [op_defs] =
  GetApplication_def ListApplicationsByServer_def SetApplicationDesiredRevision_def
  SetApplicationStatus_def SetApplicationObservedStatus_def SetApplicationReplicaStatus_def
  BumpApplicationRestartToken_def GetEnvironment_def ListServers_def GetServer_def ListEnvVars_def
  GetDeployKey_def GetUserByID_def ListSharedVariablesInScope_def GetRevision_def CreateRevision_def CreatePromotedRevision_def
  SetRevisionImage_def SetRevisionSourceCommit_def ListRevisionsByApplication_def GetDeployment_def
  CreateDeployment_def UpdateDeploymentStatus_def SetDeploymentBuilder_def
  SetDeploymentEnvResolved_def ApplyDeploymentEnvStamp_def ListActiveDeployments_def
  ListActiveDeploymentsByApplication_def GetScheduledTask_def ListEnabledScheduledTasksByApp_def
  CreateTaskRun_def DeleteOldTaskRuns_def GetDatabase_def GetDatabaseRevision_def
  ListDatabasesByServer_def SetDatabaseObservedStatus_def DeleteDatabase_def GetEnvironmentProtection_def SetEnvironmentProtection_def
  CreateDeployApproval_def GetDeployApproval_def DecideDeployApproval_def
  ListDeployApprovalsByEnvironment_def ListDeployApprovalsByApplication_def
  CountQualifiedApprovers_def ListBreakGlassGrants_def CreateBreakGlassGrant_def BreakGlassOpen_def PublishWork_def
  EnsureWorkConsumer_def emit_def now_op_def

lemma reads_store [rd]:
  "reads (GetApplication i)" "reads (ListApplicationsByServer i)" "reads (GetEnvironment i)"
  "reads ListServers" "reads (GetServer i)" "reads (ListEnvVars i)" "reads (GetDeployKey i)"
  "reads (GetUserByID i)" "reads (ListSharedVariablesInScope i j)" "reads (GetRevision i)"
  "reads (ListRevisionsByApplication i)" "reads (GetDeployment i)" "reads ListActiveDeployments"
  "reads (ListActiveDeploymentsByApplication i)" "reads (GetScheduledTask i)"
  "reads (ListEnabledScheduledTasksByApp i)" "reads (GetEnvironmentProtection i)"
  "reads (GetDeployApproval i)" "reads (ListDeployApprovalsByEnvironment i st n)"
  "reads (ListDeployApprovalsByApplication i ds)" "reads (CountQualifiedApprovers p r u)"
  "reads (BreakGlassOpen i t)" "reads (ListBreakGlassGrants i n)" "reads now_op"
  "reads (GetDatabase i)" "reads (GetDatabaseRevision i)" "reads (ListDatabasesByServer i)"
  unfolding store_ops by (intro rd)+

end
