(* ===== verification/Freeze.thy ===== *)
theory Freeze
  imports Store "HOL-Library.Signed_Division"
begin

text \<open>
  Freeze windows (\<open>src/core/protection/windows.go\<close>): minute-of-week arithmetic in the window's own
  time zone.

  An instant is a number of nanoseconds since the Unix epoch. The IANA database embedded in the
  binary is a parameter: \<open>tzdb name\<close> is \<open>None\<close> when \<open>time.LoadLocation\<close> fails, and otherwise the
  offset from UTC, in seconds, in force at a given Unix second. \<open>time.Date\<close> is the two-step lookup
  the standard library performs: the offset at the wall clock read as UTC, then the offset at the
  instant that guess gives.

  The theorems: the window test is the half-open weekly interval (\<open>InWindow_arc\<close>), and in a zone
  with a fixed offset \<open>LiftsAt\<close> is exactly the first instant at which the window stops applying.
  In a zone whose clocks jump forward over the end of the window it is not: \<open>LiftsAt\<close> can name an
  instant in the past.
\<close>

type_synonym tzdb = "string \<Rightarrow> (int \<Rightarrow> int) option"

definition nanos :: int where "nanos = 1000000000"

text \<open>Seconds of the local wall clock, counted from the epoch's midnight.\<close>

definition wall :: "(int \<Rightarrow> int) \<Rightarrow> time \<Rightarrow> int" where
  "wall off t = t div nanos + off (t div nanos)"

definition day_number :: "int \<Rightarrow> int" where
  "day_number s = s div 86400"

text \<open>Sunday is 0; the epoch is a Thursday.\<close>

definition weekday :: "int \<Rightarrow> int" where
  "weekday s = (day_number s + 4) mod 7"

definition hour_of :: "int \<Rightarrow> int" where
  "hour_of s = s mod 86400 div 3600"

definition minute_of :: "int \<Rightarrow> int" where
  "minute_of s = s mod 3600 div 60"

text \<open>\<open>time.Date(y, m, d, hour, min, 0, 0, loc)\<close>, the date given by its day number.\<close>

definition time_Date :: "(int \<Rightarrow> int) \<Rightarrow> int \<Rightarrow> int \<Rightarrow> int \<Rightarrow> time" where
  "time_Date off day hour mins =
     (let unix = day * 86400 + hour * 3600 + mins * 60
      in (unix - off (unix - off unix)) * nanos)"

definition locationOf :: "tzdb \<Rightarrow> freezeWindow \<Rightarrow> error + (int \<Rightarrow> int)" where
  "locationOf tz w = (case tz (fw_Timezone w) of
       None \<Rightarrow> Inl (Wrapped (''protection: loading time zone '' @ quoted (fw_Timezone w)
                 @ '' for window '' @ fw_ID w) (Driver ''unknown time zone''))
     | Some off \<Rightarrow> Inr off)"

definition minuteOfWeek :: "int \<Rightarrow> int" where
  "minuteOfWeek s = weekday s * MinutesPerDay + hour_of s * 60 + minute_of s"

definition InWindow :: "tzdb \<Rightarrow> freezeWindow \<Rightarrow> time \<Rightarrow> error + bool" where
  "InWindow tz w now = (case locationOf tz w of
       Inl e \<Rightarrow> Inl e
     | Inr off \<Rightarrow>
         (let cur = minuteOfWeek (wall off now);
              start = StartOfWeekMinute w;
              stop = EndOfWeekMinute w
          in if Wraps w then Inr (cur \<ge> start \<or> cur < stop)
             else Inr (cur \<ge> start \<and> cur < stop)))"

definition LiftsAt :: "tzdb \<Rightarrow> freezeWindow \<Rightarrow> time \<Rightarrow> error + time" where
  "LiftsAt tz w now = (case locationOf tz w of
       Inl e \<Rightarrow> Inl e
     | Inr off \<Rightarrow>
         (let local = wall off now;
              deltaDays = fw_EndDOW w - weekday local;
              d = day_number local;
              lift = time_Date off (d + deltaDays) (fw_EndMinute w sdiv 60) (fw_EndMinute w smod 60)
          in if \<not> lift > now
             then Inr (time_Date off (d + deltaDays + 7) (fw_EndMinute w sdiv 60) (fw_EndMinute w smod 60))
             else Inr lift))"

definition clock :: "int \<Rightarrow> string" where
  "clock m = itoa02 (m sdiv 60) @ '':'' @ itoa02 (m smod 60)"

definition weekday_name :: "int \<Rightarrow> string" where
  "weekday_name d =
     (if d = 0 then ''Sunday'' else if d = 1 then ''Monday'' else if d = 2 then ''Tuesday''
      else if d = 3 then ''Wednesday'' else if d = 4 then ''Thursday'' else if d = 5 then ''Friday''
      else if d = 6 then ''Saturday''
      else ''%!Weekday('' @ itoa (d mod 2 ^ 64) @ '')'')"

definition arrow :: string where
  "arrow = [CHR 0xE2, CHR 0x86, CHR 0x92]"

definition Describe :: "freezeWindow \<Rightarrow> string" where
  "Describe w = take 3 (weekday_name (fw_StartDOW w)) @ '' '' @ clock (fw_StartMinute w)
     @ '' '' @ arrow @ '' ''
     @ take 3 (weekday_name (fw_EndDOW w)) @ '' '' @ clock (fw_EndMinute w)
     @ '' ('' @ fw_Timezone w @ '')''"

text \<open>\<open>lift.Format("Mon 15:04")\<close> in the zone \<open>lift\<close> carries.\<close>

definition format_lift :: "(int \<Rightarrow> int) \<Rightarrow> time \<Rightarrow> string" where
  "format_lift off t = (let s = wall off t in
     take 3 (weekday_name (weekday s)) @ '' '' @ itoa02 (hour_of s) @ '':'' @ itoa02 (minute_of s))"

definition FrozenUntil :: "string \<Rightarrow> freezeWindow \<Rightarrow> (int \<Rightarrow> int) \<Rightarrow> time \<Rightarrow> string" where
  "FrozenUntil environmentName w off lift =
     environmentName @ '' is frozen until '' @ format_lift off lift @ '' '' @ fw_Timezone w"

section \<open>The weekly interval\<close>

lemmas week_defs = MinutesPerWeek_def MinutesPerDay_def

text \<open>The bounds \<open>validateWindow\<close> enforces on a stored window.\<close>

definition wf_window :: "freezeWindow \<Rightarrow> bool" where
  "wf_window w \<longleftrightarrow>
     0 \<le> fw_StartDOW w \<and> fw_StartDOW w \<le> 6 \<and> 0 \<le> fw_EndDOW w \<and> fw_EndDOW w \<le> 6
   \<and> 0 \<le> fw_StartMinute w \<and> fw_StartMinute w < MinutesPerDay
   \<and> 0 \<le> fw_EndMinute w \<and> fw_EndMinute w < MinutesPerDay
   \<and> \<not> (fw_StartDOW w = fw_EndDOW w \<and> fw_StartMinute w = fw_EndMinute w)"

lemma div_bounds: "0 < k \<Longrightarrow> k * (x div k) \<le> x \<and> x < k * (x div k) + (k :: int)"
  using mult_div_mod_eq [of k x] pos_mod_bound [of k x] pos_mod_sign [of k x] by linarith

text \<open>The two projections of a clock agree: whole minutes since the epoch, moved to a Sunday.\<close>

lemma mod_div_60: "0 < k \<Longrightarrow> s mod (60 * k) div 60 = s div 60 mod (k :: int)"
  by (simp add: zmod_zmult2_eq)

lemma minuteOfWeek_eq: "minuteOfWeek s = (s div 60 + 5760) mod 10080"
proof -
  define M where "M = s div 60"
  have day: "s div 86400 = M div 1440" unfolding M_def by (simp flip: zdiv_zmult2_eq)
  have mins: "s mod 3600 div 60 = M mod 60" using mod_div_60 [of 60 s] by (simp add: M_def)
  have "s mod 86400 div 3600 = s mod (60 * 1440) div 60 div 60" by (simp flip: zdiv_zmult2_eq)
  then have hour: "s mod 86400 div 3600 = M mod 1440 div 60" by (simp only: mod_div_60 M_def)
  have "M mod 1440 mod 60 = M mod 60" by (rule mod_mod_cancel) simp
  then have hm: "M mod 1440 div 60 * 60 + M mod 60 = M mod 1440"
    using div_mult_mod_eq [of "M mod 1440" 60] by simp
  have "(M + 5760) mod (1440 * 7) = 1440 * ((M + 5760) div 1440 mod 7) + (M + 5760) mod 1440"
    by (rule zmod_zmult2_eq) simp
  moreover have "(M + 5760) div 1440 = M div 1440 + 4"
    using div_mult_self1 [of 1440 M 4] by simp
  moreover have "(M + 5760) mod 1440 = M mod 1440"
    using mod_mult_self1 [of M 4 1440] by simp
  ultimately have "(M + 5760) mod 10080 = (M div 1440 + 4) mod 7 * 1440 + M mod 1440" by simp
  with hm show ?thesis
    by (simp add: minuteOfWeek_def weekday_def day_number_def hour_of_def minute_of_def
        MinutesPerDay_def day mins hour M_def [symmetric])
qed

lemma minuteOfWeek_range: "0 \<le> minuteOfWeek s \<and> minuteOfWeek s < 10080"
  by (simp add: minuteOfWeek_eq)

text \<open>Membership as one expression: how far into the week-long cycle after its start one is.\<close>

definition arc :: "int \<Rightarrow> int \<Rightarrow> int \<Rightarrow> bool" where
  "arc start stop cur \<longleftrightarrow> (cur - start) mod 10080 < (stop - start) mod 10080"

lemma week_minute_inj:
  fixes m m' :: int
  assumes "d * 1440 + m = d' * 1440 + m'" "0 \<le> m" "m < 1440" "0 \<le> m'" "m' < 1440"
  shows "m = m'"
  using arg_cong [OF assms(1), of "\<lambda>x. x mod 1440"] assms(2-) by simp

lemma wf_window_bounds:
  assumes "wf_window w"
  shows "0 \<le> StartOfWeekMinute w" "StartOfWeekMinute w < 10080"
    "0 \<le> EndOfWeekMinute w" "EndOfWeekMinute w < 10080" "StartOfWeekMinute w \<noteq> EndOfWeekMinute w"
  using assms unfolding wf_window_def StartOfWeekMinute_def EndOfWeekMinute_def MinutesPerDay_def
  by (auto dest: week_minute_inj)

lemma mod_diff_cases:
  fixes a b m :: int
  assumes "0 \<le> a" "a < m" "0 \<le> b" "b < m"
  shows "(a - b) mod m = (if b \<le> a then a - b else a - b + m)"
proof (cases "b \<le> a")
  case True
  with assms show ?thesis by simp
next
  case False
  have "(a - b) mod m = (a - b + m) mod m" by simp
  also have "\<dots> = a - b + m" using False assms by (intro mod_pos_pos_trivial) auto
  finally show ?thesis using False by simp
qed

lemma InWindow_arc:
  assumes "wf_window w" and "tz (fw_Timezone w) = Some off"
  shows "InWindow tz w t =
    Inr (arc (StartOfWeekMinute w) (EndOfWeekMinute w) (minuteOfWeek (wall off t)))"
proof -
  note b = wf_window_bounds [OF assms(1)] and c = minuteOfWeek_range [of "wall off t"]
  show ?thesis
    using assms(2) b c
    by (simp add: InWindow_def locationOf_def Let_def Wraps_def arc_def mod_diff_cases)
qed

text \<open>Stepping minute by minute from inside an arc, one stays inside until its end is reached.\<close>

lemma arc_until_end:
  fixes k K j s e :: int
  assumes range: "0 \<le> s" "s < 10080" "0 \<le> e" "e < 10080"
    and inside: "arc s e (k mod 10080)"
    and K: "k < K" "K \<le> k + 10080" "K mod 10080 = e"
    and j: "k \<le> j" "j < K"
  shows "arc s e (j mod 10080)"
proof -
  define x where "x = (k - s) mod 10080"
  define L where "L = (e - s) mod 10080"
  have L: "0 \<le> L" "L < 10080" and x: "0 \<le> x" by (simp_all add: L_def x_def)
  have lt: "x < L" using inside by (simp add: arc_def x_def L_def mod_simps)
  obtain q where q: "k - s = 10080 * q + x" unfolding x_def by (metis mult_div_mod_eq)
  obtain p where p: "K - s = 10080 * p + L"
  proof -
    have "(K - s) mod 10080 = L" unfolding L_def K(3) [symmetric] by (simp add: mod_simps)
    then show thesis using that [of "(K - s) div 10080"] by (metis mult_div_mod_eq)
  qed
  have "q \<le> p" "p \<le> q" using p q K(1,2) lt L x by linarith+
  then have "p = q" by simp
  with p q j lt L have r: "0 \<le> j - s - 10080 * q" "j - s - 10080 * q < L" using x by linarith+
  have "(j - s) mod 10080 = (j - s - 10080 * q) mod 10080"
    using mod_mult_self4 [of 10080 "- q" "j - s"] by (simp add: algebra_simps)
  also have "\<dots> = j - s - 10080 * q" using r L by simp
  finally show ?thesis using r by (simp add: arc_def L_def mod_simps)
qed

lemma arc_end: "\<not> arc s e e"
  by (simp add: arc_def)

section \<open>Zones with a fixed offset\<close>

definition fixed_zone :: "tzdb \<Rightarrow> string \<Rightarrow> int \<Rightarrow> bool" where
  "fixed_zone tz z c \<longleftrightarrow> (\<exists>off. tz z = Some off \<and> (\<forall>s. off s = c))"

lemma fixed_zoneD: "fixed_zone tz z c \<Longrightarrow> tz z = Some (\<lambda>_. c)"
  unfolding fixed_zone_def by (metis ext)

text \<open>The minute of the week of an instant, as a single coordinate.\<close>

definition minute_at :: "int \<Rightarrow> time \<Rightarrow> int" where
  "minute_at c t = (t div nanos + c) div 60 + 5760"

lemma minuteOfWeek_wall: "minuteOfWeek (wall (\<lambda>_. c) t) = minute_at c t mod 10080"
  by (simp add: minuteOfWeek_eq wall_def minute_at_def)

lemma minute_at_mono: "t \<le> t' \<Longrightarrow> minute_at c t \<le> minute_at c t'"
  by (simp add: minute_at_def nanos_def zdiv_mono1)

text \<open>The instant at which a wall-clock minute begins.\<close>

lemma minute_at_start: "minute_at c ((60 * m - c) * nanos) = m + 5760"
  by (simp add: minute_at_def nanos_def)

lemma minute_at_less:
  assumes "t < (60 * m - c) * nanos"
  shows "minute_at c t < m + 5760"
proof -
  have "t div nanos < 60 * m - c" 
    using assms by (simp add: nanos_def div_less_iff_less_mult)
  then show ?thesis by (simp add: minute_at_def div_less_iff_less_mult algebra_simps)
qed

lemma minute_at_ge:
  assumes "\<not> t < (60 * m - c) * nanos"
  shows "m + 5760 \<le> minute_at c t"
  using minute_at_mono [of "(60 * m - c) * nanos" t c] assms by (simp add: minute_at_start)

lemma time_Date_fixed:
  "time_Date (\<lambda>_. c) d (m sdiv 60) (m smod 60) = (60 * (d * 1440 + m) - c) * nanos"
proof -
  have "m sdiv 60 * 60 + m smod 60 = m" by (rule sdiv_mult_smod_eq)
  moreover have "a * 60 + b = m \<Longrightarrow> d * 86400 + a * 3600 + b * 60 = 60 * (d * 1440 + m)" for a b
    by simp
  ultimately have "d * 86400 + m sdiv 60 * 3600 + m smod 60 * 60 = 60 * (d * 1440 + m)" by blast
  then show ?thesis by (simp add: time_Date_def)
qed

lemma LiftsAt_fixed:
  assumes wf: "wf_window w" and z: "fixed_zone tz (fw_Timezone w) c"
  obtains m where "LiftsAt tz w t = Inr ((60 * m - c) * nanos)"
    and "minute_at c t < m + 5760" and "m + 5760 \<le> minute_at c t + 10080"
    and "(m + 5760) mod 10080 = EndOfWeekMinute w" and "t < (60 * m - c) * nanos"
proof -
  define l where "l = t div nanos + c"
  define m where "m = (day_number l + (fw_EndDOW w - weekday l)) * 1440 + fw_EndMinute w"
  have off: "tz (fw_Timezone w) = Some (\<lambda>_. c)" using z by (rule fixed_zoneD)
  have lift: "LiftsAt tz w t =
      Inr (if t < (60 * m - c) * nanos then (60 * m - c) * nanos else (60 * (m + 10080) - c) * nanos)"
  proof -
    have "60 * ((day_number l + (fw_EndDOW w - weekday l) + 7) * 1440 + fw_EndMinute w) = 60 * (m + 10080)"
      by (simp add: m_def)
    then show ?thesis
      by (simp add: LiftsAt_def locationOf_def off Let_def time_Date_fixed wall_def m_def
          flip: l_def)
  qed
  have wd: "(day_number l + 4) div 7 * 7 = day_number l + 4 - weekday l"
    unfolding weekday_def by (simp add: minus_mod_eq_div_mult)
  have m5760: "m + 5760 = (day_number l + 4) div 7 * 10080 + EndOfWeekMinute w"
    using wd by (simp add: m_def EndOfWeekMinute_def MinutesPerDay_def)
  then have e: "(m + 5760) mod 10080 = EndOfWeekMinute w"
    using wf_window_bounds [OF wf] by simp
  have at: "minute_at c t = l div 60 + 5760" by (simp add: minute_at_def l_def)
  have week: "(day_number l + 4) div 7 * 10080 \<le> minute_at c t"
    "minute_at c t < (day_number l + 4) div 7 * 10080 + 10080"
  proof -
    have d: "day_number l = l div 60 div 1440"
      unfolding day_number_def by (simp flip: zdiv_zmult2_eq)
    define x where "x = l div 60 div 1440 + 4"
    have x: "1440 * x \<le> minute_at c t" "minute_at c t < 1440 * x + 1440"
      using div_bounds [of 1440 "l div 60"] unfolding at x_def by simp_all
    have "x div 7 * 7 \<le> x" "x < x div 7 * 7 + 7" using div_bounds [of 7 x] by simp_all
    with x show "(day_number l + 4) div 7 * 10080 \<le> minute_at c t"
      "minute_at c t < (day_number l + 4) div 7 * 10080 + 10080"
      unfolding d x_def [symmetric] by linarith+
  qed
  show thesis
  proof (cases "t < (60 * m - c) * nanos")
    case True
    show ?thesis
      using that [of m] lift True e week m5760 minute_at_less [OF True] wf_window_bounds [OF wf]
      by simp
  next
    case False
    have later: "t < (60 * (m + 10080) - c) * nanos"
    proof (rule ccontr)
      assume "\<not> t < (60 * (m + 10080) - c) * nanos"
      from minute_at_ge [OF this] show False
        using week m5760 wf_window_bounds [OF wf] by linarith
    qed
    have mod: "(m + 10080 + 5760) mod 10080 = EndOfWeekMinute w"
      using e by (metis add.assoc add.commute mod_add_self2)
    have le: "m + 10080 + 5760 \<le> minute_at c t + 10080" using minute_at_ge [OF False] by simp
    from minute_at_less [OF later] have "minute_at c t < m + 10080 + 5760" by simp
    with that [of "m + 10080"] lift False mod le later show ?thesis by simp
  qed
qed

section \<open>Properties\<close>

text \<open>
  C9. In a time zone with a fixed offset from UTC, a valid window that applies now goes on
  applying up to the instant \<open>LiftsAt\<close> names and no longer applies at that instant, which lies
  in the future and at most a week away.
\<close>

theorem LiftsAt_first_clear:
  assumes wf: "wf_window w" and z: "fixed_zone tz (fw_Timezone w) c"
    and inside: "InWindow tz w now = Inr True"
  shows "\<exists>lift. LiftsAt tz w now = Inr lift \<and> now < lift \<and> lift \<le> now + 7 * 86400 * nanos
    \<and> InWindow tz w lift = Inr False
    \<and> (\<forall>t. now \<le> t \<and> t < lift \<longrightarrow> InWindow tz w t = Inr True)"
proof -
  have win: "InWindow tz w t =
      Inr (arc (StartOfWeekMinute w) (EndOfWeekMinute w) (minute_at c t mod 10080))" for t
    using InWindow_arc [of w tz "\<lambda>_. c" t] wf fixed_zoneD [OF z] by (simp add: minuteOfWeek_wall)
  obtain m where m: "LiftsAt tz w now = Inr ((60 * m - c) * nanos)"
      "minute_at c now < m + 5760" "m + 5760 \<le> minute_at c now + 10080"
      "(m + 5760) mod 10080 = EndOfWeekMinute w" "now < (60 * m - c) * nanos"
    using LiftsAt_fixed [OF wf z] by blast
  have bound: "(60 * m - c) * nanos \<le> now + 7 * 86400 * nanos"
  proof -
    have "60 * ((now div nanos + c) div 60) \<le> now div nanos + c"
      using div_bounds [of 60 "now div nanos + c"] by simp
    with m(3) have "60 * m - c \<le> now div nanos + 7 * 86400" by (simp add: minute_at_def)
    moreover have "now div nanos * nanos \<le> now"
      using div_bounds [of nanos now] by (simp add: nanos_def mult.commute)
    ultimately show ?thesis by (simp add: nanos_def)
  qed
  have clear: "InWindow tz w ((60 * m - c) * nanos) = Inr False"
    by (simp add: win minute_at_start m(4) arc_end)
  have still: "InWindow tz w t = Inr True" if "now \<le> t" "t < (60 * m - c) * nanos" for t
    using arc_until_end [OF wf_window_bounds(1-4) [OF wf] _ m(2-4) minute_at_mono [OF that(1)]
        minute_at_less [OF that(2)]] inside
    by (simp add: win)
  from m(1,5) bound clear still show ?thesis by blast
qed

definition weekendFreeze :: freezeWindow where
  "weekendFreeze = \<lparr> fw_ID = ''frz_1'', fw_EnvironmentID = ''env_1'', fw_StartDOW = 5,
     fw_StartMinute = 1080, fw_EndDOW = 1, fw_EndMinute = 480, fw_Timezone = ''UTC'' \<rparr>"

definition utc_only :: tzdb where
  "utc_only z = (if z = ''UTC'' then Some (\<lambda>_. 0) else None)"

text \<open>Saturday 3 January 1970, noon: frozen until Monday 08:00.\<close>

theorem LiftsAt_first_clear_witness:
  "LiftsAt utc_only weekendFreeze (216000 * nanos) = Inr (374400 * nanos)
   \<and> InWindow utc_only weekendFreeze (374400 * nanos) = Inr False
   \<and> InWindow utc_only weekendFreeze (374399 * nanos) = Inr True"
proof -
  have "wf_window weekendFreeze" by (simp add: wf_window_def weekendFreeze_def MinutesPerDay_def)
  moreover have "fixed_zone utc_only (fw_Timezone weekendFreeze) 0"
    by (simp add: fixed_zone_def utc_only_def weekendFreeze_def)
  moreover have "InWindow utc_only weekendFreeze (216000 * nanos) = Inr True" by code_simp
  ultimately have "\<exists>lift. LiftsAt utc_only weekendFreeze (216000 * nanos) = Inr lift \<and> 216000 * nanos < lift
    \<and> lift \<le> 216000 * nanos + 7 * 86400 * nanos \<and> InWindow utc_only weekendFreeze lift = Inr False
    \<and> (\<forall>t. 216000 * nanos \<le> t \<and> t < lift \<longrightarrow> InWindow utc_only weekendFreeze t = Inr True)"
    by (rule LiftsAt_first_clear)
  moreover have "LiftsAt utc_only weekendFreeze (216000 * nanos) = Inr (374400 * nanos)" by code_simp
  ultimately show ?thesis by (simp add: nanos_def)
qed

definition gap_zone :: tzdb where
  "gap_zone z = (if z = ''America/Gap'' then Some (\<lambda>s. if s < 277200 then - 18000 else - 14400) else None)"

definition gap_window :: freezeWindow where
  "gap_window = \<lparr> fw_ID = ''frz_2'', fw_EnvironmentID = ''env_1'', fw_StartDOW = 5,
     fw_StartMinute = 0, fw_EndDOW = 0, fw_EndMinute = 0, fw_Timezone = ''America/Gap'' \<rparr>"

text \<open>
  Across a clock change the promise fails: with clocks going forward at midnight, from
  UTC-5 to UTC-4, a window that ends on Sunday 00:00 and applies on Saturday at 23:59 is reported
  to lift at Saturday 23:00, before the moment of asking.
\<close>

theorem LiftsAt_gap_in_the_past:
  "wf_window gap_window
   \<and> InWindow gap_zone gap_window (277140 * nanos) = Inr True
   \<and> LiftsAt gap_zone gap_window (277140 * nanos) = Inr (273600 * nanos)
   \<and> InWindow gap_zone gap_window (273600 * nanos) = Inr True"
  by code_simp

end
