(* ===== verification/Protection.thy ===== *)
theory Protection
  imports Freeze
begin

text \<open>
  Deploy protection (\<open>src/core/protection/gate.go\<close> and \<open>protection.go\<close>): the policy document of an
  environment, the admission gate the scheduler consults, and the recorded overrides. The decisions
  on a parked deployment drive the pipeline and are in theory \<open>Approvals\<close>.

  The service's fields are the record \<open>protection_cfg\<close>: the time-zone database of the binary, and
  whether an announcer is wired. Announcements run detached and best effort in the program; here
  they run at the end of the call, and a call into the inbox is an event.
\<close>

record protection_cfg =
  pc_tz :: tzdb
  pc_announcer :: bool

section \<open>The gate (gate.go)\<close>

text \<open>
  The variables of the loop of \<open>freezeState\<close>. \<open>latest\<close> starts as the zero \<open>time.Time\<close>, the
  first of January of the year 1.
\<close>

record freeze_loop =
  fl_frozen :: bool
  fl_latest :: time
  fl_detail :: string
  fl_badZones :: "string list"

definition zero_time :: time where
  "zero_time = - 62135596800 * nanos"

definition freeze_init :: freeze_loop where
  "freeze_init = \<lparr> fl_frozen = False, fl_latest = zero_time, fl_detail = [], fl_badZones = [] \<rparr>"

definition freeze_iter ::
  "tzdb \<Rightarrow> environment \<Rightarrow> time \<Rightarrow> freezeWindow \<Rightarrow> freeze_loop \<Rightarrow> freeze_loop" where
  "freeze_iter tz env now w l =
     (case InWindow tz w now of
        Inl _ \<Rightarrow> l\<lparr>fl_badZones := fl_badZones l @ [fw_Timezone w]\<rparr>
      | Inr inside \<Rightarrow>
          if \<not> inside then l
          else (case LiftsAt tz w now of
              Inl _ \<Rightarrow> l\<lparr>fl_badZones := fl_badZones l @ [fw_Timezone w]\<rparr>
            | Inr lift \<Rightarrow>
                (let l' = l\<lparr>fl_frozen := True\<rparr> in
                 if lift > fl_latest l'
                 then l'\<lparr>fl_latest := lift, fl_detail := (case locationOf tz w of
                        Inr off \<Rightarrow> FrozenUntil (env_Name env) w off lift | Inl _ \<Rightarrow> [])\<rparr>
                 else l')))"

definition freezeState ::
  "tzdb \<Rightarrow> environment \<Rightarrow> environmentProtection \<Rightarrow> time \<Rightarrow> bool \<times> string" where
  "freezeState tz env p now =
     (if \<not> ep_FreezeEnabled p \<or> ep_Windows p = [] then (False, [])
      else
        (let l = fold (freeze_iter tz env now) (ep_Windows p) freeze_init in
         if fl_frozen l then (True, fl_detail l)
         else if fl_badZones l \<noteq> [] then
           (True, env_Name env
              @ '' has a freeze window in a time zone this panel cannot load (''
              @ quoted (hd (fl_badZones l)) @ ''), so deploys are refused until it is corrected'')
         else (False, [])))"

definition Admit :: "protection_cfg \<Rightarrow> string \<Rightarrow> deployAdmission op" where
  "Admit cfg environmentID =
     bnd (mapE (Wrapped (''protection: getting environment '' @ environmentID))
            (GetEnvironment environmentID)) (\<lambda>env.
     if env_Kind env = EnvPreview then ret zeroAdmission
     else
       bnd (attempt (GetEnvironmentProtection environmentID)) (\<lambda>r.
       case r of
         Inl e \<Rightarrow>
           if errors_is e ErrNotFound then ret zeroAdmission
           else throw (Wrapped (''protection: getting protection for '' @ environmentID) e)
       | Inr p \<Rightarrow>
           (let adm = (if ep_RequireApproval p
                       then zeroAdmission\<lparr>adm_NeedsApproval := True,
                              adm_RequiredRole := (if ValidRole (ep_MinApproverRole p)
                                then ep_MinApproverRole p else RoleOwner)\<rparr>
                       else zeroAdmission)
            in
            bnd now_op (\<lambda>t.
            case freezeState (pc_tz cfg) env p t of (frozen, detail) \<Rightarrow>
            if \<not> frozen then ret adm
            else
              bnd now_op (\<lambda>t'.
              bnd (mapE (Wrapped (''protection: checking break glass for '' @ environmentID))
                     (BreakGlassOpen environmentID t')) (\<lambda>open.
              if open then ret adm
              else ret (adm\<lparr>adm_Frozen := True, adm_FreezeDetail := detail\<rparr>)))))))"

section \<open>Announcements (protection.go, helpers)\<close>

definition noticeFor :: "deployment \<Rightarrow> string \<Rightarrow> deployNotice op" where
  "noticeFor dep environmentID =
     bnd (mapE (Wrapped (''protection: getting environment '' @ environmentID))
            (GetEnvironment environmentID)) (\<lambda>env.
     bnd (attempt (GetApplication (dep_ApplicationID dep))) (\<lambda>a.
     bnd (attempt (GetRevision (dep_RevisionID dep))) (\<lambda>r.
     ret \<lparr> dn_ProjectID = env_ProjectID env, dn_ApplicationID = dep_ApplicationID dep,
           dn_ApplicationName = (case a of Inr app \<Rightarrow> app_Name app | Inl _ \<Rightarrow> []),
           dn_Commit = (case r of Inr rv \<Rightarrow> rev_SourceCommit rv | Inl _ \<Rightarrow> []),
           dn_DeploymentID = dep_ID dep, dn_RequiredRole = [], dn_RequestedBy = [],
           dn_RequesterEmail = [], dn_ActorEmail = [], dn_Reason = [] \<rparr>)))"

definition emailOf :: "string \<Rightarrow> string op" where
  "emailOf userID =
     (if userID = [] then ret []
      else bnd (attempt (GetUserByID userID)) (\<lambda>u.
           ret (case u of Inr x \<Rightarrow> usr_Email x | Inl _ \<Rightarrow> [])))"

definition Park :: "protection_cfg \<Rightarrow> deployment \<Rightarrow> string \<Rightarrow> string \<Rightarrow> string \<Rightarrow> unit op" where
  "Park cfg dep environmentID requestedBy requiredRole =
     bnd (mapE (Wrapped (''protection: creating approval for '' @ dep_ID dep))
            (CreateDeployApproval (dep_ID dep) environmentID requestedBy requiredRole)) (\<lambda>_.
     if \<not> pc_announcer cfg then ret ()
     else
       bnd (attempt
         (bnd (noticeFor dep environmentID) (\<lambda>notice.
          bnd (emailOf requestedBy) (\<lambda>email.
          bnd io (\<lambda>_.
          emit (DeployAwaitingApprovalItem (notice\<lparr>dn_RequiredRole := requiredRole,
            dn_RequestedBy := requestedBy, dn_RequesterEmail := email\<rparr>))))))) (\<lambda>_.
       ret ()))"

definition announce ::
  "protection_cfg \<Rightarrow> deployApproval \<Rightarrow> user \<Rightarrow> (deployNotice \<Rightarrow> event) \<Rightarrow> unit op" where
  "announce cfg ap actor item =
     (if \<not> pc_announcer cfg \<or> da_RequestedBy ap = [] then ret ()
      else
        bnd (attempt
          (bnd (GetDeployment (da_DeploymentID ap)) (\<lambda>dep.
           bnd (noticeFor dep (da_EnvironmentID ap)) (\<lambda>n.
           bnd io (\<lambda>_.
           emit (item (n\<lparr>dn_RequestedBy := da_RequestedBy ap,
             dn_RequesterEmail := da_RequestedByEmail ap, dn_ActorEmail := usr_Email actor,
             dn_Reason := da_Reason ap\<rparr>))))))) (\<lambda>_.
        ret ()))"

section \<open>The protection document (protection.go)\<close>

definition ProtectionGet :: "string \<Rightarrow> environmentProtection op" where
  "ProtectionGet envID =
     bnd (GetEnvironment envID) (\<lambda>_.
     bnd (attempt (GetEnvironmentProtection envID)) (\<lambda>r.
     case r of
       Inl e \<Rightarrow>
         if errors_is e ErrNotFound then ret (DefaultProtection envID)
         else throw (Wrapped (''protection: getting protection for '' @ envID) e)
     | Inr p \<Rightarrow> ret p))"

record windowInput =
  wi_StartDOW :: int
  wi_StartMinute :: int
  wi_EndDOW :: int
  wi_EndMinute :: int
  wi_Timezone :: string

record document =
  doc_RequireApproval :: bool
  doc_MinApproverRole :: string
  doc_FreezeEnabled :: bool
  doc_Windows :: "windowInput list"

definition dash :: string where
  "dash = [CHR 0xE2, CHR 0x80, CHR 0x94]"

definition validateWindow :: "tzdb \<Rightarrow> nat \<Rightarrow> windowInput \<Rightarrow> error option" where
  "validateWindow tz i w =
     (let at = ''windows['' @ dec i @ '']'' in
      if wi_StartDOW w < 0 \<or> wi_StartDOW w > 6 \<or> wi_EndDOW w < 0 \<or> wi_EndDOW w > 6
      then Some (ValidationError
             (at @ '': start_dow and end_dow must be 0 (Sunday) through 6 (Saturday)''))
      else if wi_StartMinute w < 0 \<or> wi_StartMinute w \<ge> MinutesPerDay
            \<or> wi_EndMinute w < 0 \<or> wi_EndMinute w \<ge> MinutesPerDay
      then Some (ValidationError (at @ '': start_minute and end_minute must be 0 through 1439''))
      else if wi_StartDOW w = wi_EndDOW w \<and> wi_StartMinute w = wi_EndMinute w
      then Some (ValidationError (at @ '': a window that starts and ends at the same moment is ''
             @ ''either empty or the whole week '' @ dash @ '' say which''))
      else if wi_Timezone w = []
      then Some (ValidationError (at @ '': timezone is required (an IANA name such as Europe/Berlin)''))
      else if tz (wi_Timezone w) = None
      then Some (ValidationError (at @ '': '' @ quoted (wi_Timezone w)
             @ '' is not an IANA time zone name '' @ dash @ '' try Europe/Berlin''))
      else None)"

text \<open>The loop of \<open>Set\<close>: validate window \<open>i\<close>, mint its id, append.\<close>

fun build_windows ::
  "tzdb \<Rightarrow> string \<Rightarrow> (nat \<Rightarrow> string) \<Rightarrow> nat \<Rightarrow> windowInput list \<Rightarrow> error + freezeWindow list" where
  "build_windows tz envID mint i [] = Inr []"
| "build_windows tz envID mint i (w # ws) =
     (case validateWindow tz i w of
        Some e \<Rightarrow> Inl e
      | None \<Rightarrow>
          (case build_windows tz envID mint (Suc i) ws of
             Inl e \<Rightarrow> Inl e
           | Inr rest \<Rightarrow>
               Inr (\<lparr> fw_ID = mint i, fw_EnvironmentID = envID, fw_StartDOW = wi_StartDOW w,
                      fw_StartMinute = wi_StartMinute w, fw_EndDOW = wi_EndDOW w,
                      fw_EndMinute = wi_EndMinute w, fw_Timezone = wi_Timezone w \<rparr> # rest)))"

definition lift_error :: "error + 'a \<Rightarrow> 'a op" where
  "lift_error r = (case r of Inl e \<Rightarrow> throw e | Inr x \<Rightarrow> ret x)"

definition ProtectionSet ::
  "protection_cfg \<Rightarrow> (nat \<Rightarrow> string) \<Rightarrow> string \<Rightarrow> document \<Rightarrow> environmentProtection op" where
  "ProtectionSet cfg mint envID inp =
     bnd (GetEnvironment envID) (\<lambda>env.
     if env_Kind env = EnvPreview then throw ErrPreviewProtection
     else
       (let role = (if doc_MinApproverRole inp = [] then RoleOwner else doc_MinApproverRole inp) in
        if \<not> ValidRole role
        then throw (ValidationError ''min_approver_role must be one of member, admin, owner'')
        else if length (doc_Windows inp) > MaxFreezeWindows
        then throw (ValidationError
               (''at most '' @ dec MaxFreezeWindows @ '' freeze windows per environment''))
        else
          bnd (lift_error (build_windows (pc_tz cfg) envID mint 0 (doc_Windows inp))) (\<lambda>windows.
          SetEnvironmentProtection
            \<lparr> ep_EnvironmentID = envID, ep_RequireApproval = doc_RequireApproval inp,
              ep_MinApproverRole = role, ep_FreezeEnabled = doc_FreezeEnabled inp,
              ep_Windows = windows \<rparr>)))"

section \<open>Listings, the two-person rule, break glass (protection.go)\<close>

definition approvalHistory :: nat where "approvalHistory = 100"
definition breakGlassHistory :: nat where "breakGlassHistory = 20"

definition ApprovalsOf :: "string \<Rightarrow> string \<Rightarrow> deployApproval list op" where
  "ApprovalsOf envID st =
     bnd (GetEnvironment envID) (\<lambda>_.
     if st \<noteq> [] \<and> st \<noteq> ApprovalPending \<and> st \<noteq> ApprovalApproved \<and> st \<noteq> ApprovalRejected
     then throw (ValidationError ''state must be one of pending, approved, rejected'')
     else ListDeployApprovalsByEnvironment envID st approvalHistory)"

definition ApprovalFor :: "string \<Rightarrow> deployApproval op" where
  "ApprovalFor deploymentID = GetDeployApproval deploymentID"

definition ApprovalsForApplication :: "string \<Rightarrow> string list \<Rightarrow> (string \<rightharpoonup> deployApproval) op" where
  "ApprovalsForApplication appID deploymentIDs = ListDeployApprovalsByApplication appID deploymentIDs"

definition RejectionDetail :: "string \<Rightarrow> string \<Rightarrow> string" where
  "RejectionDetail rejecterEmail reason =
     (let who = (if rejecterEmail = [] then ''an approver'' else rejecterEmail) in
      if reason = [] then ''rejected by '' @ who
      else ''rejected by '' @ who @ '': '' @ reason)"

definition guardSelfApproval :: "deployApproval \<Rightarrow> user \<Rightarrow> unit op" where
  "guardSelfApproval ap actor =
     (if da_RequestedBy ap = [] \<or> da_RequestedBy ap \<noteq> usr_ID actor then ret ()
      else
        bnd (mapE (Wrapped (''protection: getting environment '' @ da_EnvironmentID ap))
               (GetEnvironment (da_EnvironmentID ap))) (\<lambda>env.
        bnd (CountQualifiedApprovers (env_ProjectID env) (da_RequiredRole ap) (usr_ID actor))
          (\<lambda>others.
        if others > 0 then throw ErrSelfApproval else ret ())))"

definition validateReason :: "string \<Rightarrow> nat \<Rightarrow> string \<Rightarrow> error option" where
  "validateReason reason mx field =
     (if reason = [] then Some (ValidationError (field @ '' is required''))
      else if rune_count reason > mx
      then Some (ValidationError (field @ '' must be at most '' @ dec mx @ '' characters''))
      else if \<exists>c \<in> set reason. (of_char c :: nat) < 32 \<or> (of_char c :: nat) = 0x7f
      then Some (ValidationError (field @ '' must be a single line''))
      else None)"

definition OpenBreakGlass :: "string \<Rightarrow> string \<Rightarrow> user \<Rightarrow> string \<Rightarrow> breakGlassGrant op" where
  "OpenBreakGlass newID envID actor reason0 =
     (let reason = trim_space reason0 in
      case validateReason reason MaxBreakGlassReason ''reason'' of
        Some e \<Rightarrow> throw e
      | None \<Rightarrow>
          bnd (GetEnvironment envID) (\<lambda>_.
          bnd now_op (\<lambda>t.
          bnd (CreateBreakGlassGrant
                 \<lparr> bg_ID = newID, bg_EnvironmentID = envID, bg_OpenedBy = usr_ID actor,
                   bg_OpenedByEmail = [], bg_Reason = reason, bg_CreatedAt = 0,
                   bg_ExpiresAt = t + BreakGlassTTL \<rparr>) (\<lambda>g.
          ret (g\<lparr>bg_OpenedByEmail := usr_Email actor\<rparr>)))))"

definition BreakGlassGrants :: "string \<Rightarrow> breakGlassGrant list op" where
  "BreakGlassGrants envID =
     bnd (GetEnvironment envID) (\<lambda>_. ListBreakGlassGrants envID breakGlassHistory)"

section \<open>The gate decides what the policy says\<close>

lemma reads_freeze [rd]: "reads (lift_error r)"
  by (cases r) (auto simp: lift_error_def intro: rd)

lemma reads_Admit [rd]: "reads (Admit cfg e)"
  unfolding Admit_def Let_def by (intro rd)

lemma reads_guard [rd]: "reads (guardSelfApproval ap u)"
  unfolding guardSelfApproval_def by (intro rd)

lemma reads_noticeFor [rd]: "reads (noticeFor d e)"
  unfolding noticeFor_def by (intro rd)

lemma reads_emailOf [rd]: "reads (emailOf u)"
  unfolding emailOf_def by (intro rd)

lemma LiftsAt_InWindow: "InWindow tz w t = Inr b \<Longrightarrow> \<exists>l. LiftsAt tz w t = Inr l"
  by (auto simp: InWindow_def LiftsAt_def Let_def split: sum.splits if_splits)

text \<open>The policy as a predicate on the windows: some window applies, or one cannot be evaluated.\<close>

definition freeze_applies :: "tzdb \<Rightarrow> environmentProtection \<Rightarrow> time \<Rightarrow> bool" where
  "freeze_applies tz p now \<longleftrightarrow>
     ep_FreezeEnabled p \<and> (\<exists>w \<in> set (ep_Windows p). InWindow tz w now \<noteq> Inr False)"

lemma freeze_iter_frozen:
  "fl_frozen (freeze_iter tz env t w l) \<longleftrightarrow> fl_frozen l \<or> InWindow tz w t = Inr True"
proof (cases "InWindow tz w t")
  case (Inr b)
  then obtain lift where "LiftsAt tz w t = Inr lift" using LiftsAt_InWindow by blast
  with Inr show ?thesis by (simp add: freeze_iter_def Let_def)
qed (simp add: freeze_iter_def)

lemma freeze_iter_bad:
  "fl_badZones (freeze_iter tz env t w l) = [] \<longleftrightarrow>
     fl_badZones l = [] \<and> (\<forall>e. InWindow tz w t \<noteq> Inl e)"
proof (cases "InWindow tz w t")
  case (Inr b)
  then obtain lift where "LiftsAt tz w t = Inr lift" using LiftsAt_InWindow by blast
  with Inr show ?thesis by (simp add: freeze_iter_def Let_def)
qed (simp add: freeze_iter_def)

lemma freeze_fold_frozen:
  "fl_frozen (fold (freeze_iter tz env t) ws l) \<longleftrightarrow>
     fl_frozen l \<or> (\<exists>w \<in> set ws. InWindow tz w t = Inr True)"
  by (induction ws arbitrary: l) (auto simp: freeze_iter_frozen)

lemma freeze_fold_bad:
  "fl_badZones (fold (freeze_iter tz env t) ws l) = [] \<longleftrightarrow>
     fl_badZones l = [] \<and> (\<forall>w \<in> set ws. \<forall>e. InWindow tz w t \<noteq> Inl e)"
  by (induction ws arbitrary: l) (auto simp: freeze_iter_bad)

lemma freezeState_iff: "fst (freezeState tz env p t) \<longleftrightarrow> freeze_applies tz p t"
proof -
  have "InWindow tz w t \<noteq> Inr False \<longleftrightarrow> InWindow tz w t = Inr True \<or> (\<exists>e. InWindow tz w t = Inl e)" for w
    by (cases "InWindow tz w t") auto
  then show ?thesis
    using freeze_fold_frozen [of tz env t "ep_Windows p" freeze_init]
      freeze_fold_bad [of tz env t "ep_Windows p" freeze_init]
    by (auto simp: freezeState_def freeze_applies_def Let_def freeze_init_def)
qed

text \<open>The row \<open>GetEnvironmentProtection\<close> answers with, and the environment's own row.\<close>

definition protection_row :: "world \<Rightarrow> string \<Rightarrow> environmentProtection option" where
  "protection_row w i = List.find (\<lambda>p. ep_EnvironmentID p = i) (w_prot w)"

definition env_row :: "world \<Rightarrow> string \<Rightarrow> environment option" where
  "env_row w i = List.find (\<lambda>e. env_ID e = i) (w_envs w)"

definition glass_open :: "world \<Rightarrow> string \<Rightarrow> bool" where
  "glass_open w i \<longleftrightarrow> (\<exists>g \<in> set (w_grants w). bg_EnvironmentID g = i \<and> Active g (w_now w))"

lemma GetEnvironment_InrD: "GetEnvironment i w = (Inr e, w') \<Longrightarrow> env_row w i = Some e \<and> w' = bump w"
  by (auto simp: GetEnvironment_def query_Inr_iff one_row_Inr_iff env_row_def bump_def)

lemma GetEnvironmentProtection_InrD:
  "GetEnvironmentProtection i w = (Inr p, w') \<Longrightarrow>
     \<exists>q. protection_row w i = Some q \<and> p = q\<lparr>ep_Windows := ordered_windows (ep_Windows q)\<rparr>"
  by (auto simp: GetEnvironmentProtection_def inverts query_Inr_iff one_row_Inr_iff
      protection_row_def bump_def)

text \<open>
  A failed read is \<open>ErrNotFound\<close> only when there is no row: an infrastructure error never looks
  like an absent policy.
\<close>

lemma GetEnvironmentProtection_InlD:
  assumes "GetEnvironmentProtection i w = (Inl e, w')" and "errors_is e ErrNotFound"
  shows "protection_row w i = None"
proof (rule ccontr)
  assume "protection_row w i \<noteq> None"
  then obtain q where q: "List.find (\<lambda>p. ep_EnvironmentID p = i) (w_prot w) = Some q"
    by (auto simp: protection_row_def)
  from assms q show False
    by (auto simp: GetEnvironmentProtection_def query_def runs io_run one_row_def bump_def
        errors_is_def split: option.splits)
qed

lemma BreakGlassOpen_InrD: "BreakGlassOpen i t w = (Inr b, w') \<Longrightarrow>
    b = (\<exists>g \<in> set (w_grants w). bg_EnvironmentID g = i \<and> Active g t)"
  by (auto simp: BreakGlassOpen_def query_Inr_iff bump_def)

lemma set_ordered_windows [simp]: "set (ordered_windows ws) = set ws"
  by (simp add: ordered_windows_def)

lemma freeze_applies_ordered [simp]:
  "freeze_applies tz (p\<lparr>ep_Windows := ordered_windows (ep_Windows p)\<rparr>) t = freeze_applies tz p t"
  by (simp add: freeze_applies_def)

text \<open>The admission of a policy, and the contract of the gate.\<close>

definition policy_admission :: "world \<Rightarrow> tzdb \<Rightarrow> string \<Rightarrow> environmentProtection \<Rightarrow> deployAdmission \<Rightarrow> bool" where
  "policy_admission w tz i p adm \<longleftrightarrow>
     (adm_NeedsApproval adm = ep_RequireApproval p)
   \<and> (adm_RequiredRole adm = (if \<not> ep_RequireApproval p then []
        else if ValidRole (ep_MinApproverRole p) then ep_MinApproverRole p else RoleOwner))
   \<and> (adm_Frozen adm \<longleftrightarrow> freeze_applies tz p (w_now w) \<and> \<not> glass_open w i)"

lemma Admit_contract:
  assumes "Admit cfg i w = (Inr adm, w')"
  shows "\<exists>env. env_row w i = Some env \<and>
    (if env_Kind env = EnvPreview \<or> protection_row w i = None then adm = zeroAdmission
     else \<exists>p. protection_row w i = Some p \<and> policy_admission w (pc_tz cfg) i p adm)"
proof -
  obtain env w1 where env: "GetEnvironment i w = (Inr env, w1)"
    using assms by (auto simp: Admit_def inverts)
  note e = GetEnvironment_InrD [OF env]
  have same: "at_rest w1 = at_rest w" using e by simp
  have same_prot: "protection_row w1 i = protection_row w i"
    using at_rest_eqD(11) [OF same] by (simp add: protection_row_def)
  show ?thesis
  proof (cases "env_Kind env = EnvPreview")
    case True
    with assms env e show ?thesis by (auto simp: Admit_def inverts)
  next
    case False
    obtain r w2 where r: "GetEnvironmentProtection i w1 = (r, w2)" by fastforce
    have same2: "at_rest w2 = at_rest w" using same reads_run [OF reads_store(17) r] by simp
    show ?thesis
    proof (cases r)
      case (Inl x)
      with assms env False r have "errors_is x ErrNotFound" "adm = zeroAdmission"
        by (auto simp: Admit_def inverts split: if_splits)
      with GetEnvironmentProtection_InlD [OF r [unfolded Inl]] e same_prot show ?thesis by simp
    next
      case (Inr p)
      from GetEnvironmentProtection_InrD [OF r [unfolded Inr]] same_prot obtain q where
        q: "protection_row w i = Some q" "p = q\<lparr>ep_Windows := ordered_windows (ep_Windows q)\<rparr>" by auto
      obtain frozen detail where fs: "freezeState (pc_tz cfg) env p (w_now w) = (frozen, detail)"
        by fastforce
      have fr: "frozen = freeze_applies (pc_tz cfg) q (w_now w)"
        using freezeState_iff [of "pc_tz cfg" env p "w_now w"] fs q by simp
      have now2: "w_now w2 = w_now w" "w_grants w2 = w_grants w" using at_rest_eqD [OF same2] by simp_all
      have "policy_admission w (pc_tz cfg) i q adm"
        using assms env False r Inr fs q now2
        by (auto simp: Admit_def inverts now_op_def Let_def policy_admission_def zeroAdmission_def
            glass_open_def fr [symmetric] dest!: BreakGlassOpen_InrD split: if_splits)
      with e q False show ?thesis by auto
    qed
  qed
qed

section \<open>Overlapping windows\<close>

definition names_window :: "tzdb \<Rightarrow> environment \<Rightarrow> time \<Rightarrow> freezeWindow \<Rightarrow> time \<Rightarrow> string \<Rightarrow> bool" where
  "names_window tz env now w lift detail \<longleftrightarrow>
     InWindow tz w now = Inr True \<and> LiftsAt tz w now = Inr lift
   \<and> (\<exists>off. tz (fw_Timezone w) = Some off \<and> detail = FrozenUntil (env_Name env) w off lift)"

lemma freeze_fold_latest:
  defines "l ws tz env now \<equiv> fold (freeze_iter tz env now) ws freeze_init"
  shows "(\<forall>w \<in> set ws. \<forall>lift. InWindow tz w now = Inr True \<and> LiftsAt tz w now = Inr lift
            \<longrightarrow> lift \<le> fl_latest (l ws tz env now))
       \<and> (fl_latest (l ws tz env now) = zero_time \<or> (\<exists>w \<in> set ws.
            names_window tz env now w (fl_latest (l ws tz env now)) (fl_detail (l ws tz env now))))"
proof (induction ws rule: rev_induct)
  case Nil
  show ?case by (simp add: l_def freeze_init_def)
next
  case (snoc w ws)
  define k where "k = fold (freeze_iter tz env now) ws freeze_init"
  have step: "l (ws @ [w]) tz env now = freeze_iter tz env now w k" by (simp add: l_def k_def)
  note IH = snoc.IH [unfolded l_def k_def [symmetric]]
  show ?case
  proof (cases "InWindow tz w now = Inr True")
    case False
    then have "fl_latest (freeze_iter tz env now w k) = fl_latest k"
      "fl_detail (freeze_iter tz env now w k) = fl_detail k"
      by (auto simp: freeze_iter_def split: sum.splits)
    with IH False show ?thesis unfolding step by auto
  next
    case True
    then obtain lift off where lift: "LiftsAt tz w now = Inr lift" and off: "tz (fw_Timezone w) = Some off"
      using LiftsAt_InWindow [OF True] by (auto simp: InWindow_def locationOf_def split: option.splits)
    then have it: "freeze_iter tz env now w k = (if lift > fl_latest k
        then k\<lparr>fl_frozen := True, fl_latest := lift, fl_detail := FrozenUntil (env_Name env) w off lift\<rparr>
        else k\<lparr>fl_frozen := True\<rparr>)"
      using True by (simp add: freeze_iter_def locationOf_def Let_def)
    show ?thesis
    proof (cases "lift > fl_latest k")
      case later: True
      with True lift off have "names_window tz env now w lift (FrozenUntil (env_Name env) w off lift)"
        by (simp add: names_window_def)
      with later IH lift show ?thesis unfolding step it by force
    next
      case False
      with IH lift show ?thesis unfolding step it by force
    qed
  qed
qed

section \<open>Stored documents are valid\<close>

definition valid_document :: "tzdb \<Rightarrow> environmentProtection \<Rightarrow> bool" where
  "valid_document tz p \<longleftrightarrow> ValidRole (ep_MinApproverRole p) \<and> length (ep_Windows p) \<le> MaxFreezeWindows
     \<and> (\<forall>x \<in> set (ep_Windows p). wf_window x \<and> tz (fw_Timezone x) \<noteq> None)"

definition valid_documents :: "tzdb \<Rightarrow> world \<Rightarrow> bool" where
  "valid_documents tz w \<longleftrightarrow> (\<forall>p \<in> set (w_prot w). valid_document tz p)"

lemma validateWindow_None_iff: "validateWindow tz i w = None \<longleftrightarrow>
    0 \<le> wi_StartDOW w \<and> wi_StartDOW w \<le> 6 \<and> 0 \<le> wi_EndDOW w \<and> wi_EndDOW w \<le> 6
  \<and> 0 \<le> wi_StartMinute w \<and> wi_StartMinute w < MinutesPerDay
  \<and> 0 \<le> wi_EndMinute w \<and> wi_EndMinute w < MinutesPerDay
  \<and> \<not> (wi_StartDOW w = wi_EndDOW w \<and> wi_StartMinute w = wi_EndMinute w)
  \<and> wi_Timezone w \<noteq> [] \<and> tz (wi_Timezone w) \<noteq> None"
  unfolding validateWindow_def Let_def by (simp add: not_less not_le)

lemma build_windows_valid: "build_windows tz envID mint i ws = Inr out \<Longrightarrow>
    length out = length ws \<and> (\<forall>x \<in> set out. wf_window x \<and> tz (fw_Timezone x) \<noteq> None)"
proof (induction tz envID mint i ws arbitrary: out rule: build_windows.induct)
  case (2 tz envID mint i w ws)
  from "2.prems" obtain rest where none: "validateWindow tz i w = None"
    and rest: "build_windows tz envID mint (Suc i) ws = Inr rest"
    and out: "out = \<lparr> fw_ID = mint i, fw_EnvironmentID = envID, fw_StartDOW = wi_StartDOW w,
                      fw_StartMinute = wi_StartMinute w, fw_EndDOW = wi_EndDOW w,
                      fw_EndMinute = wi_EndMinute w, fw_Timezone = wi_Timezone w \<rparr> # rest"
    by (auto split: option.splits sum.splits)
  from "2.IH" [OF none rest] none show ?case
    unfolding out validateWindow_None_iff by (auto simp: wf_window_def)
qed simp

lemma reads_triple:
  assumes "reads m" and "\<And>w. f (at_rest w) = f w"
  shows "triple (\<lambda>w. f w = c) m (\<lambda>_ w. f w = c) (\<lambda>_ w. f w = c)"
  using assms by (auto simp: triple_def split: prod.splits sum.splits dest!: reads_run) metis+

lemma query_modify_triple:
  assumes "\<And>w. P w \<Longrightarrow> P (bump w)"
  shows "triple P (query n (modify f)) (\<lambda>_ w'. \<exists>w. P w \<and> w' = f w) (\<lambda>_. P)"
  using assms by (auto simp: triple_def query_def runs io_run split: option.splits)

lemma SetEnvironmentProtection_prot:
  "triple (\<lambda>w. w_prot w = P) (SetEnvironmentProtection p)
     (\<lambda>x w. x = p\<lparr>ep_Windows := ordered_windows (ep_Windows p)\<rparr>
        \<and> w_prot w = filter (\<lambda>q. ep_EnvironmentID q \<noteq> ep_EnvironmentID p) P @ [p])
     (\<lambda>_ w. w_prot w = P)"
proof -
  have rd: "triple (\<lambda>w. w_prot w = P) m (\<lambda>_ w. w_prot w = P) (\<lambda>_ w. w_prot w = P)"
    if "reads m" for m :: "unit op"
    by (rule reads_triple [OF that]) (simp add: at_rest_def)
  have fail: "reads (query n (\<lambda>w. if b w then (Inl e, w) else (Inr (), w)))"
    "reads (query n (\<lambda>w. if b w then (Inr (), w) else (Inl e, w)))" for n b e
    by (rule reads_query, rule readsI, simp)+
  show ?thesis
    unfolding SetEnvironmentProtection_def
    by (rule triple_bnd [OF rd] triple_bnd [OF query_modify_triple] fail reads_query reads_ret
        reads_if triple_ret | simp add: bump_def)+ auto
qed

lemma SetEnvironmentProtection_keeps_valid:
  assumes "valid_document tz p"
  shows "keeps (valid_documents tz) (SetEnvironmentProtection p)"
proof (rule keepsI)
  fix w assume w: "valid_documents tz w"
  obtain r w' where run: "SetEnvironmentProtection p w = (r, w')" by fastforce
  have "set (w_prot w') \<subseteq> insert p (set (w_prot w))"
  proof (cases r)
    case (Inl e)
    from triple_Inl [OF SetEnvironmentProtection_prot refl run [unfolded Inl]] show ?thesis by auto
  next
    case (Inr q)
    from triple_Inr [OF SetEnvironmentProtection_prot refl run [unfolded Inr]] show ?thesis by auto
  qed
  with w assms run show "valid_documents tz (snd (SetEnvironmentProtection p w))"
    by (auto simp: valid_documents_def)
qed

lemma ProtectionSet_keeps_valid:
  "keeps (valid_documents (pc_tz cfg)) (ProtectionSet cfg mint envID inp)"
proof -
  have get: "keeps (valid_documents (pc_tz cfg)) (GetEnvironment envID)"
    by (rule reads_keeps [OF reads_store(3)]) (simp add: valid_documents_def at_rest_def)
  have put: "keeps (valid_documents (pc_tz cfg)) (SetEnvironmentProtection
      \<lparr> ep_EnvironmentID = envID, ep_RequireApproval = doc_RequireApproval inp,
        ep_MinApproverRole = role, ep_FreezeEnabled = doc_FreezeEnabled inp, ep_Windows = ws \<rparr>)"
    if "ValidRole role" "length (doc_Windows inp) \<le> MaxFreezeWindows"
      "build_windows (pc_tz cfg) envID mint 0 (doc_Windows inp) = Inr ws" for role ws
    using that build_windows_valid [OF that(3)]
    by (intro SetEnvironmentProtection_keeps_valid) (simp add: valid_document_def)
  have save: "keeps (valid_documents (pc_tz cfg)) (bnd (lift_error (build_windows (pc_tz cfg) envID mint 0 (doc_Windows inp)))
      (\<lambda>ws. SetEnvironmentProtection
        \<lparr> ep_EnvironmentID = envID, ep_RequireApproval = doc_RequireApproval inp,
          ep_MinApproverRole = role, ep_FreezeEnabled = doc_FreezeEnabled inp, ep_Windows = ws \<rparr>))"
    if "ValidRole role" "length (doc_Windows inp) \<le> MaxFreezeWindows" for role
    using put [OF that]
    by (cases "build_windows (pc_tz cfg) envID mint 0 (doc_Windows inp)")
      (auto simp: lift_error_def intro: tri)
  show ?thesis
    unfolding ProtectionSet_def Let_def
    by (intro keeps_bnd [OF get] keeps_if keeps_throw save) simp_all
qed

section \<open>Properties\<close>


definition frozen_world :: world where
  "frozen_world = \<lparr> w_apps = [], w_revs = [], w_deps = [],
     w_envs = [\<lparr> env_ID = ''env_1'', env_ProjectID = ''prj_1'', env_Name = ''production'',
                 env_Kind = ''standard'', env_CreatedAt = 0, env_UpdatedAt = 0 \<rparr>],
     w_servers = [], w_envvars = [], w_shared = [], w_keys = [], w_tasks = [], w_runs = [],
     w_prot = [\<lparr> ep_EnvironmentID = ''env_1'', ep_RequireApproval = True, ep_MinApproverRole = ''admin'',
                 ep_FreezeEnabled = True, ep_Windows = [weekendFreeze] \<rparr>],
     w_approvals = [], w_grants = [], w_members = [], w_projects = [], w_users = [], w_dbs = [], w_dbrevs = [],
     w_teams = [], w_invites = [], w_requests = [], w_sessions = [], w_inbox = [],
     w_totp = [], w_recovery = [], w_tokens = [], w_changes = [], w_quotas = [], w_quotaStates = [], w_disk = [], w_previews = [], w_stacks = [],
     w_byAddress = None, w_byAccount = None, w_byInvite = None, w_bus = [],
     w_consumers = [], w_events = [], w_now = 216000 * nanos, w_dbnow = 216000 * nanos, w_io = 0,
     w_faults = \<lambda>_. None \<rparr>"

definition utc_protection :: protection_cfg where
  "utc_protection = \<lparr> pc_tz = utc_only, pc_announcer = False \<rparr>"


text \<open>
  When several windows apply at once, the refusal names one that applies now and lifts
  last. (The hypothesis excludes only windows lifting before the year 1.)
\<close>

theorem freezeState_names_last:
  assumes "ep_FreezeEnabled p" and "x \<in> set (ep_Windows p)" and "InWindow tz x now = Inr True"
    and "\<And>y lift. y \<in> set (ep_Windows p) \<Longrightarrow> LiftsAt tz y now = Inr lift \<Longrightarrow> zero_time < lift"
  shows "\<exists>y \<in> set (ep_Windows p). \<exists>lift off. InWindow tz y now = Inr True \<and> LiftsAt tz y now = Inr lift
    \<and> tz (fw_Timezone y) = Some off
    \<and> freezeState tz env p now = (True, FrozenUntil (env_Name env) y off lift)
    \<and> (\<forall>z \<in> set (ep_Windows p). \<forall>l. InWindow tz z now = Inr True \<and> LiftsAt tz z now = Inr l \<longrightarrow> l \<le> lift)"
proof -
  define l where "l = fold (freeze_iter tz env now) (ep_Windows p) freeze_init"
  note latest = freeze_fold_latest [where ws = "ep_Windows p" and tz = tz and env = env and now = now,
      folded l_def]
  obtain lift where lift: "LiftsAt tz x now = Inr lift" using LiftsAt_InWindow [OF assms(3)] by blast
  with assms(2-4) latest have "zero_time < fl_latest l" by fastforce
  with latest obtain y where y: "y \<in> set (ep_Windows p)" "names_window tz env now y (fl_latest l) (fl_detail l)"
    by auto
  have "fl_frozen l" using freeze_fold_frozen [of tz env now "ep_Windows p"] assms(2,3) by (auto simp: l_def)
  then have "freezeState tz env p now = (True, fl_detail l)"
    using assms(1,2) by (auto simp: freezeState_def Let_def l_def)
  moreover obtain off where "InWindow tz y now = Inr True" "LiftsAt tz y now = Inr (fl_latest l)"
    "tz (fw_Timezone y) = Some off" "fl_detail l = FrozenUntil (env_Name env) y off (fl_latest l)"
    using y(2) by (auto simp: names_window_def)
  ultimately show ?thesis using y(1) conjunct1 [OF latest]
    by (intro bexI [of _ y] exI [of _ "fl_latest l"] exI [of _ off] conjI) simp_all
qed

theorem freezeState_names_last_witness:
  "\<exists>y \<in> {weekendFreeze}. \<exists>lift off. LiftsAt utc_only y (216000 * nanos) = Inr lift
    \<and> utc_only (fw_Timezone y) = Some off
    \<and> freezeState utc_only (hd (w_envs frozen_world)) (hd (w_prot frozen_world)) (216000 * nanos)
        = (True, FrozenUntil ''production'' y off lift)"
proof -
  define p where "p = hd (w_prot frozen_world)"
  have p: "ep_FreezeEnabled p" "ep_Windows p = [weekendFreeze]"
    by (simp_all add: p_def frozen_world_def)
  have inside: "InWindow utc_only weekendFreeze (216000 * nanos) = Inr True" by code_simp
  have lift: "LiftsAt utc_only weekendFreeze (216000 * nanos) = Inr (374400 * nanos)" by code_simp
  have name: "env_Name (hd (w_envs frozen_world)) = ''production''" by (simp add: frozen_world_def)
  show ?thesis
    using freezeState_names_last [of p weekendFreeze utc_only "216000 * nanos" "hd (w_envs frozen_world)"]
      p inside lift name
    by (simp add: p_def [symmetric] zero_time_def nanos_def)
qed

text \<open>
  Setting a protection document keeps every stored document valid: its role is one of the
  three, it has at most eight windows, each within the week, not empty, and in a time zone that
  loads. A refused document leaves the stored policies as they were.
\<close>

theorem ProtectionSet_valid:
  assumes "valid_documents (pc_tz cfg) w" and "ProtectionSet cfg mint envID inp w = (r, w')"
  shows "valid_documents (pc_tz cfg) w' \<and> (\<forall>e. r = Inl e \<longrightarrow> w_prot w' = w_prot w)"
proof -
  have get: "triple (\<lambda>x. w_prot x = w_prot w) (GetEnvironment envID)
      (\<lambda>_ x. w_prot x = w_prot w) (\<lambda>_ x. w_prot x = w_prot w)"
    by (rule reads_triple [OF reads_store(3)]) (simp add: at_rest_def)
  have put: "triple (\<lambda>x. w_prot x = w_prot w) (SetEnvironmentProtection p) (\<lambda>_ _. True)
      (\<lambda>_ x. w_prot x = w_prot w)" for p
    by (rule triple_conseq [OF SetEnvironmentProtection_prot [of "w_prot w" p]]) simp_all
  have raise: "triple P (if b then throw e else m) Q E"
    if "\<And>x. P x \<Longrightarrow> E e x" "triple P m Q E" for P b e Q E and m :: "environmentProtection op"
    using that by (simp add: triple_throw)
  have build: "triple P (bnd (lift_error s) f) Q E"
    if "\<And>e x. P x \<Longrightarrow> E e x" "\<And>ws. triple P (f ws) Q E"
    for P s Q E and f :: "freezeWindow list \<Rightarrow> environmentProtection op"
    using that by (cases s) (simp_all add: lift_error_def triple_throw)
  have t: "triple (\<lambda>x. w_prot x = w_prot w) (ProtectionSet cfg mint envID inp) (\<lambda>_ _. True)
      (\<lambda>_ x. w_prot x = w_prot w)"
    unfolding ProtectionSet_def Let_def by (intro triple_bnd [OF get] raise build put)
  have "w_prot w' = w_prot w" if "r = Inl e" for e
    by (rule triple_Inl [OF t refl assms(2) [unfolded that]])
  with keeps_run [OF ProtectionSet_keeps_valid assms] show ?thesis by blast
qed

theorem ProtectionSet_valid_witness:
  "\<exists>p w'. ProtectionSet utc_protection (\<lambda>i. ''frz_'' @ dec i) ''env_1''
     \<lparr> doc_RequireApproval = True, doc_MinApproverRole = [], doc_FreezeEnabled = True,
       doc_Windows = [\<lparr> wi_StartDOW = 5, wi_StartMinute = 1080, wi_EndDOW = 1, wi_EndMinute = 480,
                        wi_Timezone = ''UTC'' \<rparr>] \<rparr> frozen_world = (Inr p, w')
     \<and> ep_MinApproverRole p = ''owner'' \<and> valid_documents utc_only w'"
proof -
  define inp where "inp = \<lparr> doc_RequireApproval = True, doc_MinApproverRole = [], doc_FreezeEnabled = True,
       doc_Windows = [\<lparr> wi_StartDOW = 5, wi_StartMinute = 1080, wi_EndDOW = 1, wi_EndMinute = 480,
                        wi_Timezone = ''UTC'' \<rparr>] \<rparr>"
  have valid: "valid_documents (pc_tz utc_protection) frozen_world" by code_simp
  have r: "(case fst (ProtectionSet utc_protection (\<lambda>i. ''frz_'' @ dec i) ''env_1'' inp frozen_world) of
      Inl _ \<Rightarrow> False | Inr p \<Rightarrow> ep_MinApproverRole p = ''owner'')"
    unfolding inp_def by code_simp
  obtain res w' where run: "ProtectionSet utc_protection (\<lambda>i. ''frz_'' @ dec i) ''env_1'' inp frozen_world = (res, w')"
    by fastforce
  with r obtain p where p: "res = Inr p" "ep_MinApproverRole p = ''owner''" by (cases res) auto
  have "valid_documents utc_only w'"
    using ProtectionSet_valid [OF valid run] by (simp add: utc_protection_def)
  with run p show ?thesis unfolding inp_def by blast
qed

text \<open>
  Two-person rule where two people exist: the guard lets the requester decide their
  own deploy only when no other member of the project's team ranks at or above the required role,
  and it refuses with the self-approval error only when another one does.
\<close>

theorem guardSelfApproval_two_person:
  assumes "da_RequestedBy ap \<noteq> []" and "da_RequestedBy ap = usr_ID actor"
    and "env_row w (da_EnvironmentID ap) = Some env"
  defines "other m \<equiv> (env_ProjectID env, tmb_TeamID m) \<in> set (w_projects w)
      \<and> tmb_UserID m \<noteq> usr_ID actor \<and> RoleRank (tmb_Role m) \<ge> RoleRank (da_RequiredRole ap)"
  shows "(fst (guardSelfApproval ap actor w) = Inr () \<longrightarrow> (\<forall>m \<in> set (w_members w). \<not> other m))
    \<and> (fst (guardSelfApproval ap actor w) = Inl ErrSelfApproval \<longrightarrow> (\<exists>m \<in> set (w_members w). other m))"
proof -
  have find: "List.find (\<lambda>e. env_ID e = da_EnvironmentID ap) (w_envs w) = Some env"
    using assms(3) by (simp add: env_row_def)
  have pr: "(\<exists>p \<in> set (w_projects w). fst p = a \<and> snd p = b) \<longleftrightarrow> (a, b) \<in> set (w_projects w)" for a b
    by force
  show ?thesis
    using assms(1,2) find
    by (auto simp: guardSelfApproval_def GetEnvironment_def CountQualifiedApprovers_def query_def runs
        io_run one_row_def bump_def other_def pr filter_empty_conv split: option.splits if_splits)
qed

definition plain_user :: "string \<Rightarrow> user" where
  "plain_user i = \<lparr> usr_ID = i, usr_Email = [], usr_PasswordHash = [], usr_Role = ''member'', usr_DisplayName = [],
     usr_Timezone = [], usr_TOTPEnabled = False \<rparr>"

definition solo_world :: world where
  "solo_world = frozen_world\<lparr>w_projects := [(''prj_1'', ''team_1'')],
     w_members := [\<lparr> tmb_TeamID = ''team_1'', tmb_UserID = ''usr_1'', tmb_Role = ''owner'' \<rparr>,
                   \<lparr> tmb_TeamID = ''team_1'', tmb_UserID = ''usr_2'', tmb_Role = ''member'' \<rparr>]\<rparr>"

definition solo_approval :: deployApproval where
  "solo_approval = \<lparr> da_DeploymentID = ''dpl_1'', da_EnvironmentID = ''env_1'', da_RequestedBy = ''usr_1'',
     da_RequestedByEmail = [], da_RequiredRole = ''admin'', da_State = ''pending'', da_DecidedBy = [],
     da_DecidedByEmail = [], da_DecidedAt = None, da_Reason = [] \<rparr>"

theorem guardSelfApproval_two_person_witness:
  "fst (guardSelfApproval solo_approval (plain_user ''usr_1'') solo_world) = Inr ()
   \<and> RoleRank (tmb_Role (w_members solo_world ! 1)) < RoleRank (da_RequiredRole solo_approval)"
proof -
  have r: "fst (guardSelfApproval solo_approval (plain_user ''usr_1'') solo_world) = Inr ()"
    by code_simp
  have env: "env_row solo_world (da_EnvironmentID solo_approval) = Some (hd (w_envs frozen_world))"
    by code_simp
  define m where "m = w_members solo_world ! 1"
  have m: "m \<in> set (w_members solo_world)" "tmb_UserID m \<noteq> ''usr_1''"
    "(env_ProjectID (hd (w_envs frozen_world)), tmb_TeamID m) \<in> set (w_projects solo_world)"
    by (simp_all add: m_def solo_world_def frozen_world_def)
  have "\<not> RoleRank (da_RequiredRole solo_approval) \<le> RoleRank (tmb_Role m)"
    using guardSelfApproval_two_person [of solo_approval "plain_user ''usr_1''", OF _ _ env] r m
    by (auto simp: solo_approval_def plain_user_def)
  with r show ?thesis by (simp add: m_def)
qed

text \<open>
  Opening break glass records exactly one grant, for the caller, which lapses thirty
  minutes later; its reason is trimmed, not empty, at most 500 characters and a single line. No
  other table changes, and an error records nothing.
\<close>

theorem OpenBreakGlass_bounded:
  assumes "OpenBreakGlass newID envID actor reason w = (r, w')"
  shows "case r of
      Inl e \<Rightarrow> at_rest w' = at_rest w
    | Inr g \<Rightarrow> at_rest w' = at_rest (w\<lparr>w_grants := w_grants w @ [g\<lparr>bg_OpenedByEmail := []\<rparr>]\<rparr>)
        \<and> bg_ExpiresAt g = w_now w + 30 * 60 * nanos \<and> bg_OpenedBy g = usr_ID actor
        \<and> bg_EnvironmentID g = envID \<and> bg_Reason g = trim_space reason \<and> bg_Reason g \<noteq> []
        \<and> rune_count (bg_Reason g) \<le> 500 \<and> (\<forall>c \<in> set (bg_Reason g). 32 \<le> (of_char c :: nat))"
proof (cases "validateReason (trim_space reason) MaxBreakGlassReason ''reason''")
  case (Some e)
  with assms show ?thesis by (auto simp: OpenBreakGlass_def Let_def)
next
  case None
  note ok = None [unfolded validateReason_def MaxBreakGlassReason_def]
  show ?thesis
    using assms None ok
    by (auto simp: OpenBreakGlass_def Let_def GetEnvironment_def CreateBreakGlassGrant_def query_def runs
        io_run one_row_def now_op_def bump_def at_rest_def BreakGlassTTL_def nanos_def not_less
        split: option.splits if_splits)
qed

theorem OpenBreakGlass_bounded_witness:
  "\<exists>g w'. OpenBreakGlass ''bgg_1'' ''env_1'' ((plain_user [])\<lparr>usr_Email := ''a@b''\<rparr>) '' outage '' frozen_world = (Inr g, w')
     \<and> bg_ExpiresAt g = w_now frozen_world + 30 * 60 * nanos \<and> bg_Reason g = ''outage''"
proof -
  define R where "R = OpenBreakGlass ''bgg_1'' ''env_1'' ((plain_user [])\<lparr>usr_Email := ''a@b''\<rparr>) '' outage '' frozen_world"
  have ok: "(case fst R of Inl _ \<Rightarrow> False | Inr g \<Rightarrow> bg_Reason g = ''outage'')"
    unfolding R_def by code_simp
  obtain r w' where run: "R = (r, w')" by fastforce
  with ok obtain g where g: "r = Inr g" "bg_Reason g = ''outage''" by (cases r) auto
  from OpenBreakGlass_bounded [OF run [unfolded R_def]] g run show ?thesis unfolding R_def by auto
qed

end
