(* ===== verification/Shared_Vars.thy ===== *)
theory Shared_Vars
  imports Domain
begin

text \<open>
  The reference grammar of shared variables (\<open>src/core/sharedvars/refs.go\<close>): \<open>Refs\<close> validates and
  lists the references of a value on write, \<open>Expand\<close> substitutes them when a spec is built.

  Both are loops over a cursor into the value, modelled as such. The abstract side is a parse of
  the value into literals and references (\<open>segments\<close>): the value is the rendering of its
  segments, \<open>Refs\<close> is the set of their keys and \<open>Expand\<close> their one-level substitution.
\<close>

definition open_seq :: string where "open_seq = ''{{''"
definition close_seq :: string where "close_seq = ''}}''"
definition ref_prefix :: string where "ref_prefix = ''shared.''"
definition MaxReferences :: nat where "MaxReferences = 16"
definition maxExpandedBytes :: nat where "maxExpandedBytes = 2 * 1048576"

lemmas ref_tokens = open_seq_def close_seq_def ref_prefix_def

text \<open>The charset \<open>[A-Za-z_][A-Za-z0-9_]*\<close>.\<close>

definition key_head :: "char \<Rightarrow> bool" where
  "key_head c \<longleftrightarrow> (let n = of_char c :: nat in (65 \<le> n \<and> n \<le> 90) \<or> (97 \<le> n \<and> n \<le> 122) \<or> n = 95)"

definition key_tail :: "char \<Rightarrow> bool" where
  "key_tail c \<longleftrightarrow> key_head c \<or> (let n = of_char c :: nat in 48 \<le> n \<and> n \<le> 57)"

definition ValidKey :: "string \<Rightarrow> bool" where
  "ValidKey k = (case k of [] \<Rightarrow> False | c # cs \<Rightarrow> key_head c \<and> list_all key_tail cs)"

definition ContainsReference :: "string \<Rightarrow> bool" where
  "ContainsReference v = contains v (open_seq @ ref_prefix)"

definition reference :: "string \<Rightarrow> string option" where
  "reference s =
     (if has_prefix ref_prefix s \<and> ValidKey (drop (length ref_prefix) s)
      then Some (drop (length ref_prefix) s) else None)"

definition scan :: "string \<Rightarrow> nat \<Rightarrow> error + (string \<times> nat)" where
  "scan v start =
     (let rest = drop (start + length open_seq) v in
      case index_of close_seq rest of
        None \<Rightarrow> Inl ErrMalformedReference
      | Some e \<Rightarrow>
          (case reference (take e rest) of
             None \<Rightarrow> Inl ErrMalformedReference
           | Some k \<Rightarrow> Inr (k, start + length open_seq + e + length close_seq)))"

lemma scan_bounds: "scan v start = Inr (k, n) \<Longrightarrow> start < n \<and> n \<le> length v"
  by (auto simp: scan_def Let_def ref_tokens split: option.splits dest!: index_of_Some_length)

function refs_loop :: "string \<Rightarrow> nat \<Rightarrow> nat \<Rightarrow> string list \<Rightarrow> error + string list" where
  "refs_loop v i found out =
     (case index_of open_seq (drop i v) of
        None \<Rightarrow> Inr out
      | Some rel \<Rightarrow>
          (case scan v (i + rel) of
             Inl e \<Rightarrow> Inl e
           | Inr (inner, next) \<Rightarrow>
               if found + 1 > MaxReferences then Inl ErrTooManyReferences
               else refs_loop v next (found + 1) (if inner \<in> set out then out else out @ [inner])))"
  by pat_completeness auto
termination
  by (relation "measure (\<lambda>(v, i, _). length v - i)") (auto dest!: scan_bounds)

definition Refs :: "string \<Rightarrow> error + string list" where
  "Refs v = refs_loop v 0 0 []"

function expand_loop :: "string \<Rightarrow> (string \<rightharpoonup> string) \<Rightarrow> nat \<Rightarrow> string \<Rightarrow> error + string" where
  "expand_loop v vals i b =
     (case index_of open_seq (drop i v) of
        None \<Rightarrow>
          (let b = b @ drop i v in
           if length b > maxExpandedBytes then Inl ErrExpansionTooLarge else Inr b)
      | Some rel \<Rightarrow>
          (let start = i + rel; b = b @ take rel (drop i v) in
           case scan v start of
             Inl e \<Rightarrow> Inl e
           | Inr (inner, next) \<Rightarrow>
               (case vals inner of
                  None \<Rightarrow> Inl (MissingReferenceError inner)
                | Some x \<Rightarrow>
                    (let b = b @ x in
                     if length b > maxExpandedBytes then Inl ErrExpansionTooLarge
                     else expand_loop v vals next b))))"
  by pat_completeness auto
termination
  by (relation "measure (\<lambda>(v, _, i, _). length v - i)") (auto dest!: scan_bounds)

definition Expand :: "string \<Rightarrow> (string \<rightharpoonup> string) \<Rightarrow> error + string" where
  "Expand v vals = expand_loop v vals 0 []"

declare refs_loop.simps [simp del] expand_loop.simps [simp del]

section \<open>Segments\<close>

datatype segment = Lit string | Ref string

function segments_from :: "string \<Rightarrow> nat \<Rightarrow> error + segment list" where
  "segments_from v i =
     (case index_of open_seq (drop i v) of
        None \<Rightarrow> Inr [Lit (drop i v)]
      | Some rel \<Rightarrow>
          (case scan v (i + rel) of
             Inl e \<Rightarrow> Inl e
           | Inr (inner, next) \<Rightarrow>
               (case segments_from v next of
                  Inl e \<Rightarrow> Inl e
                | Inr ss \<Rightarrow> Inr (Lit (take rel (drop i v)) # Ref inner # ss))))"
  by pat_completeness auto
termination
  by (relation "measure (\<lambda>(v, i). length v - i)") (auto dest!: scan_bounds)

declare segments_from.simps [simp del]

definition segments :: "string \<Rightarrow> error + segment list" where
  "segments v = segments_from v 0"

fun render :: "segment \<Rightarrow> string" where
  "render (Lit s) = s"
| "render (Ref k) = open_seq @ ref_prefix @ k @ close_seq"

fun ref_keys :: "segment list \<Rightarrow> string list" where
  "ref_keys [] = []"
| "ref_keys (Lit _ # ss) = ref_keys ss"
| "ref_keys (Ref k # ss) = k # ref_keys ss"

fun substitute :: "(string \<rightharpoonup> string) \<Rightarrow> segment list \<Rightarrow> string" where
  "substitute vals [] = []"
| "substitute vals (Lit s # ss) = s @ substitute vals ss"
| "substitute vals (Ref k # ss) = (case vals k of None \<Rightarrow> [] | Some x \<Rightarrow> x) @ substitute vals ss"

text \<open>The distinct keys in first-seen order, added to those seen before.\<close>

fun first_seen :: "string list \<Rightarrow> string list \<Rightarrow> string list" where
  "first_seen out [] = out"
| "first_seen out (k # ks) = first_seen (if k \<in> set out then out else out @ [k]) ks"

lemma set_first_seen: "set (first_seen out ks) = set out \<union> set ks"
  by (induction out ks rule: first_seen.induct) auto

lemma distinct_first_seen: "distinct out \<Longrightarrow> distinct (first_seen out ks)"
  by (induction out ks rule: first_seen.induct) auto

lemma reference_Some: "reference s = Some k \<longleftrightarrow> s = ref_prefix @ k \<and> ValidKey k"
  by (auto simp: reference_def has_prefix_iff)

text \<open>A scan reads exactly the rendering of the reference it returns.\<close>

lemma scan_render:
  assumes at: "has_prefix open_seq (drop start v)" and "scan v start = Inr (k, n)"
  shows "drop start v = render (Ref k) @ drop n v" and "ValidKey k"
proof -
  define rest where "rest = drop (start + length open_seq) v"
  obtain e where e: "index_of close_seq rest = Some e" "reference (take e rest) = Some k"
      "n = start + length open_seq + e + length close_seq"
    using assms(2) by (auto simp: scan_def rest_def Let_def split: option.splits)
  show "ValidKey k" using e(2) by (simp add: reference_Some)
  have "drop start v = open_seq @ rest"
    using at unfolding rest_def has_prefix_iff by (metis add.commute append_eq_conv_conj drop_drop)
  also have "rest = take e rest @ drop e rest" by simp
  also have "take e rest = ref_prefix @ k" using e(2) by (simp add: reference_Some)
  also have "drop e rest = close_seq @ drop (e + length close_seq) rest"
    using index_of_Some [OF e(1)] unfolding has_prefix_iff
    by (metis add.commute append_eq_conv_conj drop_drop)
  also have "drop (e + length close_seq) rest = drop n v"
    by (simp add: rest_def e(3) add.assoc add.commute add.left_commute)
  finally show "drop start v = render (Ref k) @ drop n v" by simp
qed

lemma segments_from_render:
  "segments_from v i = Inr ss \<Longrightarrow> concat (map render ss) = drop i v
     \<and> (\<forall>s. Lit s \<in> set ss \<longrightarrow> \<not> ContainsReference s) \<and> (\<forall>k. Ref k \<in> set ss \<longrightarrow> ValidKey k)"
proof (induction v i arbitrary: ss rule: segments_from.induct)
  case (1 v i)
  have no_ref: "\<not> ContainsReference s" if "\<not> contains s open_seq" for s
    using that by (auto simp: ContainsReference_def contains_iff)
  show ?case
  proof (cases "index_of open_seq (drop i v)")
    case None
    then have "\<not> contains (drop i v) open_seq" by (simp add: contains_def)
    with None "1.prems" show ?thesis by (auto simp: segments_from.simps [of v i] dest: no_ref)
  next
    case (Some rel)
    with "1.prems" obtain k n tl where sc: "scan v (i + rel) = Inr (k, n)"
      and tl: "segments_from v n = Inr tl" and ss: "ss = Lit (take rel (drop i v)) # Ref k # tl"
      by (auto simp: segments_from.simps [of v i] split: sum.splits prod.splits)
    note IH = "1.IH" [OF Some sc refl tl]
    have pre: "has_prefix open_seq (drop (i + rel) v)"
      using index_of_Some [OF Some] by (simp add: add.commute)
    have "drop i v = take rel (drop i v) @ drop (i + rel) v"
      by (metis add.commute append_take_drop_id drop_drop)
    then have "concat (map render ss) = drop i v"
      using IH scan_render(1) [OF pre sc] by (simp add: ss)
    moreover have "\<not> contains (take rel (drop i v)) open_seq"
      by (rule index_of_take [OF Some]) (simp add: open_seq_def)
    ultimately show ?thesis using IH scan_render(2) [OF pre sc] by (auto simp: ss no_ref)
  qed
qed

text \<open>The two loops against the parse.\<close>

lemma refs_loop_segments:
  "found \<le> MaxReferences \<Longrightarrow> segments_from v i = Inr ss \<Longrightarrow> refs_loop v i found out =
     (if found + length (ref_keys ss) > MaxReferences then Inl ErrTooManyReferences
      else Inr (first_seen out (ref_keys ss)))"
proof (induction v i found out arbitrary: ss rule: refs_loop.induct)
  case (1 v i found out)
  show ?case
  proof (cases "index_of open_seq (drop i v)")
    case None
    with "1.prems" show ?thesis
      by (auto simp: segments_from.simps [of v i] refs_loop.simps [of v i])
  next
    case (Some rel)
    with "1.prems" obtain k n tl where sc: "scan v (i + rel) = Inr (k, n)"
      and tl: "segments_from v n = Inr tl" and ss: "ss = Lit (take rel (drop i v)) # Ref k # tl"
      by (auto simp: segments_from.simps [of v i] split: sum.splits prod.splits)
    show ?thesis
    proof (cases "found + 1 > MaxReferences")
      case True
      with Some sc ss show ?thesis by (simp add: refs_loop.simps [of v i])
    next
      case False
      with "1.IH" [OF Some sc refl False _ tl] Some sc ss show ?thesis
        by (simp add: refs_loop.simps [of v i found out])
    qed
  qed
qed

lemma refs_loop_Inr: "refs_loop v i found out = Inr ks \<Longrightarrow> \<exists>ss. segments_from v i = Inr ss"
proof (induction v i found out rule: refs_loop.induct)
  case (1 v i found out)
  show ?case
  proof (cases "index_of open_seq (drop i v)")
    case None
    then show ?thesis by (simp add: segments_from.simps [of v i])
  next
    case (Some rel)
    show ?thesis
    proof (cases "scan v (i + rel)")
      case (Inl e)
      with Some "1.prems" show ?thesis by (simp add: refs_loop.simps [of v i])
    next
      case (Inr kn)
      obtain k n where kn: "kn = (k, n)" by fastforce
      from "1.prems" Some Inr kn have few: "\<not> found + 1 > MaxReferences"
        and run: "refs_loop v n (found + 1) (if k \<in> set out then out else out @ [k]) = Inr ks"
        by (simp_all add: refs_loop.simps [of v i] split: if_splits)
      from "1.IH" [OF Some Inr kn [symmetric] few run] Some Inr kn show ?thesis
        by (auto simp: segments_from.simps [of v i])
    qed
  qed
qed

lemma expand_loop_Inr_iff: "expand_loop v vals i b = Inr out \<longleftrightarrow>
   (\<exists>ss. segments_from v i = Inr ss \<and> set (ref_keys ss) \<subseteq> dom vals
      \<and> out = b @ substitute vals ss \<and> length out \<le> maxExpandedBytes)"
proof (induction v vals i b rule: expand_loop.induct)
  case (1 v vals i b)
  show ?case
  proof (cases "index_of open_seq (drop i v)")
    case None
    then show ?thesis
      by (auto simp: segments_from.simps [of v i] expand_loop.simps [of v vals i] Let_def)
  next
    case (Some rel)
    show ?thesis
    proof (cases "scan v (i + rel)")
      case (Inl e)
      with Some show ?thesis by (simp add: segments_from.simps [of v i] expand_loop.simps [of v vals i])
    next
      case (Inr kn)
      obtain k n where kn: "kn = (k, n)" by fastforce
      show ?thesis
      proof (cases "vals k")
        case None
        with Some Inr kn show ?thesis
          by (auto simp: segments_from.simps [of v i] expand_loop.simps [of v vals i] domIff split: sum.splits)
      next
        case (Some x)
        define b' where "b' = b @ take rel (drop i v) @ x"
        have IH: "\<not> length b' > maxExpandedBytes \<Longrightarrow> expand_loop v vals n b' = Inr out \<longleftrightarrow>
            (\<exists>ss. segments_from v n = Inr ss \<and> set (ref_keys ss) \<subseteq> dom vals
              \<and> out = b' @ substitute vals ss \<and> length out \<le> maxExpandedBytes)"
          using "1.IH" [OF \<open>index_of open_seq (drop i v) = Some rel\<close> refl refl Inr kn [symmetric] Some refl]
          by (simp add: b'_def)
        have run: "expand_loop v vals i b =
            (if length b' > maxExpandedBytes then Inl ErrExpansionTooLarge else expand_loop v vals n b')"
          using \<open>index_of open_seq (drop i v) = Some rel\<close> Inr kn Some
          by (simp add: expand_loop.simps [of v vals i] Let_def b'_def)
        have seg: "segments_from v i = (case segments_from v n of Inl e \<Rightarrow> Inl e
            | Inr ss \<Rightarrow> Inr (Lit (take rel (drop i v)) # Ref k # ss))"
          using \<open>index_of open_seq (drop i v) = Some rel\<close> Inr kn by (simp add: segments_from.simps [of v i])
        show ?thesis
          using IH Some unfolding run seg by (auto simp: b'_def split: sum.splits)
      qed
    qed
  qed
qed

section \<open>Properties\<close>

lemma length_substitute:
  assumes "\<And>k x. k \<in> set (ref_keys ss) \<Longrightarrow> vals k = Some x \<Longrightarrow> length x \<le> m"
  shows "length (substitute vals ss) \<le> length (concat (map render ss)) + length (ref_keys ss) * m"
  using assms
proof (induction ss rule: ref_keys.induct)
  case (3 k ss)
  have "length (case vals k of None \<Rightarrow> [] | Some x \<Rightarrow> x) \<le> m"
    using "3.prems" by (auto split: option.split)
  moreover have "length (substitute vals ss) \<le> length (concat (map render ss)) + length (ref_keys ss) * m"
    by (rule "3.IH") (use "3.prems" in auto)
  ultimately show ?case by simp
qed auto

text \<open>
  C10. \<open>Expand\<close> is one-level substitution. It returns a text exactly when the value parses
  into literals and well-formed references (whose rendering is the value itself, the literals
  containing no reference), every referenced key is defined and the result is within two
  mebibytes; the text is then the literals with each reference replaced by its value, verbatim.
\<close>

theorem Expand_substitutes:
  "Expand v vals = Inr out \<longleftrightarrow>
   (\<exists>ss. segments v = Inr ss \<and> concat (map render ss) = v \<and> (\<forall>s. Lit s \<notin> set ss \<or> \<not> ContainsReference s)
      \<and> set (ref_keys ss) \<subseteq> dom vals \<and> out = substitute vals ss \<and> length out \<le> 2 * 1048576)"
proof -
  have "concat (map render ss) = v \<and> (\<forall>s. Lit s \<notin> set ss \<or> \<not> ContainsReference s)"
    if "segments v = Inr ss" for ss
    using segments_from_render [of v 0 ss] that by (auto simp: segments_def)
  then show ?thesis
    unfolding Expand_def expand_loop_Inr_iff segments_def maxExpandedBytes_def by auto
qed

theorem Expand_substitutes_witness:
  "Expand ''db://{{shared.USER}}:{{shared.HOST}}/'' [''USER'' \<mapsto> ''{{shared.HOST}}'', ''HOST'' \<mapsto> ''h'']
     = Inr ''db://{{shared.HOST}}:h/''"
proof -
  have "segments ''db://{{shared.USER}}:{{shared.HOST}}/'' =
    Inr [Lit ''db://'', Ref ''USER'', Lit '':'', Ref ''HOST'', Lit ''/'']" by code_simp
  moreover have "\<not> ContainsReference ''db://''" "\<not> ContainsReference '':''" "\<not> ContainsReference ''/''"
    by code_simp+
  ultimately show ?thesis unfolding Expand_substitutes by (auto simp: ref_tokens)
qed

text \<open>
  \<open>Refs\<close> accepts exactly the values that parse with at most sixteen occurrences of a
  reference, and lists their keys without repetition, in first-seen order.
\<close>

theorem Refs_lists_keys:
  "Refs v = Inr ks \<longleftrightarrow> (\<exists>ss. segments v = Inr ss \<and> length (ref_keys ss) \<le> 16
      \<and> ks = first_seen [] (ref_keys ss) \<and> distinct ks \<and> set ks = set (ref_keys ss))"
proof -
  have "distinct (first_seen [] xs)" "set (first_seen [] xs) = set xs" for xs
    using distinct_first_seen set_first_seen [of "[]" xs] by auto
  then show ?thesis
    using refs_loop_Inr [of v 0 0 "[]" ks] refs_loop_segments [of 0 v 0 _ "[]"]
    unfolding Refs_def segments_def MaxReferences_def by (fastforce split: if_splits)
qed

text \<open>
  The writer and the resolver cannot drift: a value accepted on write, under the request
  size limit of one mebibyte, expands as soon as every key it listed is defined with a value of at
  most 32 KiB; and if one is missing, expansion fails with an error instead.
\<close>

theorem Refs_then_Expand:
  assumes "Refs v = Inr ks" and "length v \<le> 1048576"
    and "\<And>k x. k \<in> set ks \<Longrightarrow> vals k = Some x \<Longrightarrow> length x \<le> 32768"
  shows "(\<exists>out. Expand v vals = Inr out) \<longleftrightarrow> set ks \<subseteq> dom vals"
proof -
  obtain ss where ss: "segments_from v 0 = Inr ss" using refs_loop_Inr [OF assms(1) [unfolded Refs_def]] by blast
  with assms(1) have n: "length (ref_keys ss) \<le> 16" and ks: "set ks = set (ref_keys ss)"
    using refs_loop_segments [OF _ ss, of 0 "[]"] set_first_seen [of "[]" "ref_keys ss"]
    by (auto simp: Refs_def MaxReferences_def split: if_splits)
  have "length (substitute vals ss) \<le> length v + length (ref_keys ss) * 32768"
    using length_substitute [of ss vals 32768] assms(3) ks segments_from_render [OF ss] by simp
  also have "\<dots> \<le> 1048576 + 16 * 32768" using assms(2) n by (intro add_mono mult_right_mono) auto
  finally have "length (substitute vals ss) \<le> maxExpandedBytes" by (simp add: maxExpandedBytes_def)
  then show ?thesis unfolding Expand_def expand_loop_Inr_iff using ss ks by auto
qed

theorem Refs_then_Expand_witness:
  "(\<exists>out. Expand ''{{shared.A}}-{{shared.A}}'' [''A'' \<mapsto> ''x''] = Inr out)
   \<and> \<not> (\<exists>out. Expand ''{{shared.A}}-{{shared.A}}'' Map.empty = Inr out)"
proof -
  have r: "Refs ''{{shared.A}}-{{shared.A}}'' = Inr [''A'']" by code_simp
  have "length x \<le> 32768" if "[''A'' \<mapsto> ''x''] k = Some x" for k x using that by (auto split: if_splits)
  with Refs_then_Expand [OF r, of "[''A'' \<mapsto> ''x'']"] Refs_then_Expand [OF r, of Map.empty]
  show ?thesis by simp
qed

end
