(* ===== verification/Subjects.thy ===== *)
theory Subjects
  imports Domain
begin

text \<open>
  The subject vocabulary (\<open>src/pkg/subjects/subjects.go\<close>): every subject carries, as its second
  token, the id of the server it belongs to.
\<close>

definition StatePrefix :: string where "StatePrefix = ''state.''"
definition WorkPrefix :: string where "WorkPrefix = ''work.''"
definition LogsPrefix :: string where "LogsPrefix = ''logs.''"

definition Heartbeat :: "string \<Rightarrow> string" where "Heartbeat sid = StatePrefix @ sid @ ''.heartbeat''"
definition StateForServer :: "string \<Rightarrow> string" where "StateForServer sid = StatePrefix @ sid @ ''.>''"
definition WorkForServer :: "string \<Rightarrow> string" where "WorkForServer sid = WorkPrefix @ sid @ ''.>''"
definition LogsForServer :: "string \<Rightarrow> string" where "LogsForServer sid = LogsPrefix @ sid @ ''.>''"

definition BuildLog :: "string \<Rightarrow> string \<Rightarrow> string" where
  "BuildLog sid deploymentID = LogsPrefix @ sid @ ''.build.'' @ deploymentID"
definition RuntimeLog :: "string \<Rightarrow> string \<Rightarrow> string" where
  "RuntimeLog sid appID = LogsPrefix @ sid @ ''.runtime.'' @ appID"

definition Rollout :: "string \<Rightarrow> string" where "Rollout sid = WorkPrefix @ sid @ ''.rollout''"
definition Remove :: "string \<Rightarrow> string" where "Remove sid = WorkPrefix @ sid @ ''.remove''"
definition Build :: "string \<Rightarrow> string" where "Build sid = WorkPrefix @ sid @ ''.build''"
definition Converge :: "string \<Rightarrow> string" where "Converge sid = WorkPrefix @ sid @ ''.converge''"
definition Resync :: "string \<Rightarrow> string" where "Resync sid = WorkPrefix @ sid @ ''.resync''"
definition PushImage :: "string \<Rightarrow> string" where "PushImage sid = WorkPrefix @ sid @ ''.push''"
definition Distribute :: "string \<Rightarrow> string" where "Distribute sid = WorkPrefix @ sid @ ''.distribute''"

definition DbProvision :: "string \<Rightarrow> string" where "DbProvision sid = WorkPrefix @ sid @ ''.db.provision''"
definition DbRemove :: "string \<Rightarrow> string" where "DbRemove sid = WorkPrefix @ sid @ ''.db.remove''"

definition DeployState :: "string \<Rightarrow> string" where "DeployState sid = StatePrefix @ sid @ ''.deploy''"
definition AppState :: "string \<Rightarrow> string \<Rightarrow> string" where
  "AppState sid appID = StatePrefix @ sid @ ''.app.'' @ appID"
definition Sync :: "string \<Rightarrow> string" where "Sync sid = StatePrefix @ sid @ ''.sync''"
definition TaskState :: "string \<Rightarrow> string" where "TaskState sid = StatePrefix @ sid @ ''.task''"

definition InboxPrefix :: "string \<Rightarrow> string" where "InboxPrefix sid = ''_INBOX_'' @ sid"
definition InboxForServer :: "string \<Rightarrow> string" where "InboxForServer sid = InboxPrefix sid @ ''.>''"

definition WorkConsumer :: "string \<Rightarrow> string" where "WorkConsumer sid = ''wrk-'' @ sid"
definition WorkConsumerInfo :: "string \<Rightarrow> string" where
  "WorkConsumerInfo sid = ''$JS.API.CONSUMER.INFO.WORK.'' @ WorkConsumer sid"
definition WorkConsumerNext :: "string \<Rightarrow> string" where
  "WorkConsumerNext sid = ''$JS.API.CONSUMER.MSG.NEXT.WORK.'' @ WorkConsumer sid"
definition WorkConsumerAck :: "string \<Rightarrow> string" where
  "WorkConsumerAck sid = ''$JS.ACK.WORK.'' @ WorkConsumer sid @ ''.>''"

lemmas work_subjects =
  Rollout_def Remove_def Build_def Converge_def Resync_def PushImage_def Distribute_def
  DbProvision_def DbRemove_def

text \<open>An id that is one subject token.\<close>

definition token_id :: "string \<Rightarrow> bool" where
  "token_id s \<longleftrightarrow> s \<noteq> [] \<and> CHR ''.'' \<notin> set s"

text \<open>The part before the first dot is determined by the subject.\<close>

lemma dotless_split:
  assumes "a @ ''.'' @ x = b @ ''.'' @ y" and "CHR ''.'' \<notin> set a" and "CHR ''.'' \<notin> set b"
  shows "a = b \<and> x = y"
  using assms
proof (induction a arbitrary: b)
  case Nil
  then show ?case by (cases b) auto
next
  case (Cons c a)
  then show ?case by (cases b) auto
qed

lemma dotless_dot: "a @ ''.'' @ x = b \<Longrightarrow> CHR ''.'' \<in> set b"
  by auto

end
