(* ===== verification/Sched_Spec.thy ===== *)
theory Sched_Spec
  imports Protection Shared_Vars Subjects
begin

text \<open>
  What the scheduler computes before it publishes (\<open>src/core/scheduler/scheduler.go\<close>): the builder a
  deployment is routed to, the application's resolved environment, the work items and the specs.

  The scheduler's fields are the record \<open>sched_cfg\<close>. Collaborators outside the modelled part that
  only answer questions (DNS ownership, registry credentials, GitHub clone tokens, the sealing key)
  are functions of the state they may look at; \<open>None\<close> is a nil field. The gate is a pair of operations,
  and the quota gate an operation from a project, so that they may write; the scheduler asks the quota
  gate with an empty \<open>QuotaDelta\<close> only.
\<close>

record gate_ops =
  g_Admit :: "string \<Rightarrow> deployAdmission op"
  g_Park :: "deployment \<Rightarrow> string \<Rightarrow> string \<Rightarrow> string \<Rightarrow> unit op"

record verification =
  vf_Enforced :: bool
  vf_Verified :: bool

record credential =
  cr_URL :: string
  cr_Username :: string
  cr_Token :: string

record sched_cfg =
  sc_opener :: "bytes \<Rightarrow> bytes \<Rightarrow> error + bytes"
  sc_sinks :: nat
  sc_dns :: "(world \<Rightarrow> string \<Rightarrow> error + verification) option"
  sc_gate :: "gate_ops option"
  sc_quota :: "(string \<Rightarrow> quotaAdmission op) option"
  sc_registries :: "(world \<Rightarrow> string \<Rightarrow> error + credential) option"
  sc_githubApp :: "(world \<Rightarrow> int \<Rightarrow> error + string \<times> string) option"
  sc_revisionRetain :: int

text \<open>Asking a collaborator: one call, its answer or its error.\<close>

definition ask :: "(world \<Rightarrow> error + 'a) \<Rightarrow> 'a op" where
  "ask f = (\<lambda>w. (f w, w))"

definition forall_sinks :: "sched_cfg \<Rightarrow> event \<Rightarrow> unit op" where
  "forall_sinks cfg e = forE [0 ..< sc_sinks cfg] (\<lambda>_. emit e)"

definition emitDeploy :: "sched_cfg \<Rightarrow> application \<Rightarrow> deployment \<Rightarrow> unit op" where
  "emitDeploy cfg app dep = forall_sinks cfg (NotifyDeploy app dep)"

definition emitAppHealth :: "sched_cfg \<Rightarrow> application \<Rightarrow> string \<Rightarrow> string \<Rightarrow> unit op" where
  "emitAppHealth cfg app eventType detail = forall_sinks cfg (NotifyAppHealth app eventType detail)"

section \<open>Snapshots and image names\<close>

definition snapshotOf :: "application \<Rightarrow> configSnapshot" where
  "snapshotOf app =
     \<lparr> cs_Port = rt_Port (app_Runtime app),
       cs_Network = ''cypher-'' @ app_EnvironmentID app,
       cs_Pull = (src_Kind (app_Source app) = ''image''),
       cs_Route = \<lparr> route_Domain = route_Domain (app_Route app), route_HTTPS = route_HTTPS (app_Route app),
                    route_PathPrefix = route_PathPrefix (app_Route app) \<rparr>,
       cs_Health = \<lparr> hc_Kind = hc_Kind (app_Health app), hc_Path = hc_Path (app_Health app),
                     hc_IntervalSeconds = hc_IntervalSeconds (app_Health app),
                     hc_TimeoutSeconds = hc_TimeoutSeconds (app_Health app),
                     hc_Retries = hc_Retries (app_Health app) \<rparr> \<rparr>"

definition imageTag :: "string \<Rightarrow> string \<Rightarrow> string" where
  "imageTag appID revisionID = ''cypher/'' @ appID @ '':'' @ revisionID"

section \<open>Builder selection\<close>

text \<open>The loop of \<open>selectBuilder\<close>: \<open>Inl\<close> is its early return.\<close>

fun builder_loop ::
  "string \<Rightarrow> server list \<Rightarrow> bool \<Rightarrow> string \<Rightarrow> string \<Rightarrow> string + (bool \<times> string \<times> string)" where
  "builder_loop target [] targetSeen dedicated fallback = Inr (targetSeen, dedicated, fallback)"
| "builder_loop target (srv # srvs) targetSeen dedicated fallback =
     (if srv_ID srv = target then
        (if Builds srv then Inl (srv_ID srv)
         else builder_loop target srvs True dedicated fallback)
      else if \<not> Builds srv \<or> srv_Status srv \<noteq> StatusRunning then
        builder_loop target srvs targetSeen dedicated fallback
      else if srv_Role srv = RoleBuilder then
        builder_loop target srvs targetSeen (if dedicated = [] then srv_ID srv else dedicated) fallback
      else
        builder_loop target srvs targetSeen dedicated (if fallback = [] then srv_ID srv else fallback))"

definition choose_builder :: "string \<Rightarrow> server list \<Rightarrow> error + string" where
  "choose_builder target servers =
     (case builder_loop target servers False [] [] of
        Inl sid \<Rightarrow> Inr sid
      | Inr (targetSeen, dedicated, fallback) \<Rightarrow>
          if \<not> targetSeen then Inr target
          else if dedicated \<noteq> [] then Inr dedicated
          else if fallback \<noteq> [] then Inr fallback
          else Inl NoBuilder)"

definition selectBuilder :: "application \<Rightarrow> string op" where
  "selectBuilder app =
     bnd (mapE (Wrapped ''scheduler: listing servers'') ListServers) (\<lambda>servers.
     lift_error (choose_builder (rt_ServerID (app_Runtime app)) servers))"

definition builderFor :: "deployment \<Rightarrow> application \<Rightarrow> string" where
  "builderFor dep app =
     (case dep_BuilderServerID dep of Some b \<Rightarrow> b | None \<Rightarrow> rt_ServerID (app_Runtime app))"

section \<open>Credentials and build work\<close>

definition gitCredential :: "sched_cfg \<Rightarrow> application \<Rightarrow> (string \<times> string) option op" where
  "gitCredential cfg app =
     (case src_GitHubInstallationID (app_Source app) of
        None \<Rightarrow> ret None
      | Some inst \<Rightarrow>
          (case sc_githubApp cfg of
             None \<Rightarrow> ret None
           | Some cloneToken \<Rightarrow>
               bnd (mapE (Wrapped ''scheduler: minting a GitHub App clone token'')
                      (ask (\<lambda>w. cloneToken w inst))) (\<lambda>up. ret (Some up))))"

definition registryAuth :: "sched_cfg \<Rightarrow> string option \<Rightarrow> registryAuthMsg option op" where
  "registryAuth cfg rid =
     (case rid of
        None \<Rightarrow> ret None
      | Some i \<Rightarrow>
          if i = [] then ret None
          else (case sc_registries cfg of
              None \<Rightarrow> throw (NoRegistryService i)
            | Some cred \<Rightarrow>
                bnd (mapE (Wrapped ''scheduler: resolving registry credential'') (ask (\<lambda>w. cred w i)))
                  (\<lambda>c. ret (Some \<lparr> ra_ServerAddress = cr_URL c, ra_Username = cr_Username c,
                                   ra_Token = cr_Token c \<rparr>))))"

text \<open>
  \<open>strings.ToLower\<close>, as far as the next loop can see it: besides the ASCII capitals, the Kelvin
  sign and the dotted capital I are the only runes whose lower case is an ASCII letter.
\<close>

fun to_lower :: "string \<Rightarrow> string" where
  "to_lower [] = []"
| "to_lower (c # s) =
     (if has_prefix [CHR 0xE2, CHR 0x84, CHR 0xAA] (c # s) then CHR ''k'' # to_lower (drop 2 s)
      else if has_prefix [CHR 0xC4, CHR 0xB0] (c # s) then CHR ''i'' # to_lower (drop 1 s)
      else (let n = of_char c :: nat in
            if 65 \<le> n \<and> n \<le> 90 then char_of (n + 32) else c) # to_lower s)"

definition oci_char :: "char \<Rightarrow> bool" where
  "oci_char c \<longleftrightarrow> (let n = of_char c :: nat in (97 \<le> n \<and> n \<le> 122) \<or> (48 \<le> n \<and> n \<le> 57))"

text \<open>A rune outside the alphabet is one separator; so is each of its bytes, and runs collapse.\<close>

fun repo_loop :: "string \<Rightarrow> string \<Rightarrow> bool \<Rightarrow> string" where
  "repo_loop [] b lastSep = b"
| "repo_loop (c # cs) b lastSep =
     (if oci_char c then repo_loop cs (b @ [c]) False
      else if \<not> lastSep then repo_loop cs (b @ ''-'') True
      else repo_loop cs b lastSep)"

definition trim_dash :: "string \<Rightarrow> string" where
  "trim_dash s = rev (dropWhile (\<lambda>c. c = CHR ''-'') (rev (dropWhile (\<lambda>c. c = CHR ''-'') s)))"

definition pushRepository :: "application \<Rightarrow> string" where
  "pushRepository app =
     (let name = trim_dash (repo_loop (to_lower (app_Name app)) [] True)
      in if name = [] then app_ID app else name)"

definition trim_slash_suffix :: "string \<Rightarrow> string" where
  "trim_slash_suffix s = (if s \<noteq> [] \<and> last s = CHR ''/'' then butlast s else s)"

definition pushTarget :: "sched_cfg \<Rightarrow> application \<Rightarrow> revision \<Rightarrow> registryPush option op" where
  "pushTarget cfg app rv =
     bnd (registryAuth cfg (bld_PushRegistryID (app_Build app))) (\<lambda>auth.
     case auth of
       None \<Rightarrow> ret None
     | Some a \<Rightarrow>
         (let repo = (if bld_PushRepository (app_Build app) = [] then pushRepository app
                      else bld_PushRepository (app_Build app))
          in ret (Some \<lparr> rp_Image = trim_slash_suffix (ra_ServerAddress a) @ ''/'' @ repo @ '':'' @ rev_ID rv,
                         rp_Auth = a \<rparr>)))"

definition deploy_key_pem :: "sched_cfg \<Rightarrow> application \<Rightarrow> string op" where
  "deploy_key_pem cfg app =
     (case src_DeployKeyID (app_Source app) of
        None \<Rightarrow> ret []
      | Some k \<Rightarrow>
          bnd (mapE (Wrapped ''scheduler: getting deploy key'') (GetDeployKey k)) (\<lambda>dk.
          mapE (Wrapped ''scheduler: unsealing deploy key'')
            (lift_error (sc_opener cfg (dk_PrivateKeyCT dk) (dk_PrivateKeyNonce dk)))))"

definition buildWork :: "sched_cfg \<Rightarrow> deployment \<Rightarrow> application \<Rightarrow> revision \<Rightarrow> buildWorkMsg op" where
  "buildWork cfg dep app rv =
     bnd (deploy_key_pem cfg app) (\<lambda>pem.
     bnd (registryAuth cfg (src_RegistryID (app_Source app))) (\<lambda>sourceAuth.
     bnd (pushTarget cfg app rv) (\<lambda>push.
     bnd (gitCredential cfg app) (\<lambda>gitCred.
     ret \<lparr> bw_DeploymentId = dep_ID dep, bw_AppId = app_ID app, bw_RepoUrl = src_Repo (app_Source app),
           bw_CommitSha = rev_SourceCommit rv, bw_DockerfilePath = bld_DockerfilePath (app_Build app),
           bw_BuildContext = bld_Context (app_Build app), bw_Image = imageTag (app_ID app) (rev_ID rv),
           bw_DeployKeyPem = pem, bw_BuildKind = bld_Kind (app_Build app),
           bw_RuntimePort = word_of_int (rt_Port (app_Runtime app)), bw_SourceAuth = sourceAuth,
           bw_Push = push, bw_GitCredential = gitCred \<rparr>))))"

section \<open>The environment\<close>

datatype envPolicy = envStrict | envOmitMissing

definition shared_values :: "sched_cfg \<Rightarrow> sharedVariable list \<Rightarrow> (string \<times> string) list op" where
  "shared_values cfg rows =
     collectE rows (\<lambda>sv.
       bnd (mapE (Wrapped (''scheduler: unsealing shared variable '' @ sv_Key sv))
              (lift_error (sc_opener cfg (sv_ValueCT sv) (sv_ValueNonce sv)))) (\<lambda>plain.
       ret (Some (sv_Key sv, plain))))"

text \<open>
  One iteration of the loop over the sealed variables: the entry it adds to the environment, or
  \<open>None\<close> when it is skipped. Keys are unique per application, so entries never overwrite.
\<close>

definition resolve_var ::
  "sched_cfg \<Rightarrow> application \<Rightarrow> envPolicy \<Rightarrow> string \<Rightarrow> (string \<rightharpoonup> string) \<Rightarrow> envVar \<Rightarrow> (string \<times> string) option op" where
  "resolve_var cfg app pol envName shared v =
     bnd (mapE (Wrapped (''scheduler: unsealing env var '' @ ev_Key v))
            (lift_error (sc_opener cfg (ev_ValueCT v) (ev_ValueNonce v)))) (\<lambda>plain.
     if ev_SharedRefs v = [] then ret (Some (ev_Key v, plain))
     else
       (case Expand plain shared of
          Inr expanded \<Rightarrow> ret (Some (ev_Key v, expanded))
        | Inl e \<Rightarrow>
            (case e of
               MissingReferenceError k \<Rightarrow>
                 if pol = envStrict
                 then throw (UnresolvedReferenceError (ev_Key v) k envName)
                 else ret None
             | _ \<Rightarrow> throw (Wrapped (''scheduler: expanding env var '' @ ev_Key v @ '' of '' @ app_ID app) e))))"

definition shared_scope ::
  "sched_cfg \<Rightarrow> application \<Rightarrow> envVar list \<Rightarrow> ((string \<rightharpoonup> string) \<times> string) op" where
  "shared_scope cfg app sealed =
     (if \<exists>v \<in> set sealed. ev_SharedRefs v \<noteq> [] then
        bnd (mapE (Wrapped (''scheduler: getting environment of '' @ app_ID app))
               (GetEnvironment (app_EnvironmentID app))) (\<lambda>environment.
        bnd (mapE (Wrapped (''scheduler: listing shared variables for '' @ app_ID app))
               (ListSharedVariablesInScope (env_ProjectID environment) (env_ID environment))) (\<lambda>rows.
        bnd (shared_values cfg rows) (\<lambda>kvs.
        ret (map_of (rev kvs), env_Name environment))))
      else ret (Map.empty, []))"

definition resolveEnv :: "sched_cfg \<Rightarrow> application \<Rightarrow> envPolicy \<Rightarrow> (string \<times> string) list op" where
  "resolveEnv cfg app pol =
     bnd (mapE (Wrapped ''scheduler: listing env vars'') (ListEnvVars (app_ID app))) (\<lambda>sealed.
     bnd (shared_scope cfg app sealed) (\<lambda>(shared, envName).
     collectE sealed (resolve_var cfg app pol envName shared)))"

section \<open>The spec\<close>

definition routableDomain :: "sched_cfg \<Rightarrow> string \<Rightarrow> string op" where
  "routableDomain cfg domainName =
     (if domainName = [] then ret domainName
      else case sc_dns cfg of
          None \<Rightarrow> ret domainName
        | Some verify \<Rightarrow>
            bnd (attempt (ask (\<lambda>w. verify w domainName))) (\<lambda>r.
            case r of
              Inl _ \<Rightarrow> ret domainName
            | Inr v \<Rightarrow> if vf_Enforced v \<and> \<not> vf_Verified v then ret [] else ret domainName))"

definition accessSpec :: "application \<Rightarrow> bool \<Rightarrow> accessSpecMsg option" where
  "accessSpec app isPreview =
     (let acc = app_Access app;
          cidrs = (if acc_IPAllowlistEnabled acc \<and> acc_IPAllowlist acc \<noteq> [] then acc_IPAllowlist acc else []);
          users = (if isPreview \<and> acc_PreviewPasswordEnabled acc \<and> acc_PreviewPasswordHash acc \<noteq> []
                   then [''preview:'' @ acc_PreviewPasswordHash acc] else []);
          maint = acc_MaintenanceMode acc
      in if cidrs = [] \<and> users = [] \<and> \<not> maint then None
         else Some \<lparr> as_AllowCidrs = cidrs, as_BasicAuthUsers = users, as_Maintenance = maint \<rparr>)"

definition replicaIndexes :: "int \<Rightarrow> uint32 list" where
  "replicaIndexes n = (if n \<le> 1 then [] else map word_of_int [1..n])"

definition portMappings :: "portMapping list \<Rightarrow> (uint32 \<times> uint32 \<times> string) list" where
  "portMappings ports =
     map (\<lambda>p. (word_of_int (pm_HostPort p), word_of_int (pm_ContainerPort p), pm_Protocol p)) ports"

definition volumeMounts :: "string \<Rightarrow> volumeMount list \<Rightarrow> (string \<times> string) list" where
  "volumeMounts appID vols =
     map (\<lambda>v. (''cypher-appvol-'' @ appID @ ''-'' @ vol_Name v, vol_Path v)) vols"

definition cpuLimitValue :: "float64 option \<Rightarrow> float64" where
  "cpuLimitValue p = (case p of None \<Rightarrow> 0 | Some x \<Rightarrow> x)"

definition memLimitValue :: "int option \<Rightarrow> uint32" where
  "memLimitValue p = (case p of None \<Rightarrow> 0 | Some n \<Rightarrow> if n < 0 then 0 else word_of_int n)"

definition scheduledTasksFor :: "string \<Rightarrow> wireTask list op" where
  "scheduledTasksFor appID =
     bnd (mapE (Wrapped ''scheduler: listing scheduled tasks'') (ListEnabledScheduledTasksByApp appID))
       (\<lambda>tasks. ret (map (\<lambda>t. \<lparr> wt_Id = st_ID t, wt_Schedule = st_Schedule t, wt_Command = st_Command t \<rparr>) tasks))"

definition access_for :: "application \<Rightarrow> accessSpecMsg option op" where
  "access_for app =
     (if acc_PreviewPasswordEnabled (app_Access app) \<and> acc_PreviewPasswordHash (app_Access app) \<noteq> [] then
        bnd (mapE (Wrapped (''scheduler: getting environment of '' @ app_ID app))
               (GetEnvironment (app_EnvironmentID app))) (\<lambda>environment.
        ret (accessSpec app (env_Kind environment = ''preview'')))
      else ret (accessSpec app False))"

definition buildSpec :: "sched_cfg \<Rightarrow> application \<Rightarrow> revision \<Rightarrow> envPolicy \<Rightarrow> appSpec op" where
  "buildSpec cfg app rv pol =
     (case rev_ConfigSnapshot rv of
        None \<Rightarrow> throw (Wrapped (''parsing config snapshot of '' @ rev_ID rv) ErrRevisionDataInvalid)
      | Some cs \<Rightarrow>
          bnd (resolveEnv cfg app pol) (\<lambda>env.
          bnd (access_for app) (\<lambda>access.
          bnd (scheduledTasksFor (app_ID app)) (\<lambda>tasks.
          bnd (if cs_Pull cs then registryAuth cfg (src_RegistryID (app_Source app)) else ret None)
            (\<lambda>pullAuth.
          bnd (routableDomain cfg (route_Domain (cs_Route cs))) (\<lambda>dom.
          ret \<lparr> spec_AppId = app_ID app, spec_EnvironmentId = app_EnvironmentID app,
                spec_RevisionId = rev_ID rv,
                spec_Image = (if rev_Image rv = [] then imageTag (app_ID app) (rev_ID rv) else rev_Image rv),
                spec_Port = word_of_int (cs_Port cs), spec_Env = env, spec_Network = cs_Network cs,
                spec_Health = \<lparr> hs_Kind = hc_Kind (cs_Health cs), hs_Path = hc_Path (cs_Health cs),
                  hs_IntervalSeconds = word_of_int (hc_IntervalSeconds (cs_Health cs)),
                  hs_TimeoutSeconds = word_of_int (hc_TimeoutSeconds (cs_Health cs)),
                  hs_Retries = word_of_int (hc_Retries (cs_Health cs)) \<rparr>,
                spec_Route = \<lparr> rs_Domain = dom, rs_Https = route_HTTPS (cs_Route cs),
                  rs_PathPrefix = route_PathPrefix (cs_Route cs), rs_Access = access \<rparr>,
                spec_ScheduledTasks = tasks, spec_Pull = cs_Pull cs, spec_RegistryAuth = pullAuth,
                spec_RestartToken = app_RestartToken app,
                spec_CpuLimit = cpuLimitValue (rt_CPULimit (app_Runtime app)),
                spec_MemoryLimitMb = memLimitValue (rt_MemoryLimitMB (app_Runtime app)),
                spec_Volumes = volumeMounts (app_ID app) (app_Volumes app),
                spec_Ports = portMappings (app_Ports app),
                spec_ReplicaIndexes = replicaIndexes (rt_Replicas (app_Runtime app)) \<rparr>))))))"

section \<open>The retain set\<close>

definition defaultRevisionRetain :: int where "defaultRevisionRetain = 3"

fun retain_loop :: "int \<Rightarrow> revision list \<Rightarrow> string list \<Rightarrow> string list" where
  "retain_loop keep [] ids = ids"
| "retain_loop keep (r # rs) ids =
     (if int (length ids) \<ge> keep then ids
      else retain_loop keep rs (if rev_ID r \<in> set ids then ids else ids @ [rev_ID r]))"

definition retain_ids :: "int \<Rightarrow> application \<Rightarrow> revision list \<Rightarrow> string list" where
  "retain_ids keep app revs =
     retain_loop keep revs (case app_DesiredRevisionID app of None \<Rightarrow> [] | Some d \<Rightarrow> [d])"

definition retainFor :: "sched_cfg \<Rightarrow> application list \<Rightarrow> (string \<times> string list) list op" where
  "retainFor cfg apps =
     (let keep = (if sc_revisionRetain cfg < 1 then defaultRevisionRetain else sc_revisionRetain cfg) in
      collectE apps (\<lambda>app.
        bnd (attempt (ListRevisionsByApplication (app_ID app))) (\<lambda>r.
        case r of
          Inl _ \<Rightarrow> ret None
        | Inr revs \<Rightarrow>
            (let ids = retain_ids keep app revs in
             ret (if ids = [] then None else Some (app_ID app, ids))))))"

definition SetRevisionRetain :: "int \<Rightarrow> sched_cfg \<Rightarrow> sched_cfg" where
  "SetRevisionRetain n cfg = (if n \<ge> 1 then cfg\<lparr>sc_revisionRetain := n\<rparr> else cfg)"

section \<open>Assembling reads, and only reads\<close>

lemma reads_ask [rd]: "reads (ask f)"
  by (rule readsI) (simp add: ask_def)

lemma reads_case_error [rd]:
  "reads (case e of MissingReferenceError k \<Rightarrow> f k | _ \<Rightarrow> g)" if "\<And>k. reads (f k)" "reads g"
  using that by (cases e) simp_all

lemma reads_sched_spec [rd]:
  "reads (selectBuilder app)" "reads (gitCredential cfg app)" "reads (registryAuth cfg rid)"
  "reads (deploy_key_pem cfg app)" "reads (shared_values cfg rows)" "reads (routableDomain cfg d)"
  "reads (scheduledTasksFor a)" "reads (access_for app)" "reads (retainFor cfg apps)"
  unfolding selectBuilder_def gitCredential_def registryAuth_def deploy_key_pem_def shared_values_def
    routableDomain_def scheduledTasksFor_def access_for_def retainFor_def Let_def
  by (intro rd)+

lemma reads_pushTarget [rd]: "reads (pushTarget cfg app rv)"
  unfolding pushTarget_def Let_def by (intro rd)

lemma reads_buildWork [rd]: "reads (buildWork cfg dep app rv)"
  unfolding buildWork_def by (intro rd)

lemma reads_resolve_var [rd]: "reads (resolve_var cfg app pol n sh v)"
  unfolding resolve_var_def by (intro rd)

lemma reads_shared_scope [rd]: "reads (shared_scope cfg app sealed)"
  unfolding shared_scope_def by (intro rd)

lemma reads_resolveEnv [rd]: "reads (resolveEnv cfg app pol)"
  unfolding resolveEnv_def by (intro rd)

lemma reads_buildSpec [rd]: "reads (buildSpec cfg app rv pol)"
  unfolding buildSpec_def by (intro rd)

section \<open>Builder selection as a choice\<close>

definition dedicated_builder :: "string \<Rightarrow> server \<Rightarrow> bool" where
  "dedicated_builder target s \<longleftrightarrow>
     srv_ID s \<noteq> target \<and> srv_Status s = StatusRunning \<and> srv_Role s = RoleBuilder"

definition fallback_builder :: "string \<Rightarrow> server \<Rightarrow> bool" where
  "fallback_builder target s \<longleftrightarrow>
     srv_ID s \<noteq> target \<and> srv_Status s = StatusRunning \<and> Builds s \<and> srv_Role s \<noteq> RoleBuilder"

definition first_id :: "string \<Rightarrow> (server \<Rightarrow> bool) \<Rightarrow> server list \<Rightarrow> string" where
  "first_id acc p ss = (if acc \<noteq> [] then acc else case List.find p ss of None \<Rightarrow> [] | Some s \<Rightarrow> srv_ID s)"

lemma Builds_RoleBuilder: "srv_Role s = RoleBuilder \<Longrightarrow> Builds s"
  by (simp add: Builds_def)

lemma first_id_Cons:
  "srv_ID s \<noteq> [] \<Longrightarrow> first_id acc p (s # ss) = first_id (if acc = [] \<and> p s then srv_ID s else acc) p ss"
  by (simp add: first_id_def)

lemma builder_loop_choice:
  assumes "\<forall>s \<in> set ss. srv_ID s \<noteq> []"
  shows "builder_loop target ss seen ded fb =
    (if \<exists>s \<in> set ss. srv_ID s = target \<and> Builds s then Inl target
     else Inr (seen \<or> (\<exists>s \<in> set ss. srv_ID s = target),
               first_id ded (dedicated_builder target) ss, first_id fb (fallback_builder target) ss))"
  using assms
proof (induction ss arbitrary: seen ded fb)
  case (Cons srv srvs)
  have id: "srv_ID srv \<noteq> []" and ids: "\<forall>s \<in> set srvs. srv_ID s \<noteq> []" using Cons.prems by simp_all
  note IH = Cons.IH [OF ids]
  have d: "dedicated_builder target srv \<longleftrightarrow> srv_ID srv \<noteq> target \<and> srv_Status srv = StatusRunning \<and> srv_Role srv = RoleBuilder"
    and f: "fallback_builder target srv \<longleftrightarrow> srv_ID srv \<noteq> target \<and> srv_Status srv = StatusRunning \<and> Builds srv
      \<and> srv_Role srv \<noteq> RoleBuilder"
    by (simp_all add: dedicated_builder_def fallback_builder_def)
  show ?case
    by (cases "srv_ID srv = target"; cases "Builds srv"; cases "srv_Role srv = RoleBuilder")
      (auto simp: IH first_id_Cons [OF id] d f Builds_RoleBuilder)
qed (simp add: first_id_def)

section \<open>The retain set as a window\<close>

lemma retain_loop_take:
  assumes "distinct (map rev_ID rs)" and "int (length ids) \<le> keep"
  shows "retain_loop keep rs ids =
    take (nat keep) (ids @ filter (\<lambda>x. x \<notin> set ids) (map rev_ID rs))"
  using assms
proof (induction keep rs ids rule: retain_loop.induct)
  case (1 keep ids)
  then show ?case by simp
next
  case (2 keep r rs ids)
  show ?case
  proof (cases "int (length ids) \<ge> keep")
    case True
    with "2.prems" have "nat keep = length ids" by simp
    with True show ?thesis by simp
  next
    case False
    have same: "filter (\<lambda>x. x \<notin> set (ids @ [rev_ID r])) (map rev_ID rs) = filter (\<lambda>x. x \<notin> set ids) (map rev_ID rs)"
      using "2.prems"(1) by (auto intro!: filter_cong)
    show ?thesis
    proof (cases "rev_ID r \<in> set ids")
      case True
      with "2.IH" "2.prems" False show ?thesis by simp
    next
      case new: False
      with "2.IH" "2.prems" False same show ?thesis by simp
    qed
  qed
qed

section \<open>Resolving the environment\<close>

lemma collectE_strict:
  assumes "\<And>x w y w'. f x w = (Inr y, w') \<Longrightarrow> g x w = (Inr y, w') \<and> y \<noteq> None"
  shows "collectE xs f w = (Inr ys, w') \<Longrightarrow> collectE xs g w = (Inr ys, w') \<and> length ys = length xs"
proof (induction xs arbitrary: w ys)
  case (Cons x xs)
  from Cons.prems obtain r w1 zs where r: "f x w = (Inr r, w1)" and zs: "collectE xs f w1 = (Inr zs, w')"
    and ys: "ys = (case r of None \<Rightarrow> zs | Some y \<Rightarrow> y # zs)"
    by (auto simp: inverts)
  from assms [OF r] obtain y where "r = Some y" "g x w = (Inr r, w1)" by auto
  with Cons.IH [OF zs] ys show ?case by (auto simp: inverts)
qed simp

lemma resolve_var_strict:
  assumes "resolve_var cfg app envStrict n sh v w = (Inr y, w')"
  shows "resolve_var cfg app envOmitMissing n sh v w = (Inr y, w') \<and> (\<exists>x. y = Some (ev_Key v, x))"
proof -
  obtain plain w1 where plain: "mapE (Wrapped (''scheduler: unsealing env var '' @ ev_Key v))
      (lift_error (sc_opener cfg (ev_ValueCT v) (ev_ValueNonce v))) w = (Inr plain, w1)"
    using assms unfolding resolve_var_def bnd_Inr_iff by blast
  show ?thesis
  proof (cases "ev_SharedRefs v = []")
    case True
    with assms plain show ?thesis by (auto simp: resolve_var_def bnd_run)
  next
    case False
    show ?thesis
    proof (cases "Expand plain sh")
      case (Inl e)
      with assms plain False show ?thesis by (cases e) (simp_all add: resolve_var_def bnd_run)
    next
      case (Inr x)
      with assms plain False show ?thesis by (auto simp: resolve_var_def bnd_run)
    qed
  qed
qed

lemma collectE_keys:
  assumes "\<And>x w y w'. f x w = (Inr y, w') \<Longrightarrow> \<exists>z. y = Some (k x, z)"
  shows "collectE xs f w = (Inr ys, w') \<Longrightarrow> map fst ys = map k xs"
proof (induction xs arbitrary: w ys)
  case (Cons x xs)
  from Cons.prems obtain r w1 zs where r: "f x w = (Inr r, w1)" and zs: "collectE xs f w1 = (Inr zs, w')"
    and ys: "ys = (case r of None \<Rightarrow> zs | Some y \<Rightarrow> y # zs)"
    by (auto simp: inverts)
  from assms [OF r] Cons.IH [OF zs] ys show ?case by auto
qed simp

section \<open>Repository names\<close>

text \<open>
  A path component of an OCI reference: lower-case letters and digits, with single separators
  inside.
\<close>

definition oci_name :: "string \<Rightarrow> bool" where
  "oci_name s \<longleftrightarrow> s \<noteq> [] \<and> oci_char (hd s) \<and> oci_char (last s)
     \<and> (\<forall>i < length s. oci_char (s ! i) \<or> s ! i = CHR ''-'' \<and> 0 < i \<and> oci_char (s ! (i - 1)))"

definition repo_inv :: "string \<Rightarrow> bool \<Rightarrow> bool" where
  "repo_inv b lastSep \<longleftrightarrow>
     (\<forall>i < length b. oci_char (b ! i) \<or> b ! i = CHR ''-'' \<and> 0 < i \<and> oci_char (b ! (i - 1)))
   \<and> (\<not> lastSep \<longrightarrow> b \<noteq> [] \<and> oci_char (last b)) \<and> (lastSep \<longrightarrow> b = [] \<or> last b = CHR ''-'')"

lemma not_oci_dash: "\<not> oci_char (CHR ''-'')"
  by code_simp

lemma repo_inv_snoc:
  assumes "repo_inv b l"
  shows "oci_char c \<Longrightarrow> repo_inv (b @ [c]) False" and "\<not> l \<Longrightarrow> repo_inv (b @ ''-'') True"
  using assms unfolding repo_inv_def
  by (auto simp: nth_append less_Suc_eq last_conv_nth)

lemma repo_loop_inv: "repo_inv b l \<Longrightarrow> \<exists>l'. repo_inv (repo_loop cs b l) l'"
proof (induction cs b l rule: repo_loop.induct)
  case (1 b l)
  then show ?case by auto
next
  case (2 c cs b l)
  then show ?case by (auto simp: repo_inv_snoc)
qed

lemma trim_dash_inv:
  assumes "repo_inv b l"
  shows "trim_dash b = [] \<or> oci_name (trim_dash b)"
proof (cases "b = []")
  case True
  then show ?thesis by (simp add: trim_dash_def)
next
  case False
  then obtain c cs where b: "b = c # cs" by (cases b) auto
  have "oci_char (b ! 0)" using assms False by (auto simp: repo_inv_def)
  then have hd: "oci_char c" "c \<noteq> CHR ''-''" using not_oci_dash by (auto simp: b)
  then have lead: "dropWhile (\<lambda>c. c = CHR ''-'') b = b" by (simp add: b)
  have all: "oci_char (b ! i) \<or> b ! i = CHR ''-'' \<and> 0 < i \<and> oci_char (b ! (i - 1))" if "i < length b" for i
    using assms that by (auto simp: repo_inv_def)
  show ?thesis
  proof (cases "oci_char (last b)")
    case True
    then have "hd (rev b) \<noteq> CHR ''-''" using not_oci_dash by (auto simp: hd_rev)
    then have "trim_dash b = b" using lead False by (cases "rev b") (auto simp: trim_dash_def)
    with True all hd b show ?thesis by (simp add: oci_name_def)
  next
    case l: False
    define n where "n = length b - 1"
    have "last b = b ! n" "n < length b" using False by (simp_all add: n_def last_conv_nth)
    with l all have dash: "last b = CHR ''-''" and n: "0 < n" and prev: "oci_char (b ! (n - 1))" by metis+
    define b' where "b' = butlast b"
    have bb: "b = b' @ [CHR ''-'']" using False dash by (metis b'_def append_butlast_last_id)
    have len: "length b' = n" by (simp add: b'_def n_def)
    with n have ne: "b' \<noteq> []" by auto
    have lst: "oci_char (last b')" using prev len n ne by (simp add: bb nth_append last_conv_nth)
    then have "hd (rev b') \<noteq> CHR ''-''" using not_oci_dash by (auto simp: hd_rev)
    then have "dropWhile (\<lambda>c. c = CHR ''-'') (rev b) = rev b'" using ne by (cases "rev b'") (auto simp: bb)
    then have t: "trim_dash b = b'" by (simp add: trim_dash_def lead)
    have "hd b' = c" using bb b ne by (cases b') auto
    moreover have "oci_char (b' ! i) \<or> b' ! i = CHR ''-'' \<and> 0 < i \<and> oci_char (b' ! (i - 1))"
      if "i < length b'" for i
      using all [of i] that by (auto simp: bb nth_append less_imp_diff_less)
    ultimately show ?thesis using t ne lst hd by (simp add: oci_name_def)
  qed
qed

section \<open>Properties\<close>

text \<open>
  Builder selection: the application's own server when it builds (or has no row), else
  the first running dedicated builder, else the first other running server that builds, else the
  no-builder error. In particular a remote builder never takes a build the target can run.
\<close>

theorem choose_builder_correct:
  assumes "\<forall>s \<in> set servers. srv_ID s \<noteq> []"
  shows "choose_builder target servers =
    (if (\<exists>s \<in> set servers. srv_ID s = target \<and> Builds s) \<or> (\<forall>s \<in> set servers. srv_ID s \<noteq> target)
     then Inr target
     else case List.find (dedicated_builder target) servers of
         Some s \<Rightarrow> Inr (srv_ID s)
       | None \<Rightarrow> (case List.find (fallback_builder target) servers of
             Some s \<Rightarrow> Inr (srv_ID s)
           | None \<Rightarrow> Inl NoBuilder))"
proof -
  have ne: "List.find p servers = Some s \<Longrightarrow> srv_ID s \<noteq> []" for p s
    using assms find_Some_set by metis
  show ?thesis
    unfolding choose_builder_def builder_loop_choice [OF assms]
    by (auto simp: first_id_def split: option.splits dest: ne)
qed

theorem choose_builder_correct_witness:
  "choose_builder ''srv_1''
     [\<lparr> srv_ID = ''srv_3'', srv_Name = [], srv_Status = ''running'', srv_Role = ''all'', srv_EnrolledAt = None \<rparr>,
      \<lparr> srv_ID = ''srv_2'', srv_Name = [], srv_Status = ''running'', srv_Role = ''builder'', srv_EnrolledAt = None \<rparr>,
      \<lparr> srv_ID = ''srv_1'', srv_Name = [], srv_Status = ''running'', srv_Role = ''worker'', srv_EnrolledAt = None \<rparr>]
   = Inr ''srv_2''"
  by (subst choose_builder_correct)
    (simp_all add: Builds_def RoleAll_def RoleBuilder_def dedicated_builder_def StatusRunning_def)

text \<open>
  The images a node keeps for an application are the desired revision first, then the
  newest others, up to the window: garbage collection is never told to drop what is running.
\<close>

theorem retain_ids_window:
  assumes "distinct (map rev_ID revs)" and "1 \<le> keep"
  shows "retain_ids keep app revs = take (nat keep)
      (case app_DesiredRevisionID app of None \<Rightarrow> map rev_ID revs
       | Some d \<Rightarrow> d # filter (\<lambda>x. x \<noteq> d) (map rev_ID revs))"
  using assms by (cases "app_DesiredRevisionID app") (simp_all add: retain_ids_def retain_loop_take)

theorem retain_ids_window_witness:
  "retain_ids 2 (undefined\<lparr>app_DesiredRevisionID := Some ''rev_1''\<rparr>)
     [undefined\<lparr>rev_ID := ''rev_3''\<rparr>, undefined\<lparr>rev_ID := ''rev_2''\<rparr>, undefined\<lparr>rev_ID := ''rev_1''\<rparr>]
   = [''rev_1'', ''rev_3'']"
  by (subst retain_ids_window) simp_all

text \<open>
  The strict policy of the deploy path and the lenient policy of the sync path agree: when
  strict resolution succeeds it has resolved every variable of the application, and the lenient one
  returns the same environment.
\<close>

theorem resolveEnv_strict_complete:
  assumes "resolveEnv cfg app envStrict w = (Inr env, w')"
  shows "resolveEnv cfg app envOmitMissing w = (Inr env, w')
    \<and> map fst env = map ev_Key (sort_key ev_Key (map snd (filter (\<lambda>p. fst p = app_ID app) (w_envvars w))))"
proof -
  obtain sealed w1 sh n w2 where
    l: "mapE (Wrapped ''scheduler: listing env vars'') (ListEnvVars (app_ID app)) w = (Inr sealed, w1)"
    and c: "shared_scope cfg app sealed w1 = (Inr (sh, n), w2)"
    and r: "collectE sealed (resolve_var cfg app envStrict n sh) w2 = (Inr env, w')"
    using assms unfolding resolveEnv_def bnd_Inr_iff by (auto simp only: split_paired_Ex prod.case)
  have "collectE sealed (resolve_var cfg app envOmitMissing n sh) w2 = (Inr env, w')"
    using collectE_strict [OF _ r] resolve_var_strict by blast
  with l c have omit: "resolveEnv cfg app envOmitMissing w = (Inr env, w')"
    by (simp add: resolveEnv_def bnd_run)
  have "sealed = sort_key ev_Key (map snd (filter (\<lambda>p. fst p = app_ID app) (w_envvars w)))"
    using l by (auto simp: inverts ListEnvVars_def query_Inr_iff many_rows_def bump_def)
  moreover have "map fst env = map ev_Key sealed"
    using collectE_keys [OF _ r] resolve_var_strict by blast
  ultimately show ?thesis using omit by simp
qed

definition sealed_world :: world where
  "sealed_world = frozen_world\<lparr>
     w_envvars := [(''app_1'', \<lparr> ev_Key = ''PORT'', ev_ValueCT = ''8080'', ev_ValueNonce = [], ev_SharedRefs = [] \<rparr>),
                   (''app_1'', \<lparr> ev_Key = ''MODE'', ev_ValueCT = ''prod'', ev_ValueNonce = [], ev_SharedRefs = [] \<rparr>),
                   (''app_2'', \<lparr> ev_Key = ''KEY'', ev_ValueCT = ''x'', ev_ValueNonce = [], ev_SharedRefs = [] \<rparr>)]\<rparr>"

definition plain_cfg :: sched_cfg where
  "plain_cfg = \<lparr> sc_opener = (\<lambda>ct _. Inr ct), sc_sinks = 1, sc_dns = None, sc_gate = None, sc_quota = None,
     sc_registries = None, sc_githubApp = None, sc_revisionRetain = 0 \<rparr>"

definition blank_app :: application where
  "blank_app = \<lparr> app_ID = ''app_1'', app_EnvironmentID = ''env_1'', app_Name = ''My API'',
     app_Source = \<lparr> src_Kind = ''git'', src_GitHubInstallationID = None, src_Repo = ''git@h:a/b'', src_Branch = ''main'',
       src_DeployKeyID = None, src_Image = [], src_RegistryID = None \<rparr>,
     app_Build = \<lparr> bld_Kind = ''dockerfile'', bld_DockerfilePath = ''Dockerfile'', bld_Context = ''.'',
       bld_PushRegistryID = None, bld_PushRepository = [] \<rparr>,
     app_Runtime = \<lparr> rt_ServerID = ''srv_1'', rt_Port = 8080, rt_Replicas = 1, rt_CPULimit = None,
       rt_MemoryLimitMB = None \<rparr>,
     app_Route = \<lparr> route_Domain = [], route_HTTPS = False, route_PathPrefix = [] \<rparr>,
     app_Health = \<lparr> hc_Kind = ''tcp'', hc_Path = [], hc_IntervalSeconds = 5, hc_TimeoutSeconds = 2, hc_Retries = 3 \<rparr>,
     app_Volumes = [], app_Ports = [], app_DesiredRevisionID = None, app_Status = ''stopped'', app_StatusDetail = [],
     app_ObservedRevisionID = [], app_StatusObservedAt = None,
     app_Access = \<lparr> acc_IPAllowlistEnabled = False, acc_IPAllowlist = [], acc_PreviewPasswordEnabled = False,
       acc_PreviewPasswordHash = [], acc_PreviewPasswordSetAt = None, acc_MaintenanceMode = False,
       acc_MaintenanceSince = None \<rparr>,
     app_RestartToken = [], app_Replicas = [], app_EnvAppliedAt = None \<rparr>"

theorem resolveEnv_strict_complete_witness:
  "\<exists>w'. resolveEnv plain_cfg blank_app envOmitMissing sealed_world
     = (Inr [(''MODE'', ''prod''), (''PORT'', ''8080'')], w')"
proof -
  have "fst (resolveEnv plain_cfg blank_app envStrict sealed_world) =
      Inr [(''MODE'', ''prod''), (''PORT'', ''8080'')]" by code_simp
  then obtain w' where "resolveEnv plain_cfg blank_app envStrict sealed_world =
      (Inr [(''MODE'', ''prod''), (''PORT'', ''8080'')], w')"
    by (cases "resolveEnv plain_cfg blank_app envStrict sealed_world") auto
  from resolveEnv_strict_complete [OF this] show ?thesis by blast
qed

text \<open>
  The default push repository is a valid repository name, or the application's id when
  nothing of its name survives.
\<close>

theorem pushRepository_valid: "pushRepository app = app_ID app \<or> oci_name (pushRepository app)"
proof -
  have "repo_inv [] True" by (simp add: repo_inv_def)
  then obtain l where "repo_inv (repo_loop (to_lower (app_Name app)) [] True) l" using repo_loop_inv by blast
  from trim_dash_inv [OF this] show ?thesis by (auto simp: pushRepository_def Let_def)
qed

end
