(* ===== verification/Databases.thy ===== *)
theory Databases
  imports Sched_Spec
begin

text \<open>
  Managed databases in the scheduler (\<open>src/core/scheduler/databases.go\<close>): the spec of a database,
  the work item that drives the operator's intent, and the report that closes a deletion. Intent is
  the stored desired state, never the observed status.
\<close>

definition dbSpec :: "sched_cfg \<Rightarrow> database \<Rightarrow> databaseRevision \<Rightarrow> error + dbSpecMsg" where
  "dbSpec cfg db rv =
     (let defaults = EngineDefaults (db_Engine db) (db_Version db);
          password = (if db_RequirePassword db \<and> db_RootPasswordCT db \<noteq> [] then
                        (case sc_opener cfg (db_RootPasswordCT db) (db_RootPasswordNonce db) of
                           Inl e \<Rightarrow> Inl (Wrapped ''scheduler: decrypting root password'' e)
                         | Inr pwd \<Rightarrow> Inr (if es_PasswordEnv defaults \<noteq> [] then [(es_PasswordEnv defaults, pwd)] else []))
                      else Inr [])
      in case password of
           Inl e \<Rightarrow> Inl e
         | Inr env0 \<Rightarrow>
             (let env = (if db_InitialDatabase db \<noteq> [] \<and> es_DatabaseEnv defaults \<noteq> []
                         then env0 @ [(es_DatabaseEnv defaults, db_InitialDatabase db)] else env0)
              in Inr \<lparr> ds_DbId = db_ID db, ds_EnvironmentId = db_EnvironmentID db,
                       ds_RevisionId = dbr_ID rv, ds_Engine = engine_text (db_Engine db),
                       ds_Image = es_Image defaults, ds_VolumeName = db_VolumeName db,
                       ds_DataPath = db_DataPath db, ds_Network = db_Network db, ds_Env = env,
                       ds_HealthCmd = es_HealthCmd defaults,
                       ds_ExposePort = (case db_ExposePort db of None \<Rightarrow> 0 | Some p \<Rightarrow> word_of_int p),
                       ds_CpuLimit = (case db_CPULimit db of None \<Rightarrow> 0 | Some c \<Rightarrow> c),
                       ds_MemoryLimitMb = (case db_MemoryLimitMB db of None \<Rightarrow> 0 | Some m \<Rightarrow> word_of_int m) \<rparr>))"

definition reconcileDatabaseLocked :: "sched_cfg \<Rightarrow> string \<Rightarrow> unit op" where
  "reconcileDatabaseLocked cfg dbID =
     bnd (mapE (Wrapped ''scheduler: loading database'') (GetDatabase dbID)) (\<lambda>db.
     bnd now_op (\<lambda>msgSeq.
     if db_PendingDelete db then
       PublishWork (DbRemove (db_ServerID db)) (db_ID db @ ''.remove.'' @ itoa msgSeq)
         (DbRemoveWork (db_ID db @ ''-remove'') (db_ID db) (db_DeleteVolume db))
     else if db_DesiredState db = DbDesiredStopped then
       PublishWork (DbRemove (db_ServerID db)) (db_ID db @ ''.stop.'' @ itoa msgSeq)
         (DbRemoveWork (db_ID db @ ''-stop'') (db_ID db) False)
     else (case db_DesiredRevisionID db of
         None \<Rightarrow> ret ()
       | Some r \<Rightarrow>
           bnd (mapE (Wrapped ''scheduler: loading revision'') (GetDatabaseRevision r)) (\<lambda>rv.
           bnd (lift_error (dbSpec cfg db rv)) (\<lambda>spec.
           PublishWork (DbProvision (db_ServerID db)) (db_ID db @ ''.provision.'' @ itoa msgSeq)
             (DbProvisionWork (db_ID db @ ''-'' @ dbr_ID rv) spec))))))"

definition ReconcileDatabase :: "sched_cfg \<Rightarrow> string \<Rightarrow> unit op" where
  "ReconcileDatabase cfg dbID = reconcileDatabaseLocked cfg dbID"

record dbStatus =
  dst_DbId :: string
  dst_RevisionId :: string
  dst_State :: string
  dst_Detail :: string
  dst_ObservedAt :: "time option"

definition HandleDbStatus :: "string \<Rightarrow> dbStatus \<Rightarrow> unit op" where
  "HandleDbStatus serverID st =
     bnd (attempt (GetDatabase (dst_DbId st))) (\<lambda>r.
     case r of
       Inl _ \<Rightarrow> ret ()
     | Inr db \<Rightarrow>
         if db_ServerID db \<noteq> serverID then ret ()
         else
           bnd now_op (\<lambda>t.
           let observedAt = (case dst_ObservedAt st of None \<Rightarrow> t | Some ts \<Rightarrow> ts) in
           bnd (attempt (SetDatabaseObservedStatus (db_ID db) (dst_State st) (dst_Detail st)
                  (dst_RevisionId st) observedAt)) (\<lambda>s.
           case s of
             Inl _ \<Rightarrow> ret ()
           | Inr _ \<Rightarrow>
               if db_PendingDelete db \<and> dst_State st = DbStopped
               then bnd (attempt (DeleteDatabase (db_ID db))) (\<lambda>_. ret ())
               else ret ())))"

end
