(* ===== verification/Scheduler.thy ===== *)
theory Scheduler
  imports Databases
begin

text \<open>
  The deploy pipeline (\<open>src/core/scheduler/scheduler.go\<close>): every handler that creates, starts,
  advances or ends a deployment, each one atomic because the program holds one mutex around it.

  Where Go returns a record beside an error, the model keeps the error. Handlers that log their
  errors and return nothing end in \<open>ret ()\<close>. Freshly minted ids (\<open>ids.New\<close>) are arguments.

  Starting a deployment may fail it, which promotes the next queued one, which is started in turn.
  \<open>start_body\<close> is the body of \<open>start\<close> with the recursive call as an argument, \<open>start_fuel\<close> ties the
  knot with a bound on the depth, and \<open>start\<close> supplies one more than there are deployments.
  Theorem \<open>start_unfold\<close> (theory \<open>Scheduler_Inv\<close>) shows that this bound is never reached: \<open>start\<close>
  satisfies the recursive equation of the program.
\<close>

section \<open>Distribution and rollout\<close>

definition promotedSourceImage :: "revision \<Rightarrow> string op" where
  "promotedSourceImage rv =
     (if rev_PromotedFromRevisionID rv = [] then ret (rev_Image rv)
      else
        bnd (attempt (GetRevision (rev_PromotedFromRevisionID rv))) (\<lambda>r.
        case r of
          Inl _ \<Rightarrow> ret (rev_Image rv)
        | Inr src \<Rightarrow> if rev_Image src = [] then ret (rev_Image rv) else ret (rev_Image src)))"

definition startDistribute :: "deployment \<Rightarrow> application \<Rightarrow> revision \<Rightarrow> unit op" where
  "startDistribute dep app rv =
     bnd (UpdateDeploymentStatus (dep_ID dep) DeployDistributing []) (\<lambda>_.
     let img = (if rev_Image rv = [] then imageTag (app_ID app) (rev_ID rv) else rev_Image rv);
         builderID = builderFor dep app
     in
     bnd (promotedSourceImage rv) (\<lambda>source.
     let pushImage = (if source \<noteq> [] then source else img) in
     bnd (mapE (Wrapped ''scheduler: publishing push'')
            (PublishWork (PushImage builderID) (dep_ID dep @ ''.push'')
              (PushImageWork (dep_ID dep) (app_ID app) pushImage))) (\<lambda>_.
     bnd (if rev_PromotedFromRevisionID rv \<noteq> [] then
            bnd (promotedSourceImage rv) (\<lambda>src.
            if src \<noteq> [] then ret (src, rev_Image rv) else ret (img, []))
          else ret (img, [])) (\<lambda>(image', target).
     mapE (Wrapped ''scheduler: publishing distribute'')
       (PublishWork (Distribute (rt_ServerID (app_Runtime app))) (dep_ID dep @ ''.distribute'')
         (DistributeWork (dep_ID dep) (app_ID app) image' target))))))"

definition startRollout :: "sched_cfg \<Rightarrow> deployment \<Rightarrow> application \<Rightarrow> revision \<Rightarrow> unit op" where
  "startRollout cfg dep app rv =
     bnd (UpdateDeploymentStatus (dep_ID dep) DeployRollingOut []) (\<lambda>_.
     bnd (SetApplicationDesiredRevision (app_ID app) (rev_ID rv)) (\<lambda>_.
     bnd (attempt (SetDeploymentEnvResolved (dep_ID dep))) (\<lambda>_.
     bnd (buildSpec cfg app rv envStrict) (\<lambda>spec.
     mapE (Wrapped ''scheduler: publishing rollout'')
       (PublishWork (Rollout (rt_ServerID (app_Runtime app))) (dep_ID dep @ ''.rollout'')
         (RolloutWork (dep_ID dep) spec))))))"

section \<open>Ending and promoting\<close>

definition clearDeployingStatus :: "application \<Rightarrow> string \<Rightarrow> unit op" where
  "clearDeployingStatus app detail =
     (if app_Status app \<noteq> AppDeploying then ret ()
      else
        (let (st, msg) =
           (if app_ObservedRevisionID app \<noteq> []
            then (AppRunning, ''last deploy failed ('' @ detail @ ''); the previous revision is still serving'')
            else (AppError, detail))
         in bnd (attempt (SetApplicationStatus (app_ID app) st msg)) (\<lambda>_. ret ())))"

definition promoteNext_with :: "(deployment \<Rightarrow> unit op) \<Rightarrow> string \<Rightarrow> unit op" where
  "promoteNext_with st appID =
     bnd (attempt (ListActiveDeploymentsByApplication appID)) (\<lambda>r.
     case r of
       Inl _ \<Rightarrow> ret ()
     | Inr acts \<Rightarrow>
         (case acts of
            [] \<Rightarrow> ret ()
          | d # _ \<Rightarrow>
              if dep_Status d \<noteq> DeployQueued then ret ()
              else bnd (attempt (st d)) (\<lambda>_. ret ())))"

definition endActive_with ::
  "(deployment \<Rightarrow> unit op) \<Rightarrow> sched_cfg \<Rightarrow> deployment \<Rightarrow> string \<Rightarrow> bool \<Rightarrow> deployment op" where
  "endActive_with st cfg dep detail announced =
     bnd (mapE (Wrapped ''scheduler: ending deployment'')
            (UpdateDeploymentStatus (dep_ID dep) DeployFailed detail)) (\<lambda>ended.
     bnd (attempt (GetApplication (dep_ApplicationID dep))) (\<lambda>r.
     bnd (case r of
            Inl _ \<Rightarrow> ret ()
          | Inr app \<Rightarrow>
              bnd (clearDeployingStatus app detail) (\<lambda>_.
              if announced then emitDeploy cfg app ended else ret ())) (\<lambda>_.
     bnd (promoteNext_with st (dep_ApplicationID dep)) (\<lambda>_.
     ret ended))))"

definition fail_with :: "(deployment \<Rightarrow> unit op) \<Rightarrow> sched_cfg \<Rightarrow> deployment \<Rightarrow> string \<Rightarrow> unit op" where
  "fail_with st cfg dep detail =
     bnd (attempt (endActive_with st cfg dep detail True)) (\<lambda>_. ret ())"

section \<open>Starting\<close>

text \<open>The stage after the environment check: distribute, roll out, or build.\<close>

definition start_stage ::
  "(deployment \<Rightarrow> unit op) \<Rightarrow> sched_cfg \<Rightarrow> deployment \<Rightarrow> application \<Rightarrow> revision \<Rightarrow> unit op" where
  "start_stage st cfg dep app rv =
     (if rev_PromotedFromRevisionID rv \<noteq> [] then startDistribute dep app rv
      else if rev_Image rv \<noteq> [] then startRollout cfg dep app rv
      else
        bnd (UpdateDeploymentStatus (dep_ID dep) DeployBuilding []) (\<lambda>_.
        bnd (attempt (selectBuilder app)) (\<lambda>b.
        case b of
          Inl e \<Rightarrow> bnd (fail_with st cfg dep (error_text e)) (\<lambda>_. throw e)
        | Inr builderID \<Rightarrow>
            bnd (if builderID \<noteq> rt_ServerID (app_Runtime app)
                 then mapE (Wrapped ''scheduler: recording builder'') (SetDeploymentBuilder (dep_ID dep) builderID)
                 else ret dep) (\<lambda>dep.
            bnd (attempt (buildWork cfg dep app rv)) (\<lambda>wk.
            case wk of
              Inl e \<Rightarrow> bnd (fail_with st cfg dep (error_text e)) (\<lambda>_. throw e)
            | Inr work \<Rightarrow>
                mapE (Wrapped ''scheduler: publishing build'')
                  (PublishWork (Build builderID) (dep_ID dep @ ''.build'') (BuildWork work)))))))"

definition start_body ::
  "(deployment \<Rightarrow> unit op) \<Rightarrow> sched_cfg \<Rightarrow> deployment \<Rightarrow> unit op" where
  "start_body st cfg dep =
     bnd (mapE (Wrapped ''scheduler: getting revision'') (GetRevision (dep_RevisionID dep))) (\<lambda>rv.
     bnd (mapE (Wrapped ''scheduler: getting application'') (GetApplication (dep_ApplicationID dep))) (\<lambda>app.
     bnd (SetApplicationStatus (app_ID app) AppDeploying []) (\<lambda>_.
     bnd (attempt (resolveEnv cfg app envStrict)) (\<lambda>env.
     case env of
       Inl e \<Rightarrow>
         bnd (fail_with st cfg dep
                (case root_cause e of
                   UnresolvedReferenceError a b c \<Rightarrow> error_text (UnresolvedReferenceError a b c)
                 | _ \<Rightarrow> ''could not resolve this application'' @ [CHR 0x27] @ ''s environment''))
           (\<lambda>_. throw e)
     | Inr _ \<Rightarrow> start_stage st cfg dep app rv))))"

fun start_fuel :: "nat \<Rightarrow> sched_cfg \<Rightarrow> deployment \<Rightarrow> unit op" where
  "start_fuel 0 cfg dep = throw OutOfFuel"
| "start_fuel (Suc n) cfg dep = start_body (start_fuel n cfg) cfg dep"

definition start :: "sched_cfg \<Rightarrow> deployment \<Rightarrow> unit op" where
  "start cfg dep = (\<lambda>w. start_fuel (Suc (length (w_deps w))) cfg dep w)"

definition promoteNext :: "sched_cfg \<Rightarrow> string \<Rightarrow> unit op" where
  "promoteNext cfg = promoteNext_with (start cfg)"

definition endActive :: "sched_cfg \<Rightarrow> deployment \<Rightarrow> string \<Rightarrow> bool \<Rightarrow> deployment op" where
  "endActive cfg = endActive_with (start cfg) cfg"

definition fail :: "sched_cfg \<Rightarrow> deployment \<Rightarrow> string \<Rightarrow> unit op" where
  "fail cfg = fail_with (start cfg) cfg"

definition tryStart :: "sched_cfg \<Rightarrow> deployment \<Rightarrow> unit op" where
  "tryStart cfg dep =
     bnd (mapE (Wrapped ''scheduler: listing active deployments'')
            (ListActiveDeploymentsByApplication (dep_ApplicationID dep))) (\<lambda>acts.
     case acts of
       [] \<Rightarrow> ret ()
     | d # _ \<Rightarrow> if dep_ID d \<noteq> dep_ID dep then ret () else start cfg dep)"

section \<open>Parking, approval, rejection, cancellation\<close>

definition articleFor :: "string \<Rightarrow> string" where
  "articleFor role =
     (if role = RoleAdmin \<or> role = RoleOwner then ''an '' @ role
      else if role = RoleMember then ''a '' @ role
      else ''an approver'')"

definition failParked :: "deployment \<Rightarrow> string \<Rightarrow> deployment op" where
  "failParked dep detail =
     mapE (Wrapped ''scheduler: ending parked deployment'')
       (UpdateDeploymentStatus (dep_ID dep) DeployFailed detail)"

definition admit :: "sched_cfg \<Rightarrow> application \<Rightarrow> deployAdmission op" where
  "admit cfg app =
     (case sc_gate cfg of
        None \<Rightarrow> ret zeroAdmission
      | Some g \<Rightarrow>
          mapE (Wrapped (''scheduler: evaluating deploy protection for '' @ app_ID app))
            (g_Admit g (app_EnvironmentID app)))"

definition admitQuota :: "sched_cfg \<Rightarrow> application \<Rightarrow> unit op" where
  "admitQuota cfg app =
     (case sc_quota cfg of
        None \<Rightarrow> ret ()
      | Some quota \<Rightarrow>
          bnd (attempt (GetEnvironment (app_EnvironmentID app))) (\<lambda>r.
          case r of
            Inl _ \<Rightarrow> ret ()
          | Inr env \<Rightarrow>
              bnd (attempt (quota (env_ProjectID env))) (\<lambda>q.
              case q of
                Inl _ \<Rightarrow> ret ()
              | Inr adm \<Rightarrow>
                  if qa_Allowed adm then ret ()
                  else throw (QuotaError (qa_Dimension adm) (qa_Reason adm)))))"

text \<open>\<open>park\<close> is reached only when the gate asked for approval, so there is a gate.\<close>

definition park ::
  "gate_ops \<Rightarrow> deployment \<Rightarrow> application \<Rightarrow> deployAdmission \<Rightarrow> string \<Rightarrow> deployment op" where
  "park g dep app adm requestedBy =
     bnd (UpdateDeploymentStatus (dep_ID dep) DeployAwaitingApproval
            (''waiting for approval from '' @ articleFor (adm_RequiredRole adm))) (\<lambda>parked.
     bnd (attempt (g_Park g parked (app_EnvironmentID app) requestedBy (adm_RequiredRole adm))) (\<lambda>r.
     case r of
       Inl perr \<Rightarrow>
         bnd (attempt (failParked parked
                (''could not record the approval request '' @ dash @ '' deploy again''))) (\<lambda>_. throw perr)
     | Inr _ \<Rightarrow> ret parked))"

text \<open>What \<open>DeployAs\<close>, \<open>RollbackAs\<close> and \<open>ApproveDeployment\<close> do with the result of \<open>tryStart\<close>.\<close>

definition started_record :: "sched_cfg \<Rightarrow> deployment \<Rightarrow> deployment op" where
  "started_record cfg dep =
     bnd (attempt (tryStart cfg dep)) (\<lambda>r.
     case r of
       Inl serr \<Rightarrow> bnd (attempt (GetDeployment (dep_ID dep))) (\<lambda>_. throw serr)
     | Inr _ \<Rightarrow> GetDeployment (dep_ID dep))"

definition finish_deploy ::
  "sched_cfg \<Rightarrow> deployment \<Rightarrow> application \<Rightarrow> deployAdmission \<Rightarrow> string \<Rightarrow> deployment op" where
  "finish_deploy cfg dep app admission requestedBy =
     (case (adm_NeedsApproval admission, sc_gate cfg) of
        (True, Some g) \<Rightarrow> park g dep app admission requestedBy
      | _ \<Rightarrow> started_record cfg dep)"

definition DeployAs ::
  "sched_cfg \<Rightarrow> string \<Rightarrow> string \<Rightarrow> string \<Rightarrow> string \<Rightarrow> string \<Rightarrow> string \<Rightarrow> deployment op" where
  "DeployAs cfg newRev newDep appID trigger ref0 requestedBy =
     bnd (mapE (Wrapped ''scheduler: getting application'') (GetApplication appID)) (\<lambda>app.
     bnd (admit cfg app) (\<lambda>admission.
     if adm_Frozen admission then throw (FrozenError (adm_FreezeDetail admission))
     else
       bnd (admitQuota cfg app) (\<lambda>_.
       let imageSource = (src_Kind (app_Source app) = ''image'');
           ref = (if imageSource then src_Image (app_Source app)
                  else if ref0 = [] then src_Branch (app_Source app) else ref0)
       in
       bnd (mapE (Wrapped ''scheduler: creating revision'')
              (CreateRevision newRev (app_ID app) ref (Some (snapshotOf app)))) (\<lambda>rv0.
       bnd (if imageSource
            then mapE (Wrapped ''scheduler: recording image revision'')
                   (SetRevisionImage (rev_ID rv0) (src_Image (app_Source app)))
            else ret rv0) (\<lambda>rv.
       bnd (mapE (Wrapped ''scheduler: creating deployment'')
              (CreateDeployment newDep (app_ID app) (rev_ID rv) trigger)) (\<lambda>dep.
       finish_deploy cfg dep app admission requestedBy))))))"

definition Deploy ::
  "sched_cfg \<Rightarrow> string \<Rightarrow> string \<Rightarrow> string \<Rightarrow> string \<Rightarrow> string \<Rightarrow> deployment op" where
  "Deploy cfg newRev newDep appID trigger ref = DeployAs cfg newRev newDep appID trigger ref []"

definition RollbackAs :: "sched_cfg \<Rightarrow> string \<Rightarrow> string \<Rightarrow> string \<Rightarrow> deployment op" where
  "RollbackAs cfg newDep deploymentID requestedBy =
     bnd (mapE (Wrapped ''scheduler: getting deployment'') (GetDeployment deploymentID)) (\<lambda>src.
     bnd (mapE (Wrapped ''scheduler: getting revision'') (GetRevision (dep_RevisionID src))) (\<lambda>rv.
     if rev_Image rv = [] then throw ErrRevisionNotBuilt
     else
       bnd (mapE (Wrapped ''scheduler: getting application'') (GetApplication (dep_ApplicationID src))) (\<lambda>app.
       bnd (admit cfg app) (\<lambda>admission.
       if adm_Frozen admission then throw (FrozenError (adm_FreezeDetail admission))
       else
         bnd (mapE (Wrapped ''scheduler: creating rollback deployment'')
                (CreateDeployment newDep (dep_ApplicationID src) (rev_ID rv) ''rollback'')) (\<lambda>dep.
         finish_deploy cfg dep app admission requestedBy)))))"

definition Rollback :: "sched_cfg \<Rightarrow> string \<Rightarrow> string \<Rightarrow> deployment op" where
  "Rollback cfg newDep deploymentID = RollbackAs cfg newDep deploymentID []"

definition ApproveDeployment :: "sched_cfg \<Rightarrow> string \<Rightarrow> deployment op" where
  "ApproveDeployment cfg deploymentID =
     bnd (mapE (Wrapped ''scheduler: getting deployment'') (GetDeployment deploymentID)) (\<lambda>dep.
     if \<not> Parked (dep_Status dep) then throw ErrNotParked
     else
       bnd (UpdateDeploymentStatus (dep_ID dep) DeployQueued []) (\<lambda>queued.
       started_record cfg queued))"

definition RejectDeployment :: "string \<Rightarrow> string \<Rightarrow> deployment op" where
  "RejectDeployment deploymentID detail =
     bnd (mapE (Wrapped ''scheduler: getting deployment'') (GetDeployment deploymentID)) (\<lambda>dep.
     if \<not> Parked (dep_Status dep) then throw ErrNotParked
     else failParked dep detail)"

definition Cancel :: "sched_cfg \<Rightarrow> string \<Rightarrow> string \<Rightarrow> deployment op" where
  "Cancel cfg deploymentID by =
     bnd (mapE (Wrapped ''scheduler: getting deployment'') (GetDeployment deploymentID)) (\<lambda>dep.
     let detail = ''cancelled by '' @ by in
     if dep_Status dep = DeployQueued \<or> dep_Status dep = DeployAwaitingApproval then failParked dep detail
     else if dep_Status dep = DeployBuilding \<or> dep_Status dep = DeployDistributing
     then endActive cfg dep detail False
     else throw (ErrCannotCancel (dep_Status dep)))"

section \<open>Converging, restarting, removing\<close>

definition ConvergeApp :: "sched_cfg \<Rightarrow> string \<Rightarrow> unit op" where
  "ConvergeApp cfg appID =
     bnd (GetApplication appID) (\<lambda>app.
     case app_DesiredRevisionID app of
       None \<Rightarrow> ret ()
     | Some r \<Rightarrow>
         bnd (GetRevision r) (\<lambda>rv.
         if rev_Image rv = [] then ret ()
         else
           bnd (buildSpec cfg app rv envStrict) (\<lambda>spec.
           bnd now_op (\<lambda>t.
           mapE (Wrapped ''scheduler: publishing converge'')
             (PublishWork (Converge (rt_ServerID (app_Runtime app))) (appID @ ''.converge.'' @ itoa t)
               (ConvergeWork spec))))))"

definition Restart :: "sched_cfg \<Rightarrow> string \<Rightarrow> string \<Rightarrow> application op" where
  "Restart cfg newToken appID =
     bnd (mapE (Wrapped ''scheduler: getting application'') (GetApplication appID)) (\<lambda>app.
     case app_DesiredRevisionID app of
       None \<Rightarrow> throw ErrNeverDeployed
     | Some r \<Rightarrow>
         bnd (mapE (Wrapped ''scheduler: getting revision'') (GetRevision r)) (\<lambda>rv.
         if rev_Image rv = [] then throw ErrNeverDeployed
         else
           bnd (mapE (Wrapped ''scheduler: recording restart'')
                  (BumpApplicationRestartToken appID newToken)) (\<lambda>updated.
           bnd (ConvergeApp cfg appID) (\<lambda>_. ret updated))))"

definition RemoveApp :: "string \<Rightarrow> string \<Rightarrow> unit op" where
  "RemoveApp serverID appID =
     mapE (Wrapped ''scheduler: publishing remove'')
       (PublishWork (Remove serverID) (''remove-'' @ appID) (RemoveWork (''remove-'' @ appID) appID))"

section \<open>Events from agents\<close>

datatype stage = STAGE_UNSPECIFIED | STAGE_BUILD | STAGE_DISTRIBUTE | STAGE_ROLLOUT | STAGE_REMOVE
datatype outcome = OUTCOME_UNSPECIFIED | OUTCOME_SUCCEEDED | OUTCOME_FAILED

record deployEvent =
  de_DeploymentId :: string
  de_Stage :: stage
  de_Outcome :: outcome
  de_Detail :: string
  de_CommitSha :: string

definition logged :: "'a op \<Rightarrow> unit op" where
  "logged m = bnd (attempt m) (\<lambda>_. ret ())"

text \<open>Which server may report which stage.\<close>

definition event_allowed :: "string \<Rightarrow> deployment \<Rightarrow> application \<Rightarrow> stage \<Rightarrow> bool" where
  "event_allowed serverID dep app stg =
     (let builderID = builderFor dep app;
          allowed = (serverID = rt_ServerID (app_Runtime app))
      in case stg of
           STAGE_BUILD \<Rightarrow> serverID = builderID
         | STAGE_DISTRIBUTE \<Rightarrow> allowed \<or> serverID = builderID
         | _ \<Rightarrow> allowed)"

definition handle_build :: "sched_cfg \<Rightarrow> deployment \<Rightarrow> application \<Rightarrow> deployEvent \<Rightarrow> unit op" where
  "handle_build cfg dep app ev =
     (if dep_Status dep \<noteq> DeployBuilding then ret ()
      else if de_Outcome ev = OUTCOME_FAILED then fail cfg dep (''build failed: '' @ de_Detail ev)
      else
        logged
          (bnd (SetRevisionImage (dep_RevisionID dep) (imageTag (dep_ApplicationID dep) (dep_RevisionID dep))) (\<lambda>rv0.
           bnd (if de_CommitSha ev \<noteq> [] \<and> rev_SourceCommit rv0 \<noteq> de_CommitSha ev
                then SetRevisionSourceCommit (rev_ID rv0) (de_CommitSha ev) else ret rv0) (\<lambda>rv.
           if builderFor dep app \<noteq> rt_ServerID (app_Runtime app) then startDistribute dep app rv
           else startRollout cfg dep app rv))))"

definition handle_distribute ::
  "sched_cfg \<Rightarrow> string \<Rightarrow> deployment \<Rightarrow> application \<Rightarrow> deployEvent \<Rightarrow> unit op" where
  "handle_distribute cfg serverID dep app ev =
     (if dep_Status dep \<noteq> DeployDistributing then ret ()
      else if de_Outcome ev = OUTCOME_FAILED then fail cfg dep (''distribute failed: '' @ de_Detail ev)
      else if serverID \<noteq> rt_ServerID (app_Runtime app) then ret ()
      else
        logged
          (bnd (GetRevision (dep_RevisionID dep)) (\<lambda>rv.
           startRollout cfg dep app rv)))"

definition handle_rollout :: "sched_cfg \<Rightarrow> deployment \<Rightarrow> deployEvent \<Rightarrow> unit op" where
  "handle_rollout cfg dep ev =
     (if dep_Status dep \<noteq> DeployRollingOut then ret ()
      else if de_Outcome ev = OUTCOME_FAILED then fail cfg dep (''rollout failed: '' @ de_Detail ev)
      else ret ())"

definition HandleDeployEvent :: "sched_cfg \<Rightarrow> string \<Rightarrow> deployEvent \<Rightarrow> unit op" where
  "HandleDeployEvent cfg serverID ev =
     bnd (attempt (GetDeployment (de_DeploymentId ev))) (\<lambda>r.
     case r of
       Inl _ \<Rightarrow> ret ()
     | Inr dep \<Rightarrow>
         if Terminal (dep_Status dep) then ret ()
         else
           bnd (attempt (GetApplication (dep_ApplicationID dep))) (\<lambda>a.
           case a of
             Inl _ \<Rightarrow> ret ()
           | Inr app \<Rightarrow>
               if \<not> event_allowed serverID dep app (de_Stage ev) then ret ()
               else (case de_Stage ev of
                   STAGE_BUILD \<Rightarrow> handle_build cfg dep app ev
                 | STAGE_DISTRIBUTE \<Rightarrow> handle_distribute cfg serverID dep app ev
                 | STAGE_ROLLOUT \<Rightarrow> handle_rollout cfg dep ev
                 | STAGE_REMOVE \<Rightarrow> ret ()
                 | STAGE_UNSPECIFIED \<Rightarrow> ret ())))"

record appStatus =
  ast_AppId :: string
  ast_State :: string
  ast_Detail :: string
  ast_RevisionId :: string
  ast_ObservedAt :: "time option"
  ast_Replicas :: "replicaObservation list"
  ast_ResolvedImage :: string

definition EventAppCrashed :: string where "EventAppCrashed = ''app.crashed''"
definition EventAppRecovered :: string where "EventAppRecovered = ''app.recovered''"

definition announceHealth :: "sched_cfg \<Rightarrow> application \<Rightarrow> string \<Rightarrow> string \<Rightarrow> unit op" where
  "announceHealth cfg app observed detail =
     (if app_Status app = AppRunning \<and> observed = AppError
      then emitAppHealth cfg app EventAppCrashed detail
      else if app_Status app = AppError \<and> observed = AppRunning
      then emitAppHealth cfg app EventAppRecovered []
      else ret ())"

definition pinRevisionImage :: "appStatus \<Rightarrow> unit op" where
  "pinRevisionImage st =
     (if ast_ResolvedImage st = [] then ret ()
      else
        bnd (attempt (GetRevision (ast_RevisionId st))) (\<lambda>r.
        case r of
          Inl _ \<Rightarrow> ret ()
        | Inr rv \<Rightarrow>
            if rev_Image rv = ast_ResolvedImage st then ret ()
            else if rev_ApplicationID rv \<noteq> ast_AppId st then ret ()
            else logged (SetRevisionImage (rev_ID rv) (ast_ResolvedImage st))))"

definition completes :: "appStatus \<Rightarrow> deployment \<Rightarrow> bool" where
  "completes st dep \<longleftrightarrow> dep_Status dep = DeployRollingOut \<and> dep_RevisionID dep = ast_RevisionId st"

definition complete_deployment :: "sched_cfg \<Rightarrow> application \<Rightarrow> deployment \<Rightarrow> unit op" where
  "complete_deployment cfg app dep =
     bnd (attempt (UpdateDeploymentStatus (dep_ID dep) DeploySucceeded [])) (\<lambda>r.
     case r of
       Inl _ \<Rightarrow> ret ()
     | Inr done \<Rightarrow>
         bnd (attempt (ApplyDeploymentEnvStamp (dep_ID dep))) (\<lambda>_.
         bnd (emitDeploy cfg app done) (\<lambda>_.
         promoteNext cfg (dep_ApplicationID dep))))"

definition HandleAppStatus :: "sched_cfg \<Rightarrow> string \<Rightarrow> appStatus \<Rightarrow> unit op" where
  "HandleAppStatus cfg serverID st =
     bnd (attempt (GetApplication (ast_AppId st))) (\<lambda>a.
     case a of
       Inl _ \<Rightarrow> ret ()
     | Inr app \<Rightarrow>
         if rt_ServerID (app_Runtime app) \<noteq> serverID then ret ()
         else
           bnd now_op (\<lambda>t.
           let observedAt = (case ast_ObservedAt st of None \<Rightarrow> t | Some ts \<Rightarrow> ts) in
           bnd (attempt (SetApplicationObservedStatus (ast_AppId st) (ast_State st) (ast_Detail st)
                  (ast_RevisionId st) observedAt)) (\<lambda>s.
           case s of
             Inl _ \<Rightarrow> ret ()
           | Inr _ \<Rightarrow>
               bnd (if ast_Replicas st \<noteq> []
                    then logged (SetApplicationReplicaStatus (ast_AppId st) (ast_Replicas st))
                    else ret ()) (\<lambda>_.
               bnd (announceHealth cfg app (ast_State st) (ast_Detail st)) (\<lambda>_.
               if ast_State st \<noteq> AppRunning then ret ()
               else
                 bnd (pinRevisionImage st) (\<lambda>_.
                 bnd (attempt (ListActiveDeploymentsByApplication (ast_AppId st))) (\<lambda>l.
                 case l of
                   Inl _ \<Rightarrow> ret ()
                 | Inr acts \<Rightarrow>
                     (case List.find (completes st) acts of
                        None \<Rightarrow> ret ()
                      | Some dep \<Rightarrow> complete_deployment cfg app dep))))))))"

section \<open>Scheduled tasks\<close>

definition taskRunRetention :: nat where "taskRunRetention = 20"

record taskRunEvent =
  tr_RunId :: string
  tr_TaskId :: string
  tr_Failed :: bool
  tr_ExitCode :: int
  tr_StartedAt :: "time option"
  tr_FinishedAt :: "time option"
  tr_OutputTail :: string

definition HandleScheduledTaskRun :: "string \<Rightarrow> taskRunEvent \<Rightarrow> unit op" where
  "HandleScheduledTaskRun serverID ev =
     bnd (attempt (GetScheduledTask (tr_TaskId ev))) (\<lambda>r.
     case r of
       Inl _ \<Rightarrow> ret ()
     | Inr task \<Rightarrow>
         bnd (attempt (GetApplication (st_ApplicationID task))) (\<lambda>a.
         case a of
           Inl _ \<Rightarrow> ret ()
         | Inr app \<Rightarrow>
             if rt_ServerID (app_Runtime app) \<noteq> serverID then ret ()
             else
               bnd now_op (\<lambda>t.
               let run = \<lparr> str_ID = tr_RunId ev, str_TaskID = st_ID task,
                           str_StartedAt = (case tr_StartedAt ev of Some ts \<Rightarrow> ts | None \<Rightarrow> t),
                           str_FinishedAt = tr_FinishedAt ev, str_ExitCode = Some (tr_ExitCode ev),
                           str_Status = (if tr_Failed ev then ''failed'' else ''succeeded''),
                           str_OutputTail = tr_OutputTail ev \<rparr> in
               bnd (attempt (CreateTaskRun run)) (\<lambda>c.
               case c of
                 Inl _ \<Rightarrow> ret ()
               | Inr _ \<Rightarrow> logged (DeleteOldTaskRuns (st_ID task) taskRunRetention)))))"

section \<open>Desired state and resync\<close>

text \<open>One application of the sync reply: its spec, or \<open>None\<close> when it is left out.\<close>

definition desired_spec :: "sched_cfg \<Rightarrow> string \<Rightarrow> application \<Rightarrow> appSpec option op" where
  "desired_spec cfg serverID app =
     (case app_DesiredRevisionID app of
        None \<Rightarrow> ret None
      | Some r \<Rightarrow>
          bnd (attempt (GetRevision r)) (\<lambda>g.
          case g of
            Inl e \<Rightarrow>
              if \<not> errors_is e ErrNotFound
              then throw (Wrapped (''scheduler: loading revision '' @ r @ '' of app '' @ app_ID app
                     @ '' for '' @ serverID) e)
              else ret None
          | Inr rv \<Rightarrow>
              if rev_Image rv = [] then ret None
              else
                bnd (attempt (buildSpec cfg app rv envOmitMissing)) (\<lambda>s.
                case s of
                  Inl e \<Rightarrow>
                    if \<not> errors_is e ErrRevisionDataInvalid
                    then throw (Wrapped (''scheduler: building spec for app '' @ app_ID app @ '' of '' @ serverID) e)
                    else ret None
                | Inr spec \<Rightarrow> ret (Some spec))))"

definition desired_db :: "sched_cfg \<Rightarrow> string \<Rightarrow> database \<Rightarrow> dbSpecMsg option op" where
  "desired_db cfg serverID db =
     (case db_DesiredRevisionID db of
        None \<Rightarrow> ret None
      | Some r \<Rightarrow>
          if db_PendingDelete db \<or> db_DesiredState db = DbDesiredStopped then ret None
          else
            bnd (attempt (GetDatabaseRevision r)) (\<lambda>g.
            case g of
              Inl e \<Rightarrow>
                if \<not> errors_is e ErrNotFound
                then throw (Wrapped (''scheduler: loading revision '' @ r @ '' of database '' @ db_ID db
                       @ '' for '' @ serverID) e)
                else ret None
            | Inr rv \<Rightarrow>
                (case dbSpec cfg db rv of
                   Inl e \<Rightarrow> throw (Wrapped (''scheduler: building spec for database '' @ db_ID db
                              @ '' of '' @ serverID) e)
                 | Inr spec \<Rightarrow> ret (Some spec))))"

record desiredState =
  dst_Specs :: "appSpec list"
  dst_DbSpecs :: "dbSpecMsg list"
  dst_Retain :: "(string \<times> string list) list"

text \<open>
  The applications, databases and retain sets of \<open>DesiredStateFor\<close>; the node-wide settings that
  follow them in the reply are not modelled.
\<close>

definition DesiredStateFor :: "sched_cfg \<Rightarrow> string \<Rightarrow> desiredState op" where
  "DesiredStateFor cfg serverID =
     bnd (mapE (Wrapped (''scheduler: listing apps for '' @ serverID)) (ListApplicationsByServer serverID)) (\<lambda>apps.
     bnd (collectE apps (desired_spec cfg serverID)) (\<lambda>specs.
     bnd (mapE (Wrapped (''scheduler: listing databases for '' @ serverID)) (ListDatabasesByServer serverID)) (\<lambda>dbs.
     bnd (collectE dbs (desired_db cfg serverID)) (\<lambda>dbspecs.
     bnd (retainFor cfg apps) (\<lambda>retain.
     ret \<lparr> dst_Specs = specs, dst_DbSpecs = dbspecs, dst_Retain = retain \<rparr>)))))"

text \<open>The loop counts the servers it could not reach.\<close>

fun resync_loop :: "string \<Rightarrow> server list \<Rightarrow> nat \<Rightarrow> nat op" where
  "resync_loop reason [] failed = ret failed"
| "resync_loop reason (srv # srvs) failed =
     (if srv_EnrolledAt srv = None then resync_loop reason srvs failed
      else
        bnd now_op (\<lambda>t.
        bnd (attempt (PublishWork (Resync (srv_ID srv)) (srv_ID srv @ ''.resync.'' @ itoa t) (ResyncWork reason))) (\<lambda>r.
        resync_loop reason srvs (case r of Inl _ \<Rightarrow> Suc failed | Inr _ \<Rightarrow> failed))))"

definition RequestResync :: "string \<Rightarrow> unit op" where
  "RequestResync reason =
     bnd (mapE (Wrapped ''scheduler: listing servers for resync'') ListServers) (\<lambda>servers.
     bnd (resync_loop reason servers 0) (\<lambda>failed.
     if failed > 0 then throw (ResyncFailed failed (length servers)) else ret ()))"

definition RequestServerResync :: "string \<Rightarrow> string \<Rightarrow> unit op" where
  "RequestServerResync serverID reason =
     bnd (mapE (Wrapped ''scheduler: reading server for resync'') (GetServer serverID)) (\<lambda>srv.
     if srv_EnrolledAt srv = None then ret ()
     else
       bnd now_op (\<lambda>t.
       mapE (Wrapped (''scheduler: nudging '' @ srv_ID srv @ '' to resync''))
         (PublishWork (Resync (srv_ID srv)) (srv_ID srv @ ''.resync.'' @ itoa t) (ResyncWork reason))))"

section \<open>Recovery\<close>

definition recover_databases :: "sched_cfg \<Rightarrow> server \<Rightarrow> unit op" where
  "recover_databases cfg srv =
     bnd (attempt (ListDatabasesByServer (srv_ID srv))) (\<lambda>r.
     case r of
       Inl _ \<Rightarrow> ret ()
     | Inr dbs \<Rightarrow> forE dbs (\<lambda>db. logged (reconcileDatabaseLocked cfg (db_ID db))))"

definition recover_one :: "sched_cfg \<Rightarrow> deployment \<Rightarrow> unit op" where
  "recover_one cfg dep =
     (if dep_Status dep = DeployQueued then logged (tryStart cfg dep)
      else if Terminal (dep_Status dep) \<or> dep_Status dep = DeployAwaitingApproval then ret ()
      else
        logged
          (bnd (GetApplication (dep_ApplicationID dep)) (\<lambda>app.
           bnd (GetRevision (dep_RevisionID dep)) (\<lambda>rv.
           case dep_Status dep of
             DeployBuilding \<Rightarrow>
               bnd (attempt (buildWork cfg dep app rv)) (\<lambda>wk.
               case wk of
                 Inl e \<Rightarrow> fail cfg dep (error_text e)
               | Inr work \<Rightarrow> PublishWork (Build (builderFor dep app)) (dep_ID dep @ ''.build'') (BuildWork work))
           | DeployDistributing \<Rightarrow> startDistribute dep app rv
           | _ \<Rightarrow> startRollout cfg dep app rv))))"

definition Recover :: "sched_cfg \<Rightarrow> unit op" where
  "Recover cfg =
     bnd (mapE (Wrapped ''scheduler: listing servers'') ListServers) (\<lambda>servers.
     bnd (forE servers (\<lambda>srv. logged (EnsureWorkConsumer (srv_ID srv)))) (\<lambda>_.
     bnd (forE servers (recover_databases cfg)) (\<lambda>_.
     bnd (mapE (Wrapped ''scheduler: listing active deployments'') ListActiveDeployments) (\<lambda>acts.
     forE acts (recover_one cfg)))))"

end
