(* ===== verification/Promotion.thy ===== *)
theory Promotion
  imports Scheduler
begin

text \<open>
  Promotion of a revision to another application (\<open>src/core/scheduler/promotion.go\<close>): the plan, which writes nothing, and
  \<open>Promote\<close> (here \<open>PromoteRevision\<close>), which creates a revision of the target that names the artifact of the source and starts its deployment.
\<close>

section \<open>The plan\<close>

record promotionPlan =
  pp_SourceApplication :: string
  pp_TargetApplication :: string
  pp_SourceRevisionID :: string
  pp_SourceCommit :: string
  pp_TargetRevisionID :: string
  pp_Image :: string
  pp_SameServer :: bool
  pp_OnlyInSource :: "string list"
  pp_OnlyInTarget :: "string list"
  pp_UnresolvedInTarget :: "string list"
  pp_Blockers :: "string list"
  pp_Note :: string

definition buildTimeNote :: string where
  "buildTimeNote = ''The image that runs in production will be byte-for-byte the one that ran in staging, ''
     @ ''including anything baked in at build time '' @ dash @ '' an API URL compiled into a bundle, a config file substituted ''
     @ ''by an ARG. If this application bakes environment configuration into its image, promoting moves staging'' @ [CHR 0x27] @ ''s ''
     @ ''configuration into production and the deploy will look perfectly successful. The remedy is a ''
     @ ''runtime-configured image; the panel cannot detect this.''"

definition envKeys :: "string \<Rightarrow> string list op" where
  "envKeys appID =
     bnd (mapE (Wrapped ''scheduler: listing environment variables'') (ListEnvVars appID)) (\<lambda>vars.
     ret (sort (map ev_Key vars)))"

definition difference :: "string list \<Rightarrow> string list \<Rightarrow> string list" where
  "difference a b = filter (\<lambda>s. s \<notin> set b) a"

definition never_built :: string where
  "never_built = ''this revision has no image '' @ dash @ '' it was never built, so there is no artifact to promote''"

definition to_itself :: string where
  "to_itself = ''an application cannot be promoted to itself''"

definition other_project :: string where
  "other_project = ''these applications are in different projects '' @ dash
     @ '' a promotion moves an artifact between environments of one project''"

text \<open>\<open>errors.As\<close> for a reference that cannot be resolved.\<close>

definition unresolved_text :: "error + 'a \<Rightarrow> string list" where
  "unresolved_text r = (case r of
       Inr _ \<Rightarrow> []
     | Inl e \<Rightarrow> (case root_cause e of
           UnresolvedReferenceError a b c \<Rightarrow> [error_text (UnresolvedReferenceError a b c)]
         | _ \<Rightarrow> []))"

definition PlanPromotion :: "sched_cfg \<Rightarrow> string \<Rightarrow> string \<Rightarrow> promotionPlan op" where
  "PlanPromotion cfg sourceRevID targetAppID =
     bnd (mapE (Wrapped ''scheduler: reading the source revision'') (GetRevision sourceRevID)) (\<lambda>rv.
     bnd (mapE (Wrapped ''scheduler: reading the source application'') (GetApplication (rev_ApplicationID rv))) (\<lambda>source.
     bnd (mapE (Wrapped ''scheduler: reading the target application'') (GetApplication targetAppID)) (\<lambda>target.
     bnd (attempt (GetEnvironment (app_EnvironmentID source))) (\<lambda>srcEnv.
     bnd (attempt (GetEnvironment (app_EnvironmentID target))) (\<lambda>tgtEnv.
     bnd (envKeys (app_ID source)) (\<lambda>srcKeys.
     bnd (envKeys (app_ID target)) (\<lambda>tgtKeys.
     bnd (attempt (resolveEnv cfg target envStrict)) (\<lambda>env.
     ret \<lparr> pp_SourceApplication = app_Name source, pp_TargetApplication = app_Name target,
       pp_SourceRevisionID = rev_ID rv, pp_SourceCommit = rev_SourceCommit rv,
       pp_TargetRevisionID = app_ObservedRevisionID target, pp_Image = rev_Image rv,
       pp_SameServer = (rt_ServerID (app_Runtime source) = rt_ServerID (app_Runtime target)),
       pp_OnlyInSource = difference srcKeys tgtKeys, pp_OnlyInTarget = difference tgtKeys srcKeys,
       pp_UnresolvedInTarget = unresolved_text env,
       pp_Blockers =
         (if rev_Image rv = [] then [never_built] else [])
         @ (if app_ID source = app_ID target then [to_itself] else [])
         @ (case (srcEnv, tgtEnv) of
              (Inr s, Inr t) \<Rightarrow> if env_ProjectID s \<noteq> env_ProjectID t then [other_project] else []
            | _ \<Rightarrow> [])
         @ unresolved_text env,
       pp_Note = buildTimeNote \<rparr>))))))))"

section \<open>Promoting\<close>

definition mustSourceApp :: "string \<Rightarrow> string op" where
  "mustSourceApp revID =
     bnd (attempt (GetRevision revID)) (\<lambda>r. ret (case r of Inl _ \<Rightarrow> [] | Inr rv \<Rightarrow> rev_ApplicationID rv))"

text \<open>
  After the gate: what a promotion writes. The error of \<open>tryStart\<close> is returned beside the deployment without reading it again,
  so \<open>started_record\<close> of the other handlers does not apply.
\<close>

definition promote_admitted ::
  "sched_cfg \<Rightarrow> string \<Rightarrow> string \<Rightarrow> promotionPlan \<Rightarrow> string \<Rightarrow> application \<Rightarrow> application \<Rightarrow> deployAdmission \<Rightarrow> string \<Rightarrow> deployment op" where
  "promote_admitted cfg newRev newDep plan sourceRevID source target admission requestedBy =
     bnd (CreatePromotedRevision newRev (app_ID target) (pp_SourceCommit plan) (Some (snapshotOf target))
            (imageTag (app_ID target) newRev) sourceRevID) (\<lambda>rv.
     bnd (mapE (Wrapped ''scheduler: creating the promotion deployment'')
            (CreateDeployment newDep (app_ID target) (rev_ID rv) ''promotion'')) (\<lambda>dep0.
     bnd (mapE (Wrapped (''scheduler: recording the artifact'' @ [CHR 0x27] @ ''s server''))
            (SetDeploymentBuilder (dep_ID dep0) (rt_ServerID (app_Runtime source)))) (\<lambda>dep.
     case (adm_NeedsApproval admission, sc_gate cfg) of
       (True, Some g) \<Rightarrow> park g dep target admission requestedBy
     | _ \<Rightarrow> bnd (tryStart cfg dep) (\<lambda>_. GetDeployment (dep_ID dep)))))"

definition PromoteRevision :: "sched_cfg \<Rightarrow> string \<Rightarrow> string \<Rightarrow> string \<Rightarrow> string \<Rightarrow> string \<Rightarrow> deployment op" where
  "PromoteRevision cfg newRev newDep sourceRevID targetAppID requestedBy =
     bnd (PlanPromotion cfg sourceRevID targetAppID) (\<lambda>plan.
     case pp_Blockers plan of
       b # _ \<Rightarrow> throw (ErrNotPromotable b)
     | [] \<Rightarrow>
         bnd (mustSourceApp sourceRevID) (\<lambda>sourceApp.
         bnd (GetApplication sourceApp) (\<lambda>source.
         bnd (GetApplication targetAppID) (\<lambda>target.
         bnd (admit cfg target) (\<lambda>admission.
         if adm_Frozen admission then throw (FrozenError (adm_FreezeDetail admission))
         else
           bnd (admitQuota cfg target) (\<lambda>_.
           promote_admitted cfg newRev newDep plan sourceRevID source target admission requestedBy))))))"

end
