(* ===== verification/Pipeline.thy ===== *)
theory Pipeline
  imports Store
begin

text \<open>
  The deploy pipeline as a state machine on the table of deployments: the abstract specification
  the handlers of \<open>Scheduler\<close> implement.

  \<open>pipe a\<close> is one write of the pipeline of application \<open>a\<close>: a deployment is created queued,
  advanced when it is the oldest active one or already on its way, failed, parked, or annotated. Two
  writes are kept apart: \<open>release\<close>, made when a parked deployment is approved, is the one write that
  can put a deployment in front of another, and \<open>complete\<close>, made when an agent reports the rollout
  running, is the one that makes a deployment succeed. Invariants are proved by rule induction once,
  here.
\<close>

definition in_flight :: "deploymentStatus \<Rightarrow> bool" where
  "in_flight s \<longleftrightarrow> s = DeployBuilding \<or> s = DeployDistributing \<or> s = DeployRollingOut"

lemma in_flight_simps [simp]:
  "in_flight DeployBuilding" "in_flight DeployDistributing" "in_flight DeployRollingOut"
  "\<not> in_flight DeployQueued" "\<not> in_flight DeploySucceeded" "\<not> in_flight DeployFailed"
  "\<not> in_flight DeployAwaitingApproval"
  by (simp_all add: in_flight_def)

lemma in_flight_active: "in_flight (dep_Status d) \<Longrightarrow> active d"
  by (auto simp: in_flight_def active_def)

lemma active_not_terminal: "active d \<Longrightarrow> \<not> Terminal (dep_Status d)"
  by (simp add: active_def)

definition dep_row :: "string \<Rightarrow> deployment list \<Rightarrow> deployment option" where
  "dep_row i ds = List.find (\<lambda>d. dep_ID d = i) ds"

definition dep_upd :: "string \<Rightarrow> (deployment \<Rightarrow> deployment) \<Rightarrow> deployment list \<Rightarrow> deployment list" where
  "dep_upd i f ds = update_where (\<lambda>d. dep_ID d = i) f ds"

definition wf_ids :: "deployment list \<Rightarrow> bool" where
  "wf_ids ds \<longleftrightarrow> distinct (map dep_ID ds)"

text \<open>Keeping the identity of a row: what every update does.\<close>

definition same_key :: "(deployment \<Rightarrow> deployment) \<Rightarrow> bool" where
  "same_key f \<longleftrightarrow> (\<forall>d. dep_ID (f d) = dep_ID d \<and> dep_ApplicationID (f d) = dep_ApplicationID d
      \<and> dep_RevisionID (f d) = dep_RevisionID d)"

lemma same_keyD:
  "same_key f \<Longrightarrow> dep_ID (f d) = dep_ID d" "same_key f \<Longrightarrow> dep_ApplicationID (f d) = dep_ApplicationID d"
  "same_key f \<Longrightarrow> dep_RevisionID (f d) = dep_RevisionID d"
  by (simp_all add: same_key_def)

lemma same_key_set_status [simp]: "same_key (set_status t s det)"
  by (simp add: same_key_def set_status_def)

lemma set_status_Status [simp]: "dep_Status (set_status t s det d) = s"
  by (simp add: set_status_def)

lemma same_key_builder [simp]: "same_key (dep_BuilderServerID_update g)"
  by (simp add: same_key_def)

lemma same_key_stamp [simp]: "same_key (dep_EnvResolvedAt_update g)"
  by (simp add: same_key_def)

lemma map_dep_upd: "same_key f \<Longrightarrow> map dep_ID (dep_upd i f ds) = map dep_ID ds"
  unfolding dep_upd_def by (rule map_update_where) (rule same_keyD)

lemma wf_ids_upd [simp]: "same_key f \<Longrightarrow> wf_ids (dep_upd i f ds) = wf_ids ds"
  by (simp add: wf_ids_def map_dep_upd)

lemma dep_upd_append [simp]: "dep_upd i f (us @ vs) = dep_upd i f us @ dep_upd i f vs"
  by (simp add: dep_upd_def update_where_def)

lemma dep_upd_Cons [simp]: "dep_upd i f (d # ds) = (if dep_ID d = i then f d else d) # dep_upd i f ds"
  by (simp add: dep_upd_def)

lemma dep_upd_Nil [simp]: "dep_upd i f [] = []"
  by (simp add: dep_upd_def)

lemma length_dep_upd [simp]: "length (dep_upd i f ds) = length ds"
  by (simp add: dep_upd_def)

lemma dep_upd_nth: "k < length ds \<Longrightarrow> dep_upd i f ds ! k = (if dep_ID (ds ! k) = i then f (ds ! k) else ds ! k)"
  by (simp add: dep_upd_def update_where_def)

lemma in_dep_upd: "x \<in> set (dep_upd i f ds) \<longleftrightarrow> (\<exists>d \<in> set ds. x = (if dep_ID d = i then f d else d))"
  by (auto simp: dep_upd_def set_update_where)

lemma dep_row_Some: "dep_row i ds = Some d \<Longrightarrow> d \<in> set ds \<and> dep_ID d = i"
  unfolding dep_row_def using find_Some_set [of "\<lambda>d. dep_ID d = i" ds d] by simp

lemma dep_row_None: "dep_row i ds = None \<longleftrightarrow> i \<notin> set (map dep_ID ds)"
  by (auto simp: dep_row_def find_None_all)

lemma dep_row_unique: "wf_ids ds \<Longrightarrow> d \<in> set ds \<Longrightarrow> dep_row (dep_ID d) ds = Some d"
  unfolding wf_ids_def dep_row_def by (induction ds) auto

lemma dep_row_append: "dep_row i ds = Some d \<Longrightarrow> dep_row i (ds @ es) = Some d"
  unfolding dep_row_def by (induction ds) auto

lemma dep_row_both: "dep_row i (ds @ es) = (case dep_row i ds of None \<Rightarrow> dep_row i es | Some d \<Rightarrow> Some d)"
  unfolding dep_row_def by (induction ds) auto

lemma dep_row_one: "dep_row i [d] = (if dep_ID d = i then Some d else None)"
  by (simp add: dep_row_def)

lemma dep_upd_missing: "dep_row i ds = None \<Longrightarrow> dep_upd i f ds = ds"
  unfolding dep_row_None by (induction ds) auto

lemma dep_row_upd:
  assumes "same_key f"
  shows "dep_row j (dep_upd i f ds) = (if i = j then map_option f (dep_row j ds) else dep_row j ds)"
  by (induction ds) (auto simp: dep_row_def same_keyD [OF assms])

section \<open>The head of a queue\<close>

definition head_of :: "string \<Rightarrow> deployment list \<Rightarrow> bool" where
  "head_of i ds \<longleftrightarrow> (\<exists>us d vs. ds = us @ d # vs \<and> dep_ID d = i \<and> active d
     \<and> (\<forall>u \<in> set us. active u \<longrightarrow> dep_ApplicationID u \<noteq> dep_ApplicationID d))"

lemma queue_head:
  assumes "queue_of a ds = d # rest"
  shows "head_of (dep_ID d) ds" and "dep_ApplicationID d = a" and "active d" and "d \<in> set ds"
proof -
  obtain us vs where ds: "ds = us @ d # vs" and us: "\<forall>u \<in> set us. \<not> (dep_ApplicationID u = a \<and> active u)"
    and d: "dep_ApplicationID d = a \<and> active d"
    using assms unfolding queue_of_def by (auto simp: filter_eq_Cons_iff)
  from d show "dep_ApplicationID d = a" "active d" by auto
  from ds show "d \<in> set ds" by simp
  from ds us d show "head_of (dep_ID d) ds" unfolding head_of_def by blast
qed

lemma head_queue:
  assumes "wf_ids ds" and "head_of i ds" and "dep_row i ds = Some d"
  shows "\<exists>rest. queue_of (dep_ApplicationID d) ds = d # rest"
proof -
  obtain us e vs where ds: "ds = us @ e # vs" and e: "dep_ID e = i" "active e"
    and us: "\<forall>u \<in> set us. active u \<longrightarrow> dep_ApplicationID u \<noteq> dep_ApplicationID e"
    using assms(2) unfolding head_of_def by blast
  have "dep_row i ds = Some e" using dep_row_unique [OF assms(1), of e] ds e by simp
  with assms(3) have "e = d" by simp
  have "filter (\<lambda>x. dep_ApplicationID x = dep_ApplicationID d \<and> active x) us = []"
    using us \<open>e = d\<close> by (auto simp: filter_empty_conv)
  with ds e \<open>e = d\<close> show ?thesis by (simp add: queue_of_def)
qed

lemma head_row: "wf_ids ds \<Longrightarrow> head_of i ds \<Longrightarrow> \<exists>d. dep_row i ds = Some d \<and> active d"
  unfolding head_of_def by (metis dep_row_unique in_set_conv_decomp)

lemma head_of_append: "head_of i ds \<Longrightarrow> head_of i (ds @ [d])"
  unfolding head_of_def by (metis append.assoc append_Cons)

text \<open>An update that activates nothing leaves every other head in place, and its own if it stays active.\<close>

lemma head_of_upd:
  assumes key: "same_key f" and act: "\<And>d. d \<in> set ds \<Longrightarrow> dep_ID d = i \<Longrightarrow> active (f d) \<Longrightarrow> active d"
    and head: "head_of j ds" and own: "j = i \<Longrightarrow> (\<And>d. d \<in> set ds \<Longrightarrow> dep_ID d = i \<Longrightarrow> active d \<Longrightarrow> active (f d))"
  shows "head_of j (dep_upd i f ds)"
proof -
  obtain us d vs where ds: "ds = us @ d # vs" and d: "dep_ID d = j" "active d"
    and us: "\<forall>u \<in> set us. active u \<longrightarrow> dep_ApplicationID u \<noteq> dep_ApplicationID d"
    using head unfolding head_of_def by blast
  define d' where "d' = (if dep_ID d = i then f d else d)"
  have "dep_upd i f ds = dep_upd i f us @ d' # dep_upd i f vs" by (simp add: ds d'_def)
  moreover have "dep_ID d' = j" "dep_ApplicationID d' = dep_ApplicationID d"
    using d by (simp_all add: d'_def same_keyD [OF key])
  moreover have "active d'" using d own ds by (auto simp: d'_def)
  moreover have "\<forall>u \<in> set (dep_upd i f us). active u \<longrightarrow> dep_ApplicationID u \<noteq> dep_ApplicationID d"
    using us act ds by (auto simp: in_dep_upd same_keyD [OF key] split: if_splits)
  ultimately show ?thesis unfolding head_of_def by metis
qed

section \<open>Writes of the pipeline\<close>

inductive pipe :: "string \<Rightarrow> deployment list \<Rightarrow> deployment list \<Rightarrow> bool" for a where
  create: "dep_row (dep_ID d) ds = None \<Longrightarrow> dep_ApplicationID d = a \<Longrightarrow> dep_Status d = DeployQueued
    \<Longrightarrow> pipe a ds (ds @ [d])"
| advance: "dep_row i ds = Some d \<Longrightarrow> dep_ApplicationID d = a \<Longrightarrow> head_of i ds \<or> in_flight (dep_Status d)
    \<Longrightarrow> in_flight s \<Longrightarrow> pipe a ds (dep_upd i (set_status t s det) ds)"
| finish: "dep_row i ds = Some d \<Longrightarrow> dep_ApplicationID d = a \<Longrightarrow> \<not> Terminal (dep_Status d)
    \<Longrightarrow> pipe a ds (dep_upd i (set_status t DeployFailed det) ds)"
| park: "dep_row i ds = Some d \<Longrightarrow> dep_ApplicationID d = a \<Longrightarrow> dep_Status d = DeployQueued
    \<Longrightarrow> pipe a ds (dep_upd i (set_status t DeployAwaitingApproval det) ds)"
| annotate: "dep_row i ds = Some d \<Longrightarrow> dep_ApplicationID d = a \<Longrightarrow> active d \<Longrightarrow> same_key f
    \<Longrightarrow> (\<And>x. dep_Status (f x) = dep_Status x) \<Longrightarrow> pipe a ds (dep_upd i f ds)"

inductive release :: "string \<Rightarrow> deployment list \<Rightarrow> deployment list \<Rightarrow> bool" for a where
  release: "dep_row i ds = Some d \<Longrightarrow> dep_ApplicationID d = a \<Longrightarrow> dep_Status d = DeployAwaitingApproval
    \<Longrightarrow> release a ds (dep_upd i (set_status t DeployQueued det) ds)"

inductive complete :: "string \<Rightarrow> string \<Rightarrow> deployment list \<Rightarrow> deployment list \<Rightarrow> bool" for a i where
  complete: "dep_row i ds = Some d \<Longrightarrow> dep_ApplicationID d = a \<Longrightarrow> dep_Status d = DeployRollingOut
    \<Longrightarrow> complete a i ds (dep_upd i (set_status t DeploySucceeded det) ds)"

inductive_cases releaseE: "release a ds ds'"
inductive_cases completeE: "complete a i ds ds'"

lemma status_activates:
  assumes "wf_ids ds" "dep_row i ds = Some d" "active d" "x \<in> set ds" "dep_ID x = i"
  shows "active x"
  using assms dep_row_unique by fastforce

lemma pipe_wf: "pipe a ds ds' \<Longrightarrow> wf_ids ds \<Longrightarrow> wf_ids ds'"
  by (induction rule: pipe.induct) (auto simp: wf_ids_def map_dep_upd dep_row_None)

lemma release_wf: "release a ds ds' \<Longrightarrow> wf_ids ds \<Longrightarrow> wf_ids ds'"
  by (induction rule: release.induct) simp

lemma complete_wf: "complete a i ds ds' \<Longrightarrow> wf_ids ds \<Longrightarrow> wf_ids ds'"
  by (induction rule: complete.induct) simp

lemma pipes_wf: "(pipe a)\<^sup>*\<^sup>* ds ds' \<Longrightarrow> wf_ids ds \<Longrightarrow> wf_ids ds'"
  by (induction rule: rtranclp_induct) (auto intro: pipe_wf)

section \<open>One pipeline per application\<close>

definition single_flight :: "deployment list \<Rightarrow> bool" where
  "single_flight ds \<longleftrightarrow> (\<forall>d \<in> set ds. in_flight (dep_Status d) \<longrightarrow> head_of (dep_ID d) ds)"

lemma inactive_statuses:
  "\<not> active (set_status t DeployFailed det d)" "\<not> active (set_status t DeploySucceeded det d)"
  "\<not> active (set_status t DeployAwaitingApproval det d)"
  by (simp_all add: active_def)

lemma active_in_flight: "in_flight s \<Longrightarrow> active (set_status t s det d)"
  by (auto simp: active_def in_flight_def)

lemma single_flight_upd:
  assumes "single_flight ds" "same_key f"
    and act: "\<And>d. d \<in> set ds \<Longrightarrow> dep_ID d = i \<Longrightarrow> active (f d) \<Longrightarrow> active d"
    and own: "\<And>d. d \<in> set ds \<Longrightarrow> dep_ID d = i \<Longrightarrow> in_flight (dep_Status (f d)) \<Longrightarrow> head_of i (dep_upd i f ds)"
  shows "single_flight (dep_upd i f ds)"
  unfolding single_flight_def
proof (intro ballI impI)
  fix x assume x: "x \<in> set (dep_upd i f ds)" and fl: "in_flight (dep_Status x)"
  then obtain d where d: "d \<in> set ds" "x = (if dep_ID d = i then f d else d)" by (auto simp: in_dep_upd)
  show "head_of (dep_ID x) (dep_upd i f ds)"
  proof (cases "dep_ID d = i")
    case True
    with own [OF d(1) True] fl d show ?thesis by (simp add: same_keyD [OF assms(2)])
  next
    case False
    with d fl assms(1) have "head_of (dep_ID d) ds" by (auto simp: single_flight_def)
    from head_of_upd [OF assms(2) act this] False d show ?thesis by simp
  qed
qed

lemma single_flight_pipe: "pipe a ds ds' \<Longrightarrow> wf_ids ds \<Longrightarrow> single_flight ds \<Longrightarrow> single_flight ds'"
proof (induction rule: pipe.induct)
  case (create d ds)
  then show ?case by (auto simp: single_flight_def intro: head_of_append)
next
  case (advance i ds d s t det)
  have head: "head_of i ds"
    using advance.hyps(1,3) advance.prems(2) dep_row_Some [OF advance.hyps(1)] by (auto simp: single_flight_def)
  have act: "active x" if "x \<in> set ds" "dep_ID x = i" for x
    using head_row [OF advance.prems(1) head] status_activates [OF advance.prems(1)] that by blast
  then have "head_of i (dep_upd i (set_status t s det) ds)"
    using advance.hyps head by (intro head_of_upd) (auto simp: active_in_flight)
  with act advance.prems show ?case by (intro single_flight_upd) auto
next
  case (annotate i ds d f)
  have same: "active (f x) = active x" for x using annotate.hyps(5) by (simp add: active_def)
  have "head_of i (dep_upd i f ds)" if "x \<in> set ds" "dep_ID x = i" "in_flight (dep_Status (f x))" for x
    using that annotate same by (intro head_of_upd) (auto simp: single_flight_def)
  with annotate same show ?case by (intro single_flight_upd) auto
qed (intro single_flight_upd; simp add: inactive_statuses)+

lemma single_flight_complete: "complete a i ds ds' \<Longrightarrow> single_flight ds \<Longrightarrow> single_flight ds'"
  by (induction rule: complete.induct) (intro single_flight_upd; simp add: inactive_statuses)

lemma single_flight_pipes:
  "(pipe a)\<^sup>*\<^sup>* ds ds' \<Longrightarrow> wf_ids ds \<Longrightarrow> single_flight ds \<Longrightarrow> single_flight ds'"
  by (induction rule: rtranclp_induct) (auto intro: single_flight_pipe pipes_wf)

text \<open>
  Releasing is harmless as long as no deployment of the application is in flight behind the
  released one.
\<close>

lemma single_flight_release:
  assumes "release a ds ds'" "wf_ids ds" "single_flight ds"
    and none: "\<And>d. d \<in> set ds \<Longrightarrow> dep_ApplicationID d = a \<Longrightarrow> \<not> in_flight (dep_Status d)"
  shows "single_flight ds'"
proof -
  obtain i d t det where 1: "ds' = dep_upd i (set_status t DeployQueued det) ds" "dep_row i ds = Some d"
    "dep_ApplicationID d = a"
    using assms(1) by (rule releaseE) blast
  show ?thesis unfolding single_flight_def
  proof (intro ballI impI)
    fix x assume x: "x \<in> set ds'" and fl: "in_flight (dep_Status x)"
    obtain e where e: "e \<in> set ds" "x = (if dep_ID e = i then set_status t DeployQueued det e else e)"
      using x unfolding 1(1) in_dep_upd by blast
    have "dep_ID e \<noteq> i" using fl e(2) by auto
    with e have x_in: "x \<in> set ds" "dep_ID x \<noteq> i" by auto
    with none fl have other: "dep_ApplicationID x \<noteq> a" by blast
    obtain us vs where ds: "ds = us @ x # vs"
      and us: "\<forall>u \<in> set us. active u \<longrightarrow> dep_ApplicationID u \<noteq> dep_ApplicationID x"
    proof -
      obtain us e vs where e: "ds = us @ e # vs" "dep_ID e = dep_ID x"
        "\<forall>u \<in> set us. active u \<longrightarrow> dep_ApplicationID u \<noteq> dep_ApplicationID e"
        using assms(3) x_in fl unfolding single_flight_def head_of_def by blast
      have "e = x" using assms(2) e x_in dep_row_unique [of ds e] dep_row_unique [of ds x] by simp
      with e that show thesis by blast
    qed
    have app_i: "dep_ApplicationID u = a" if "u \<in> set ds" "dep_ID u = i" for u
      using dep_row_unique [OF assms(2) that(1)] that(2) 1 by simp
    have "\<forall>u \<in> set (dep_upd i (set_status t DeployQueued det) us).
        active u \<longrightarrow> dep_ApplicationID u \<noteq> dep_ApplicationID x"
      using us app_i other ds by (auto simp: in_dep_upd same_keyD [OF same_key_set_status] split: if_splits)
    moreover have "ds' = dep_upd i (set_status t DeployQueued det) us @ x #
        dep_upd i (set_status t DeployQueued det) vs"
      using x_in(2) by (simp add: 1(1) ds)
    ultimately show "head_of (dep_ID x) ds'"
      using in_flight_active [OF fl] unfolding head_of_def by blast
  qed
qed

lemma single_flight_at_most_one:
  assumes "wf_ids ds" "single_flight ds"
  shows "length (filter (\<lambda>d. dep_ApplicationID d = a \<and> in_flight (dep_Status d)) ds) \<le> 1"
proof -
  define fl where "fl = filter (\<lambda>d. dep_ApplicationID d = a \<and> in_flight (dep_Status d)) ds"
  have "x = y" if "x \<in> set fl" "y \<in> set fl" for x y
  proof -
    from that have xy: "x \<in> set ds" "y \<in> set ds" "dep_ApplicationID x = a" "dep_ApplicationID y = a"
      "head_of (dep_ID x) ds" "head_of (dep_ID y) ds"
      using assms(2) by (auto simp: fl_def single_flight_def)
    then obtain r s where "queue_of a ds = x # r" "queue_of a ds = y # s"
      using head_queue [OF assms(1) xy(5) dep_row_unique [OF assms(1) xy(1)]]
        head_queue [OF assms(1) xy(6) dep_row_unique [OF assms(1) xy(2)]] by auto
    then show ?thesis by simp
  qed
  moreover have "distinct fl" using assms(1) by (simp add: fl_def wf_ids_def distinct_map)
  ultimately have "length fl \<le> 1"
    using card_le_Suc0_iff_eq [of "set fl"] distinct_card [of fl] by simp
  then show ?thesis by (simp add: fl_def)
qed

section \<open>The life of one deployment\<close>

inductive life :: "deploymentStatus \<Rightarrow> deploymentStatus \<Rightarrow> bool" where
  life_advance: "\<not> Terminal s \<Longrightarrow> \<not> Parked s \<Longrightarrow> in_flight t \<Longrightarrow> life s t"
| life_fail: "\<not> Terminal s \<Longrightarrow> life s DeployFailed"
| life_succeed: "life DeployRollingOut DeploySucceeded"
| life_park: "life DeployQueued DeployAwaitingApproval"
| life_release: "life DeployAwaitingApproval DeployQueued"

inductive_cases life_terminalE: "life DeploySucceeded t" "life DeployFailed t"
inductive_cases life_successE: "life s DeploySucceeded"
inductive_cases life_flightE: "life DeployBuilding t" "life DeployDistributing t" "life DeployRollingOut t"

lemma life_not_from_terminal: "life s t \<Longrightarrow> \<not> Terminal s"
  by (induction rule: life.induct) auto

lemma lives_from_terminal: "life\<^sup>*\<^sup>* s t \<Longrightarrow> Terminal s \<Longrightarrow> t = s"
  by (induction rule: rtranclp_induct) (auto dest: life_not_from_terminal)

text \<open>How a table may change: rows keep their place and identity, and move along their life.\<close>

definition evolves :: "deployment list \<Rightarrow> deployment list \<Rightarrow> bool" where
  "evolves ds ds' \<longleftrightarrow> length ds \<le> length ds' \<and> (\<forall>k < length ds.
     dep_ID (ds' ! k) = dep_ID (ds ! k) \<and> dep_ApplicationID (ds' ! k) = dep_ApplicationID (ds ! k)
   \<and> dep_RevisionID (ds' ! k) = dep_RevisionID (ds ! k)
   \<and> life\<^sup>*\<^sup>* (dep_Status (ds ! k)) (dep_Status (ds' ! k))
   \<and> (Terminal (dep_Status (ds ! k)) \<longrightarrow> ds' ! k = ds ! k))"

lemma evolves_refl: "evolves ds ds"
  by (simp add: evolves_def)

lemma evolves_trans:
  assumes "evolves x y" "evolves y z"
  shows "evolves x z"
  unfolding evolves_def
proof (intro conjI allI impI)
  show "length x \<le> length z" using assms by (simp add: evolves_def)
  fix k assume k: "k < length x"
  then have ky: "k < length y" using assms by (simp add: evolves_def)
  note xy = assms(1) [unfolded evolves_def, THEN conjunct2, rule_format, OF k]
  note yz = assms(2) [unfolded evolves_def, THEN conjunct2, rule_format, OF ky]
  show "dep_ID (z ! k) = dep_ID (x ! k)" "dep_ApplicationID (z ! k) = dep_ApplicationID (x ! k)"
    "dep_RevisionID (z ! k) = dep_RevisionID (x ! k)" using xy yz by simp_all
  show "life\<^sup>*\<^sup>* (dep_Status (x ! k)) (dep_Status (z ! k))" using xy yz by (meson rtranclp_trans)
  show "z ! k = x ! k" if "Terminal (dep_Status (x ! k))"
    using xy yz that lives_from_terminal by metis
qed

lemma evolves_upd:
  assumes "same_key f" "\<And>d. d \<in> set ds \<Longrightarrow> dep_ID d = i \<Longrightarrow>
     \<not> Terminal (dep_Status d) \<and> (dep_Status (f d) = dep_Status d \<or> life (dep_Status d) (dep_Status (f d)))"
  shows "evolves ds (dep_upd i f ds)"
  unfolding evolves_def
proof (intro conjI allI impI)
  fix k assume k: "k < length ds"
  then have "ds ! k \<in> set ds" by simp
  show "dep_ID (dep_upd i f ds ! k) = dep_ID (ds ! k)"
    "dep_ApplicationID (dep_upd i f ds ! k) = dep_ApplicationID (ds ! k)"
    "dep_RevisionID (dep_upd i f ds ! k) = dep_RevisionID (ds ! k)"
    using k by (simp_all add: dep_upd_nth same_keyD [OF assms(1)])
  show "life\<^sup>*\<^sup>* (dep_Status (ds ! k)) (dep_Status (dep_upd i f ds ! k))"
    using assms(2) [OF \<open>ds ! k \<in> set ds\<close>] k by (auto simp: dep_upd_nth)
  show "dep_upd i f ds ! k = ds ! k" if "Terminal (dep_Status (ds ! k))"
    using assms(2) [OF \<open>ds ! k \<in> set ds\<close>] k that by (auto simp: dep_upd_nth)
qed simp

lemma row_only: "wf_ids ds \<Longrightarrow> dep_row i ds = Some d \<Longrightarrow> x \<in> set ds \<Longrightarrow> dep_ID x = i \<Longrightarrow> x = d"
  using dep_row_unique by fastforce

lemma evolves_pipe: "pipe a ds ds' \<Longrightarrow> wf_ids ds \<Longrightarrow> evolves ds ds'"
proof (induction rule: pipe.induct)
  case (create d ds)
  then show ?case by (auto simp: evolves_def nth_append)
next
  case (advance i ds d s t det)
  have "active d" using head_row [OF advance.prems] in_flight_active advance.hyps(1,3) by fastforce
  then have "life (dep_Status d) s" using advance.hyps(4)
    by (intro life_advance) (auto simp: active_def Parked_def)
  with advance \<open>active d\<close> show ?case
    by (intro evolves_upd) (auto dest!: row_only simp: active_not_terminal)
next
  case (finish i ds d t det)
  then show ?case by (intro evolves_upd) (auto dest!: row_only intro: life_fail)
next
  case (park i ds d t det)
  then show ?case by (intro evolves_upd) (auto dest!: row_only intro: life_park)
next
  case (annotate i ds d f)
  then show ?case by (intro evolves_upd) (auto dest!: row_only simp: active_not_terminal)
qed

lemma evolves_pipes: "(pipe a)\<^sup>*\<^sup>* ds ds' \<Longrightarrow> wf_ids ds \<Longrightarrow> evolves ds ds'"
  by (induction rule: rtranclp_induct) (auto intro: evolves_refl evolves_trans evolves_pipe pipes_wf)

lemma evolves_release: "release a ds ds' \<Longrightarrow> wf_ids ds \<Longrightarrow> evolves ds ds'"
  by (induction rule: release.induct) (intro evolves_upd; auto dest!: row_only intro: life_release)

lemma evolves_complete: "complete a i ds ds' \<Longrightarrow> wf_ids ds \<Longrightarrow> evolves ds ds'"
  by (induction rule: complete.induct) (intro evolves_upd; auto dest!: row_only intro: life_succeed)

text \<open>The pipeline alone makes no deployment succeed.\<close>

definition succeeded :: "string \<Rightarrow> deployment list \<Rightarrow> bool" where
  "succeeded j ds \<longleftrightarrow> (\<exists>d. dep_row j ds = Some d \<and> dep_Status d = DeploySucceeded)"

lemma succeeded_upd:
  assumes "same_key f" "\<And>d. dep_row i ds = Some d \<Longrightarrow> dep_Status (f d) = DeploySucceeded \<Longrightarrow> dep_Status d = DeploySucceeded"
    "succeeded j (dep_upd i f ds)"
  shows "succeeded j ds"
  using assms by (auto simp: succeeded_def dep_row_upd split: if_splits)

lemma pipe_no_success: "pipe a ds ds' \<Longrightarrow> succeeded j ds' \<Longrightarrow> succeeded j ds"
proof (induction rule: pipe.induct)
  case (create d ds)
  then show ?case by (auto simp: succeeded_def dep_row_both dep_row_one split: option.splits if_splits)
next
  case (advance i ds d s t det)
  then show ?case by (intro succeeded_upd [OF _ _ advance.prems]) (auto simp: in_flight_def)
qed (erule succeeded_upd [rotated 2], simp, simp)+

lemma pipes_no_success: "(pipe a)\<^sup>*\<^sup>* ds ds' \<Longrightarrow> succeeded j ds' \<Longrightarrow> succeeded j ds"
  by (induction rule: rtranclp_induct) (auto dest: pipe_no_success)

lemma release_no_success: "release a ds ds' \<Longrightarrow> succeeded j ds' \<Longrightarrow> succeeded j ds"
  by (induction rule: release.induct) (erule succeeded_upd [rotated 2], simp, simp)

lemma complete_success:
  assumes "complete a i ds ds'" "succeeded j ds'"
  shows "succeeded j ds \<or> (j = i \<and> (\<exists>d. dep_row i ds = Some d \<and> dep_ApplicationID d = a \<and> dep_Status d = DeployRollingOut))"
  using assms by (induction rule: complete.induct) (auto simp: succeeded_def dep_row_upd split: if_splits)

section \<open>What is on its way stays on its way\<close>

text \<open>A run on behalf of deployment \<open>i\<close> leaves every other deployment in flight as it is.\<close>

definition kept :: "string \<Rightarrow> deployment list \<Rightarrow> deployment list \<Rightarrow> bool" where
  "kept i ds ds' \<longleftrightarrow> (\<forall>j d. j \<noteq> i \<longrightarrow> dep_row j ds = Some d \<longrightarrow> in_flight (dep_Status d) \<longrightarrow> dep_row j ds' = Some d)"

lemma kept_refl [simp]: "kept i ds ds"
  by (simp add: kept_def)

lemma kept_trans: "kept i x y \<Longrightarrow> kept i y z \<Longrightarrow> kept i x z"
  unfolding kept_def by blast

lemma kept_upd: "same_key f \<Longrightarrow> kept i ds (dep_upd i f ds)"
  by (simp add: kept_def dep_row_upd)

lemma kept_append: "kept i ds (ds @ es)"
  by (simp add: kept_def dep_row_append)

lemma kept_queued:
  assumes "kept k ds ds'" and "dep_row k ds = Some d" and "\<not> in_flight (dep_Status d)"
  shows "kept i ds ds'"
  using assms unfolding kept_def by (metis option.inject)

definition drive :: "string \<Rightarrow> string \<Rightarrow> deployment list \<Rightarrow> deployment list \<Rightarrow> bool" where
  "drive a i ds ds' \<longleftrightarrow> (pipe a)\<^sup>*\<^sup>* ds ds' \<and> kept i ds ds'"

lemma drive_refl [simp]: "drive a i ds ds"
  by (simp add: drive_def)

lemma drive_trans: "drive a i x y \<Longrightarrow> drive a i y z \<Longrightarrow> drive a i x z"
  unfolding drive_def by (blast intro: rtranclp_trans kept_trans)

lemma drive_wf: "drive a i ds ds' \<Longrightarrow> wf_ids ds \<Longrightarrow> wf_ids ds'"
  unfolding drive_def by (blast intro: pipes_wf)

lemma drive_upd: "pipe a ds (dep_upd i f ds) \<Longrightarrow> same_key f \<Longrightarrow> drive a i ds (dep_upd i f ds)"
  by (simp add: drive_def kept_upd r_into_rtranclp)

section \<open>Other applications\<close>

definition others :: "string \<Rightarrow> deployment list \<Rightarrow> deployment list" where
  "others a ds = filter (\<lambda>d. dep_ApplicationID d \<noteq> a) ds"

lemma others_upd:
  assumes "wf_ids ds" "dep_row i ds = Some d" "dep_ApplicationID d = a" "same_key f"
  shows "others a (dep_upd i f ds) = others a ds"
proof -
  have "dep_ApplicationID x = a" if "x \<in> set ds" "dep_ID x = i" for x
    using row_only [OF assms(1,2) that] assms(3) by simp
  then show ?thesis unfolding others_def by (induction ds) (auto simp: same_keyD [OF assms(4)])
qed

lemma others_snoc: "dep_ApplicationID d = a \<Longrightarrow> others a (ds @ [d]) = others a ds"
  by (simp add: others_def)

lemma others_pipe: "pipe a ds ds' \<Longrightarrow> wf_ids ds \<Longrightarrow> others a ds' = others a ds"
  by (induction rule: pipe.induct) (auto simp: others_upd others_snoc)

lemma others_pipes: "(pipe a)\<^sup>*\<^sup>* ds ds' \<Longrightarrow> wf_ids ds \<Longrightarrow> others a ds' = others a ds"
  by (induction rule: rtranclp_induct) (auto simp: others_pipe pipes_wf)

lemma others_complete: "complete a i ds ds' \<Longrightarrow> wf_ids ds \<Longrightarrow> others a ds' = others a ds"
  by (induction rule: complete.induct) (auto simp: others_upd)

lemma others_release: "release a ds ds' \<Longrightarrow> wf_ids ds \<Longrightarrow> others a ds' = others a ds"
  by (induction rule: release.induct) (auto simp: others_upd)

text \<open>So the head of another application's queue is still its head.\<close>

lemma others_queue: "b \<noteq> a \<Longrightarrow> queue_of b (others a ds) = queue_of b ds"
  unfolding others_def queue_of_def by (induction ds) auto

lemma head_of_others:
  assumes "wf_ids ds" "wf_ids ds'" "others a ds' = others a ds" "dep_row i ds = Some d"
    "dep_ApplicationID d \<noteq> a" "head_of i ds"
  shows "head_of i ds'" and "dep_row i ds' = Some d"
proof -
  obtain rest where "queue_of (dep_ApplicationID d) ds = d # rest" using head_queue [OF assms(1,6,4)] by blast
  then have q: "queue_of (dep_ApplicationID d) ds' = d # rest"
    using others_queue [of "dep_ApplicationID d" a] assms(3,5) by metis
  have "dep_ID d = i" using dep_row_Some [OF assms(4)] by simp
  with queue_head(1,4) [OF q] dep_row_unique [OF assms(2)] show "head_of i ds'" "dep_row i ds' = Some d" by auto
qed

end
