(* ===== verification/Scheduler_Inv.thy ===== *)
theory Scheduler_Inv
  imports Promotion Pipeline
begin

text \<open>
  The handlers of the deploy pipeline against its specification: the fuel of \<open>start\<close> is never
  reached, every handler writes the table of deployments only by steps of the state machine of
  theory \<open>Pipeline\<close>, and what follows for whole runs of the control plane.
\<close>

section \<open>Frames\<close>

text \<open>A part of the state an operation leaves alone.\<close>

definition frames :: "(world \<Rightarrow> 'o) \<Rightarrow> 'a op \<Rightarrow> bool" where
  "frames obs m \<longleftrightarrow> (\<forall>w. obs (snd (m w)) = obs w)"

named_theorems fr \<open>frame rules\<close>

lemma framesI: "(\<And>w. obs (snd (m w)) = obs w) \<Longrightarrow> frames obs m"
  by (simp add: frames_def)

lemma frames_runI: "(\<And>w r w'. m w = (r, w') \<Longrightarrow> obs w' = obs w) \<Longrightarrow> frames obs m"
  unfolding frames_def by (metis surjective_pairing)

lemma frames_run: "m w = (r, w') \<Longrightarrow> frames obs m \<Longrightarrow> obs w' = obs w"
  unfolding frames_def by (metis snd_conv)

lemma frames_ret [fr]: "frames obs (ret x)"
  by (simp add: frames_def)

lemma frames_throw [fr]: "frames obs (throw e)"
  by (simp add: frames_def)

lemma frames_gets [fr]: "frames obs (gets f)"
  by (simp add: frames_def)

lemma frames_modify: "(\<And>w. obs (f w) = obs w) \<Longrightarrow> frames obs (modify f)"
  by (simp add: frames_def)

lemma frames_bnd [fr]: "frames obs m \<Longrightarrow> (\<And>x. frames obs (f x)) \<Longrightarrow> frames obs (bnd m f)"
  unfolding frames_def bnd_def by (auto split: prod.splits sum.splits) (metis snd_conv)+

lemma frames_attempt [fr]: "frames obs m \<Longrightarrow> frames obs (attempt m)"
  unfolding frames_def attempt_def by (auto split: prod.splits) (metis snd_conv)

lemma frames_mapE [fr]: "frames obs m \<Longrightarrow> frames obs (mapE h m)"
  unfolding frames_def mapE_def by (auto split: prod.splits sum.splits) (metis snd_conv)+

lemma frames_logged [fr]: "frames obs m \<Longrightarrow> frames obs (logged m)"
  unfolding logged_def by (intro fr)

lemma frames_if [fr]: "(b \<Longrightarrow> frames obs m) \<Longrightarrow> (\<not> b \<Longrightarrow> frames obs n) \<Longrightarrow> frames obs (if b then m else n)"
  by simp

lemma frames_case_option [fr]:
  "(x = None \<Longrightarrow> frames obs m) \<Longrightarrow> (\<And>y. x = Some y \<Longrightarrow> frames obs (f y)) \<Longrightarrow> frames obs (case x of None \<Rightarrow> m | Some y \<Rightarrow> f y)"
  by (cases x) auto

lemma frames_case_sum [fr]:
  "(\<And>e. x = Inl e \<Longrightarrow> frames obs (f e)) \<Longrightarrow> (\<And>y. x = Inr y \<Longrightarrow> frames obs (g y)) \<Longrightarrow> frames obs (case x of Inl e \<Rightarrow> f e | Inr y \<Rightarrow> g y)"
  by (cases x) auto

lemma frames_case_prod [fr]: "(\<And>a b. x = (a, b) \<Longrightarrow> frames obs (f a b)) \<Longrightarrow> frames obs (case x of (a, b) \<Rightarrow> f a b)"
  by (cases x) auto

lemma frames_forE [fr]: "(\<And>x. x \<in> set xs \<Longrightarrow> frames obs (f x)) \<Longrightarrow> frames obs (forE xs f)"
  by (induction xs) (auto intro!: fr)

lemma frames_resync_loop:
  assumes "\<And>s i k. frames obs (PublishWork s i k)"
  shows "frames obs (resync_loop reason srvs n)"
  by (induction srvs arbitrary: n) (auto intro!: fr assms simp: now_op_def)

text \<open>
  What can be observed without counting round trips. A read leaves every observation alone; each
  write leaves alone the observations of the other tables.
\<close>

locale observation =
  fixes obs :: "world \<Rightarrow> 'o"
  assumes io_blind: "obs (bump w) = obs w" and rest_blind: "obs (at_rest w) = obs w"
begin

lemma reading: "reads m \<Longrightarrow> frames obs m"
  by (rule framesI) (metis readsD rest_blind)

lemma query: "frames obs m \<Longrightarrow> frames obs (query n m)"
  unfolding query_def by (intro fr framesI) (simp_all add: io_run io_blind frames_def)

lemma publishing: "(\<And>w b. obs (w\<lparr>w_bus := b\<rparr>) = obs w) \<Longrightarrow> frames obs (PublishWork s i k)"
  unfolding PublishWork_def by (intro fr reading rd frames_modify)

lemma emitting: "(\<And>w b. obs (w\<lparr>w_events := b\<rparr>) = obs w) \<Longrightarrow> frames obs (emit e)"
  unfolding emit_def by (intro frames_modify)

lemma sinks:
  "(\<And>w b. obs (w\<lparr>w_events := b\<rparr>) = obs w) \<Longrightarrow> frames obs (emitDeploy cfg app dep)"
  "(\<And>w b. obs (w\<lparr>w_events := b\<rparr>) = obs w) \<Longrightarrow> frames obs (emitAppHealth cfg app t d)"
  unfolding emitDeploy_def emitAppHealth_def forall_sinks_def by (intro fr emitting; assumption)+

lemma consumers: "(\<And>w b. obs (w\<lparr>w_consumers := b\<rparr>) = obs w) \<Longrightarrow> frames obs (EnsureWorkConsumer s)"
  unfolding EnsureWorkConsumer_def by (intro fr reading rd frames_modify)

lemma apps:
  assumes "\<And>w b. obs (w\<lparr>w_apps := b\<rparr>) = obs w"
  shows "frames obs (SetApplicationDesiredRevision i r)" "frames obs (SetApplicationStatus i s d)"
    "frames obs (SetApplicationObservedStatus i s d r t)" "frames obs (SetApplicationReplicaStatus i rs)"
    "frames obs (BumpApplicationRestartToken i tok)" "frames obs (ApplyDeploymentEnvStamp i)"
  unfolding store_ops upd_app_def
  by (intro query fr frames_modify reading rd; simp add: assms split: option.split)+

lemma revs:
  assumes "\<And>w b. obs (w\<lparr>w_revs := b\<rparr>) = obs w"
  shows "frames obs (SetRevisionImage i img)" "frames obs (SetRevisionSourceCommit i s)"
  unfolding store_ops upd_rev_def by (intro query fr frames_modify reading rd; simp add: assms)+

lemma creating_revision:
  assumes "\<And>w b. obs (w\<lparr>w_revs := b\<rparr>) = obs w"
  shows "frames obs (CreateRevision i a c snap)" "frames obs (CreatePromotedRevision i a c snap img from)"
  unfolding store_ops by (rule query, simp add: frames_def Let_def assms)+

lemma deps:
  assumes "\<And>w b. obs (w\<lparr>w_deps := b\<rparr>) = obs w"
  shows "frames obs (UpdateDeploymentStatus i s d)" "frames obs (SetDeploymentBuilder i b)"
    "frames obs (SetDeploymentEnvResolved i)"
  unfolding store_ops upd_dep_def by (intro query fr frames_modify reading rd; simp add: assms)+

lemma creating_deployment: "(\<And>w b. obs (w\<lparr>w_deps := b\<rparr>) = obs w) \<Longrightarrow> frames obs (CreateDeployment i a r t)"
  unfolding store_ops by (rule query) (simp add: frames_def Let_def)

lemma approvals:
  "(\<And>w b. obs (w\<lparr>w_approvals := b\<rparr>) = obs w) \<Longrightarrow> frames obs (CreateDeployApproval d e r ro)"
  unfolding store_ops by (intro query) (simp add: frames_def Let_def)

end

interpretation seen_deps: observation w_deps
  by unfold_locales (simp_all add: bump_def at_rest_def)

interpretation seen_bus: observation w_bus
  by unfold_locales (simp_all add: bump_def at_rest_def)

interpretation seen_apps: observation w_apps
  by unfold_locales (simp_all add: bump_def at_rest_def)

interpretation seen_revs: observation w_revs
  by unfold_locales (simp_all add: bump_def at_rest_def)

lemma reads_plan [rd]: "reads (PlanPromotion cfg i a)" "reads (envKeys a)" "reads (mustSourceApp i)"
  unfolding PlanPromotion_def envKeys_def mustSourceApp_def by (intro rd)+

lemmas reading_ops =
  reads_store reads_plan reads_sched_spec reads_pushTarget reads_buildWork reads_resolveEnv reads_buildSpec reads_ask
  reads_freeze reads_io

lemmas quiet [fr] =
  reading_ops [THEN seen_deps.reading] seen_deps.apps [simplified] seen_deps.revs [simplified]
  seen_deps.creating_revision [simplified] seen_deps.publishing [simplified] seen_deps.sinks [simplified]
  seen_deps.consumers [simplified] seen_deps.approvals [simplified] seen_deps.emitting [simplified]

lemma quiet_clear [fr]: "frames w_deps (clearDeployingStatus app detail)"
  unfolding clearDeployingStatus_def Let_def by (intro fr)

section \<open>The writes on the table of deployments\<close>

lemma update_deps:
  assumes "UpdateDeploymentStatus i s det w = (r, w')"
  shows "w_deps w' = (case r of Inl _ \<Rightarrow> w_deps w | Inr _ \<Rightarrow> dep_upd i (set_status (w_dbnow w) s det) (w_deps w))
    \<and> (\<forall>d. r = Inr d \<longrightarrow> dep_row i (w_deps w') = Some d)"
proof -
  define f where "f = set_status (w_dbnow w) s det"
  have "w_deps (upd_dep i g (bump w)) = dep_upd i g (w_deps w)" for g
    by (simp add: upd_dep_def bump_def dep_upd_def)
  moreover have "dep_upd i f (w_deps w) = w_deps w" if "dep_row i (dep_upd i f (w_deps w)) = None"
    using that dep_row_upd [of f i i "w_deps w"] dep_upd_missing by (simp add: f_def)
  moreover have "w_dbnow (bump w) = w_dbnow w" by (simp add: bump_def)
  ultimately show ?thesis using assms
    by (auto simp: UpdateDeploymentStatus_def query_def runs io_run one_row_def dep_row_def [symmetric] f_def
        seen_deps.io_blind split: option.splits)
qed

lemma builder_deps:
  assumes "SetDeploymentBuilder i b w = (r, w')"
  shows "w_deps w' = (case r of Inl _ \<Rightarrow> w_deps w | Inr _ \<Rightarrow> dep_upd i (dep_BuilderServerID_update (\<lambda>_. Some b)) (w_deps w))
    \<and> (\<forall>d. r = Inr d \<longrightarrow> dep_row i (w_deps w') = Some d)"
proof -
  define f :: "deployment \<Rightarrow> deployment" where "f = dep_BuilderServerID_update (\<lambda>_. Some b)"
  have "w_deps (upd_dep i g (bump w)) = dep_upd i g (w_deps w)" for g
    by (simp add: upd_dep_def bump_def dep_upd_def)
  moreover have "dep_upd i f (w_deps w) = w_deps w" if "dep_row i (dep_upd i f (w_deps w)) = None"
    using that dep_row_upd [of f i i "w_deps w"] dep_upd_missing by (simp add: f_def)
  ultimately show ?thesis using assms
    by (auto simp: SetDeploymentBuilder_def query_def runs io_run one_row_def dep_row_def [symmetric] f_def
        seen_deps.io_blind split: option.splits)
qed

lemma stamp_deps:
  assumes "SetDeploymentEnvResolved i w = (r, w')"
  shows "w_deps w' = (case r of Inl _ \<Rightarrow> w_deps w
    | Inr _ \<Rightarrow> dep_upd i (dep_EnvResolvedAt_update (\<lambda>_. Some (w_dbnow w))) (w_deps w))"
  using assms by (auto simp: SetDeploymentEnvResolved_def query_def runs io_run upd_dep_def dep_upd_def
      bump_def split: option.splits)

lemma create_deps:
  assumes "CreateDeployment i a rv t w = (r, w')"
  shows "(\<exists>e. r = Inl e \<and> w_deps w' = w_deps w)
    \<or> (\<exists>d. r = Inr d \<and> w_deps w' = w_deps w @ [d] \<and> dep_row i (w_deps w) = None \<and> dep_ID d = i
        \<and> dep_ApplicationID d = a \<and> dep_RevisionID d = rv \<and> dep_Status d = DeployQueued)"
  using assms by (auto simp: CreateDeployment_def query_def runs io_run bump_def dep_row_None Let_def
      split: option.splits if_splits)

lemma upd_inactive:
  assumes "same_key f" "\<And>x. \<not> active (f x)" "e \<in> set (dep_upd i f ds)" "dep_ID e = i"
  shows "\<not> active e"
proof -
  obtain d where d: "e = (if dep_ID d = i then f d else d)" using assms(3) by (auto simp: in_dep_upd)
  with assms(4) have "e = f d" by (cases "dep_ID d = i") (auto simp: same_keyD [OF assms(1)])
  with assms(2) show ?thesis by simp
qed

section \<open>The fuel of start is never reached\<close>

text \<open>Rows of other deployments, which the start of one leaves alone until it promotes the next.\<close>

definition other_rows :: "string \<Rightarrow> world \<Rightarrow> deployment list" where
  "other_rows i w = filter (\<lambda>d. dep_ID d \<noteq> i) (w_deps w)"

interpretation seen_others: observation "other_rows i"
  by unfold_locales (simp_all add: other_rows_def bump_def at_rest_def)

lemma other_rows_upd: "same_key f \<Longrightarrow> filter (\<lambda>d. dep_ID d \<noteq> i) (dep_upd i f ds) = filter (\<lambda>d. dep_ID d \<noteq> i) ds"
  by (induction ds) (auto simp: same_keyD)

lemma others_writes [fr]:
  "frames (other_rows i) (UpdateDeploymentStatus i s det)" "frames (other_rows i) (SetDeploymentBuilder i b)"
  "frames (other_rows i) (SetDeploymentEnvResolved i)"
  by (rule frames_runI; auto simp: other_rows_def other_rows_upd split: sum.splits
      dest!: update_deps builder_deps stamp_deps)+

lemmas others_quiet =
  fr reading_ops [THEN seen_others.reading] seen_others.apps seen_others.revs seen_others.publishing seen_others.sinks

lemma starting_others:
  "frames (other_rows (dep_ID dep)) (startDistribute dep app rv)"
  "frames (other_rows (dep_ID dep)) (startRollout cfg dep app rv)"
  unfolding startDistribute_def startRollout_def promotedSourceImage_def Let_def
  by (intro others_quiet; simp add: other_rows_def)+

text \<open>Two candidates for the recursive call that agree on what may be promoted next.\<close>

definition agree :: "(deployment \<Rightarrow> unit op) \<Rightarrow> (deployment \<Rightarrow> unit op) \<Rightarrow> string \<Rightarrow> deployment list \<Rightarrow> bool" where
  "agree st st' i rest \<longleftrightarrow> (\<forall>d w. d \<in> set (w_deps w) \<longrightarrow> active d
     \<longrightarrow> (\<forall>e \<in> set (w_deps w). dep_ID e = i \<longrightarrow> \<not> active e) \<longrightarrow> other_rows i w = rest \<longrightarrow> st d w = st' d w)"

lemma promote_cong:
  assumes "agree st st' i (other_rows i w)" and "\<forall>e \<in> set (w_deps w). dep_ID e = i \<longrightarrow> \<not> active e"
  shows "promoteNext_with st a w = promoteNext_with st' a w"
  unfolding promoteNext_with_def
proof (rule bnd_attempt_cong)
  fix r w' assume run: "ListActiveDeploymentsByApplication a w = (r, w')"
  from run have same: "w_deps w' = w_deps w" by (rule frames_run) (intro fr)
  show "(case r of Inl _ \<Rightarrow> ret () | Inr acts \<Rightarrow> case acts of [] \<Rightarrow> ret ()
        | d # _ \<Rightarrow> if dep_Status d \<noteq> DeployQueued then ret () else bnd (attempt (st d)) (\<lambda>_. ret ())) w'
      = (case r of Inl _ \<Rightarrow> ret () | Inr acts \<Rightarrow> case acts of [] \<Rightarrow> ret ()
        | d # _ \<Rightarrow> if dep_Status d \<noteq> DeployQueued then ret () else bnd (attempt (st' d)) (\<lambda>_. ret ())) w'"
  proof (cases r)
    case (Inr acts)
    with run have acts: "acts = queue_of a (w_deps w)"
      by (auto simp: ListActiveDeploymentsByApplication_def many_rows_def query_Inr_iff seen_deps.io_blind)
    have "st d w' = st' d w'" if "d \<in> set acts" for d
      using that assms same unfolding acts agree_def queue_of_def other_rows_def by auto
    then show ?thesis using Inr by (auto simp: runs split: list.split)
  qed simp
qed

lemma fail_cong:
  assumes "agree st st' (dep_ID dep) (other_rows (dep_ID dep) w)"
  shows "fail_with st cfg dep detail w = fail_with st' cfg dep detail w"
proof -
  define i where "i = dep_ID dep"
  have "endActive_with st cfg dep detail True w = endActive_with st' cfg dep detail True w"
    unfolding endActive_with_def
  proof (rule bnd_cong)
    fix e w1 assume "mapE (Wrapped ''scheduler: ending deployment'')
      (UpdateDeploymentStatus (dep_ID dep) DeployFailed detail) w = (Inr e, w1)"
    then have upd: "UpdateDeploymentStatus i DeployFailed detail w = (Inr e, w1)"
      by (simp add: mapE_Inr_iff i_def)
    have out: "\<forall>e \<in> set (w_deps w1). dep_ID e = i \<longrightarrow> \<not> active e"
      using update_deps [OF upd] upd_inactive [of "set_status (w_dbnow w) DeployFailed detail" _ i]
      by (auto simp: inactive_statuses)
    have oth: "other_rows i w1 = other_rows i w" using upd by (rule frames_run) (intro fr)
    have step: "promoteNext_with st a w2 = promoteNext_with st' a w2"
      if "w_deps w2 = w_deps w1" for a w2
      using promote_cong [of st st' i w2 a] assms out oth that by (simp add: i_def other_rows_def)
    show "bnd (attempt (GetApplication (dep_ApplicationID dep))) (\<lambda>r. bnd (case r of Inl _ \<Rightarrow> ret ()
          | Inr app \<Rightarrow> bnd (clearDeployingStatus app detail) (\<lambda>_. if True then emitDeploy cfg app e else ret ()))
          (\<lambda>_. bnd (promoteNext_with st (dep_ApplicationID dep)) (\<lambda>_. ret e))) w1
        = bnd (attempt (GetApplication (dep_ApplicationID dep))) (\<lambda>r. bnd (case r of Inl _ \<Rightarrow> ret ()
          | Inr app \<Rightarrow> bnd (clearDeployingStatus app detail) (\<lambda>_. if True then emitDeploy cfg app e else ret ()))
          (\<lambda>_. bnd (promoteNext_with st' (dep_ApplicationID dep)) (\<lambda>_. ret e))) w1"
    proof (rule bnd_attempt_cong, rule bnd_cong)
      fix r w2 u w3 assume 1: "GetApplication (dep_ApplicationID dep) w1 = (r, w2)"
        and 2: "(case r of Inl _ \<Rightarrow> ret ()
          | Inr app \<Rightarrow> bnd (clearDeployingStatus app detail) (\<lambda>_. if True then emitDeploy cfg app e else ret ())) w2
          = (Inr u, w3)"
      have "w_deps w2 = w_deps w1" using 1 by (rule frames_run) (intro fr)
      moreover have "w_deps w3 = w_deps w2" using 2 by (rule frames_run) (intro fr)
      ultimately show "bnd (promoteNext_with st (dep_ApplicationID dep)) (\<lambda>_. ret e) w3
          = bnd (promoteNext_with st' (dep_ApplicationID dep)) (\<lambda>_. ret e) w3"
        using step by (simp add: bnd_run)
    qed
  qed
  then show ?thesis by (simp add: fail_with_def runs)
qed

lemma stage_cong:
  assumes "agree st st' (dep_ID dep) (other_rows (dep_ID dep) w)"
  shows "start_stage st cfg dep app rv w = start_stage st' cfg dep app rv w"
proof -
  define i where "i = dep_ID dep"
  have fails: "bnd (fail_with st cfg d det) (\<lambda>_. throw e) w2 = bnd (fail_with st' cfg d det) (\<lambda>_. throw e) w2"
    if "dep_ID d = i" "other_rows i w2 = other_rows i w" for d w2 e det
    using fail_cong [of st st' d w2 cfg det] assms that by (simp add: bnd_run i_def)
  have build: "bnd (attempt (buildWork cfg d app rv)) (\<lambda>wk. case wk of
          Inl e \<Rightarrow> bnd (fail_with st cfg d (error_text e)) (\<lambda>_. throw e) | Inr work \<Rightarrow> p work) w3
        = bnd (attempt (buildWork cfg d app rv)) (\<lambda>wk. case wk of
          Inl e \<Rightarrow> bnd (fail_with st' cfg d (error_text e)) (\<lambda>_. throw e) | Inr work \<Rightarrow> p work) w3"
    if "dep_ID d = i" "other_rows i w3 = other_rows i w" for d w3 and p :: "buildWorkMsg \<Rightarrow> unit op"
  proof (rule bnd_attempt_cong)
    fix wk w4 assume "buildWork cfg d app rv w3 = (wk, w4)"
    then have "other_rows i w4 = other_rows i w3" by (rule frames_run) (intro others_quiet)
    with that fails show "(case wk of Inl e \<Rightarrow> bnd (fail_with st cfg d (error_text e)) (\<lambda>_. throw e) | Inr work \<Rightarrow> p work) w4
        = (case wk of Inl e \<Rightarrow> bnd (fail_with st' cfg d (error_text e)) (\<lambda>_. throw e) | Inr work \<Rightarrow> p work) w4"
      by (cases wk) simp_all
  qed
  show ?thesis unfolding start_stage_def
  proof (simp, intro impI, rule bnd_cong, rule bnd_attempt_cong)
    fix u w1 b w2 assume 1: "UpdateDeploymentStatus (dep_ID dep) DeployBuilding [] w = (Inr u, w1)"
      and 2: "selectBuilder app w1 = (b, w2)"
    have "other_rows i w1 = other_rows i w" using 1 unfolding i_def by (rule frames_run) (intro fr)
    moreover have "other_rows i w2 = other_rows i w1" using 2 by (rule frames_run) (intro others_quiet)
    ultimately have same: "other_rows i w2 = other_rows i w" by simp
    show "(case b of Inl e \<Rightarrow> bnd (fail_with st cfg dep (error_text e)) (\<lambda>_. throw e)
        | Inr builderID \<Rightarrow> bnd (if builderID \<noteq> rt_ServerID (app_Runtime app)
                 then mapE (Wrapped ''scheduler: recording builder'') (SetDeploymentBuilder (dep_ID dep) builderID)
                 else ret dep) (\<lambda>dep. bnd (attempt (buildWork cfg dep app rv)) (\<lambda>wk. case wk of
              Inl e \<Rightarrow> bnd (fail_with st cfg dep (error_text e)) (\<lambda>_. throw e)
            | Inr work \<Rightarrow> mapE (Wrapped ''scheduler: publishing build'')
                  (PublishWork (Build builderID) (dep_ID dep @ ''.build'') (BuildWork work))))) w2
      = (case b of Inl e \<Rightarrow> bnd (fail_with st' cfg dep (error_text e)) (\<lambda>_. throw e)
        | Inr builderID \<Rightarrow> bnd (if builderID \<noteq> rt_ServerID (app_Runtime app)
                 then mapE (Wrapped ''scheduler: recording builder'') (SetDeploymentBuilder (dep_ID dep) builderID)
                 else ret dep) (\<lambda>dep. bnd (attempt (buildWork cfg dep app rv)) (\<lambda>wk. case wk of
              Inl e \<Rightarrow> bnd (fail_with st' cfg dep (error_text e)) (\<lambda>_. throw e)
            | Inr work \<Rightarrow> mapE (Wrapped ''scheduler: publishing build'')
                  (PublishWork (Build builderID) (dep_ID dep @ ''.build'') (BuildWork work))))) w2"
    proof (cases b)
      case (Inl e)
      with fails [OF i_def [symmetric] same] show ?thesis by simp
    next
      case (Inr s)
      show ?thesis unfolding Inr sum.case
      proof (rule bnd_cong)
        fix d w3 assume run: "(if s \<noteq> rt_ServerID (app_Runtime app)
                 then mapE (Wrapped ''scheduler: recording builder'') (SetDeploymentBuilder (dep_ID dep) s)
                 else ret dep) w2 = (Inr d, w3)"
        then have "other_rows i w3 = other_rows i w2" unfolding i_def by (rule frames_run) (intro fr)
        moreover have "dep_ID d = i" using run dep_row_Some
          by (auto simp: mapE_Inr_iff i_def split: if_splits dest!: builder_deps)
        ultimately show "bnd (attempt (buildWork cfg d app rv)) (\<lambda>wk. case wk of
              Inl e \<Rightarrow> bnd (fail_with st cfg d (error_text e)) (\<lambda>_. throw e)
            | Inr work \<Rightarrow> mapE (Wrapped ''scheduler: publishing build'')
                  (PublishWork (Build s) (dep_ID d @ ''.build'') (BuildWork work))) w3
          = bnd (attempt (buildWork cfg d app rv)) (\<lambda>wk. case wk of
              Inl e \<Rightarrow> bnd (fail_with st' cfg d (error_text e)) (\<lambda>_. throw e)
            | Inr work \<Rightarrow> mapE (Wrapped ''scheduler: publishing build'')
                  (PublishWork (Build s) (dep_ID d @ ''.build'') (BuildWork work))) w3"
          using build same by simp
      qed
    qed
  qed
qed

lemma body_cong:
  assumes "agree st st' (dep_ID dep) (other_rows (dep_ID dep) w)"
  shows "start_body st cfg dep w = start_body st' cfg dep w"
proof -
  define i where "i = dep_ID dep"
  have branch: "(case env of Inl e \<Rightarrow> bnd (fail_with st cfg dep (det e)) (\<lambda>_. throw e)
         | Inr (_ :: (string \<times> string) list) \<Rightarrow> start_stage st cfg dep app rv) w4
      = (case env of Inl e \<Rightarrow> bnd (fail_with st' cfg dep (det e)) (\<lambda>_. throw e)
         | Inr _ \<Rightarrow> start_stage st' cfg dep app rv) w4"
    if "other_rows i w4 = other_rows i w" for env app rv w4 and det :: "error \<Rightarrow> string"
    using that assms stage_cong [of st st' dep w4] fail_cong [of st st' dep w4]
    by (cases env) (simp_all add: i_def bnd_run)
  have same: "other_rows i w4 = other_rows i w"
    if 1: "mapE (Wrapped ''scheduler: getting revision'') (GetRevision (dep_RevisionID dep)) w = (Inr rv, w1)"
      "mapE (Wrapped ''scheduler: getting application'') (GetApplication (dep_ApplicationID dep)) w1 = (Inr app, w2)"
      "SetApplicationStatus (app_ID app) AppDeploying [] w2 = (Inr u, w3)"
      "resolveEnv cfg app envStrict w3 = (env, w4)" for rv app u env w1 w2 w3 w4
  proof -
    have "other_rows i w1 = other_rows i w" using 1(1) by (simp add: mapE_Inr_iff) (erule frames_run, intro others_quiet)
    moreover have "other_rows i w2 = other_rows i w1" using 1(2) by (simp add: mapE_Inr_iff) (erule frames_run, intro others_quiet)
    moreover have "other_rows i w3 = other_rows i w2" using 1(3) by (rule frames_run) (intro others_quiet; simp add: other_rows_def)
    moreover have "other_rows i w4 = other_rows i w3" using 1(4) by (rule frames_run) (intro others_quiet)
    ultimately show ?thesis by simp
  qed
  show ?thesis unfolding start_body_def
    by (rule bnd_cong, rule bnd_cong, rule bnd_cong, rule bnd_attempt_cong, rule branch, rule same)
qed

definition actives :: "world \<Rightarrow> nat" where
  "actives w = length (filter active (w_deps w))"

lemma actives_less:
  assumes "\<forall>e \<in> set (w_deps w'). dep_ID e = i \<longrightarrow> \<not> active e" and "other_rows i w' = other_rows i w"
    and "d \<in> set (w_deps w)" "dep_ID d = i" "active d"
  shows "actives w' < actives w"
proof -
  have "filter active (w_deps w') = filter active (other_rows i w')"
    using assms(1) unfolding other_rows_def by (induction "w_deps w'") (auto simp: filter_empty_conv intro: filter_cong)
  then have "actives w' = length (filter active (other_rows i w))" by (simp add: actives_def assms(2))
  also have "\<dots> = length (filter (\<lambda>x. dep_ID x \<noteq> i) (filter active (w_deps w)))"
    by (simp add: other_rows_def conj_commute)
  also have "\<dots> < length (filter active (w_deps w))"
    by (rule length_filter_less [of d]) (use assms in auto)
  finally show ?thesis by (simp add: actives_def)
qed

lemma fuel_enough:
  "d \<in> set (w_deps w) \<Longrightarrow> active d \<Longrightarrow> actives w \<le> n \<Longrightarrow> start_fuel n cfg d w = start_fuel (Suc n) cfg d w"
proof (induction n arbitrary: d w)
  case 0
  then show ?case by (auto simp: actives_def filter_empty_conv)
next
  case (Suc n)
  have "agree (start_fuel n cfg) (start_fuel (Suc n) cfg) (dep_ID d) (other_rows (dep_ID d) w)"
    unfolding agree_def
  proof (intro allI impI)
    fix e w' assume a: "e \<in> set (w_deps w')" "active e" "\<forall>x \<in> set (w_deps w'). dep_ID x = dep_ID d \<longrightarrow> \<not> active x"
      "other_rows (dep_ID d) w' = other_rows (dep_ID d) w"
    have "actives w' < actives w" using actives_less [OF a(3,4)] Suc.prems by blast
    with Suc a show "start_fuel n cfg e w' = start_fuel (Suc n) cfg e w'" by simp
  qed
  then show ?case unfolding start_fuel.simps(2) by (rule body_cong)
qed

lemma fuel_irrelevant:
  assumes "d \<in> set (w_deps w)" "active d" "actives w \<le> n"
  shows "start_fuel (n + k) cfg d w = start_fuel n cfg d w"
proof (induction k)
  case (Suc k)
  with fuel_enough [OF assms(1,2), of "n + k" cfg] assms(3) show ?case by simp
qed simp

lemma actives_bound: "actives w \<le> length (w_deps w)"
  by (simp add: actives_def)

lemma actives_other_rows:
  assumes "\<forall>e \<in> set (w_deps w'). dep_ID e = i \<longrightarrow> \<not> active e" and "other_rows i w' = other_rows i w"
  shows "actives w' \<le> length (w_deps w)"
proof -
  have "filter active (w_deps w') = filter active (other_rows i w')"
    using assms(1) unfolding other_rows_def by (auto intro!: filter_cong)
  then show ?thesis using assms(2)
    by (simp add: actives_def) (metis other_rows_def length_filter_le le_trans)
qed

lemma start_eq: "start cfg dep w = start_body (start cfg) cfg dep w"
proof -
  have "agree (start_fuel (length (w_deps w)) cfg) (start cfg) (dep_ID dep) (other_rows (dep_ID dep) w)"
    unfolding agree_def start_def
  proof (intro allI impI)
    fix d w' assume d: "d \<in> set (w_deps w')" "active d"
      and out: "\<forall>e \<in> set (w_deps w'). dep_ID e = dep_ID dep \<longrightarrow> \<not> active e"
      and oth: "other_rows (dep_ID dep) w' = other_rows (dep_ID dep) w"
    let ?n = "length (w_deps w)" and ?m = "Suc (length (w_deps w'))"
    note le = actives_other_rows [OF out oth] actives_bound [of w']
    have "start_fuel ?n cfg d w' = start_fuel (?n + ?m) cfg d w'"
      using fuel_irrelevant [OF d, of ?n ?m] le by simp
    also have "\<dots> = start_fuel ?m cfg d w'"
      using fuel_irrelevant [OF d, of ?m ?n] le by (simp add: add.commute)
    finally show "start_fuel ?n cfg d w' = start_fuel ?m cfg d w'" .
  qed
  then show ?thesis unfolding start_def start_fuel.simps(2) by (rule body_cong)
qed

section \<open>Refinement of the state machine\<close>

text \<open>
  \<open>drives a i P m Q\<close>: from a table satisfying \<open>P\<close> the operation \<open>m\<close> writes the table by steps of the
  pipeline of application \<open>a\<close> on behalf of deployment \<open>i\<close>, and a normal return establishes \<open>Q\<close>, an
  error \<open>E\<close>.
\<close>

definition drives ::
  "string \<Rightarrow> string \<Rightarrow> (deployment list \<Rightarrow> bool) \<Rightarrow> 'a op \<Rightarrow> ('a \<Rightarrow> deployment list \<Rightarrow> bool)
    \<Rightarrow> (deployment list \<Rightarrow> bool) \<Rightarrow> bool" where
  "drives a i P m Q E \<longleftrightarrow> (\<forall>w r w'. wf_ids (w_deps w) \<longrightarrow> P (w_deps w) \<longrightarrow> m w = (r, w') \<longrightarrow>
     drive a i (w_deps w) (w_deps w') \<and> (case r of Inl _ \<Rightarrow> E (w_deps w') | Inr x \<Rightarrow> Q x (w_deps w')))"

named_theorems dr \<open>rules for drives\<close>

lemma drivesI:
  assumes "\<And>w r w'. wf_ids (w_deps w) \<Longrightarrow> P (w_deps w) \<Longrightarrow> m w = (r, w') \<Longrightarrow>
     drive a i (w_deps w) (w_deps w') \<and> (case r of Inl _ \<Rightarrow> E (w_deps w') | Inr x \<Rightarrow> Q x (w_deps w'))"
  shows "drives a i P m Q E"
  using assms by (simp add: drives_def)

lemma drivesD:
  "m w = (r, w') \<Longrightarrow> drives a i P m Q E \<Longrightarrow> wf_ids (w_deps w) \<Longrightarrow> P (w_deps w) \<Longrightarrow>
     drive a i (w_deps w) (w_deps w') \<and> (case r of Inl _ \<Rightarrow> E (w_deps w') | Inr x \<Rightarrow> Q x (w_deps w'))"
  by (simp add: drives_def)

lemma drives_conseq:
  assumes "drives a i P' m Q' E'" "\<And>ds. P ds \<Longrightarrow> P' ds" "\<And>x ds. Q' x ds \<Longrightarrow> Q x ds" "\<And>ds. E' ds \<Longrightarrow> E ds"
  shows "drives a i P m Q E"
  using assms unfolding drives_def by (fastforce split: sum.splits)

lemma drives_pre: "drives a i P' m Q E \<Longrightarrow> (\<And>ds. P ds \<Longrightarrow> P' ds) \<Longrightarrow> drives a i P m Q E"
  by (rule drives_conseq)

lemma drives_bnd:
  assumes "drives a i P m R E" and "\<And>x. drives a i (R x) (f x) Q E"
  shows "drives a i P (bnd m f) Q E"
proof (rule drivesI)
  fix w r w' assume w: "wf_ids (w_deps w)" "P (w_deps w)" and run: "bnd m f w = (r, w')"
  obtain y w1 where m: "m w = (y, w1)" by fastforce
  note 1 = drivesD [OF m assms(1) w]
  show "drive a i (w_deps w) (w_deps w') \<and> (case r of Inl _ \<Rightarrow> E (w_deps w') | Inr x \<Rightarrow> Q x (w_deps w'))"
  proof (cases y)
    case (Inl e)
    with 1 m run show ?thesis by (auto simp: bnd_run)
  next
    case (Inr x)
    with m run have "f x w1 = (r, w')" by (simp add: bnd_run)
    from drivesD [OF this assms(2)] 1 Inr w(1) show ?thesis by (auto intro: drive_trans drive_wf)
  qed
qed

lemma drives_attempt:
  "drives a i P m (\<lambda>x. Q (Inr x)) (\<lambda>ds. \<forall>e. Q (Inl e) ds) \<Longrightarrow> drives a i P (attempt m) Q E"
  by (rule drivesI) (auto simp: attempt_run split: prod.splits sum.splits dest!: drivesD)

lemma drives_mapE: "drives a i P m Q E \<Longrightarrow> drives a i P (mapE h m) Q E"
  unfolding drives_def mapE_run by (fastforce split: prod.splits sum.splits)

lemma drives_frame: "frames w_deps m \<Longrightarrow> drives a i P m (\<lambda>_. P) P"
  by (rule drivesI) (auto dest!: frames_run [where obs = w_deps] split: sum.splits)

lemma drives_frame': "frames w_deps m \<Longrightarrow> (\<And>x ds. P ds \<Longrightarrow> Q x ds) \<Longrightarrow> (\<And>ds. P ds \<Longrightarrow> E ds) \<Longrightarrow> drives a i P m Q E"
  by (rule drives_conseq [OF drives_frame])

lemma drives_quiet:
  "frames w_deps m \<Longrightarrow> (\<And>x. drives a i P (f x) Q (\<lambda>_. True)) \<Longrightarrow> drives a i P (bnd m f) Q (\<lambda>_. True)"
  by (rule drives_bnd [OF drives_frame', where R = "\<lambda>_. P"]) auto

lemma drives_if:
  "(b \<Longrightarrow> drives a i P m Q E) \<Longrightarrow> (\<not> b \<Longrightarrow> drives a i P n Q E) \<Longrightarrow> drives a i P (if b then m else n) Q E"
  by simp

lemma drives_ignored:
  assumes "drives a i P m (\<lambda>_. R) R" and "\<And>x. drives a i R (f x) Q E"
  shows "drives a i P (bnd (attempt m) f) Q E"
  by (rule drives_bnd [where R = "\<lambda>_. R"]) (simp_all add: assms drives_attempt)

lemma drives_dropped:
  "drives a i P m (\<lambda>_ _. True) (\<lambda>_. True) \<Longrightarrow> drives a i P (bnd (attempt m) (\<lambda>_. ret x)) (\<lambda>_ _. True) (\<lambda>_. True)"
  by (erule drives_ignored) (intro drives_frame fr)

section \<open>What the writes do\<close>

text \<open>A deployment the pipeline may advance, and one it may end.\<close>

definition ready :: "string \<Rightarrow> string \<Rightarrow> deployment list \<Rightarrow> bool" where
  "ready a i ds \<longleftrightarrow> (\<exists>d. dep_row i ds = Some d \<and> dep_ApplicationID d = a
     \<and> (head_of i ds \<or> in_flight (dep_Status d)))"

definition alive :: "string \<Rightarrow> string \<Rightarrow> deployment list \<Rightarrow> bool" where
  "alive a i ds \<longleftrightarrow> (\<exists>d. dep_row i ds = Some d \<and> dep_ApplicationID d = a \<and> \<not> Terminal (dep_Status d))"

lemma ready_active: "wf_ids ds \<Longrightarrow> ready a i ds \<Longrightarrow> \<exists>d. dep_row i ds = Some d \<and> dep_ApplicationID d = a \<and> active d"
  using head_row in_flight_active unfolding ready_def by fastforce

lemma ready_alive: "wf_ids ds \<Longrightarrow> ready a i ds \<Longrightarrow> alive a i ds"
  using ready_active active_not_terminal unfolding alive_def by blast

lemma advance_drives:
  assumes "in_flight s"
  shows "drives a i (ready a i) (UpdateDeploymentStatus i s det) (\<lambda>_. ready a i) (ready a i)"
proof (rule drivesI)
  fix w r w' assume w: "wf_ids (w_deps w)" "ready a i (w_deps w)" and run: "UpdateDeploymentStatus i s det w = (r, w')"
  obtain d where d: "dep_row i (w_deps w) = Some d" "dep_ApplicationID d = a" "head_of i (w_deps w) \<or> in_flight (dep_Status d)"
    using w(2) by (auto simp: ready_def)
  define f where "f = set_status (w_dbnow w) s det"
  have step: "drive a i (w_deps w) (dep_upd i f (w_deps w))"
    unfolding f_def by (intro drive_upd pipe.advance [OF d assms]) simp
  have "ready a i (dep_upd i f (w_deps w))"
    using d assms by (auto simp: ready_def dep_row_upd f_def same_keyD [OF same_key_set_status])
  with step w(2) update_deps [OF run]
  show "drive a i (w_deps w) (w_deps w') \<and> (case r of Inl _ \<Rightarrow> ready a i (w_deps w') | Inr x \<Rightarrow> ready a i (w_deps w'))"
    by (auto simp: f_def split: sum.splits)
qed

lemma finish_drives:
  "drives a i (alive a i) (UpdateDeploymentStatus i DeployFailed det) (\<lambda>_ _. True) (\<lambda>_. True)"
proof (rule drivesI)
  fix w r w' assume w: "wf_ids (w_deps w)" "alive a i (w_deps w)"
    and run: "UpdateDeploymentStatus i DeployFailed det w = (r, w')"
  from w(2) have "drive a i (w_deps w) (dep_upd i (set_status (w_dbnow w) DeployFailed det) (w_deps w))"
    unfolding alive_def by (auto intro!: drive_upd pipe.finish)
  with update_deps [OF run]
  show "drive a i (w_deps w) (w_deps w') \<and> (case r of Inl _ \<Rightarrow> True | Inr x \<Rightarrow> True)"
    by (auto split: sum.splits)
qed

lemma annotate_ready:
  assumes "wf_ids ds" "ready a i ds" "same_key f" "\<And>x. dep_Status (f x) = dep_Status x"
  shows "drive a i ds (dep_upd i f ds)" "ready a i (dep_upd i f ds)"
proof -
  obtain d where d: "dep_row i ds = Some d" "dep_ApplicationID d = a" "active d"
    using ready_active [OF assms(1,2)] by blast
  then show "drive a i ds (dep_upd i f ds)" using assms(3,4) by (intro drive_upd pipe.annotate)
  have act: "active (f x) = active x" for x using assms(4) by (simp add: active_def)
  have "head_of i (dep_upd i f ds)" if "head_of i ds"
    using that act by (intro head_of_upd [OF assms(3)]) auto
  with assms d show "ready a i (dep_upd i f ds)"
    by (auto simp: ready_def dep_row_upd same_keyD [OF assms(3)])
qed

lemma builder_drives:
  "drives a i (ready a i) (SetDeploymentBuilder i b)
     (\<lambda>d ds. ready a i ds \<and> dep_ID d = i \<and> dep_ApplicationID d = a) (ready a i)"
proof (rule drivesI)
  fix w r w' assume w: "wf_ids (w_deps w)" "ready a i (w_deps w)" and run: "SetDeploymentBuilder i b w = (r, w')"
  note ann = annotate_ready [OF w, of "dep_BuilderServerID_update (\<lambda>_. Some b)"]
  have "ready a i ds \<Longrightarrow> dep_row i ds = Some d \<Longrightarrow> dep_ID d = i \<and> dep_ApplicationID d = a" for ds d
    using dep_row_Some by (auto simp: ready_def)
  with ann w(2) builder_deps [OF run]
  show "drive a i (w_deps w) (w_deps w') \<and> (case r of Inl _ \<Rightarrow> ready a i (w_deps w')
      | Inr d \<Rightarrow> ready a i (w_deps w') \<and> dep_ID d = i \<and> dep_ApplicationID d = a)"
    by (auto split: sum.splits)
qed

lemma stamp_drives: "drives a i (ready a i) (SetDeploymentEnvResolved i) (\<lambda>_. ready a i) (ready a i)"
proof (rule drivesI)
  fix w r w' assume w: "wf_ids (w_deps w)" "ready a i (w_deps w)" and run: "SetDeploymentEnvResolved i w = (r, w')"
  from annotate_ready [OF w, of "dep_EnvResolvedAt_update (\<lambda>_. Some (w_dbnow w))"] stamp_deps [OF run] w(2)
  show "drive a i (w_deps w) (w_deps w') \<and> (case r of Inl _ \<Rightarrow> ready a i (w_deps w') | Inr _ \<Rightarrow> ready a i (w_deps w'))"
    by (auto split: sum.splits)
qed

section \<open>Starting, failing and promoting\<close>

lemma startDistribute_drives:
  "drives a (dep_ID dep) (ready a (dep_ID dep)) (startDistribute dep app rv)
     (\<lambda>_. ready a (dep_ID dep)) (ready a (dep_ID dep))"
  unfolding startDistribute_def promotedSourceImage_def Let_def
  by (rule drives_bnd, rule advance_drives, simp) (intro drives_frame fr)

lemma startRollout_drives:
  "drives a (dep_ID dep) (ready a (dep_ID dep)) (startRollout cfg dep app rv)
     (\<lambda>_. ready a (dep_ID dep)) (ready a (dep_ID dep))"
  unfolding startRollout_def
  by (rule drives_bnd, rule advance_drives, simp, rule drives_bnd, rule drives_frame, intro fr,
      rule drives_ignored, rule stamp_drives) (intro drives_frame fr)

text \<open>What the recursive call must do: drive a deployment that is ready.\<close>

definition starts :: "string \<Rightarrow> (deployment \<Rightarrow> unit op) \<Rightarrow> bool" where
  "starts a st \<longleftrightarrow> (\<forall>d. dep_ApplicationID d = a \<longrightarrow>
     drives a (dep_ID d) (ready a (dep_ID d)) (st d) (\<lambda>_ _. True) (\<lambda>_. True))"

lemma promote_drives:
  assumes "starts a st"
  shows "drives a i (\<lambda>_. True) (promoteNext_with st a) (\<lambda>_ _. True) (\<lambda>_. True)"
proof (rule drivesI)
  fix w r w' assume wf: "wf_ids (w_deps w)" and run: "promoteNext_with st a w = (r, w')"
  obtain l w1 where list: "ListActiveDeploymentsByApplication a w = (l, w1)" by fastforce
  then have same: "w_deps w1 = w_deps w" by (rule frames_run) (intro fr)
  have "drive a i (w_deps w) (w_deps w')"
  proof (cases "\<exists>d ds. l = Inr (d # ds) \<and> dep_Status d = DeployQueued")
    case False
    with run list same show ?thesis
      by (auto simp: promoteNext_with_def runs split: sum.splits list.splits if_splits)
  next
    case True
    then obtain d ds where l: "l = Inr (d # ds)" "dep_Status d = DeployQueued" by blast
    with list have q: "queue_of a (w_deps w) = d # ds"
      by (auto simp: ListActiveDeploymentsByApplication_def many_rows_def query_Inr_iff seen_deps.io_blind)
    note d = queue_head [OF q] and row = dep_row_unique [OF wf queue_head(4) [OF q]]
    obtain s w2 where st: "st d w1 = (s, w2)" by fastforce
    with run list l have "w' = w2" by (simp add: promoteNext_with_def runs)
    have "drive a (dep_ID d) (w_deps w) (w_deps w2)"
      using drivesD [where m = "st d", OF st, of a "dep_ID d" "ready a (dep_ID d)"] assms d row wf same
      by (auto simp: starts_def ready_def)
    with row l(2) \<open>w' = w2\<close> show ?thesis unfolding drive_def by (auto intro: kept_queued)
  qed
  then show "drive a i (w_deps w) (w_deps w') \<and> (case r of Inl _ \<Rightarrow> True | Inr x \<Rightarrow> True)"
    by (simp split: sum.split)
qed

lemma endActive_drives:
  assumes "starts a st" "dep_ApplicationID dep = a" "dep_ID dep = i"
  shows "drives a i (alive a i) (endActive_with st cfg dep detail b) (\<lambda>_ _. True) (\<lambda>_. True)"
  unfolding endActive_with_def assms(2,3)
  by (rule drives_bnd, rule drives_mapE, rule finish_drives, rule drives_bnd, rule drives_frame, intro fr,
      rule drives_bnd, rule drives_frame, intro fr, rule drives_bnd, rule promote_drives [OF assms(1)])
    (intro drives_frame fr)

lemma fail_drives:
  assumes "starts a st" "dep_ApplicationID dep = a" "dep_ID dep = i"
  shows "drives a i (alive a i) (fail_with st cfg dep detail) (\<lambda>_ _. True) (\<lambda>_. True)"
  unfolding fail_with_def using endActive_drives [OF assms] by (rule drives_dropped)

lemma fail_throw_drives:
  assumes "starts a st" "dep_ApplicationID dep = a" "dep_ID dep = i"
  shows "drives a i (ready a i) (bnd (fail_with st cfg dep detail) (\<lambda>_. throw e)) (\<lambda>_ _. True) (\<lambda>_. True)"
proof (rule drives_bnd [where R = "\<lambda>_ _. True"])
  show "drives a i (ready a i) (fail_with st cfg dep detail) (\<lambda>_ _. True) (\<lambda>_. True)"
    using fail_drives [OF assms] ready_alive unfolding drives_def by blast
qed (intro drives_frame fr)

lemma stage_drives:
  assumes "starts a st" "dep_ApplicationID dep = a" "dep_ID dep = i"
  shows "drives a i (ready a i) (start_stage st cfg dep app rv) (\<lambda>_ _. True) (\<lambda>_. True)"
proof -
  have build: "drives a i (\<lambda>ds. ready a i ds \<and> dep_ID d = i \<and> dep_ApplicationID d = a)
     (bnd (attempt (buildWork cfg d app rv)) (\<lambda>wk. case wk of
        Inl e \<Rightarrow> bnd (fail_with st cfg d (error_text e)) (\<lambda>_. throw e)
      | Inr work \<Rightarrow> mapE (Wrapped ''scheduler: publishing build'')
            (PublishWork (Build b) (dep_ID d @ ''.build'') (BuildWork work)))) (\<lambda>_ _. True) (\<lambda>_. True)" for d b
  proof (rule drives_quiet)
    fix wk
    show "drives a i (\<lambda>ds. ready a i ds \<and> dep_ID d = i \<and> dep_ApplicationID d = a) (case wk of
          Inl e \<Rightarrow> bnd (fail_with st cfg d (error_text e)) (\<lambda>_. throw e)
        | Inr work \<Rightarrow> mapE (Wrapped ''scheduler: publishing build'')
            (PublishWork (Build b) (dep_ID d @ ''.build'') (BuildWork work))) (\<lambda>_ _. True) (\<lambda>_. True)"
    proof (cases "dep_ID d = i \<and> dep_ApplicationID d = a")
      case True
      have "drives a i P (mapE h (PublishWork s k m)) (\<lambda>_ _. True) (\<lambda>_. True)" for P h s k m
        by (rule drives_frame') (intro fr, simp_all)
      with True show ?thesis using fail_throw_drives [OF assms(1), of d i]
        by (cases wk) simp_all
    qed (auto simp: drives_def)
  qed (intro fr)
  have builder: "drives a i (ready a i) (if b \<noteq> rt_ServerID (app_Runtime app)
       then mapE (Wrapped ''scheduler: recording builder'') (SetDeploymentBuilder (dep_ID dep) b) else ret dep)
     (\<lambda>d ds. ready a i ds \<and> dep_ID d = i \<and> dep_ApplicationID d = a) (ready a i)" for b
    using builder_drives [of a i b] assms by (auto intro!: drives_mapE simp: drives_def [of _ _ _ "ret dep"])
  have routed: "drives a i (ready a i) (case b of
          Inl e \<Rightarrow> bnd (fail_with st cfg dep (error_text e)) (\<lambda>_. throw e)
        | Inr builderID \<Rightarrow> bnd (if builderID \<noteq> rt_ServerID (app_Runtime app)
            then mapE (Wrapped ''scheduler: recording builder'') (SetDeploymentBuilder (dep_ID dep) builderID)
            else ret dep) (\<lambda>dep. bnd (attempt (buildWork cfg dep app rv)) (\<lambda>wk. case wk of
              Inl e \<Rightarrow> bnd (fail_with st cfg dep (error_text e)) (\<lambda>_. throw e)
            | Inr work \<Rightarrow> mapE (Wrapped ''scheduler: publishing build'')
                  (PublishWork (Build builderID) (dep_ID dep @ ''.build'') (BuildWork work)))))
       (\<lambda>_ _. True) (\<lambda>_. True)" for b :: "error + string"
  proof (cases b)
    case (Inr s)
    show ?thesis unfolding Inr sum.case
      by (rule drives_bnd [OF _ build], rule drives_conseq [OF builder]) simp_all
  qed (simp add: fail_throw_drives [OF assms])
  have first: "drives a i (ready a i) (startDistribute dep app rv) (\<lambda>_ _. True) (\<lambda>_. True)"
    "drives a i (ready a i) (startRollout cfg dep app rv) (\<lambda>_ _. True) (\<lambda>_. True)"
    using startDistribute_drives [of a dep app rv] startRollout_drives [of a dep cfg app rv] assms(3)
    by (auto elim!: drives_conseq)
  have tail: "drives a i (ready a i) (bnd (UpdateDeploymentStatus (dep_ID dep) DeployBuilding []) (\<lambda>_.
      bnd (attempt (selectBuilder app)) f)) (\<lambda>_ _. True) (\<lambda>_. True)"
    if "\<And>b. drives a i (ready a i) (f b) (\<lambda>_ _. True) (\<lambda>_. True)" for f
    unfolding assms(3) by (rule drives_bnd, rule drives_conseq [OF advance_drives], simp, assumption+, simp,
        rule drives_quiet [OF _ that]) (intro fr)
  show ?thesis unfolding start_stage_def
    by (rule drives_if, rule first(1), rule drives_if, rule first(2), rule tail, rule routed)
qed

lemma body_drives:
  assumes "starts a st"
  shows "starts a (start_body st cfg)"
  unfolding starts_def
proof (intro allI impI)
  fix dep :: deployment assume a: "dep_ApplicationID dep = a"
  define i where "i = dep_ID dep"
  have "drives a i (ready a i) (case env of
       Inl e \<Rightarrow> bnd (fail_with st cfg dep (det e)) (\<lambda>_. throw e)
     | Inr (_ :: (string \<times> string) list) \<Rightarrow> start_stage st cfg dep app rv) (\<lambda>_ _. True) (\<lambda>_. True)"
    for env app rv and det :: "error \<Rightarrow> string"
    using fail_throw_drives [OF assms a, of i] stage_drives [OF assms a, of i] by (cases env) (simp_all add: i_def)
  then show "drives a (dep_ID dep) (ready a (dep_ID dep)) (start_body st cfg dep) (\<lambda>_ _. True) (\<lambda>_. True)"
    unfolding start_body_def i_def [symmetric]
    by (intro drives_quiet fr)
qed

lemma start_fuel_drives: "starts a (start_fuel n cfg)"
  by (induction n) (simp_all add: body_drives, simp add: starts_def drives_def)

lemma start_drives: "starts a (start cfg)"
  unfolding starts_def drives_def start_def
  using start_fuel_drives unfolding starts_def drives_def by blast

text \<open>
  C8. The fuel of \<open>start\<close> is never reached: for every deployment, every state of the tables
  and every pattern of failures \<open>start\<close> satisfies the recursive equation of the program.
\<close>

theorem start_unfold: "start cfg dep w = start_body (start cfg) cfg dep w"
  by (rule start_eq)

end
