(* ===== verification/Quota.thy ===== *)
theory Quota
  imports Protection
begin

text \<open>
  Resource quotas (\<open>src/core/quota/quota.go\<close>, over the statements of \<open>src/core/store/quotas.go\<close>): caps on the declared memory,
  the disk and the live previews of a project or a team, the meter that reads them, the gate the scheduler asks, and the
  announcement of a crossing as \<open>src/core/cmd/cypherd/main.go\<close> wires it to the inbox. Sums of bytes are taken to stay below 2^63.
\<close>

section \<open>Statements (quotas.go)\<close>

definition positive_cap :: "int option \<Rightarrow> bool" where
  "positive_cap l = (case l of None \<Rightarrow> True | Some v \<Rightarrow> 0 < v)"

text \<open>The preview limit is an INTEGER column: \<open>nullInt32\<close> keeps 32 bits of it.\<close>

definition nullInt32 :: "int option \<Rightarrow> int option" where
  "nullInt32 v = map_option (\<lambda>n. sint (word_of_int n :: 32 word)) v"

definition upsert_quota :: "(resourceQuota \<Rightarrow> bool) \<Rightarrow> bool \<Rightarrow> resourceQuota \<Rightarrow> resourceQuota op" where
  "upsert_quota same owner_known row = query ''saving the quota''
     (\<lambda>w. if \<not> (positive_cap (rq_MemoryLimitBytes row) \<and> positive_cap (rq_DiskLimitBytes row) \<and> positive_cap (rq_PreviewLimit row))
          then (Inl (Driver ''resource_quota_positive''), w)
          else (case List.find same (w_quotas w) of
              Some old \<Rightarrow>
                (let new = row\<lparr>rq_ID := rq_ID old\<rparr> in (Inr new, w\<lparr>w_quotas := update_where same (\<lambda>_. new) (w_quotas w)\<rparr>))
            | None \<Rightarrow>
                if \<exists>q \<in> set (w_quotas w). rq_ID q = rq_ID row then (Inl (Driver ''resource_quotas_pkey''), w)
                else if \<not> owner_known then (Inl (Driver ''resource_quotas_fkey''), w)
                else (Inr row, w\<lparr>w_quotas := w_quotas w @ [row]\<rparr>)))"

text \<open>An empty id is NULL, which no row matches and which leaves the quota without a scope.\<close>

definition UpsertProjectQuota :: "string \<Rightarrow> string \<Rightarrow> resourceQuota \<Rightarrow> resourceQuota op" where
  "UpsertProjectQuota i projectID q = (\<lambda>w.
     if projectID = [] then query ''saving the quota'' (throw (Driver ''resource_quota_one_scope'')) w
     else upsert_quota (\<lambda>r. rq_ProjectID r = projectID) (\<exists>p \<in> set (w_projects w). fst p = projectID)
       \<lparr> rq_ID = i, rq_ProjectID = projectID, rq_TeamID = [], rq_MemoryLimitBytes = rq_MemoryLimitBytes q,
         rq_DiskLimitBytes = rq_DiskLimitBytes q, rq_PreviewLimit = nullInt32 (rq_PreviewLimit q), rq_UpdatedBy = rq_UpdatedBy q \<rparr> w)"

definition UpsertTeamQuota :: "string \<Rightarrow> string \<Rightarrow> resourceQuota \<Rightarrow> resourceQuota op" where
  "UpsertTeamQuota i teamID q = (\<lambda>w.
     if teamID = [] then query ''saving the quota'' (throw (Driver ''resource_quota_one_scope'')) w
     else upsert_quota (\<lambda>r. rq_TeamID r = teamID) (\<exists>t \<in> set (w_teams w). team_ID t = teamID)
       \<lparr> rq_ID = i, rq_ProjectID = [], rq_TeamID = teamID, rq_MemoryLimitBytes = rq_MemoryLimitBytes q,
         rq_DiskLimitBytes = rq_DiskLimitBytes q, rq_PreviewLimit = nullInt32 (rq_PreviewLimit q), rq_UpdatedBy = rq_UpdatedBy q \<rparr> w)"

definition GetProjectQuota :: "string \<Rightarrow> resourceQuota op" where
  "GetProjectQuota projectID = query ''reading the quota'' (one_row (\<lambda>q. projectID \<noteq> [] \<and> rq_ProjectID q = projectID) w_quotas)"

definition GetTeamQuota :: "string \<Rightarrow> resourceQuota op" where
  "GetTeamQuota teamID = query ''reading the quota'' (one_row (\<lambda>q. teamID \<noteq> [] \<and> rq_TeamID q = teamID) w_quotas)"

definition ListResourceQuotas :: "resourceQuota list op" where
  "ListResourceQuotas = query ''listing quotas'' (many_rows w_quotas)"

definition DeleteProjectQuota :: "string \<Rightarrow> unit op" where
  "DeleteProjectQuota projectID = query ''removing the quota''
     (modify (\<lambda>w. w\<lparr>w_quotas := filter (\<lambda>q. \<not> (projectID \<noteq> [] \<and> rq_ProjectID q = projectID)) (w_quotas w)\<rparr>))"

definition DeleteTeamQuota :: "string \<Rightarrow> unit op" where
  "DeleteTeamQuota teamID = query ''removing the quota''
     (modify (\<lambda>w. w\<lparr>w_quotas := filter (\<lambda>q. \<not> (teamID \<noteq> [] \<and> rq_TeamID q = teamID)) (w_quotas w)\<rparr>))"

text \<open>The join with the environments of a project.\<close>

definition in_project :: "world \<Rightarrow> string \<Rightarrow> string \<Rightarrow> bool" where
  "in_project w projectID envID \<longleftrightarrow> (\<exists>e \<in> set (w_envs w). env_ID e = envID \<and> env_ProjectID e = projectID)"

definition project_apps :: "world \<Rightarrow> string \<Rightarrow> application list" where
  "project_apps w projectID = filter (\<lambda>a. in_project w projectID (app_EnvironmentID a)) (w_apps w)"

definition project_dbs :: "world \<Rightarrow> string \<Rightarrow> database list" where
  "project_dbs w projectID = filter (\<lambda>d. in_project w projectID (db_EnvironmentID d)) (w_dbs w)"

definition or_zero :: "int option \<Rightarrow> int" where
  "or_zero v = (case v of None \<Rightarrow> 0 | Some n \<Rightarrow> n)"

definition declared_memory :: "world \<Rightarrow> string \<Rightarrow> int" where
  "declared_memory w projectID =
     (sum_list (map (\<lambda>a. or_zero (rt_MemoryLimitMB (app_Runtime a)) * max (rt_Replicas (app_Runtime a)) 1) (project_apps w projectID))
      + sum_list (map (\<lambda>d. or_zero (db_MemoryLimitMB d)) (project_dbs w projectID))) * 1024 * 1024"

definition ProjectDeclaredMemory :: "string \<Rightarrow> int op" where
  "ProjectDeclaredMemory projectID = query ''metering declared memory'' (gets (\<lambda>w. declared_memory w projectID))"

definition unlimited_resources :: "world \<Rightarrow> string \<Rightarrow> string list" where
  "unlimited_resources w projectID =
     map (\<lambda>a. ''application'' @ '' '' @ app_Name a) (filter (\<lambda>a. rt_MemoryLimitMB (app_Runtime a) = None) (project_apps w projectID))
     @ map (\<lambda>d. ''database'' @ '' '' @ db_Name d) (filter (\<lambda>d. db_MemoryLimitMB d = None) (project_dbs w projectID))"

definition ProjectUnlimitedResources :: "string \<Rightarrow> string list op" where
  "ProjectUnlimitedResources projectID = query ''finding unlimited resources'' (many_rows (\<lambda>w. unlimited_resources w projectID))"

definition ProjectComposeStackCount :: "string \<Rightarrow> int op" where
  "ProjectComposeStackCount projectID = query ''counting compose stacks''
     (gets (\<lambda>w. int (length (filter (\<lambda>c. in_project w projectID (snd c)) (w_stacks w)))))"

text \<open>The newest sample of each resource of the project.\<close>

definition observed_disk :: "world \<Rightarrow> string \<Rightarrow> int" where
  "observed_disk w projectID =
     sum_list (map smp_Bytes (distinct_on (\<lambda>d. (smp_Kind d, smp_ID d))
       (sort_key (\<lambda>d. (smp_Kind d, smp_ID d, - smp_Bucket d))
         (filter (\<lambda>d. smp_Kind d = ''application'' \<and> smp_ID d \<in> set (map app_ID (project_apps w projectID))
            \<or> smp_Kind d = ''database'' \<and> smp_ID d \<in> set (map db_ID (project_dbs w projectID))
            \<or> smp_Kind d = ''compose_stack'' \<and> (\<exists>c \<in> set (w_stacks w). fst c = smp_ID d \<and> in_project w projectID (snd c)))
          (w_disk w)))))"

definition ProjectObservedDisk :: "string \<Rightarrow> int op" where
  "ProjectObservedDisk projectID = query ''metering disk'' (gets (\<lambda>w. observed_disk w projectID))"

definition live_previews :: "world \<Rightarrow> string \<Rightarrow> int" where
  "live_previews w projectID =
     int (length (filter (\<lambda>p. prw_Status p \<noteq> ''destroying'' \<and> (\<exists>a \<in> set (project_apps w projectID). app_ID a = prw_SourceAppID p)) (w_previews w)))"

definition ProjectLivePreviews :: "string \<Rightarrow> int op" where
  "ProjectLivePreviews projectID = query ''counting previews'' (gets (\<lambda>w. live_previews w projectID))"

definition ListProjectsInTeam :: "string \<Rightarrow> string list op" where
  "ListProjectsInTeam teamID = query ''listing the team'' (many_rows (\<lambda>w. map fst (filter (\<lambda>p. snd p = teamID) (w_projects w))))"

text \<open>Of a project its id and its team.\<close>

definition GetProject :: "string \<Rightarrow> (string \<times> string) op" where
  "GetProject i = query ''getting project'' (one_row (\<lambda>p. fst p = i) w_projects)"

definition GetQuotaState :: "string \<Rightarrow> string \<Rightarrow> string \<Rightarrow> string op" where
  "GetQuotaState kind i dimension = query ''reading the quota state''
     (bnd (one_row (\<lambda>s. fst s = (kind, i, dimension)) w_quotaStates) (\<lambda>s. ret (snd s)))"

definition SetQuotaState :: "string \<Rightarrow> string \<Rightarrow> string \<Rightarrow> string \<Rightarrow> unit op" where
  "SetQuotaState kind i dimension state = query ''recording the quota state''
     (modify (\<lambda>w. w\<lparr>w_quotaStates := ((kind, i, dimension), state) # filter (\<lambda>s. fst s \<noteq> (kind, i, dimension)) (w_quotaStates w)\<rparr>))"

section \<open>Numbers in messages\<close>

text \<open>
  \<open>bytes\<close>: the size as a \<open>float64\<close>, divided by 1024 while it is at least 1024 and a unit is left (exact), printed with one
  decimal, ties to even.
\<close>

fun unit_index :: "nat \<Rightarrow> nat \<Rightarrow> nat \<Rightarrow> nat" where
  "unit_index 0 f i = i"
| "unit_index (Suc k) f i = (if 1024 ^ (i + 1) \<le> f then unit_index k f (i + 1) else i)"

definition byte_units :: "string list" where
  "byte_units = [''B'', ''KiB'', ''MiB'', ''GiB'', ''TiB'']"

definition bytes_text :: "int \<Rightarrow> string" where
  "bytes_text n =
     (let f = round53 (nat n); i = unit_index (length byte_units - 1) f 0; tenths = half_even (10 * f) (1024 ^ i) in
      dec (tenths div 10) @ ''.'' @ dec (tenths mod 10) @ '' '' @ byte_units ! i)"

section \<open>The meter\<close>

record reading =
  md_memory :: int
  md_disk :: int
  md_previews :: int
  md_stacks :: int
  md_unlimited :: "string list"

definition no_reading :: reading where
  "no_reading = \<lparr> md_memory = 0, md_disk = 0, md_previews = 0, md_stacks = 0, md_unlimited = [] \<rparr>"

definition projectsIn :: "string \<Rightarrow> string \<Rightarrow> string list op" where
  "projectsIn scopeKind scopeID = (if scopeKind = QuotaScopeTeam then ListProjectsInTeam scopeID else ret [scopeID])"

fun meter_loop :: "string list \<Rightarrow> reading \<Rightarrow> reading op" where
  "meter_loop [] acc = ret acc"
| "meter_loop (p # projects) acc =
     bnd (ProjectDeclaredMemory p) (\<lambda>m.
     bnd (ProjectObservedDisk p) (\<lambda>d.
     bnd (ProjectLivePreviews p) (\<lambda>pv.
     bnd (ProjectComposeStackCount p) (\<lambda>cs.
     bnd (ProjectUnlimitedResources p) (\<lambda>names.
     meter_loop projects \<lparr> md_memory = md_memory acc + m, md_disk = md_disk acc + d, md_previews = md_previews acc + pv,
       md_stacks = md_stacks acc + cs, md_unlimited = md_unlimited acc @ names \<rparr>)))))"

definition meter :: "string \<Rightarrow> string \<Rightarrow> reading op" where
  "meter scopeKind scopeID = bnd (projectsIn scopeKind scopeID) (\<lambda>projects. meter_loop projects no_reading)"

definition quotaFor :: "string \<Rightarrow> string \<Rightarrow> resourceQuota op" where
  "quotaFor scopeKind scopeID = (if scopeKind = QuotaScopeTeam then GetTeamQuota scopeID else GetProjectQuota scopeID)"

lemma reads_quota_statements [rd]:
  "reads (GetProjectQuota p)" "reads (GetTeamQuota p)" "reads ListResourceQuotas" "reads (ProjectDeclaredMemory p)"
  "reads (ProjectUnlimitedResources p)" "reads (ProjectComposeStackCount p)" "reads (ProjectObservedDisk p)"
  "reads (ProjectLivePreviews p)" "reads (ListProjectsInTeam p)" "reads (GetProject p)" "reads (GetQuotaState k i d)"
  unfolding GetProjectQuota_def GetTeamQuota_def ListResourceQuotas_def ProjectDeclaredMemory_def ProjectUnlimitedResources_def
    ProjectComposeStackCount_def ProjectObservedDisk_def ProjectLivePreviews_def ListProjectsInTeam_def GetProject_def GetQuotaState_def
  by (intro rd)+

lemma reads_meter_loop [rd]: "reads (meter_loop ps acc)"
  by (induction ps arbitrary: acc) (auto intro!: rd)

lemma reads_meter [rd]: "reads (projectsIn k i)" "reads (meter k i)" "reads (quotaFor k i)"
  unfolding projectsIn_def meter_def quotaFor_def by (intro rd)+

section \<open>Setting and listing\<close>

fun unlimited_loop :: "string list \<Rightarrow> string list op" where
  "unlimited_loop [] = ret []"
| "unlimited_loop (p # projects) =
     bnd (ProjectUnlimitedResources p) (\<lambda>names. bnd (unlimited_loop projects) (\<lambda>rest. ret (names @ rest)))"

definition unlimitedIn :: "string \<Rightarrow> string \<Rightarrow> string list op" where
  "unlimitedIn scopeKind scopeID = bnd (projectsIn scopeKind scopeID) unlimited_loop"

definition zero_cap :: "string \<Rightarrow> error" where
  "zero_cap name = Invalid (''a '' @ name @ '' cap of zero means nothing may be deployed here '' @ dash
     @ '' remove the quota instead, or use a freeze window if that is what you meant'')"

text \<open>The two byte caps are visited in the order of a map: \<open>caps\<close> is the order this call meets.\<close>

definition cap_orders :: "resourceQuota \<Rightarrow> (string \<times> int option) list list" where
  "cap_orders q = (let m = (''memory'', rq_MemoryLimitBytes q); d = (''disk'', rq_DiskLimitBytes q) in [[m, d], [d, m]])"

definition QuotaSet :: "nat \<Rightarrow> string \<Rightarrow> string \<Rightarrow> string \<Rightarrow> resourceQuota \<Rightarrow> string \<Rightarrow> resourceQuota op" where
  "QuotaSet order newID scopeKind scopeID q actor =
     (case List.find (\<lambda>c. \<not> positive_cap (snd c)) (cap_orders q ! order) of
        Some c \<Rightarrow> throw (zero_cap (fst c))
      | None \<Rightarrow>
          if \<not> positive_cap (rq_PreviewLimit q)
          then throw (Invalid (''a preview cap of zero means no previews '' @ dash
            @ '' turn previews off on the applications instead, which says so where somebody will read it''))
          else
            bnd (if rq_MemoryLimitBytes q = None then ret []
                 else unlimitedIn scopeKind scopeID) (\<lambda>unlimited.
            if unlimited \<noteq> [] then throw (UnlimitedError unlimited)
            else if scopeKind = QuotaScopeTeam then UpsertTeamQuota newID scopeID (q\<lparr>rq_UpdatedBy := actor\<rparr>)
            else UpsertProjectQuota newID scopeID (q\<lparr>rq_UpdatedBy := actor\<rparr>)))"

definition QuotaDelete :: "string \<Rightarrow> string \<Rightarrow> unit op" where
  "QuotaDelete scopeKind scopeID = (if scopeKind = QuotaScopeTeam then DeleteTeamQuota scopeID else DeleteProjectQuota scopeID)"

definition QuotaList :: "resourceQuota list op" where
  "QuotaList = ListResourceQuotas"

section \<open>The report\<close>

text \<open>What the caps of the projects of a team add up to, and how many have none, per dimension: memory, disk, previews.\<close>

type_synonym commitment = "int \<times> int"

definition commit_limit :: "int option \<Rightarrow> commitment \<Rightarrow> commitment" where
  "commit_limit limit c = (case limit of None \<Rightarrow> (fst c, snd c + 1) | Some l \<Rightarrow> (fst c + l, snd c))"

definition commit_quota :: "resourceQuota option \<Rightarrow> commitment \<times> commitment \<times> commitment \<Rightarrow> commitment \<times> commitment \<times> commitment" where
  "commit_quota q acc = (case acc of (m, d, p) \<Rightarrow>
     (commit_limit (Option.bind q rq_MemoryLimitBytes) m, commit_limit (Option.bind q rq_DiskLimitBytes) d,
      commit_limit (Option.bind q rq_PreviewLimit) p))"

fun commit_loop :: "string list \<Rightarrow> commitment \<times> commitment \<times> commitment \<Rightarrow> (commitment \<times> commitment \<times> commitment) op" where
  "commit_loop [] acc = ret acc"
| "commit_loop (p # projects) acc =
     bnd (attempt (GetProjectQuota p)) (\<lambda>r.
     commit_loop projects (commit_quota (case r of Inl _ \<Rightarrow> None | Inr q \<Rightarrow> Some q) acc))"

definition committed :: "string \<Rightarrow> (commitment \<times> commitment \<times> commitment) op" where
  "committed teamID = bnd (ListProjectsInTeam teamID) (\<lambda>projects. commit_loop projects ((0, 0), (0, 0), (0, 0)))"

definition usage_of :: "string \<Rightarrow> int \<Rightarrow> int option \<Rightarrow> commitment option \<Rightarrow> quotaUsage" where
  "usage_of dimension used limit c = \<lparr> qu_Dimension = dimension, qu_Used = used, qu_Limit = limit, qu_State = QuotaState used limit,
     qu_Committed = map_option fst c, qu_UncappedProjects = map_option snd c \<rparr>"

definition uncapped :: resourceQuota where
  "uncapped = \<lparr> rq_ID = [], rq_ProjectID = [], rq_TeamID = [], rq_MemoryLimitBytes = None, rq_DiskLimitBytes = None,
     rq_PreviewLimit = None, rq_UpdatedBy = [] \<rparr>"

definition QuotaReport :: "string \<Rightarrow> string \<Rightarrow> quotaReport op" where
  "QuotaReport scopeKind scopeID =
     bnd (attempt (quotaFor scopeKind scopeID)) (\<lambda>r.
     let q = (case r of Inl _ \<Rightarrow> uncapped | Inr q \<Rightarrow> q) in
     bnd (meter scopeKind scopeID) (\<lambda>md.
     bnd (if scopeKind = QuotaScopeTeam
          then bnd (committed scopeID) (\<lambda>(m, d, p). ret (Some m, Some d, Some p)) else ret (None, None, None)) (\<lambda>(m, d, p).
     ret \<lparr> qr_ScopeKind = scopeKind, qr_ScopeID = scopeID,
       qr_Usage = [usage_of QuotaMemory (md_memory md) (rq_MemoryLimitBytes q) m, usage_of QuotaDisk (md_disk md) (rq_DiskLimitBytes q) d,
         usage_of QuotaPreviews (md_previews md) (rq_PreviewLimit q) p],
       qr_UncountedComposeStacks = md_stacks md, qr_Unlimited = md_unlimited md \<rparr>)))"

section \<open>The gate\<close>

type_synonym announcer = "string \<Rightarrow> string \<Rightarrow> string \<Rightarrow> string \<Rightarrow> quotaUsage \<Rightarrow> unit op"

record quotaDelta =
  dl_MemoryBytes :: int
  dl_Previews :: int

definition announceIfChanged :: "announcer option \<Rightarrow> string \<Rightarrow> string \<Rightarrow> string \<Rightarrow> int \<Rightarrow> int option \<Rightarrow> unit op" where
  "announceIfChanged ann kind i dimension used limit =
     bnd (attempt (GetQuotaState kind i dimension)) (\<lambda>r.
     let state = QuotaState used limit; previous = (case r of Inl _ \<Rightarrow> [] | Inr s \<Rightarrow> s) in
     if r = Inr state then ret ()
     else
       bnd (attempt (SetQuotaState kind i dimension state)) (\<lambda>_.
       case ann of
         None \<Rightarrow> ret ()
       | Some tell \<Rightarrow>
           if state = QuotaOK \<and> previous = [] then ret ()
           else bnd (attempt (tell kind i dimension state (usage_of dimension used limit None))) (\<lambda>_. ret ())))"

definition refuse :: "announcer option \<Rightarrow> string \<Rightarrow> string \<Rightarrow> string \<Rightarrow> string \<Rightarrow> int \<Rightarrow> int option \<Rightarrow> quotaAdmission op" where
  "refuse ann kind i dimension reason used limit =
     bnd (announceIfChanged ann kind i dimension used limit) (\<lambda>_.
     ret \<lparr> qa_Allowed = False, qa_Dimension = dimension, qa_Reason = reason, qa_Unlimited = [] \<rparr>)"

definition room_left :: quotaAdmission where
  "room_left = \<lparr> qa_Allowed = True, qa_Dimension = [], qa_Reason = [], qa_Unlimited = [] \<rparr>"

definition exceeds :: "int \<Rightarrow> int option \<Rightarrow> bool" where
  "exceeds n limit = (case limit of None \<Rightarrow> False | Some l \<Rightarrow> l < n)"

text \<open>One scope: \<open>None\<close> goes on to the next, \<open>Some\<close> is the early return.\<close>

definition admit_caps :: "announcer option \<Rightarrow> quotaDelta \<Rightarrow> string \<Rightarrow> string \<Rightarrow> resourceQuota \<Rightarrow> reading \<Rightarrow> quotaAdmission option op" where
  "admit_caps ann delta kind i q md =
     (let memory = md_memory md; disk = md_disk md; previews = md_previews md;
          cap = (\<lambda>limit. case limit of None \<Rightarrow> 0 | Some l \<Rightarrow> l) in
      if exceeds (memory + dl_MemoryBytes delta) (rq_MemoryLimitBytes q)
      then bnd (refuse ann kind i QuotaMemory
        (''this '' @ kind @ '' is at '' @ bytes_text memory @ '' of its '' @ bytes_text (cap (rq_MemoryLimitBytes q))
         @ '' memory cap, and this would need '' @ bytes_text (dl_MemoryBytes delta) @ '' more'') memory (rq_MemoryLimitBytes q)) (\<lambda>a. ret (Some a))
      else if exceeds (disk + 1) (rq_DiskLimitBytes q)
      then bnd (refuse ann kind i QuotaDisk
        (''this '' @ kind @ '' is using '' @ bytes_text disk @ '' of its '' @ bytes_text (cap (rq_DiskLimitBytes q)) @ '' disk cap'')
        disk (rq_DiskLimitBytes q)) (\<lambda>a. ret (Some a))
      else if 0 < dl_Previews delta \<and> exceeds (previews + dl_Previews delta) (rq_PreviewLimit q)
      then bnd (refuse ann kind i QuotaPreviews
        (''this '' @ kind @ '' already has '' @ itoa previews @ '' of its '' @ itoa (cap (rq_PreviewLimit q)) @ '' live previews'')
        previews (rq_PreviewLimit q)) (\<lambda>a. ret (Some a))
      else
        bnd (announceIfChanged ann kind i QuotaMemory memory (rq_MemoryLimitBytes q)) (\<lambda>_.
        bnd (announceIfChanged ann kind i QuotaDisk disk (rq_DiskLimitBytes q)) (\<lambda>_.
        bnd (announceIfChanged ann kind i QuotaPreviews previews (rq_PreviewLimit q)) (\<lambda>_.
        ret None))))"

definition admit_scope :: "announcer option \<Rightarrow> quotaDelta \<Rightarrow> string \<times> string \<Rightarrow> quotaAdmission option op" where
  "admit_scope ann delta sc = (case sc of (kind, i) \<Rightarrow>
     bnd (attempt (quotaFor kind i)) (\<lambda>r.
     case r of
       Inl _ \<Rightarrow> ret None
     | Inr q \<Rightarrow>
         bnd (attempt (meter kind i)) (\<lambda>r.
         case r of
           Inl _ \<Rightarrow> ret None
         | Inr md \<Rightarrow> admit_caps ann delta kind i q md)))"

fun admit_scopes :: "announcer option \<Rightarrow> quotaDelta \<Rightarrow> (string \<times> string) list \<Rightarrow> quotaAdmission op" where
  "admit_scopes ann delta [] = ret room_left"
| "admit_scopes ann delta (sc # scopes) =
     bnd (admit_scope ann delta sc) (\<lambda>r. case r of Some adm \<Rightarrow> ret adm | None \<Rightarrow> admit_scopes ann delta scopes)"

definition scopes_of :: "string \<Rightarrow> (string \<times> string) list op" where
  "scopes_of projectID =
     bnd (attempt (GetProject projectID)) (\<lambda>r.
     ret ((QuotaScopeProject, projectID)
       # (case r of Inr (_, team) \<Rightarrow> if team \<noteq> [] then [(QuotaScopeTeam, team)] else [] | Inl _ \<Rightarrow> [])))"

definition QuotaAdmit :: "announcer option \<Rightarrow> string \<Rightarrow> quotaDelta \<Rightarrow> quotaAdmission op" where
  "QuotaAdmit ann projectID delta = bnd (scopes_of projectID) (admit_scopes ann delta)"

lemma reads_scopes [rd]: "reads (scopes_of p)"
  unfolding scopes_of_def by (intro rd)

lemmas reads_quota = reads_quota_statements reads_meter reads_scopes

section \<open>The wiring (main.go, inbox.go)\<close>

definition InboxQuotaWarn :: string where "InboxQuotaWarn = ''quota.warn''"
definition InboxQuotaExceeded :: string where "InboxQuotaExceeded = ''quota.exceeded''"

text \<open>The inbox, which may fail.\<close>

definition RecordQuota :: "string \<Rightarrow> string \<Rightarrow> string \<Rightarrow> string \<Rightarrow> unit op" where
  "RecordQuota kind scopeRef title body = bnd io (\<lambda>_. emit (QuotaItem kind scopeRef title body))"

text \<open>
  A warning is announced from nine tenths of the cap up and below the cap, so the quotient of the two \<open>float64\<close>s is in [1/2, 1] and its unit in the last
  place 2^-53.
\<close>

definition percentOf :: "quotaUsage \<Rightarrow> int" where
  "percentOf u = (case qu_Limit u of None \<Rightarrow> 0
     | Some l \<Rightarrow> if l \<le> 0 then 0
         else int (round53 (half_even (round53 (nat (qu_Used u)) * 2 ^ 53) (round53 (nat l)) * 100) div 2 ^ 53))"

definition AnnounceQuota :: announcer where
  "AnnounceQuota scopeKind scopeID dimension state u =
     (if state = QuotaOK then ret ()
      else if state = QuotaExceeded
      then RecordQuota InboxQuotaExceeded (scopeKind @ '':'' @ scopeID @ '':'' @ dimension) (''Quota reached: '' @ dimension)
        (''This '' @ scopeKind @ '' has reached its '' @ dimension @ '' cap. New deploys here are refused until something is freed or the cap is raised. Rollbacks are never refused ''
         @ dash @ '' recovery always works.'')
      else RecordQuota InboxQuotaWarn (scopeKind @ '':'' @ scopeID @ '':'' @ dimension) (''Quota warning: '' @ dimension)
        (''This '' @ scopeKind @ '' is at '' @ itoa (percentOf u) @ ''% of its '' @ dimension @ '' cap. Nothing is refused yet.''))"

text \<open>What the scheduler is given: its empty \<open>QuotaDelta\<close> is the only one it ever passes.\<close>

definition quotaGate :: "string \<Rightarrow> quotaAdmission op" where
  "quotaGate projectID = QuotaAdmit (Some AnnounceQuota) projectID \<lparr> dl_MemoryBytes = 0, dl_Previews = 0 \<rparr>"

end
