(* ===== verification/Scheduler_Runs.thy ===== *)
theory Scheduler_Runs
  imports Scheduler_Inv Quota
begin

text \<open>
  Runs of the control plane: each request to the scheduler as a step on the state, with arbitrary
  changes to the other tables in between, and the invariants of the deploy pipeline over whole runs.
\<close>

section \<open>The gate the scheduler is wired to\<close>

text \<open>
  What the scheduler relies on in its gate: asking is reading, and parking leaves the tables of the
  pipeline and the bus alone.
\<close>

locale deploy_gate =
  fixes g :: gate_ops
  assumes asks: "reads (g_Admit g e)"
    and parks_deps: "frames w_deps (g_Park g d e u ro)"
    and parks_bus: "frames w_bus (g_Park g d e u ro)"
    and parks_apps: "frames w_apps (g_Park g d e u ro)"
begin

lemma asks_quiet: "frames w_deps (g_Admit g e)" "frames w_bus (g_Admit g e)" "frames w_apps (g_Admit g e)"
  using asks by (auto intro: seen_deps.reading seen_bus.reading seen_apps.reading)

end

text \<open>Deploy protection as the gate (\<open>SetGate\<close>, or none).\<close>

definition protection_gate :: "protection_cfg \<Rightarrow> gate_ops" where
  "protection_gate pc = \<lparr> g_Admit = Admit pc, g_Park = Park pc \<rparr>"

definition SetGate :: "gate_ops \<Rightarrow> sched_cfg \<Rightarrow> sched_cfg" where
  "SetGate g cfg = cfg\<lparr>sc_gate := Some g\<rparr>"

text \<open>
  The quota gate, and what the scheduler relies on in it: asking may record and announce a crossing, and leaves the tables of
  the pipeline and the bus alone.
\<close>

locale quota_gate =
  fixes q :: "string \<Rightarrow> quotaAdmission op"
  assumes asks_deps: "frames w_deps (q p)" and asks_bus: "frames w_bus (q p)" and asks_apps: "frames w_apps (q p)"

context observation
begin

lemma announcing:
  assumes "\<And>w b. obs (w\<lparr>w_quotaStates := b\<rparr>) = obs w" "\<And>w b. obs (w\<lparr>w_events := b\<rparr>) = obs w"
  shows "frames obs (announceIfChanged (Some AnnounceQuota) k i d u l)"
proof -
  have tell: "frames obs (AnnounceQuota k i d s u)" for k i d s u
    unfolding AnnounceQuota_def RecordQuota_def by (intro fr reads_io [THEN reading] emitting assms)
  show ?thesis unfolding announceIfChanged_def Let_def SetQuotaState_def option.case
    by (intro fr query reads_quota [THEN reading] frames_modify assms tell)
qed

lemma asking_scope:
  assumes "\<And>w b. obs (w\<lparr>w_quotaStates := b\<rparr>) = obs w" "\<And>w b. obs (w\<lparr>w_events := b\<rparr>) = obs w"
  shows "frames obs (admit_scope (Some AnnounceQuota) delta sc)"
  unfolding admit_scope_def admit_caps_def refuse_def Let_def by (intro fr announcing assms reads_quota [THEN reading])

lemma asking_quota:
  assumes "\<And>w b. obs (w\<lparr>w_quotaStates := b\<rparr>) = obs w" "\<And>w b. obs (w\<lparr>w_events := b\<rparr>) = obs w"
  shows "frames obs (quotaGate p)"
proof -
  have "frames obs (admit_scope (Some AnnounceQuota) delta sc)" for delta sc by (intro asking_scope assms)
  then have "frames obs (admit_scopes (Some AnnounceQuota) delta scs)" for delta scs
    by (induction scs) (auto intro!: fr split: option.split)
  then show ?thesis unfolding quotaGate_def QuotaAdmit_def by (intro fr reads_quota [THEN reading])
qed

end

interpretation metered: quota_gate quotaGate
  by unfold_locales (rule seen_deps.asking_quota seen_bus.asking_quota seen_apps.asking_quota; simp)+

definition SetQuotaGate :: "(string \<Rightarrow> quotaAdmission op) \<Rightarrow> sched_cfg \<Rightarrow> sched_cfg" where
  "SetQuotaGate q cfg = cfg\<lparr>sc_quota := Some q\<rparr>"

text \<open>As the control plane is wired: with deploy protection or without, and with quotas.\<close>

definition wire :: "protection_cfg option \<Rightarrow> sched_cfg \<Rightarrow> sched_cfg" where
  "wire pc cfg = SetQuotaGate quotaGate
     (case pc of None \<Rightarrow> cfg\<lparr>sc_gate := None\<rparr> | Some p \<Rightarrow> SetGate (protection_gate p) cfg)"

lemma wire_gates [simp]: "sc_gate (wire pc cfg) = map_option protection_gate pc" "sc_quota (wire pc cfg) = Some quotaGate"
  by (simp_all add: wire_def SetQuotaGate_def SetGate_def split: option.split)

lemma Park_frames:
  "frames w_deps (Park pc d e u ro)" "frames w_bus (Park pc d e u ro)" "frames w_apps (Park pc d e u ro)"
  unfolding Park_def noticeFor_def emailOf_def
  by (intro fr reading_ops [THEN seen_bus.reading] reading_ops [THEN seen_apps.reading]
      seen_bus.approvals seen_apps.approvals seen_bus.emitting seen_apps.emitting; simp)+

interpretation gate: deploy_gate "protection_gate pc"
  by unfold_locales (simp_all add: protection_gate_def reads_Admit Park_frames)

definition gated :: "sched_cfg \<Rightarrow> bool" where
  "gated cfg \<longleftrightarrow> (\<forall>g. sc_gate cfg = Some g \<longrightarrow> deploy_gate g) \<and> (\<forall>q. sc_quota cfg = Some q \<longrightarrow> quota_gate q)"

lemma gated_wire [simp]: "gated (wire pc cfg)"
  using gate.deploy_gate_axioms metered.quota_gate_axioms by (auto simp: gated_def)

lemma quiet_admit [fr]: "gated cfg \<Longrightarrow> frames w_deps (admit cfg app)"
  unfolding admit_def gated_def by (intro fr) (auto intro: deploy_gate.asks_quiet)

lemma quiet_quota [fr]: "gated cfg \<Longrightarrow> frames w_deps (admitQuota cfg app)"
  unfolding admitQuota_def gated_def by (intro fr) (auto intro: quota_gate.asks_deps)

section \<open>Each handler drives the pipeline\<close>

lemma drives_true: "drives a i P m Q E \<Longrightarrow> drives a i P m (\<lambda>_ _. True) (\<lambda>_. True)"
  by (erule drives_conseq) auto

lemma tryStart_drives:
  assumes "dep_ApplicationID dep = a" "dep_ID dep = i"
  shows "drives a i (\<lambda>_. True) (tryStart cfg dep) (\<lambda>_ _. True) (\<lambda>_. True)"
proof (rule drivesI)
  fix w r w' assume wf: "wf_ids (w_deps w)" and run: "tryStart cfg dep w = (r, w')"
  obtain l w1 where list: "ListActiveDeploymentsByApplication a w = (l, w1)" by fastforce
  then have same: "w_deps w1 = w_deps w" by (rule frames_run) (intro fr)
  have "drive a i (w_deps w) (w_deps w')"
  proof (cases "\<exists>d ds. l = Inr (d # ds) \<and> dep_ID d = i")
    case False
    with run list same assms show ?thesis
      by (auto simp: tryStart_def runs split: sum.splits list.splits if_splits)
  next
    case True
    then obtain d ds where l: "l = Inr (d # ds)" "dep_ID d = i" by blast
    with list have q: "queue_of a (w_deps w) = d # ds"
      by (auto simp: ListActiveDeploymentsByApplication_def many_rows_def query_Inr_iff seen_deps.io_blind)
    note d = queue_head [OF q] and row = dep_row_unique [OF wf queue_head(4) [OF q]]
    from run list l assms have st: "start cfg dep w1 = (r, w')" by (simp add: tryStart_def runs)
    have "drives a (dep_ID dep) (ready a (dep_ID dep)) (start cfg dep) (\<lambda>_ _. True) (\<lambda>_. True)"
      using start_drives [of a cfg] assms(1) unfolding starts_def by blast
    from drivesD [where m = "start cfg dep", OF st this] d row wf same l assms show ?thesis by (auto simp: ready_def)
  qed
  then show "drive a i (w_deps w) (w_deps w') \<and> (case r of Inl _ \<Rightarrow> True | Inr x \<Rightarrow> True)"
    by (simp split: sum.split)
qed

lemma started_drives:
  "drives (dep_ApplicationID dep) (dep_ID dep) (\<lambda>_. True) (started_record cfg dep) (\<lambda>_ _. True) (\<lambda>_. True)"
  unfolding started_record_def
  by (rule drives_ignored, rule tryStart_drives, simp, simp) (intro drives_frame fr)

definition queued :: "string \<Rightarrow> string \<Rightarrow> deployment list \<Rightarrow> bool" where
  "queued a i ds \<longleftrightarrow> (\<exists>d. dep_row i ds = Some d \<and> dep_ApplicationID d = a \<and> dep_Status d = DeployQueued)"

lemma dep_row_snoc: "dep_row (dep_ID d) ds = None \<Longrightarrow> dep_row (dep_ID d) (ds @ [d]) = Some d"
  unfolding dep_row_def by (induction ds) (auto split: if_splits)

lemma create_drives:
  "drives a i (\<lambda>_. True) (CreateDeployment i a rv t)
     (\<lambda>d ds. queued a i ds \<and> dep_ID d = i \<and> dep_ApplicationID d = a) (\<lambda>_. True)"
proof (rule drivesI)
  fix w r w' assume run: "CreateDeployment i a rv t w = (r, w')"
  show "drive a i (w_deps w) (w_deps w') \<and> (case r of Inl _ \<Rightarrow> True
      | Inr d \<Rightarrow> queued a i (w_deps w') \<and> dep_ID d = i \<and> dep_ApplicationID d = a)"
    using create_deps [OF run]
  proof (elim disjE exE conjE)
    fix d assume d: "r = Inr d" "w_deps w' = w_deps w @ [d]" "dep_row i (w_deps w) = None" "dep_ID d = i"
      "dep_ApplicationID d = a" "dep_Status d = DeployQueued"
    have "pipe a (w_deps w) (w_deps w @ [d])" using d by (intro pipe.create) auto
    moreover have "dep_row i (w_deps w @ [d]) = Some d" using dep_row_snoc d by fastforce
    ultimately show ?thesis using d by (auto simp: drive_def queued_def kept_append)
  qed simp
qed

lemma park_status_drives:
  "drives a i (queued a i) (UpdateDeploymentStatus i DeployAwaitingApproval det)
     (\<lambda>d ds. alive a i ds \<and> dep_ID d = i) (\<lambda>_. True)"
proof (rule drivesI)
  fix w r w' assume w: "wf_ids (w_deps w)" "queued a i (w_deps w)"
    and run: "UpdateDeploymentStatus i DeployAwaitingApproval det w = (r, w')"
  obtain d where d: "dep_row i (w_deps w) = Some d" "dep_ApplicationID d = a" "dep_Status d = DeployQueued"
    using w(2) by (auto simp: queued_def)
  define f where "f = set_status (w_dbnow w) DeployAwaitingApproval det"
  have "drive a i (w_deps w) (dep_upd i f (w_deps w))"
    unfolding f_def by (intro drive_upd pipe.park [OF d]) simp
  moreover have "alive a i (dep_upd i f (w_deps w))"
    using d by (auto simp: alive_def dep_row_upd f_def same_keyD [OF same_key_set_status])
  ultimately show "drive a i (w_deps w) (w_deps w') \<and> (case r of Inl _ \<Rightarrow> True
      | Inr d \<Rightarrow> alive a i (w_deps w') \<and> dep_ID d = i)"
    using update_deps [OF run] dep_row_Some by (auto simp: f_def split: sum.splits)
qed

lemma failParked_drives:
  "i = dep_ID dep \<Longrightarrow> drives a i (alive a i) (failParked dep det) (\<lambda>_ _. True) (\<lambda>_. True)"
  unfolding failParked_def by (rule drives_mapE) (simp add: finish_drives)

lemma drives_known:
  "(B \<Longrightarrow> drives a i P m Q E) \<Longrightarrow> drives a i (\<lambda>ds. P ds \<and> B) m Q E"
  unfolding drives_def by blast

lemma drives_case_sum:
  "(\<And>e. drives a i P (f e) Q E) \<Longrightarrow> (\<And>y. drives a i P (g y) Q E) \<Longrightarrow> drives a i P (case x of Inl e \<Rightarrow> f e | Inr y \<Rightarrow> g y) Q E"
  by (cases x) auto

lemma park_drives:
  assumes "deploy_gate g" "i = dep_ID dep"
  shows "drives a i (queued a i) (park g dep app adm u) (\<lambda>_ _. True) (\<lambda>_. True)"
  unfolding park_def assms(2) [symmetric]
proof (rule drives_bnd, rule park_status_drives, rule drives_known)
  fix parked :: deployment assume p: "dep_ID parked = i"
  have "drives a i (alive a i) (bnd (attempt (failParked parked det)) (\<lambda>_. throw e)) (\<lambda>_ _. True) (\<lambda>_. True)"
    for det and e :: error
    by (rule drives_ignored, rule failParked_drives) (simp add: p, intro drives_frame fr)
  note failing = this
  show "drives a i (alive a i)
     (bnd (attempt (g_Park g parked (app_EnvironmentID app) u (adm_RequiredRole adm)))
       (\<lambda>r. case r of Inl perr \<Rightarrow> bnd (attempt (failParked parked
                (''could not record the approval request '' @ dash @ '' deploy again''))) (\<lambda>_. throw perr)
         | Inr _ \<Rightarrow> ret parked)) (\<lambda>_ _. True) (\<lambda>_. True)"
    by (rule drives_quiet, intro fr deploy_gate.parks_deps [OF assms(1)], rule drives_case_sum, rule failing)
      (rule drives_frame', intro fr, simp_all)
qed

lemma finish_deploy_drives:
  assumes "gated cfg" "dep_ApplicationID dep = a" "dep_ID dep = i"
  shows "drives a i (queued a i) (finish_deploy cfg dep app adm u) (\<lambda>_ _. True) (\<lambda>_. True)"
  using assms started_drives [of dep cfg] park_drives [of _ i dep a app adm u]
  by (auto simp: finish_deploy_def gated_def split: bool.split option.split elim: drives_pre)

section \<open>Handlers that first read which deployment they are about\<close>

text \<open>
  \<open>within R P m\<close>: from a table satisfying \<open>P\<close> the operation changes the table, if at all, as \<open>R\<close>
  allows. The rules hold for every reflexive \<open>R\<close>.
\<close>

type_synonym change = "deployment list \<Rightarrow> deployment list \<Rightarrow> bool"

definition within :: "change \<Rightarrow> (deployment list \<Rightarrow> bool) \<Rightarrow> 'a op \<Rightarrow> bool" where
  "within R P m \<longleftrightarrow> (\<forall>w. wf_ids (w_deps w) \<longrightarrow> P (w_deps w) \<longrightarrow> R (w_deps w) (w_deps (snd (m w))))"

lemma withinI:
  "(\<And>w. wf_ids (w_deps w) \<Longrightarrow> P (w_deps w) \<Longrightarrow> R (w_deps w) (w_deps (snd (m w)))) \<Longrightarrow> within R P m"
  by (simp add: within_def)

lemma within_at: "within R P m \<Longrightarrow> w_deps w = ds \<Longrightarrow> wf_ids ds \<Longrightarrow> P ds \<Longrightarrow> R ds (w_deps (snd (m w)))"
  by (auto simp: within_def)

lemma within_pre: "within R P' m \<Longrightarrow> (\<And>ds. P ds \<Longrightarrow> P' ds) \<Longrightarrow> within R P m"
  unfolding within_def by blast

lemma within_if: "(b \<Longrightarrow> within R P m) \<Longrightarrow> (\<not> b \<Longrightarrow> within R P n) \<Longrightarrow> within R P (if b then m else n)"
  by simp

lemma within_case_sum:
  "(\<And>e. x = Inl e \<Longrightarrow> within R P (f e)) \<Longrightarrow> (\<And>y. x = Inr y \<Longrightarrow> within R P (g y))
    \<Longrightarrow> within R P (case x of Inl e \<Rightarrow> f e | Inr y \<Rightarrow> g y)"
  by (cases x) auto

lemma within_mapE: "within R P m \<Longrightarrow> within R P (mapE h m)"
  unfolding within_def mapE_run by (simp split: prod.split sum.split) (metis snd_conv)

lemma within_attempt: "within R P m \<Longrightarrow> within R P (attempt m)"
  unfolding within_def attempt_run by (simp split: prod.split) (metis snd_conv)

lemma within_followed:
  assumes "within R P m" "\<And>x. frames w_deps (f x)"
  shows "within R P (bnd m f)"
proof (rule withinI)
  fix w :: world assume w: "wf_ids (w_deps w)" "P (w_deps w)"
  obtain r w1 where m: "m w = (r, w1)" by fastforce
  with assms(1) w have d: "R (w_deps w) (w_deps w1)" unfolding within_def by (metis snd_conv)
  have "w_deps (snd (f x w1)) = w_deps w1" for x using assms(2) by (simp add: frames_def)
  with m d show "R (w_deps w) (w_deps (snd (bnd m f w)))" by (cases r) (auto simp: bnd_run)
qed

lemma within_logged: "within R P m \<Longrightarrow> within R P (logged m)"
  unfolding logged_def by (intro within_followed within_attempt fr)

lemma GetDeployment_row: "GetDeployment i w = (Inr d, w') \<Longrightarrow> dep_row i (w_deps w) = Some d"
  by (auto simp: GetDeployment_def query_Inr_iff one_row_Inr_iff dep_row_def seen_deps.io_blind)

lemma ListActive_queue: "ListActiveDeploymentsByApplication a w = (Inr l, w') \<Longrightarrow> l = queue_of a (w_deps w)"
  by (auto simp: ListActiveDeploymentsByApplication_def many_rows_def query_Inr_iff seen_deps.io_blind)

locale reaction =
  fixes R :: change
  assumes still: "R ds ds"
begin

lemma frame: "frames w_deps m \<Longrightarrow> within R P m"
  unfolding within_def frames_def by (metis still)

text \<open>A read, and what it tells about the table.\<close>

lemma reading:
  assumes "frames w_deps m" and "\<And>w r w'. m w = (r, w') \<Longrightarrow> (case r of Inl _ \<Rightarrow> True | Inr x \<Rightarrow> K x (w_deps w))"
    and "\<And>x. within R (\<lambda>ds. P ds \<and> K x ds) (f x)"
  shows "within R P (bnd m f)"
proof (rule withinI)
  fix w :: world assume w: "wf_ids (w_deps w)" "P (w_deps w)"
  obtain r w1 where m: "m w = (r, w1)" by fastforce
  then have same: "w_deps w1 = w_deps w" using assms(1) by (rule frames_run)
  show "R (w_deps w) (w_deps (snd (bnd m f w)))"
  proof (cases r)
    case (Inl e)
    with m same show ?thesis by (simp add: bnd_run still)
  next
    case (Inr x)
    with assms(2) [OF m] w have "P (w_deps w) \<and> K x (w_deps w)" by simp
    from within_at [OF assms(3) same w(1) this] m Inr show ?thesis by (simp add: bnd_run)
  qed
qed

lemma quiet: "frames w_deps m \<Longrightarrow> (\<And>x. within R P (f x)) \<Longrightarrow> within R P (bnd m f)"
  by (rule reading [where K = "\<lambda>_ _. True"]) (auto split: sum.split)

lemma get:
  assumes "\<And>d. within R (\<lambda>ds. dep_row i ds = Some d) (f d)"
  shows "within R P (bnd (mapE h (GetDeployment i)) f)"
  by (rule reading [where K = "\<lambda>d ds. dep_row i ds = Some d"])
    (auto intro: fr within_pre [OF assms] split: sum.split dest: GetDeployment_row simp: mapE_Inr_iff)

lemma get_attempt:
  assumes "\<And>d. within R (\<lambda>ds. dep_row i ds = Some d) (f d)" and "\<And>e. within R P (g e)"
  shows "within R P (bnd (attempt (GetDeployment i)) (\<lambda>r. case r of Inl e \<Rightarrow> g e | Inr d \<Rightarrow> f d))"
  by (rule reading [where K = "\<lambda>r ds. case r of Inl _ \<Rightarrow> True | Inr d \<Rightarrow> dep_row i ds = Some d"])
    (auto intro: fr within_pre [OF assms(1)] within_pre [OF assms(2)] split: sum.split dest: GetDeployment_row
      simp: attempt_run split: prod.splits)

lemma list_attempt:
  assumes "\<And>l. within R (\<lambda>ds. l = queue_of a ds) (f l)" and "\<And>e. within R P (g e)"
  shows "within R P (bnd (attempt (ListActiveDeploymentsByApplication a)) (\<lambda>r. case r of Inl e \<Rightarrow> g e | Inr l \<Rightarrow> f l))"
  by (rule reading [where K = "\<lambda>r ds. case r of Inl _ \<Rightarrow> True | Inr l \<Rightarrow> l = queue_of a ds"])
    (auto intro: fr within_pre [OF assms(1)] within_pre [OF assms(2)] split: sum.split dest: ListActive_queue
      simp: attempt_run split: prod.splits)

end

text \<open>The change most requests make: the pipeline of one application runs.\<close>

definition driven :: change where
  "driven ds ds' \<longleftrightarrow> (\<exists>a i. drive a i ds ds')"

interpretation mv: reaction driven
  by unfold_locales (auto simp: driven_def intro: drive_refl)

abbreviation moves :: "(deployment list \<Rightarrow> bool) \<Rightarrow> 'a op \<Rightarrow> bool" where
  "moves \<equiv> within driven"

lemma moves_drives: "drives a i P m Q E \<Longrightarrow> moves P m"
  unfolding drives_def within_def driven_def by (metis surjective_pairing)

section \<open>The requests of the scheduler\<close>

lemma moves_created:
  assumes "gated cfg"
  shows "moves P (bnd (mapE h (CreateDeployment nd a rv t)) (\<lambda>dep. finish_deploy cfg dep app adm u))"
proof (rule moves_drives)
  show "drives a nd P (bnd (mapE h (CreateDeployment nd a rv t)) (\<lambda>dep. finish_deploy cfg dep app adm u))
     (\<lambda>_ _. True) (\<lambda>_. True)"
    by (rule drives_bnd [OF drives_mapE [OF drives_pre [OF create_drives]]])
      (auto intro: drives_known finish_deploy_drives [OF assms])
qed

lemma moves_DeployAs: "gated cfg \<Longrightarrow> moves P (DeployAs cfg nr nd app t ref u)"
  unfolding DeployAs_def Let_def
  by (rule mv.quiet, intro fr, rule mv.quiet, rule quiet_admit, assumption, rule within_if,
      intro mv.frame fr, rule mv.quiet, rule quiet_quota, assumption, rule mv.quiet, intro fr, rule mv.quiet, intro fr)
    (rule moves_created)

lemma moves_RollbackAs: "gated cfg \<Longrightarrow> moves P (RollbackAs cfg nd d u)"
  unfolding RollbackAs_def
  by (rule mv.quiet, intro fr, rule mv.quiet, intro fr, rule within_if, intro mv.frame fr,
      rule mv.quiet, intro fr, rule mv.quiet, rule quiet_admit, assumption, rule within_if,
      intro mv.frame fr) (rule moves_created)

lemma queued_builder:
  "drives a i (queued a i) (SetDeploymentBuilder i b)
     (\<lambda>d ds. queued a i ds \<and> dep_ID d = i \<and> dep_ApplicationID d = a) (\<lambda>_. True)"
proof (rule drivesI)
  fix w r w' assume w: "wf_ids (w_deps w)" "queued a i (w_deps w)" and run: "SetDeploymentBuilder i b w = (r, w')"
  let ?f = "dep_BuilderServerID_update (\<lambda>_. Some b)"
  obtain d where d: "dep_row i (w_deps w) = Some d" "dep_ApplicationID d = a" "dep_Status d = DeployQueued"
    using w(2) by (auto simp: queued_def)
  have "drive a i (w_deps w) (dep_upd i ?f (w_deps w))"
    using d by (intro drive_upd pipe.annotate [OF d(1,2)]) (auto simp: active_def)
  moreover have "dep_row i (dep_upd i ?f (w_deps w)) = Some (?f d)" using d by (simp add: dep_row_upd)
  ultimately show "drive a i (w_deps w) (w_deps w') \<and> (case r of Inl _ \<Rightarrow> True
      | Inr d \<Rightarrow> queued a i (w_deps w') \<and> dep_ID d = i \<and> dep_ApplicationID d = a)"
    using builder_deps [OF run] dep_row_Some d by (auto simp: queued_def split: sum.splits)
qed

lemma moves_admitted:
  assumes "gated cfg"
  shows "moves P (promote_admitted cfg nr nd plan i source target adm u)"
proof -
  have tries: "drives (dep_ApplicationID d) (dep_ID d) (\<lambda>_. True) (bnd (tryStart cfg d) (\<lambda>_. GetDeployment (dep_ID d))) (\<lambda>_ _. True) (\<lambda>_. True)" for d
    by (rule drives_bnd, rule tryStart_drives) (auto intro: drives_frame fr)
  show ?thesis unfolding promote_admitted_def
  proof (rule mv.quiet, intro fr, rule moves_drives)
    fix rv
    let ?finish = "\<lambda>d. case (adm_NeedsApproval adm, sc_gate cfg) of
       (True, Some g) \<Rightarrow> park g d target adm u | _ \<Rightarrow> bnd (tryStart cfg d) (\<lambda>_. GetDeployment (dep_ID d))"
    have fin: "drives (app_ID target) nd (queued (app_ID target) nd) (?finish d) (\<lambda>_ _. True) (\<lambda>_. True)"
      if "dep_ID d = nd" "dep_ApplicationID d = app_ID target" for d
      using assms that tries [of d] park_drives [of _ nd d "app_ID target" target adm u]
      by (auto simp: gated_def split: bool.split option.split elim: drives_pre)
    show "drives (app_ID target) nd P
        (bnd (mapE (Wrapped ''scheduler: creating the promotion deployment'')
               (CreateDeployment nd (app_ID target) (rev_ID rv) ''promotion'')) (\<lambda>dep0.
         bnd (mapE (Wrapped (''scheduler: recording the artifact'' @ [CHR 0x27] @ ''s server''))
               (SetDeploymentBuilder (dep_ID dep0) (rt_ServerID (app_Runtime source)))) ?finish))
        (\<lambda>_ _. True) (\<lambda>_. True)"
    proof (rule drives_bnd [OF drives_mapE [OF drives_pre [OF create_drives]]], simp, rule drives_known)
      fix dep0 :: deployment assume d: "dep_ID dep0 = nd \<and> dep_ApplicationID dep0 = app_ID target"
      have "drives (app_ID target) nd (queued (app_ID target) nd) (bnd (mapE h (SetDeploymentBuilder nd b)) ?finish) (\<lambda>_ _. True) (\<lambda>_. True)" for h b
        by (rule drives_bnd [OF drives_mapE [OF queued_builder]], rule drives_known, rule fin) simp_all
      with d show "drives (app_ID target) nd (queued (app_ID target) nd) (bnd (mapE (Wrapped (''scheduler: recording the artifact'' @ [CHR 0x27] @ ''s server''))
               (SetDeploymentBuilder (dep_ID dep0) (rt_ServerID (app_Runtime source)))) ?finish) (\<lambda>_ _. True) (\<lambda>_. True)"
        by simp
    qed
  qed
qed

lemma moves_Promote: "gated cfg \<Longrightarrow> moves P (PromoteRevision cfg nr nd i a u)"
  unfolding PromoteRevision_def
  by (rule mv.quiet, intro fr, split list.split, intro conjI impI allI, rule mv.quiet, intro fr, rule mv.quiet, intro fr, rule mv.quiet, intro fr,
      rule mv.quiet, rule quiet_admit, assumption, rule within_if, intro mv.frame fr, rule mv.quiet, rule quiet_quota, assumption,
      rule moves_admitted, assumption, intro mv.frame fr)

lemma row_alive:
  "dep_row i ds = Some d \<Longrightarrow> \<not> Terminal (dep_Status d) \<Longrightarrow> alive (dep_ApplicationID d) (dep_ID d) ds"
  using dep_row_Some by (fastforce simp: alive_def)

lemma row_ready:
  "dep_row i ds = Some d \<Longrightarrow> in_flight (dep_Status d) \<Longrightarrow> ready (dep_ApplicationID d) (dep_ID d) ds"
  using dep_row_Some by (fastforce simp: ready_def)

lemma moves_failParked:
  "\<not> Terminal (dep_Status d) \<Longrightarrow> moves (\<lambda>ds. dep_row i ds = Some d) (failParked d det)"
  by (rule within_pre [OF moves_drives [OF failParked_drives [OF refl]]]) (rule row_alive)

lemma moves_RejectDeployment: "moves (\<lambda>_. True) (RejectDeployment i det)"
  unfolding RejectDeployment_def
  by (intro mv.get within_if moves_failParked mv.frame fr) (auto simp: Parked_def)

lemma moves_endActive:
  "\<not> Terminal (dep_Status d) \<Longrightarrow> moves (\<lambda>ds. dep_row i ds = Some d) (endActive cfg d det b)"
  unfolding endActive_def
  by (rule within_pre [OF moves_drives [OF endActive_drives [OF start_drives refl refl]]]) (rule row_alive)

lemma moves_fail:
  "\<not> Terminal (dep_Status d) \<Longrightarrow> moves (\<lambda>ds. dep_row i ds = Some d) (fail cfg d det)"
  unfolding fail_def
  by (rule within_pre [OF moves_drives [OF fail_drives [OF start_drives refl refl]]]) (rule row_alive)

lemma moves_Cancel: "moves (\<lambda>_. True) (Cancel cfg i by_user)"
  unfolding Cancel_def Let_def
  by (intro mv.get within_if moves_failParked moves_endActive mv.frame fr) auto

text \<open>Events from agents.\<close>

lemma moves_startDistribute:
  "in_flight (dep_Status d) \<Longrightarrow> moves (\<lambda>ds. dep_row i ds = Some d) (startDistribute d app rv)"
  by (rule within_pre [OF moves_drives [OF startDistribute_drives]]) (rule row_ready)

lemma moves_startRollout:
  "in_flight (dep_Status d) \<Longrightarrow> moves (\<lambda>ds. dep_row i ds = Some d) (startRollout cfg d app rv)"
  by (rule within_pre [OF moves_drives [OF startRollout_drives]]) (rule row_ready)

lemma moves_handle_build: "moves (\<lambda>ds. dep_row i ds = Some d) (handle_build cfg d app ev)"
  unfolding handle_build_def
  by (intro within_if moves_fail within_logged moves_startDistribute moves_startRollout mv.frame [OF frames_ret]
      mv.quiet fr) auto

lemma moves_handle_distribute: "moves (\<lambda>ds. dep_row i ds = Some d) (handle_distribute cfg s d app ev)"
  unfolding handle_distribute_def
  by (intro within_if moves_fail within_logged moves_startRollout mv.frame [OF frames_ret] mv.quiet fr) auto

lemma moves_handle_rollout: "moves (\<lambda>ds. dep_row i ds = Some d) (handle_rollout cfg d ev)"
  unfolding handle_rollout_def by (intro within_if moves_fail mv.frame fr) auto

lemma moves_HandleDeployEvent: "moves P (HandleDeployEvent cfg s ev)"
  unfolding HandleDeployEvent_def
  by (rule mv.get_attempt, rule within_if, intro mv.frame fr, rule mv.quiet, intro fr,
      rule within_case_sum, intro mv.frame fr, rule within_if, intro mv.frame fr)
    (auto intro: moves_handle_build moves_handle_distribute moves_handle_rollout mv.frame fr split: stage.split)

lemma promote_moves: "moves P (promoteNext cfg a)"
  unfolding promoteNext_def by (rule within_pre [OF moves_drives [OF promote_drives [OF start_drives]]]) simp

lemma quiet_status [fr]:
  "frames w_deps (announceHealth cfg app s d)" "frames w_deps (pinRevisionImage st)"
  unfolding announceHealth_def pinRevisionImage_def by (intro fr)+


text \<open>A status report: which deployment it completes, if any.\<close>

definition completion :: "appStatus \<Rightarrow> change" where
  "completion st ds ds' \<longleftrightarrow> ds' = ds \<or> (\<exists>d ds1. dep_row (dep_ID d) ds = Some d
     \<and> dep_ApplicationID d = ast_AppId st \<and> dep_RevisionID d = ast_RevisionId st \<and> ast_State st = AppRunning
     \<and> complete (ast_AppId st) (dep_ID d) ds ds1 \<and> drive (ast_AppId st) (dep_ID d) ds1 ds')"

interpretation cp: reaction "completion st"
  by unfold_locales (simp add: completion_def)

lemma complete_run:
  assumes "wf_ids (w_deps w)" "dep_row (dep_ID d) (w_deps w) = Some d" "dep_Status d = DeployRollingOut"
  shows "w_deps (snd (complete_deployment cfg app d w)) = w_deps w
    \<or> (\<exists>ds1. complete (dep_ApplicationID d) (dep_ID d) (w_deps w) ds1
        \<and> drive (dep_ApplicationID d) (dep_ID d) ds1 (w_deps (snd (complete_deployment cfg app d w))))"
proof -
  obtain r w1 where upd: "UpdateDeploymentStatus (dep_ID d) DeploySucceeded [] w = (r, w1)" by fastforce
  note eff = update_deps [OF upd]
  show ?thesis
  proof (cases r)
    case (Inl e)
    with upd eff show ?thesis by (simp add: complete_deployment_def runs)
  next
    case (Inr x)
    let ?rest = "bnd (attempt (ApplyDeploymentEnvStamp (dep_ID d))) (\<lambda>_.
         bnd (emitDeploy cfg app x) (\<lambda>_. promoteNext cfg (dep_ApplicationID d)))"
    have one: "complete (dep_ApplicationID d) (dep_ID d) (w_deps w) (w_deps w1)"
      using eff Inr assms by (auto intro: complete.complete)
    have "drives (dep_ApplicationID d) (dep_ID d) (\<lambda>_. True) ?rest (\<lambda>_ _. True) (\<lambda>_. True)"
      unfolding promoteNext_def
      by (rule drives_quiet, intro fr, rule drives_quiet, intro fr) (rule promote_drives [OF start_drives])
    then have "drive (dep_ApplicationID d) (dep_ID d) (w_deps w1) (w_deps (snd (?rest w1)))"
      using complete_wf [OF one assms(1)] unfolding drives_def by (metis surjective_pairing)
    moreover have "complete_deployment cfg app d w = ?rest w1"
      using upd Inr by (simp add: complete_deployment_def bnd_run attempt_run)
    ultimately show ?thesis using one by metis
  qed
qed

lemma status_within: "within (completion st) P (HandleAppStatus cfg s st)"
proof -
  have "within (completion st) (\<lambda>ds. l = queue_of (ast_AppId st) ds) (case List.find (completes st) l of
            None \<Rightarrow> ret () | Some dep \<Rightarrow> complete_deployment cfg app dep)" if "ast_State st = AppRunning" for l app
  proof (rule withinI)
    fix w :: world assume wf: "wf_ids (w_deps w)" and l: "l = queue_of (ast_AppId st) (w_deps w)"
    show "completion st (w_deps w) (w_deps (snd ((case List.find (completes st) l of
            None \<Rightarrow> ret () | Some dep \<Rightarrow> complete_deployment cfg app dep) w)))"
    proof (cases "List.find (completes st) l")
      case (Some d)
      with find_Some_set [OF this] l have d: "d \<in> set (w_deps w)" "dep_Status d = DeployRollingOut"
        "dep_ApplicationID d = ast_AppId st" "dep_RevisionID d = ast_RevisionId st"
        by (auto simp: completes_def queue_of_def)
      note row = dep_row_unique [OF wf d(1)]
      from complete_run [OF wf row d(2), of cfg app] row d that Some show ?thesis
        unfolding completion_def by auto
    qed (simp add: completion_def)
  qed
  then show ?thesis unfolding HandleAppStatus_def Let_def
    by (intro cp.quiet within_case_sum within_if cp.frame [OF frames_ret] cp.list_attempt fr) auto
qed

text \<open>Requests that leave the table of deployments alone.\<close>

lemma quiet_requests [fr]:
  "frames w_deps (ConvergeApp cfg a)" "frames w_deps (Restart cfg tok a)" "frames w_deps (RemoveApp s a)"
  "frames w_deps (reconcileDatabaseLocked cfg db)" "frames w_deps (RequestServerResync s reason)"
  unfolding ConvergeApp_def Restart_def RemoveApp_def reconcileDatabaseLocked_def RequestServerResync_def
  by (intro fr)+

lemma quiet_resync [fr]: "frames w_deps (RequestResync reason)"
  unfolding RequestResync_def by (intro fr frames_resync_loop)

lemma quiet_tasks [fr]: "frames w_deps (HandleScheduledTaskRun s ev)"
  unfolding HandleScheduledTaskRun_def Let_def CreateTaskRun_def DeleteOldTaskRuns_def
  by (intro fr seen_deps.query frames_modify) (auto simp: frames_def)

lemma quiet_dbStatus [fr]: "frames w_deps (HandleDbStatus s st)"
  unfolding HandleDbStatus_def Let_def SetDatabaseObservedStatus_def DeleteDatabase_def
  by (intro fr seen_deps.query frames_modify) auto

text \<open>Approval releases the deployment, then starts it if it is the oldest.\<close>

definition approval :: "string \<Rightarrow> change" where
  "approval i ds ds' \<longleftrightarrow> ds' = ds \<or> (\<exists>d ds1. dep_row i ds = Some d \<and> Parked (dep_Status d)
     \<and> release (dep_ApplicationID d) ds ds1 \<and> drive (dep_ApplicationID d) i ds1 ds')"

interpretation ap: reaction "approval i"
  by unfold_locales (simp add: approval_def)

lemma approve_within: "within (approval i) P (ApproveDeployment cfg i)"
  unfolding ApproveDeployment_def
proof (rule ap.get, rule within_if, rule ap.frame, intro fr, rule withinI)
  fix d :: deployment and w :: world
  assume p: "\<not> \<not> Parked (dep_Status d)" and wf: "wf_ids (w_deps w)" and row: "dep_row i (w_deps w) = Some d"
  have i: "dep_ID d = i" using dep_row_Some [OF row] by simp
  obtain r w1 where upd: "UpdateDeploymentStatus i DeployQueued [] w = (r, w1)" by fastforce
  note eff = update_deps [OF upd]
  show "approval i (w_deps w) (w_deps (snd (bnd (UpdateDeploymentStatus (dep_ID d) DeployQueued [])
      (\<lambda>queued. started_record cfg queued) w)))"
  proof (cases r)
    case (Inl e)
    with upd eff i show ?thesis by (simp add: approval_def runs)
  next
    case (Inr q)
    have rel: "release (dep_ApplicationID d) (w_deps w) (w_deps w1)"
      using eff Inr p row by (auto simp: Parked_def intro: release.release)
    have q: "dep_ID q = i" "dep_ApplicationID q = dep_ApplicationID d"
      using eff Inr row i by (auto simp: dep_row_upd same_keyD [OF same_key_set_status])
    have "drive (dep_ApplicationID d) i (w_deps w1) (w_deps (snd (started_record cfg q w1)))"
      using started_drives [of q cfg] release_wf [OF rel wf] q unfolding drives_def by (metis surjective_pairing)
    with rel row p upd Inr i show ?thesis by (auto simp: approval_def bnd_run)
  qed
qed

section \<open>Recovery\<close>

text \<open>
  \<open>Recover\<close> works through a snapshot. An entry that was in flight is still as it was when its turn
  comes, because the entries before it leave it alone.
\<close>

definition pipes :: change where
  "pipes = (\<lambda>ds ds'. \<exists>a. pipe a ds ds')\<^sup>*\<^sup>*"

lemma pipe_pipes: "(pipe a)\<^sup>*\<^sup>* ds ds' \<Longrightarrow> pipes ds ds'"
  unfolding pipes_def by (erule rtranclp_mono [THEN predicate2D, rotated]) blast

lemma pipes_keep_wf: "pipes ds ds' \<Longrightarrow> wf_ids ds \<Longrightarrow> wf_ids ds'"
  unfolding pipes_def by (induction rule: rtranclp_induct) (auto intro: pipe_wf)

interpretation rc: reaction pipes
  by unfold_locales (simp add: pipes_def)

definition current :: "deployment list \<Rightarrow> deployment list \<Rightarrow> bool" where
  "current l ds \<longleftrightarrow> distinct (map dep_ID l) \<and> (\<forall>d \<in> set l. in_flight (dep_Status d) \<longrightarrow> dep_row (dep_ID d) ds = Some d)"

lemma recover_one_drives:
  "drives (dep_ApplicationID d) (dep_ID d) (\<lambda>ds. in_flight (dep_Status d) \<longrightarrow> dep_row (dep_ID d) ds = Some d)
     (recover_one cfg d) (\<lambda>_ _. True) (\<lambda>_. True)"
proof -
  let ?a = "dep_ApplicationID d" and ?i = "dep_ID d"
  let ?P = "\<lambda>ds. in_flight (dep_Status d) \<longrightarrow> dep_row ?i ds = Some d"
  have distr: "drives ?a ?i ?P (startDistribute d app rv) (\<lambda>_ _. True) (\<lambda>_. True)" if "in_flight (dep_Status d)" for app rv
    by (rule drives_true, rule drives_pre [OF startDistribute_drives]) (use row_ready that in blast)
  have roll: "drives ?a ?i ?P (startRollout cfg d app rv) (\<lambda>_ _. True) (\<lambda>_. True)" if "in_flight (dep_Status d)" for app rv
    by (rule drives_true, rule drives_pre [OF startRollout_drives]) (use row_ready that in blast)
  have failing: "drives ?a ?i ?P (fail cfg d det) (\<lambda>_ _. True) (\<lambda>_. True)" if "in_flight (dep_Status d)" for det
    unfolding fail_def by (rule drives_pre [OF fail_drives [OF start_drives refl refl]])
      (use row_alive that in_flight_active active_not_terminal in blast)
  have tries: "drives ?a ?i ?P (tryStart cfg d) (\<lambda>_ _. True) (\<lambda>_. True)"
    by (rule drives_pre [OF tryStart_drives]) simp_all
  have build: "drives ?a ?i ?P (bnd (attempt (buildWork cfg d app rv)) (\<lambda>wk. case wk of
        Inl e \<Rightarrow> fail cfg d (error_text e) | Inr work \<Rightarrow> PublishWork s k (BuildWork work))) (\<lambda>_ _. True) (\<lambda>_. True)"
    if "in_flight (dep_Status d)" for app rv s k
    by (rule drives_quiet, intro fr, rule drives_case_sum, rule failing [OF that]) (rule drives_frame', intro fr, simp_all)
  have stages: "drives ?a ?i ?P (case dep_Status d of
       DeployBuilding \<Rightarrow> bnd (attempt (buildWork cfg d app rv)) (\<lambda>wk. case wk of
          Inl e \<Rightarrow> fail cfg d (error_text e)
        | Inr work \<Rightarrow> PublishWork (Build (builderFor d app)) (dep_ID d @ ''.build'') (BuildWork work))
     | DeployDistributing \<Rightarrow> startDistribute d app rv
     | _ \<Rightarrow> startRollout cfg d app rv) (\<lambda>_ _. True) (\<lambda>_. True)"
    if "dep_Status d \<noteq> DeployQueued" "\<not> (Terminal (dep_Status d) \<or> dep_Status d = DeployAwaitingApproval)" for app rv
    using that distr [of app rv] roll [of app rv] build [of app rv] by (cases "dep_Status d") simp_all
  show ?thesis unfolding recover_one_def logged_def
    by (rule drives_if, rule drives_dropped, rule tries, rule drives_if, rule drives_frame', intro fr, simp, simp,
        rule drives_dropped, rule drives_quiet, intro fr, rule drives_quiet, intro fr) (rule stages)
qed

lemma recover_loop: "current l (w_deps w) \<Longrightarrow> wf_ids (w_deps w) \<Longrightarrow> pipes (w_deps w) (w_deps (snd (forE l (recover_one cfg) w)))"
proof (induction l arbitrary: w)
  case (Cons d l)
  obtain r w1 where one: "recover_one cfg d w = (r, w1)" by fastforce
  from drivesD [where m = "recover_one cfg d", OF one recover_one_drives Cons.prems(2)] Cons.prems(1)
  have dr: "drive (dep_ApplicationID d) (dep_ID d) (w_deps w) (w_deps w1)" by (auto simp: current_def)
  note wf = drive_wf [OF dr Cons.prems(2)]
  have "current l (w_deps w1)"
    using Cons.prems(1) dr unfolding current_def drive_def kept_def by (auto simp: image_iff)
  with Cons.IH [OF this wf] have "pipes (w_deps w1) (w_deps (snd (forE l (recover_one cfg) w1)))" by simp
  moreover have "pipes (w_deps w) (w_deps w1)" using dr by (auto simp: drive_def intro: pipe_pipes)
  ultimately show ?case using one
    by (cases r) (auto simp: bnd_run pipes_def intro: rtranclp_trans)
qed (simp add: pipes_def)

lemma quiet_recover_databases [fr]: "frames w_deps (recover_databases cfg srv)"
  unfolding recover_databases_def by (intro fr)

lemma ListActive_all: "ListActiveDeployments w = (Inr l, w') \<Longrightarrow> l = filter active (w_deps w)"
  by (auto simp: ListActiveDeployments_def many_rows_def query_Inr_iff seen_deps.io_blind)

lemma current_snapshot: "wf_ids ds \<Longrightarrow> current (filter active ds) ds"
  by (auto simp: current_def dep_row_unique) (metis distinct_map_filter wf_ids_def)

lemma recover_within: "within pipes P (Recover cfg)"
  unfolding Recover_def
proof (rule rc.quiet, intro fr, rule rc.quiet, intro fr, rule rc.quiet, intro fr,
    rule rc.reading [where K = "\<lambda>l ds. l = filter active ds"], intro fr)
  show "within pipes (\<lambda>ds. P ds \<and> l = filter active ds) (forE l (recover_one cfg))" for l
    by (rule withinI) (auto intro: recover_loop current_snapshot)
qed (auto simp: mapE_Inr_iff split: sum.split dest: ListActive_all)

section \<open>Runs\<close>

datatype request =
    DeployReq string string string string string string
  | RollbackReq string string string
  | PromoteReq string string string string string
  | ApproveReq string
  | RejectReq string string
  | CancelReq string string
  | ConvergeReq string
  | RestartReq string string
  | RemoveReq string string
  | ReconcileDbReq string
  | ResyncReq string
  | ServerResyncReq string string
  | DeployEventMsg string deployEvent
  | AppStatusMsg string appStatus
  | TaskRunMsg string taskRunEvent
  | DbStatusMsg string dbStatus
  | RecoverReq

fun serve :: "sched_cfg \<Rightarrow> request \<Rightarrow> world \<Rightarrow> world" where
  "serve cfg (DeployReq nr nd app trigger ref u) w = snd (DeployAs cfg nr nd app trigger ref u w)"
| "serve cfg (RollbackReq nd i u) w = snd (RollbackAs cfg nd i u w)"
| "serve cfg (PromoteReq nr nd i app u) w = snd (PromoteRevision cfg nr nd i app u w)"
| "serve cfg (ApproveReq i) w = snd (ApproveDeployment cfg i w)"
| "serve cfg (RejectReq i det) w = snd (RejectDeployment i det w)"
| "serve cfg (CancelReq i u) w = snd (Cancel cfg i u w)"
| "serve cfg (ConvergeReq app) w = snd (ConvergeApp cfg app w)"
| "serve cfg (RestartReq tok app) w = snd (Restart cfg tok app w)"
| "serve cfg (RemoveReq s app) w = snd (RemoveApp s app w)"
| "serve cfg (ReconcileDbReq db) w = snd (ReconcileDatabase cfg db w)"
| "serve cfg (ResyncReq reason) w = snd (RequestResync reason w)"
| "serve cfg (ServerResyncReq s reason) w = snd (RequestServerResync s reason w)"
| "serve cfg (DeployEventMsg s ev) w = snd (HandleDeployEvent cfg s ev w)"
| "serve cfg (AppStatusMsg s st) w = snd (HandleAppStatus cfg s st w)"
| "serve cfg (TaskRunMsg s ev) w = snd (HandleScheduledTaskRun s ev w)"
| "serve cfg (DbStatusMsg s st) w = snd (HandleDbStatus s st w)"
| "serve cfg RecoverReq w = snd (Recover cfg w)"

definition effect :: "request \<Rightarrow> change" where
  "effect rq = (case rq of
       ApproveReq i \<Rightarrow> approval i
     | AppStatusMsg s st \<Rightarrow> completion st
     | RecoverReq \<Rightarrow> pipes
     | _ \<Rightarrow> driven)"

lemma serve_effect:
  assumes "gated cfg" "wf_ids (w_deps w)"
  shows "effect rq (w_deps w) (w_deps (serve cfg rq w))"
proof -
  have mv: "moves (\<lambda>_. True) m \<Longrightarrow> driven (w_deps w) (w_deps (snd (m w)))" for m :: "'a op"
    using assms(2) by (simp add: within_def)
  have quiet: "frames w_deps m \<Longrightarrow> driven (w_deps w) (w_deps (snd (m w)))" for m :: "'a op"
    by (rule mv) (rule mv.frame)
  show ?thesis
    using assms status_within approve_within recover_within unfolding effect_def
    by (cases rq) (auto simp: within_def ReconcileDatabase_def
        intro: mv moves_DeployAs moves_RollbackAs moves_Promote moves_RejectDeployment moves_Cancel moves_HandleDeployEvent quiet fr)
qed

section \<open>What every request keeps\<close>

lemma evolves_pipes_any: "pipes ds ds' \<Longrightarrow> wf_ids ds \<Longrightarrow> evolves ds ds'"
  unfolding pipes_def
proof (induction rule: rtranclp_induct)
  case (step y z)
  then have "wf_ids y" using pipes_keep_wf unfolding pipes_def by blast
  with step show ?case by (auto intro: evolves_trans evolves_pipe)
qed (rule evolves_refl)

lemma single_flight_pipes_any: "pipes ds ds' \<Longrightarrow> wf_ids ds \<Longrightarrow> single_flight ds \<Longrightarrow> single_flight ds'"
  unfolding pipes_def
proof (induction rule: rtranclp_induct)
  case (step y z)
  then have "wf_ids y" using pipes_keep_wf unfolding pipes_def by blast
  with step show ?case by (auto intro: single_flight_pipe)
qed

lemma drive_pipes: "drive a i ds ds' \<Longrightarrow> pipes ds ds'"
  by (auto simp: drive_def intro: pipe_pipes)

lemma effect_shape:
  assumes "effect rq ds ds'"
  shows "\<exists>mid. pipes mid ds' \<and> (mid = ds \<or> (\<exists>a i. complete a i ds mid) \<or>
    (\<exists>i d. rq = ApproveReq i \<and> dep_row i ds = Some d \<and> release (dep_ApplicationID d) ds mid))"
proof -
  have refl: "pipes ds ds" by (rule rc.still)
  show ?thesis using assms refl unfolding effect_def
    by (cases rq) (auto simp: driven_def approval_def completion_def intro: drive_pipes)
qed

lemma effect_evolves:
  assumes "effect rq ds ds'" "wf_ids ds"
  shows "evolves ds ds'" and "wf_ids ds'"
proof -
  obtain mid where mid: "pipes mid ds'" "mid = ds \<or> (\<exists>a i. complete a i ds mid) \<or> (\<exists>a. release a ds mid)"
    using effect_shape [OF assms(1)] by blast
  have "evolves ds mid \<and> wf_ids mid"
    using mid(2) assms(2) by (auto intro: evolves_refl evolves_complete evolves_release complete_wf release_wf)
  with mid(1) show "evolves ds ds'" "wf_ids ds'"
    by (auto intro: evolves_trans evolves_pipes_any pipes_keep_wf)
qed

text \<open>An approval is in order when nothing of its application is on the way.\<close>

definition orderly :: "request \<Rightarrow> world \<Rightarrow> bool" where
  "orderly rq w = (case rq of
       ApproveReq i \<Rightarrow> (case dep_row i (w_deps w) of None \<Rightarrow> True | Some d \<Rightarrow>
         filter (\<lambda>e. dep_ApplicationID e = dep_ApplicationID d \<and> in_flight (dep_Status e)) (w_deps w) = [])
     | _ \<Rightarrow> True)"

lemma effect_single_flight:
  assumes "effect rq (w_deps w) ds'" "orderly rq w" "wf_ids (w_deps w)" "single_flight (w_deps w)"
  shows "single_flight ds'"
proof -
  obtain mid where mid: "pipes mid ds'" "mid = w_deps w \<or> (\<exists>a i. complete a i (w_deps w) mid) \<or>
      (\<exists>i d. rq = ApproveReq i \<and> dep_row i (w_deps w) = Some d \<and> release (dep_ApplicationID d) (w_deps w) mid)"
    using effect_shape [OF assms(1)] by blast
  from mid(2) have "single_flight mid \<and> wf_ids mid"
  proof (elim disjE exE conjE)
    fix i d assume "rq = ApproveReq i" "dep_row i (w_deps w) = Some d"
      and rel: "release (dep_ApplicationID d) (w_deps w) mid"
    then have "\<And>e. e \<in> set (w_deps w) \<Longrightarrow> dep_ApplicationID e = dep_ApplicationID d \<Longrightarrow> \<not> in_flight (dep_Status e)"
      using assms(2) by (auto simp: orderly_def filter_empty_conv)
    with rel assms(3,4) show ?thesis by (auto intro: single_flight_release release_wf)
  qed (use assms(3,4) in \<open>auto intro: single_flight_complete complete_wf\<close>)
  with mid(1) show ?thesis by (auto intro: single_flight_pipes_any)
qed

end
