(* ===== verification/Pipeline_Props.thy ===== *)
theory Pipeline_Props
  imports Scheduler_Runs
begin

text \<open>
  The properties of the deploy pipeline, over single requests and over whole runs of the control
  plane.
\<close>

section \<open>A small installation\<close>

text \<open>One application on one server, in an environment that requires approval.\<close>

definition shop_world :: world where
  "shop_world = frozen_world\<lparr>
     w_apps := [blank_app],
     w_servers := [\<lparr> srv_ID = ''srv_1'', srv_Name = ''one'', srv_Status = ''running'', srv_Role = ''all'',
                     srv_EnrolledAt = Some 0 \<rparr>],
     w_prot := [\<lparr> ep_EnvironmentID = ''env_1'', ep_RequireApproval = True, ep_MinApproverRole = ''admin'',
                  ep_FreezeEnabled = False, ep_Windows = [] \<rparr>]\<rparr>"

definition shop_cfg :: sched_cfg where
  "shop_cfg = wire (Some utc_protection) plain_cfg"

definition deploy_one :: request where
  "deploy_one = DeployReq ''rev_1'' ''dep_1'' ''app_1'' ''manual'' [] []"

definition deploy_two :: request where
  "deploy_two = DeployReq ''rev_2'' ''dep_2'' ''app_1'' ''manual'' [] []"

definition statuses :: "world \<Rightarrow> (string \<times> deploymentStatus) list" where
  "statuses w = map (\<lambda>d. (dep_ID d, dep_Status d)) (w_deps w)"

section \<open>Runs\<close>

text \<open>
  A run serves requests in any order. Between two requests everything outside the table of
  deployments may change: other services write other tables, time passes, other calls fail.
\<close>

inductive run :: "sched_cfg \<Rightarrow> world \<Rightarrow> world \<Rightarrow> bool" for cfg w where
  run_start: "run cfg w w"
| run_serve: "run cfg w v \<Longrightarrow> run cfg w (serve cfg rq v)"
| run_outside: "run cfg w v \<Longrightarrow> w_deps v' = w_deps v \<Longrightarrow> run cfg w v'"

text \<open>The same, with approvals only in order, and applications deleted with their deployments.\<close>

inductive orderly_run :: "sched_cfg \<Rightarrow> world \<Rightarrow> world \<Rightarrow> bool" for cfg w where
  orderly_start: "orderly_run cfg w w"
| orderly_serve: "orderly_run cfg w v \<Longrightarrow> orderly rq v \<Longrightarrow> orderly_run cfg w (serve cfg rq v)"
| orderly_outside: "orderly_run cfg w v \<Longrightarrow> w_deps v' = w_deps v \<Longrightarrow> orderly_run cfg w v'"
| orderly_delete: "orderly_run cfg w v \<Longrightarrow> w_deps v' = others a (w_deps v) \<Longrightarrow> orderly_run cfg w v'"

lemma run_evolves:
  "run cfg w w' \<Longrightarrow> gated cfg \<Longrightarrow> wf_ids (w_deps w) \<Longrightarrow> evolves (w_deps w) (w_deps w') \<and> wf_ids (w_deps w')"
proof (induction rule: run.induct)
  case (run_serve v rq)
  then show ?case using effect_evolves [OF serve_effect, of cfg v rq] by (auto intro: evolves_trans)
qed (auto intro: evolves_refl)

lemma single_flight_others:
  assumes "wf_ids ds" "single_flight ds"
  shows "single_flight (others a ds)"
  unfolding single_flight_def
proof (intro ballI impI)
  fix d assume d: "d \<in> set (others a ds)" "in_flight (dep_Status d)"
  then have in_ds: "d \<in> set ds" "dep_ApplicationID d \<noteq> a" by (auto simp: others_def)
  have head: "head_of (dep_ID d) ds" using assms(2) in_ds(1) d(2) by (simp add: single_flight_def)
  have wf: "wf_ids (others a ds)" using assms(1) by (simp add: wf_ids_def others_def distinct_map_filter)
  have "others a (others a ds) = others a ds" by (simp add: others_def)
  from head_of_others(1) [OF assms(1) wf this dep_row_unique [OF assms(1) in_ds(1)] in_ds(2) head]
  show "head_of (dep_ID d) (others a ds)" .
qed

lemma orderly_run_single:
  "orderly_run cfg w w' \<Longrightarrow> gated cfg \<Longrightarrow> wf_ids (w_deps w) \<and> single_flight (w_deps w)
     \<Longrightarrow> wf_ids (w_deps w') \<and> single_flight (w_deps w')"
proof (induction rule: orderly_run.induct)
  case (orderly_serve v rq)
  then have "effect rq (w_deps v) (w_deps (serve cfg rq v))" by (simp add: serve_effect)
  with orderly_serve effect_evolves(2) effect_single_flight show ?case by blast
next
  case (orderly_delete v v' a)
  then show ?case by (auto simp: single_flight_others) (simp add: wf_ids_def others_def distinct_map_filter)
qed auto

section \<open>Who may report what\<close>

definition app_row :: "world \<Rightarrow> string \<Rightarrow> application option" where
  "app_row w i = List.find (\<lambda>a. app_ID a = i) (w_apps w)"

definition on_server :: "world \<Rightarrow> string \<Rightarrow> string \<Rightarrow> bool" where
  "on_server w s i \<longleftrightarrow> (\<exists>app. app_row w i = Some app \<and> rt_ServerID (app_Runtime app) = s)"

text \<open>
  The server a message comes from may speak about its subject: a build is reported by the builder, a
  distribution by either end, everything else by the server the application or database runs on.
\<close>

definition may_report :: "request \<Rightarrow> world \<Rightarrow> bool" where
  "may_report rq w = (case rq of
       DeployEventMsg s ev \<Rightarrow> (\<exists>d app. dep_row (de_DeploymentId ev) (w_deps w) = Some d
         \<and> app_row w (dep_ApplicationID d) = Some app
         \<and> (case de_Stage ev of
              STAGE_BUILD \<Rightarrow> s = builderFor d app
            | STAGE_DISTRIBUTE \<Rightarrow> s = builderFor d app \<or> s = rt_ServerID (app_Runtime app)
            | _ \<Rightarrow> s = rt_ServerID (app_Runtime app)))
     | AppStatusMsg s st \<Rightarrow> on_server w s (ast_AppId st)
     | TaskRunMsg s ev \<Rightarrow> (\<exists>t. List.find (\<lambda>t. st_ID t = tr_TaskId ev) (w_tasks w) = Some t \<and> on_server w s (st_ApplicationID t))
     | DbStatusMsg s st \<Rightarrow> (\<exists>d. List.find (\<lambda>d. db_ID d = dst_DbId st) (w_dbs w) = Some d \<and> db_ServerID d = s)
     | _ \<Rightarrow> True)"

lemma GetApplication_row: "GetApplication i w = (Inr app, w') \<Longrightarrow> app_row w i = Some app"
  by (auto simp: GetApplication_def query_Inr_iff one_row_Inr_iff app_row_def bump_def)

lemma foreign_event:
  assumes "\<not> may_report (DeployEventMsg s ev) w"
  shows "at_rest (snd (HandleDeployEvent cfg s ev w)) = at_rest w"
proof -
  obtain r w1 where get: "GetDeployment (de_DeploymentId ev) w = (r, w1)" by fastforce
  note rest1 = reads_run [OF reads_store(12) get]
  show ?thesis
  proof (cases r)
    case (Inr d)
    with get have row: "dep_row (de_DeploymentId ev) (w_deps w) = Some d" by (simp add: GetDeployment_row)
    obtain a w2 where app: "GetApplication (dep_ApplicationID d) w1 = (a, w2)" by fastforce
    note rest2 = reads_run [OF reads_store(1) app]
    have "\<not> event_allowed s d x (de_Stage ev)" if "a = Inr x" for x
      using that app assms row GetApplication_row [of "dep_ApplicationID d" w1 x w2] at_rest_eqD(1) [OF rest1]
      by (auto simp: may_report_def event_allowed_def app_row_def split: stage.splits)
    with get Inr app rest1 rest2 show ?thesis
      by (auto simp: HandleDeployEvent_def runs split: sum.split)
  qed (use get rest1 in \<open>simp add: HandleDeployEvent_def runs\<close>)
qed

lemma foreign_status:
  assumes "\<not> may_report (AppStatusMsg s st) w"
  shows "at_rest (snd (HandleAppStatus cfg s st w)) = at_rest w"
proof -
  obtain a w1 where app: "GetApplication (ast_AppId st) w = (a, w1)" by fastforce
  have "rt_ServerID (app_Runtime x) \<noteq> s" if "a = Inr x" for x
    using that app assms GetApplication_row by (auto simp: may_report_def on_server_def)
  with app reads_run [OF reads_store(1) app] show ?thesis
    by (auto simp: HandleAppStatus_def runs split: sum.split)
qed

lemma foreign_task:
  assumes "\<not> may_report (TaskRunMsg s ev) w"
  shows "at_rest (snd (HandleScheduledTaskRun s ev w)) = at_rest w"
proof -
  obtain r w1 where get: "GetScheduledTask (tr_TaskId ev) w = (r, w1)" by fastforce
  note rest1 = reads_run [OF reads_store(15) get]
  show ?thesis
  proof (cases r)
    case (Inr t)
    with get have row: "List.find (\<lambda>t. st_ID t = tr_TaskId ev) (w_tasks w) = Some t"
      by (auto simp: GetScheduledTask_def query_Inr_iff one_row_Inr_iff bump_def)
    obtain a w2 where app: "GetApplication (st_ApplicationID t) w1 = (a, w2)" by fastforce
    note rest2 = reads_run [OF reads_store(1) app]
    have "rt_ServerID (app_Runtime x) \<noteq> s" if "a = Inr x" for x
      using that app assms row GetApplication_row [of "st_ApplicationID t" w1 x w2] at_rest_eqD(1) [OF rest1]
      by (auto simp: may_report_def on_server_def app_row_def)
    with get Inr app rest1 rest2 show ?thesis
      by (auto simp: HandleScheduledTaskRun_def runs split: sum.split)
  qed (use get rest1 in \<open>simp add: HandleScheduledTaskRun_def runs\<close>)
qed

lemma foreign_db:
  assumes "\<not> may_report (DbStatusMsg s st) w"
  shows "at_rest (snd (HandleDbStatus s st w)) = at_rest w"
proof -
  obtain r w1 where get: "GetDatabase (dst_DbId st) w = (r, w1)" by fastforce
  have "db_ServerID x \<noteq> s" if "r = Inr x" for x
    using that get assms by (auto simp: may_report_def GetDatabase_def query_Inr_iff one_row_Inr_iff bump_def)
  with get reads_run [OF reads_store(25) get] show ?thesis
    by (auto simp: HandleDbStatus_def runs split: sum.split)
qed

section \<open>The gate in front of a deploy\<close>

text \<open>What the stored policy says about an environment right now.\<close>

definition frozen_now :: "protection_cfg \<Rightarrow> world \<Rightarrow> string \<Rightarrow> bool" where
  "frozen_now pc w e \<longleftrightarrow> (\<exists>env p. env_row w e = Some env \<and> env_Kind env \<noteq> EnvPreview
     \<and> protection_row w e = Some p \<and> freeze_applies (pc_tz pc) p (w_now w) \<and> \<not> glass_open w e)"

definition approval_due :: "world \<Rightarrow> string \<Rightarrow> bool" where
  "approval_due w e \<longleftrightarrow> (\<exists>env p. env_row w e = Some env \<and> env_Kind env \<noteq> EnvPreview
     \<and> protection_row w e = Some p \<and> ep_RequireApproval p)"

lemma policy_at_rest:
  assumes "at_rest w' = at_rest w"
  shows "frozen_now pc w' e = frozen_now pc w e" "approval_due w' e = approval_due w e"
    "app_row w' i = app_row w i" "w_deps w' = w_deps w"
  using at_rest_eqD [OF assms]
  by (simp_all add: frozen_now_def approval_due_def env_row_def protection_row_def glass_open_def app_row_def)

lemma frozen_at_rest: "at_rest w' = at_rest w \<Longrightarrow> frozen_now pc w e \<Longrightarrow> frozen_now pc w' e"
  using policy_at_rest(1) by blast

lemma admit_policy:
  assumes "admit (wire (Some pc) cfg) app w = (r, w')"
  shows "at_rest w' = at_rest w
    \<and> (\<forall>adm. r = Inr adm \<longrightarrow> (frozen_now pc w (app_EnvironmentID app) \<longrightarrow> adm_Frozen adm)
        \<and> (approval_due w (app_EnvironmentID app) \<longrightarrow> adm_NeedsApproval adm))"
proof -
  define e where "e = app_EnvironmentID app"
  obtain x where run: "Admit pc e w = (x, w')" and r: "\<forall>adm. r = Inr adm \<longrightarrow> x = Inr adm"
    using assms by (cases "Admit pc e w") (auto simp: admit_def protection_gate_def e_def
        mapE_run split: sum.splits)
  have "(frozen_now pc w e \<longrightarrow> adm_Frozen adm) \<and> (approval_due w e \<longrightarrow> adm_NeedsApproval adm)" if "r = Inr adm" for adm
    using Admit_contract [of pc e w adm w'] run r that
    by (auto simp: frozen_now_def approval_due_def policy_admission_def)
  with reads_run [OF reads_Admit run] show ?thesis by (simp add: e_def)
qed

text \<open>What a deploy or a rollback does once it has passed the gate.\<close>

definition deploy_admitted ::
  "sched_cfg \<Rightarrow> string \<Rightarrow> string \<Rightarrow> application \<Rightarrow> string \<Rightarrow> string \<Rightarrow> string \<Rightarrow> deployAdmission \<Rightarrow> deployment op" where
  "deploy_admitted cfg newRev newDep app trigger ref0 requestedBy admission =
       bnd (admitQuota cfg app) (\<lambda>_.
       let imageSource = (src_Kind (app_Source app) = ''image'');
           ref = (if imageSource then src_Image (app_Source app)
                  else if ref0 = [] then src_Branch (app_Source app) else ref0)
       in
       bnd (mapE (Wrapped ''scheduler: creating revision'')
              (CreateRevision newRev (app_ID app) ref (Some (snapshotOf app)))) (\<lambda>rv0.
       bnd (if imageSource
            then mapE (Wrapped ''scheduler: recording image revision'')
                   (SetRevisionImage (rev_ID rv0) (src_Image (app_Source app)))
            else ret rv0) (\<lambda>rv.
       bnd (mapE (Wrapped ''scheduler: creating deployment'')
              (CreateDeployment newDep (app_ID app) (rev_ID rv) trigger)) (\<lambda>dep.
       finish_deploy cfg dep app admission requestedBy))))"

lemma DeployAs_gate:
  "DeployAs cfg nr nd a t ref u =
     bnd (mapE (Wrapped ''scheduler: getting application'') (GetApplication a)) (\<lambda>app.
     bnd (admit cfg app) (\<lambda>adm.
     if adm_Frozen adm then throw (FrozenError (adm_FreezeDetail adm))
     else deploy_admitted cfg nr nd app t ref u adm))"
  unfolding DeployAs_def deploy_admitted_def by (rule refl)

text \<open>An operation that returns an error and leaves everything as it was.\<close>

definition turned_away :: "'a op \<Rightarrow> world \<Rightarrow> bool" where
  "turned_away m w \<longleftrightarrow> at_rest (snd (m w)) = at_rest w \<and> (\<exists>e. fst (m w) = Inl e)"

lemma away_throw: "turned_away (throw e) w"
  by (simp add: turned_away_def)

lemma away_reading:
  assumes "reads m" and "\<And>x w1. m w = (Inr x, w1) \<Longrightarrow> at_rest w1 = at_rest w \<Longrightarrow> turned_away (f x) w1"
  shows "turned_away (bnd m f) w"
proof -
  obtain r w1 where m: "m w = (r, w1)" by fastforce
  note rest = reads_run [OF assms(1) m]
  show ?thesis
  proof (cases r)
    case (Inr x)
    with assms(2) [of x w1] m rest show ?thesis by (simp add: turned_away_def bnd_run)
  qed (use m rest in \<open>simp add: turned_away_def bnd_run\<close>)
qed

lemma away_getting:
  assumes "app_row w a = Some app" and "\<And>w1. at_rest w1 = at_rest w \<Longrightarrow> turned_away (f app) w1"
  shows "turned_away (bnd (GetApplication a) f) w" "turned_away (bnd (mapE h (GetApplication a)) f) w"
proof -
  have app: "x = app" if "GetApplication a w = (Inr x, w1)" for x w1 using GetApplication_row [OF that] assms(1) by simp
  show "turned_away (bnd (GetApplication a) f) w" by (rule away_reading, rule reads_store) (auto dest: app intro: assms(2))
  show "turned_away (bnd (mapE h (GetApplication a)) f) w"
    by (rule away_reading, rule rd, rule reads_store) (auto simp: mapE_Inr_iff dest: app intro: assms(2))
qed

lemma away_frozen:
  assumes "frozen_now pc w (app_EnvironmentID app)"
  shows "turned_away (bnd (admit (wire (Some pc) cfg) app)
     (\<lambda>adm. if adm_Frozen adm then throw (FrozenError (adm_FreezeDetail adm)) else m adm)) w"
proof (rule away_reading)
  show "reads (admit (wire (Some pc) cfg) app)"
    by (rule readsI) (use admit_policy [of pc cfg app, OF prod.collapse [symmetric]] in blast)
  fix adm w1 assume "admit (wire (Some pc) cfg) app w = (Inr adm, w1)"
  with admit_policy assms have "adm_Frozen adm" by blast
  then show "turned_away (if adm_Frozen adm then throw (FrozenError (adm_FreezeDetail adm)) else m adm) w1"
    by (simp add: away_throw)
qed

lemma deploy_frozen:
  assumes "app_row w a = Some app" "frozen_now pc w (app_EnvironmentID app)"
  shows "turned_away (DeployAs (wire (Some pc) cfg) nr nd a t ref u) w"
  unfolding DeployAs_gate by (rule away_getting [OF assms(1)], rule away_frozen, erule frozen_at_rest, rule assms(2))

lemma rollback_frozen:
  assumes "dep_row i (w_deps w) = Some d" "app_row w (dep_ApplicationID d) = Some app"
    "frozen_now pc w (app_EnvironmentID app)"
  shows "turned_away (RollbackAs (wire (Some pc) cfg) nd i u) w"
  unfolding RollbackAs_def
proof (rule away_reading, intro rd)
  fix x w1 assume "mapE (Wrapped ''scheduler: getting deployment'') (GetDeployment i) w = (Inr x, w1)" and rest: "at_rest w1 = at_rest w"
  then have x: "x = d" using assms(1) by (auto simp: mapE_Inr_iff dest: GetDeployment_row)
  show "turned_away (bnd (mapE (Wrapped ''scheduler: getting revision'') (GetRevision (dep_RevisionID x))) (\<lambda>rv.
     if rev_Image rv = [] then throw ErrRevisionNotBuilt
     else bnd (mapE (Wrapped ''scheduler: getting application'') (GetApplication (dep_ApplicationID x))) (\<lambda>app.
       bnd (admit (wire (Some pc) cfg) app) (\<lambda>admission.
       if adm_Frozen admission then throw (FrozenError (adm_FreezeDetail admission))
       else bnd (mapE (Wrapped ''scheduler: creating rollback deployment'')
                (CreateDeployment nd (dep_ApplicationID x) (rev_ID rv) ''rollback'')) (\<lambda>dep.
         finish_deploy (wire (Some pc) cfg) dep app admission u))))) w1"
  proof (rule away_reading, intro rd, split if_split, intro conjI impI away_throw)
    fix rv w2 assume rest2: "at_rest w2 = at_rest w1"
    show "turned_away (bnd (mapE (Wrapped ''scheduler: getting application'') (GetApplication (dep_ApplicationID x))) (\<lambda>app.
       bnd (admit (wire (Some pc) cfg) app) (\<lambda>admission.
       if adm_Frozen admission then throw (FrozenError (adm_FreezeDetail admission))
       else bnd (mapE (Wrapped ''scheduler: creating rollback deployment'')
                (CreateDeployment nd (dep_ApplicationID x) (rev_ID rv) ''rollback'')) (\<lambda>dep.
         finish_deploy (wire (Some pc) cfg) dep app admission u)))) w2"
      by (rule away_getting, simp add: x policy_at_rest [OF rest2] policy_at_rest [OF rest] assms(2), rule away_frozen,
          erule frozen_at_rest, rule frozen_at_rest [OF rest2], rule frozen_at_rest [OF rest], rule assms(3))
  qed
qed

lemma promote_frozen:
  assumes "app_row w a = Some app" "frozen_now pc w (app_EnvironmentID app)"
  shows "turned_away (PromoteRevision (wire (Some pc) cfg) nr nd i a u) w"
proof -
  have go: "turned_away (bnd (GetApplication a) (\<lambda>target. bnd (admit (wire (Some pc) cfg) target) (\<lambda>admission.
      if adm_Frozen admission then throw (FrozenError (adm_FreezeDetail admission)) else m target admission))) v"
    if "at_rest v = at_rest w" for v and m :: "application \<Rightarrow> deployAdmission \<Rightarrow> deployment op"
    by (rule away_getting, simp add: policy_at_rest [OF that] assms, rule away_frozen, erule frozen_at_rest,
        rule frozen_at_rest [OF that], rule assms(2))
  show ?thesis unfolding PromoteRevision_def
    by (rule away_reading, rule reads_plan, split list.split, intro conjI impI allI, rule away_reading, rule reads_plan, rule away_reading, rule reads_store,
        rule go, simp, rule away_throw)
qed

text \<open>A deploy that needs approval is parked: it publishes nothing and leaves its application alone.\<close>

lemma finish_parks:
  "adm_NeedsApproval adm \<Longrightarrow> finish_deploy (wire (Some pc) cfg) dep app adm u = park (protection_gate pc) dep app adm u"
  by (simp add: finish_deploy_def)

context observation
begin

lemma parking:
  assumes "\<And>w b. obs (w\<lparr>w_deps := b\<rparr>) = obs w" "\<And>d e us ro. frames obs (Park pc d e us ro)"
  shows "frames obs (park (protection_gate pc) dep app adm u)"
  unfolding park_def failParked_def by (simp add: protection_gate_def, intro fr deps assms)

lemma quota_asked:
  assumes "\<And>w b. obs (w\<lparr>w_quotaStates := b\<rparr>) = obs w" "\<And>w b. obs (w\<lparr>w_events := b\<rparr>) = obs w"
  shows "frames obs (admitQuota (wire pc cfg) app)"
  unfolding admitQuota_def wire_gates option.case by (intro fr reading_ops [THEN reading] asking_quota assms)

lemma admitted_parking:
  assumes "adm_NeedsApproval adm" "\<And>w b. obs (w\<lparr>w_revs := b\<rparr>) = obs w"
    "\<And>w b. obs (w\<lparr>w_deps := b\<rparr>) = obs w" "\<And>d e us ro. frames obs (Park pc d e us ro)"
    "\<And>w b. obs (w\<lparr>w_quotaStates := b\<rparr>) = obs w" "\<And>w b. obs (w\<lparr>w_events := b\<rparr>) = obs w"
  shows "frames obs (deploy_admitted (wire (Some pc) cfg) nr nd app t ref u adm)"
  unfolding deploy_admitted_def finish_parks [OF assms(1)] Let_def
  by (intro fr quota_asked revs creating_revision creating_deployment parking assms)

end

lemma deploy_parked_frames:
  assumes "observation obs" "\<And>w b. obs (w\<lparr>w_revs := b\<rparr>) = obs w" "\<And>w b. obs (w\<lparr>w_deps := b\<rparr>) = obs w"
    "\<And>d e us ro. frames obs (Park pc d e us ro)"
    "\<And>w b. obs (w\<lparr>w_quotaStates := b\<rparr>) = obs w" "\<And>w b. obs (w\<lparr>w_events := b\<rparr>) = obs w"
    and "app_row w a = Some app" "approval_due w (app_EnvironmentID app)"
  shows "obs (snd (DeployAs (wire (Some pc) cfg) nr nd a t ref u w)) = obs w"
proof -
  obtain r w1 where get: "GetApplication a w = (r, w1)" by fastforce
  note rest = reads_run [OF reads_store(1) get]
  have blind: "obs w' = obs w" if "at_rest w' = at_rest w" for w'
    using that observation.rest_blind [OF assms(1), of w'] observation.rest_blind [OF assms(1), of w] by simp
  show ?thesis
  proof (cases r)
    case (Inr x)
    with get assms(7) GetApplication_row have x: "x = app" by fastforce
    obtain y w2 where adm: "admit (wire (Some pc) cfg) app w1 = (y, w2)" by fastforce
    note pol = admit_policy [OF adm]
    with assms(8) policy_at_rest(2) [OF rest] rest have due: "\<And>z. y = Inr z \<Longrightarrow> adm_NeedsApproval z"
      and rest2: "at_rest w2 = at_rest w" by auto
    have "obs (snd (deploy_admitted (wire (Some pc) cfg) nr nd app t ref u z w2)) = obs w2" if "y = Inr z" for z
      using observation.admitted_parking [OF assms(1) due [OF that] assms(2-6)] by (simp add: frames_def)
    with blind [OF rest2] Inr x get adm show ?thesis by (cases y) (auto simp: DeployAs_gate runs)
  qed (use get blind [OF rest] in \<open>simp add: DeployAs_gate runs\<close>)
qed

lemma updated_row:
  assumes "UpdateDeploymentStatus i s det w = (Inr d, w')"
  shows "dep_ID d = i \<and> dep_Status d = s"
  using update_deps [OF assms] dep_row_Some [of i "w_deps w'" d] by (auto simp: dep_row_upd)

lemma park_Inr:
  assumes "park g dep app adm u w = (Inr d, w')"
  shows "\<exists>w1. UpdateDeploymentStatus (dep_ID dep) DeployAwaitingApproval
      (''waiting for approval from '' @ articleFor (adm_RequiredRole adm)) w = (Inr d, w1)
    \<and> g_Park g d (app_EnvironmentID app) u (adm_RequiredRole adm) w1 = (Inr (), w')"
proof -
  obtain p w1 where upd: "UpdateDeploymentStatus (dep_ID dep) DeployAwaitingApproval
      (''waiting for approval from '' @ articleFor (adm_RequiredRole adm)) w = (Inr p, w1)"
    and rest: "bnd (attempt (g_Park g p (app_EnvironmentID app) u (adm_RequiredRole adm))) (\<lambda>r. case r of
       Inl perr \<Rightarrow> bnd (attempt (failParked p (''could not record the approval request '' @ dash @ '' deploy again'')))
                     (\<lambda>_. throw perr)
     | Inr _ \<Rightarrow> ret p) w1 = (Inr d, w')"
    using assms unfolding park_def bnd_Inr_iff [of "UpdateDeploymentStatus a b c" for a b c] by blast
  obtain x w2 where park: "g_Park g p (app_EnvironmentID app) u (adm_RequiredRole adm) w1 = (x, w2)" by fastforce
  show ?thesis
  proof (cases x)
    case (Inl e)
    with rest park have "bnd (attempt (failParked p (''could not record the approval request '' @ dash @ '' deploy again'')))
        (\<lambda>_. throw e) w2 = (Inr d, w')" by (simp add: bnd_run [of "attempt (g_Park a b c e f)" for a b c e f] attempt_run)
    then show ?thesis by (simp add: bnd_Inr_iff attempt_Inr_iff)
  next
    case (Inr y)
    with rest park upd show ?thesis by (simp add: bnd_run attempt_run)
  qed
qed

interpretation seen_approvals: observation w_approvals
  by unfold_locales (simp_all add: bump_def at_rest_def)

lemma Park_records:
  assumes "Park pc d e u ro w = (Inr (), w')"
  shows "\<exists>a \<in> set (w_approvals w'). da_DeploymentID a = dep_ID d \<and> Pending a"
proof -
  define tell :: "unit op" where "tell = (if \<not> pc_announcer pc then ret () else bnd (attempt
         (bnd (noticeFor d e) (\<lambda>notice. bnd (emailOf u) (\<lambda>email. bnd io (\<lambda>_.
          emit (DeployAwaitingApprovalItem (notice\<lparr>dn_RequiredRole := ro,
            dn_RequestedBy := u, dn_RequesterEmail := email\<rparr>))))))) (\<lambda>_. ret ()))"
  obtain r w1 where mk: "CreateDeployApproval (dep_ID d) e u ro w = (Inr r, w1)" and tell: "tell w1 = (Inr (), w')"
    using assms unfolding Park_def bnd_Inr_iff mapE_Inr_iff tell_def [symmetric] by blast
  have "da_DeploymentID r = dep_ID d" "Pending r" "r \<in> set (w_approvals w1)"
    using mk by (auto simp: CreateDeployApproval_def query_Inr_iff Let_def Pending_def split: if_splits)
  moreover have "frames w_approvals tell" unfolding tell_def noticeFor_def emailOf_def
    by (intro fr reading_ops [THEN seen_approvals.reading] seen_approvals.emitting) simp
  with tell have "w_approvals w' = w_approvals w1" by (rule frames_run)
  ultimately show ?thesis by auto
qed

lemma DeployAs_parked:
  assumes "DeployAs (wire (Some pc) cfg) nr nd a t ref u w = (Inr d, w')"
    and "app_row w a = Some app" "approval_due w (app_EnvironmentID app)"
  shows "dep_Status d = DeployAwaitingApproval \<and> (\<exists>ap \<in> set (w_approvals w'). da_DeploymentID ap = dep_ID d \<and> Pending ap)"
proof -
  obtain w1 where get: "GetApplication a w = (Inr app, w1)"
    using assms(1,2) GetApplication_row by (fastforce simp: DeployAs_gate bnd_Inr_iff mapE_Inr_iff)
  note rest = reads_run [OF reads_store(1) get]
  obtain adm w2 where adm: "admit (wire (Some pc) cfg) app w1 = (Inr adm, w2)"
    and go: "deploy_admitted (wire (Some pc) cfg) nr nd app t ref u adm w2 = (Inr d, w')"
    using assms(1) get by (auto simp: DeployAs_gate bnd_Inr_iff mapE_Inr_iff split: if_splits)
  have due: "adm_NeedsApproval adm" using admit_policy [OF adm] assms(3) policy_at_rest(2) [OF rest] by simp
  obtain dep w3 where "park (protection_gate pc) dep app adm u w3 = (Inr d, w')"
    using go by (auto simp: deploy_admitted_def finish_parks [OF due] Let_def bnd_Inr_iff)
  then obtain w4 w5 where upd: "UpdateDeploymentStatus (dep_ID dep) DeployAwaitingApproval
      (''waiting for approval from '' @ articleFor (adm_RequiredRole adm)) w4 = (Inr d, w5)"
    and parked: "Park pc d (app_EnvironmentID app) u (adm_RequiredRole adm) w5 = (Inr (), w')"
    by (auto simp: protection_gate_def dest!: park_Inr)
  show ?thesis using updated_row [OF upd] Park_records [OF parked] by simp
qed

section \<open>Restart and the desired state\<close>

lemma buildSpec_Inr:
  assumes "buildSpec cfg app rv pol w = (Inr spec, w')"
  shows "spec_AppId spec = app_ID app \<and> spec_RevisionId spec = rev_ID rv \<and> spec_RestartToken spec = app_RestartToken app"
  using assms by (auto simp: buildSpec_def bnd_Inr_iff split: option.splits)

lemma GetRevision_row: "GetRevision i w = (Inr rv, w') \<Longrightarrow> rev_ID rv = i \<and> rv \<in> set (w_revs w)"
  by (auto simp: GetRevision_def query_Inr_iff one_row_Inr_iff bump_def dest: find_Some_set)

lemma bump_token_row:
  assumes "BumpApplicationRestartToken a tok w = (Inr app, w')"
  shows "app_row w' a = Some app" "app_RestartToken app = tok"
    "\<exists>old. app_row w a = Some old \<and> app = old\<lparr>app_RestartToken := tok\<rparr>"
proof -
  have w': "w' = upd_app a (app_RestartToken_update (\<lambda>_. tok)) (bump w)"
    and row: "List.find (\<lambda>x. app_ID x = a) (w_apps w') = Some app"
    using assms by (auto simp: BumpApplicationRestartToken_def query_Inr_iff bnd_Inr_iff one_row_Inr_iff)
  then show "app_row w' a = Some app" by (simp add: app_row_def)
  have "List.find (\<lambda>x. app_ID x = a) (w_apps w') = map_option (app_RestartToken_update (\<lambda>_. tok)) (app_row w a)"
    unfolding w' upd_app_def app_row_def by (simp add: bump_def find_update_where_same)
  with row show "\<exists>old. app_row w a = Some old \<and> app = old\<lparr>app_RestartToken := tok\<rparr>" by auto
  then show "app_RestartToken app = tok" by auto
qed

lemma app_row_unchanged: "at_rest w' = at_rest w \<Longrightarrow> app_row w' a = app_row w a"
  by (rule policy_at_rest(3))

lemma ConvergeApp_publishes:
  assumes "ConvergeApp cfg a w = (Inr (), w')" "app_row w a = Some app" "app_DesiredRevisionID app = Some rid"
    and "\<exists>rv \<in> set (w_revs w). rev_ID rv = rid" "\<And>rv. rv \<in> set (w_revs w) \<Longrightarrow> rev_ID rv = rid \<Longrightarrow> rev_Image rv \<noteq> []"
  shows "\<exists>spec k. w_bus w' = w_bus w @ [(Converge (rt_ServerID (app_Runtime app)), k, ConvergeWork spec)]
    \<and> spec_AppId spec = app_ID app \<and> spec_RevisionId spec = rid \<and> spec_RestartToken spec = app_RestartToken app"
proof -
  obtain w1 where get: "GetApplication a w = (Inr app, w1)"
    using assms(1,2) GetApplication_row by (fastforce simp: ConvergeApp_def bnd_Inr_iff)
  note rest1 = reads_run [OF reads_store(1) get]
  obtain rv w2 where rev: "GetRevision rid w1 = (Inr rv, w2)"
    using assms(1,3) get by (auto simp: ConvergeApp_def bnd_Inr_iff)
  note rest2 = reads_run [OF reads_store(10) rev]
  have img: "rev_Image rv \<noteq> []" "rev_ID rv = rid"
    using GetRevision_row [OF rev] at_rest_eqD(2) [OF rest1] assms(5) by auto
  obtain spec w3 where build: "buildSpec cfg app rv envStrict w2 = (Inr spec, w3)"
    and pub: "PublishWork (Converge (rt_ServerID (app_Runtime app))) (a @ ''.converge.'' @ itoa (w_now w3))
        (ConvergeWork spec) w3 = (Inr (), w')"
    using assms(1,3) get rev img(1)
    by (auto simp: ConvergeApp_def bnd_Inr_iff mapE_Inr_iff now_op_def)
  note rest3 = reads_run [OF reads_buildSpec build]
  have "w_bus w3 = w_bus w" using at_rest_eqD(17) rest1 rest2 rest3 by metis
  moreover have "w_bus w' = w_bus w3 @ [(Converge (rt_ServerID (app_Runtime app)), a @ ''.converge.'' @ itoa (w_now w3), ConvergeWork spec)]"
    using pub by (auto simp: PublishWork_def bnd_Inr_iff io_Inr_iff bump_def)
  ultimately show ?thesis using buildSpec_Inr [OF build] img by auto
qed

text \<open>Everything but the restart tokens.\<close>

definition beside_token :: "world \<Rightarrow> deployment list \<times> revision list \<times> application list" where
  "beside_token w = (w_deps w, w_revs w, map (\<lambda>a. a\<lparr>app_RestartToken := []\<rparr>) (w_apps w))"

interpretation seen_beside: observation beside_token
  by unfold_locales (simp_all add: beside_token_def bump_def at_rest_def)

lemma bump_token_frame: "frames beside_token (BumpApplicationRestartToken a tok)"
  unfolding BumpApplicationRestartToken_def upd_app_def
  by (intro seen_beside.query fr frames_modify seen_beside.reading rd)
    (simp add: beside_token_def update_where_def)

lemma Restart_frame: "frames beside_token (Restart cfg tok a)"
  unfolding Restart_def ConvergeApp_def
  by (intro fr bump_token_frame reading_ops [THEN seen_beside.reading] seen_beside.publishing)
    (simp add: beside_token_def)

section \<open>Properties\<close>

text \<open>
  C6. A deployment keeps its identity and moves only along its life: queued, in flight, ended,
  with the detour through awaiting approval. Once it has succeeded or failed its row never changes
  again, whatever requests are served, in whatever order, and whichever calls fail.
\<close>

theorem deployments_evolve:
  assumes "run (wire pc cfg) w w'" "distinct (map dep_ID (w_deps w))" "k < length (w_deps w)"
  shows "k < length (w_deps w')
    \<and> dep_ID (w_deps w' ! k) = dep_ID (w_deps w ! k)
    \<and> dep_ApplicationID (w_deps w' ! k) = dep_ApplicationID (w_deps w ! k)
    \<and> dep_RevisionID (w_deps w' ! k) = dep_RevisionID (w_deps w ! k)
    \<and> life\<^sup>*\<^sup>* (dep_Status (w_deps w ! k)) (dep_Status (w_deps w' ! k))
    \<and> (Terminal (dep_Status (w_deps w ! k)) \<longrightarrow> w_deps w' ! k = w_deps w ! k)"
  using run_evolves [OF assms(1)] assms(2,3) by (auto simp: wf_ids_def evolves_def)

text \<open>A shop whose first deployment is over.\<close>

definition ended_dep :: deployment where
  "ended_dep = \<lparr> dep_ID = ''dep_0'', dep_ApplicationID = ''app_1'', dep_RevisionID = ''rev_0'',
     dep_Status = DeployFailed, dep_Trigger = ''manual'', dep_Detail = ''build failed'', dep_BuilderServerID = None,
     dep_CreatedAt = 0, dep_StartedAt = Some 1, dep_FinishedAt = Some 2, dep_EnvResolvedAt = None \<rparr>"

theorem deployments_evolve_witness:
  "w_deps (serve shop_cfg RecoverReq (serve shop_cfg (CancelReq ''dep_0'' ''eve'') (shop_world\<lparr>w_deps := [ended_dep]\<rparr>))) ! 0
     = ended_dep"
proof -
  have "run shop_cfg (shop_world\<lparr>w_deps := [ended_dep]\<rparr>)
     (serve shop_cfg RecoverReq (serve shop_cfg (CancelReq ''dep_0'' ''eve'') (shop_world\<lparr>w_deps := [ended_dep]\<rparr>)))"
    by (intro run.intros)
  from deployments_evolve [OF this [unfolded shop_cfg_def], of 0] show ?thesis
    by (simp add: shop_cfg_def ended_dep_def)
qed





text \<open>
  C2. A deployment succeeds only when the server its application runs on reports the
  application running at the revision the deployment rolls out.
\<close>

theorem success_needs_report:
  assumes "distinct (map dep_ID (w_deps w))" "\<not> succeeded j (w_deps w)"
    and "succeeded j (w_deps (serve (wire pc cfg) rq w))"
  shows "\<exists>s st d. rq = AppStatusMsg s st \<and> ast_State st = AppRunning \<and> on_server w s (ast_AppId st)
    \<and> dep_row j (w_deps w) = Some d \<and> dep_ApplicationID d = ast_AppId st
    \<and> dep_RevisionID d = ast_RevisionId st \<and> dep_Status d = DeployRollingOut"
proof -
  have eff: "effect rq (w_deps w) (w_deps (serve (wire pc cfg) rq w))"
    using assms(1) by (simp add: serve_effect wf_ids_def)
  have quiet: "\<not> succeeded j ds'" if "pipes ds ds'" "\<not> succeeded j ds" for ds ds'
    using that unfolding pipes_def by (induction rule: rtranclp_induct) (auto dest: pipe_no_success)
  obtain s st where rq: "rq = AppStatusMsg s st" and comp: "completion st (w_deps w) (w_deps (serve (wire pc cfg) rq w))"
    using eff assms(2,3) quiet drive_pipes release_no_success
    unfolding effect_def driven_def approval_def by (cases rq) (auto, blast+)
  obtain d ds1 where d: "dep_row (dep_ID d) (w_deps w) = Some d" "dep_ApplicationID d = ast_AppId st"
      "dep_RevisionID d = ast_RevisionId st" "ast_State st = AppRunning"
    and step: "complete (ast_AppId st) (dep_ID d) (w_deps w) ds1"
      "drive (ast_AppId st) (dep_ID d) ds1 (w_deps (serve (wire pc cfg) rq w))"
    using comp assms(2,3) unfolding completion_def by metis
  have "succeeded j ds1" using quiet [OF drive_pipes [OF step(2)]] assms(3) by blast
  with complete_success [OF step(1)] assms(2) d(1) have j: "j = dep_ID d" "dep_Status d = DeployRollingOut" by auto
  have "on_server w s (ast_AppId st)"
  proof (rule ccontr)
    assume "\<not> on_server w s (ast_AppId st)"
    then have "at_rest (serve (wire pc cfg) rq w) = at_rest w"
      by (simp add: rq foreign_status may_report_def)
    with assms(2,3) at_rest_eqD(3) show False by metis
  qed
  with rq d j show ?thesis by auto
qed

text \<open>
  A message from a server that may not speak about its subject changes nothing at all.
\<close>

theorem foreign_reports_ignored:
  assumes "\<not> may_report rq w"
  shows "at_rest (serve cfg rq w) = at_rest w"
  using assms foreign_event foreign_status foreign_task foreign_db
  by (cases rq) (auto simp: may_report_def)

theorem foreign_reports_ignored_witness:
  "at_rest (serve shop_cfg (AppStatusMsg ''srv_9'' \<lparr> ast_AppId = ''app_1'', ast_State = ''running'', ast_Detail = [],
      ast_RevisionId = ''rev_1'', ast_ObservedAt = None, ast_Replicas = [], ast_ResolvedImage = [] \<rparr>) shop_world) = at_rest shop_world"
  by (rule foreign_reports_ignored)
    (simp add: may_report_def on_server_def app_row_def shop_world_def frozen_world_def blank_app_def)

definition rolling_world :: world where
  "rolling_world = shop_world\<lparr>w_deps := [ended_dep\<lparr>dep_Status := DeployRollingOut\<rparr>]\<rparr>"

definition running_report :: appStatus where
  "running_report = \<lparr> ast_AppId = ''app_1'', ast_State = ''running'', ast_Detail = [], ast_RevisionId = ''rev_0'',
     ast_ObservedAt = None, ast_Replicas = [], ast_ResolvedImage = [] \<rparr>"

theorem success_needs_report_witness:
  "statuses (serve shop_cfg (AppStatusMsg ''srv_1'' running_report) rolling_world) = [(''dep_0'', DeploySucceeded)]
    \<and> on_server rolling_world ''srv_1'' ''app_1''"
proof -
  have run: "statuses (serve shop_cfg (AppStatusMsg ''srv_1'' running_report) rolling_world) = [(''dep_0'', DeploySucceeded)]"
    by code_simp
  then have "succeeded ''dep_0'' (w_deps (serve (wire (Some utc_protection) plain_cfg) (AppStatusMsg ''srv_1'' running_report) rolling_world))"
    by (auto simp: statuses_def succeeded_def dep_row_def shop_cfg_def)
  from success_needs_report [OF _ _ this] run show ?thesis
    by (auto simp: rolling_world_def shop_world_def frozen_world_def ended_dep_def succeeded_def dep_row_def
        running_report_def)
qed

text \<open>
  C4. While an environment is frozen nothing can be deployed, rolled back or promoted into it: whatever
  calls fail, the request returns an error and leaves every table, the bus and the sinks as they were.
\<close>

theorem frozen_deploys_refused:
  assumes "app_row w a = Some app" "frozen_now pc w (app_EnvironmentID app)"
  shows "at_rest (snd (DeployAs (wire (Some pc) cfg) nr nd a t ref u w)) = at_rest w
    \<and> (\<exists>e. fst (DeployAs (wire (Some pc) cfg) nr nd a t ref u w) = Inl e)
    \<and> (\<forall>i d. dep_row i (w_deps w) = Some d \<longrightarrow> dep_ApplicationID d = a \<longrightarrow>
        at_rest (snd (RollbackAs (wire (Some pc) cfg) nd i u w)) = at_rest w
      \<and> (\<exists>e. fst (RollbackAs (wire (Some pc) cfg) nd i u w) = Inl e))
    \<and> (\<forall>i. at_rest (snd (PromoteRevision (wire (Some pc) cfg) nr nd i a u w)) = at_rest w
      \<and> (\<exists>e. fst (PromoteRevision (wire (Some pc) cfg) nr nd i a u w) = Inl e))"
  using deploy_frozen [OF assms] rollback_frozen promote_frozen [OF assms] assms unfolding turned_away_def by blast

theorem frozen_deploys_refused_witness:
  "at_rest (snd (DeployAs shop_cfg ''rev_1'' ''dep_1'' ''app_1'' ''manual'' [] [] (frozen_world\<lparr>w_apps := [blank_app]\<rparr>)))
     = at_rest (frozen_world\<lparr>w_apps := [blank_app]\<rparr>)"
proof -
  have env: "app_EnvironmentID blank_app = ''env_1''" by (simp add: blank_app_def)
  have row: "app_row (frozen_world\<lparr>w_apps := [blank_app]\<rparr>) ''app_1'' = Some blank_app"
    by (simp add: app_row_def blank_app_def)
  have "freeze_applies utc_only (hd (w_prot frozen_world)) (w_now frozen_world)" by code_simp
  then have "frozen_now utc_protection (frozen_world\<lparr>w_apps := [blank_app]\<rparr>) ''env_1''"
    by (simp add: frozen_now_def env_row_def protection_row_def glass_open_def frozen_world_def utc_protection_def EnvPreview_def)
  with frozen_deploys_refused [OF row] env show ?thesis by (simp add: shop_cfg_def)
qed


text \<open>
  Restarting an application creates no revision and no deployment and moves no desired
  revision. When it succeeds it has published exactly one work item, to the server the application
  runs on: the revision that is desired already, under the new restart token.
\<close>

theorem Restart_same_revision:
  assumes "Restart cfg tok a w = (r, w')"
  shows "w_deps w' = w_deps w \<and> w_revs w' = w_revs w
    \<and> map app_DesiredRevisionID (w_apps w') = map app_DesiredRevisionID (w_apps w)
    \<and> (\<forall>app. r = Inr app \<and> distinct (map rev_ID (w_revs w)) \<longrightarrow>
        (\<exists>spec k. w_bus w' = w_bus w @ [(Converge (rt_ServerID (app_Runtime app)), k, ConvergeWork spec)]
           \<and> Some (spec_RevisionId spec) = app_DesiredRevisionID app \<and> spec_RestartToken spec = tok))"
proof -
  have same: "beside_token w' = beside_token w" using assms Restart_frame by (rule frames_run)
  have "map app_DesiredRevisionID (map (\<lambda>a. a\<lparr>app_RestartToken := []\<rparr>) xs) = map app_DesiredRevisionID xs"
    for xs :: "application list" by simp
  with same have frame: "w_deps w' = w_deps w" "w_revs w' = w_revs w"
    "map app_DesiredRevisionID (w_apps w') = map app_DesiredRevisionID (w_apps w)"
    unfolding beside_token_def by (auto, metis)
  have "\<exists>spec k. w_bus w' = w_bus w @ [(Converge (rt_ServerID (app_Runtime app)), k, ConvergeWork spec)]
      \<and> Some (spec_RevisionId spec) = app_DesiredRevisionID app \<and> spec_RestartToken spec = tok"
    if ok: "r = Inr app" and dist: "distinct (map rev_ID (w_revs w))" for app
  proof -
    obtain old w1 rid rv w2 w3 where get: "GetApplication a w = (Inr old, w1)"
      and rid: "app_DesiredRevisionID old = Some rid" and rev: "GetRevision rid w1 = (Inr rv, w2)"
      and img: "rev_Image rv \<noteq> []" and bump: "BumpApplicationRestartToken a tok w2 = (Inr app, w3)"
      and conv: "ConvergeApp cfg a w3 = (Inr (), w')"
      using assms ok by (auto simp: Restart_def bnd_Inr_iff mapE_Inr_iff split: option.splits if_splits)
    have rest: "at_rest w1 = at_rest w" "at_rest w2 = at_rest w1"
      using reads_run [OF reads_store(1) get] reads_run [OF reads_store(10) rev] by auto
    have "w_revs w3 = w_revs w2" "w_bus w3 = w_bus w2"
      using bump by (auto intro: frames_run [OF _ seen_revs.apps(5)] frames_run [OF _ seen_bus.apps(5)])
    with rest at_rest_eqD have w3: "w_revs w3 = w_revs w" "w_bus w3 = w_bus w" by metis+
    have rv: "rv \<in> set (w_revs w3)" "rev_ID rv = rid"
      using GetRevision_row [OF rev] at_rest_eqD(2) [OF rest(1)] w3 by auto
    have "app = old\<lparr>app_RestartToken := tok\<rparr>"
      using bump_token_row(3) [OF bump] GetApplication_row [OF get] app_row_unchanged [OF rest(2)] app_row_unchanged [OF rest(1)]
      by auto
    with rid have "app_DesiredRevisionID app = Some rid" by simp
    moreover have "x = rv" if "x \<in> set (w_revs w3)" "rev_ID x = rid" for x
      using that rv dist w3 by (auto simp: distinct_map inj_on_def)
    ultimately show ?thesis
      using ConvergeApp_publishes [OF conv bump_token_row(1) [OF bump]] rv img w3 bump_token_row(2) [OF bump] by metis
  qed
  with frame show ?thesis by blast
qed


definition shipped_world :: world where
  "shipped_world = shop_world\<lparr> w_now := 5,
     w_apps := [blank_app\<lparr>app_DesiredRevisionID := Some ''rev_1''\<rparr>],
     w_revs := [\<lparr> rev_ID = ''rev_1'', rev_ApplicationID = ''app_1'', rev_Image = ''cypher/app_1:rev_1'',
                  rev_SourceCommit = ''main'', rev_ConfigSnapshot = Some (snapshotOf blank_app),
                  rev_PromotedFromRevisionID = [] \<rparr>]\<rparr>"

theorem Restart_same_revision_witness:
  "\<exists>app w' spec k. Restart shop_cfg ''tok_2'' ''app_1'' shipped_world = (Inr app, w')
     \<and> w_bus w' = [(''work.srv_1.converge'', k, ConvergeWork spec)] \<and> spec_RestartToken spec = ''tok_2''"
proof -
  obtain r w' where run: "Restart shop_cfg ''tok_2'' ''app_1'' shipped_world = (r, w')" by fastforce
  have "(case fst (Restart shop_cfg ''tok_2'' ''app_1'' shipped_world) of Inl _ \<Rightarrow> []
      | Inr app \<Rightarrow> Converge (rt_ServerID (app_Runtime app))) = ''work.srv_1.converge''" by code_simp
  with run obtain app where app: "r = Inr app" "Converge (rt_ServerID (app_Runtime app)) = ''work.srv_1.converge''"
    by (cases r) auto
  have "distinct (map rev_ID (w_revs shipped_world))" "w_bus shipped_world = []"
    by (simp_all add: shipped_world_def shop_world_def frozen_world_def)
  with Restart_same_revision [OF run] app run show ?thesis by auto
qed

end
