(* ===== verification/Pipeline_Live.thy ===== *)
theory Pipeline_Live
  imports Scheduler_Runs
begin

text \<open>
  Liveness of the deploy pipeline: as long as calls succeed, no queue ever stalls. The oldest active
  deployment of every application is always on its way, never left waiting to be started.
\<close>

definition flowing :: "string \<Rightarrow> deployment list \<Rightarrow> bool" where
  "flowing a ds \<longleftrightarrow> (\<forall>d rest. queue_of a ds = d # rest \<longrightarrow> dep_Status d \<noteq> DeployQueued)"

section \<open>The ground a pipeline runs on\<close>

text \<open>No call fails, and the foreign keys of deployments are there.\<close>

definition solid :: "world \<Rightarrow> bool" where
  "solid w \<longleftrightarrow> w_faults w = (\<lambda>_. None) \<and> wf_ids (w_deps w)
     \<and> (\<forall>d \<in> set (w_deps w). dep_ApplicationID d \<in> app_ID ` set (w_apps w) \<and> dep_RevisionID d \<in> rev_ID ` set (w_revs w))"

definition ground :: "world \<Rightarrow> (nat \<Rightarrow> string option) \<times> string list \<times> string list" where
  "ground w = (w_faults w, map app_ID (w_apps w), map rev_ID (w_revs w))"

interpretation seen_ground: observation ground
  by unfold_locales (simp_all add: ground_def bump_def at_rest_def)

lemma ground_upd: "(\<And>x. app_ID (f x) = app_ID x) \<Longrightarrow> ground (upd_app i f w) = ground w"
  "(\<And>x. rev_ID (g x) = rev_ID x) \<Longrightarrow> ground (upd_rev i g w) = ground w"
  by (simp_all add: ground_def upd_app_def upd_rev_def map_update_where)

lemma ground_apps [fr]:
  "frames ground (SetApplicationDesiredRevision i r)" "frames ground (SetApplicationStatus i s d)"
  "frames ground (SetApplicationObservedStatus i s d r t)" "frames ground (SetApplicationReplicaStatus i rs)"
  "frames ground (BumpApplicationRestartToken i tok)" "frames ground (ApplyDeploymentEnvStamp i)"
  "frames ground (SetRevisionImage i img)" "frames ground (SetRevisionSourceCommit i s)"
  unfolding store_ops
  by (intro seen_ground.query fr frames_modify seen_ground.reading rd; simp add: ground_upd split: option.split)+

lemma ground_deps:
  "frames ground (UpdateDeploymentStatus i s d)" "frames ground (SetDeploymentBuilder i b)"
  "frames ground (SetDeploymentEnvResolved i)" "frames ground (CreateDeployment i a r t)"
  by (rule seen_ground.deps seen_ground.creating_deployment; simp add: ground_def)+

lemma ground_simps:
  "ground (w\<lparr>w_bus := b\<rparr>) = ground w" "ground (w\<lparr>w_events := e\<rparr>) = ground w"
  "ground (w\<lparr>w_consumers := c\<rparr>) = ground w" "ground (w\<lparr>w_approvals := x\<rparr>) = ground w"
  "ground (w\<lparr>w_quotaStates := q\<rparr>) = ground w"
  by (simp_all add: ground_def)

lemmas grounded [fr] =
  ground_deps reading_ops [THEN seen_ground.reading] seen_ground.publishing [OF ground_simps(1)]
  seen_ground.sinks(1) [OF ground_simps(2)] seen_ground.sinks(2) [OF ground_simps(2)]
  seen_ground.emitting [OF ground_simps(2)] seen_ground.consumers [OF ground_simps(3)]
  seen_ground.approvals [OF ground_simps(4)] seen_ground.asking_quota [OF ground_simps(5,2)]

lemma solid_ground:
  "solid w \<longleftrightarrow> fst (ground w) = (\<lambda>_. None) \<and> wf_ids (w_deps w) \<and> (\<forall>d \<in> set (w_deps w).
     dep_ApplicationID d \<in> set (fst (snd (ground w))) \<and> dep_RevisionID d \<in> set (snd (snd (ground w))))"
  by (simp add: solid_def ground_def)

lemma solid_upd:
  assumes "solid w" "ground w' = ground w" "w_deps w' = dep_upd i f (w_deps w)" "same_key f"
  shows "solid w'"
proof -
  have "dep_ApplicationID d \<in> set (fst (snd (ground w))) \<and> dep_RevisionID d \<in> set (snd (snd (ground w)))"
    if d: "d \<in> set (dep_upd i f (w_deps w))" for d
  proof -
    obtain e where e: "e \<in> set (w_deps w)" "d = (if dep_ID e = i then f e else e)" using d by (auto simp: in_dep_upd)
    then have "dep_ApplicationID d = dep_ApplicationID e" "dep_RevisionID d = dep_RevisionID e"
      by (auto simp: same_keyD [OF assms(4)])
    with e assms(1) show ?thesis by (simp add: solid_ground)
  qed
  with assms show ?thesis by (simp add: solid_ground)
qed

lemma solid_same: "solid w \<Longrightarrow> ground w' = ground w \<Longrightarrow> w_deps w' = w_deps w \<Longrightarrow> solid w'"
  by (simp add: solid_ground)

lemma solid_quiet: "frames ground m \<Longrightarrow> frames w_deps m \<Longrightarrow> solid w \<Longrightarrow> m w = (r, w') \<Longrightarrow> solid w'"
  by (rule solid_same [where w = w]) (auto intro: frames_run)

lemma solid_run: "m w = (r, w') \<Longrightarrow> frames ground m \<Longrightarrow> frames w_deps m \<Longrightarrow> solid w \<Longrightarrow> solid w'"
  by (rule solid_quiet)

lemma calm_query:
  assumes "solid w"
  shows "query n m w = (case m (bump w) of (Inl e, w') \<Rightarrow> (Inl (Wrapped (''store: '' @ n) e), w') | (Inr x, w') \<Rightarrow> (Inr x, w'))"
  using assms by (simp add: solid_def query_def runs io_run split: prod.split sum.split)

text \<open>On solid ground a write to an existing row happens, and keeps the ground solid.\<close>

lemma calm_update:
  assumes "solid w" "dep_row i (w_deps w) = Some d"
  shows "\<exists>x w'. UpdateDeploymentStatus i s det w = (Inr x, w') \<and> solid w' \<and> dep_ID x = i
    \<and> dep_ApplicationID x = dep_ApplicationID d \<and> dep_RevisionID x = dep_RevisionID d
    \<and> w_deps w' = dep_upd i (set_status (w_dbnow w) s det) (w_deps w)"
proof -
  obtain r w' where run: "UpdateDeploymentStatus i s det w = (r, w')" by fastforce
  note eff = update_deps [OF run]
  have row: "dep_row i (dep_upd i f (w_deps w)) = Some (f d)" if "same_key f" for f
    using assms(2) dep_row_upd [OF that] by simp
  have "\<exists>x. r = Inr x"
    using run row [of "set_status (w_dbnow w) s det"]
    by (simp add: UpdateDeploymentStatus_def calm_query [OF assms(1)] runs one_row_def upd_dep_def bump_def
        dep_row_def [symmetric] dep_upd_def [symmetric]) auto
  then obtain x where x: "r = Inr x" by blast
  have "ground w' = ground w" using run by (rule frames_run) (intro fr)
  with eff x assms(1) have "solid w'" by (auto intro: solid_upd)
  moreover have "x = set_status (w_dbnow w) s det d"
    using eff x row [of "set_status (w_dbnow w) s det", OF same_key_set_status] by auto
  ultimately show ?thesis using run x eff dep_row_Some [OF assms(2)]
    by (simp add: same_keyD [OF same_key_set_status])
qed

lemma calm_row:
  assumes "solid w" "x \<in> set (tab w)" "p x" "tab (bump w) = tab w"
  shows "\<exists>y. query n (one_row p tab) w = (Inr y, bump w) \<and> p y"
proof -
  obtain y where "List.find p (tab w) = Some y" using assms(2,3) find_None_all [of p "tab w"] by fastforce
  with find_Some_set [OF this] assms(1,4) show ?thesis by (simp add: calm_query one_row_def)
qed

lemma calm_revision:
  assumes "solid w" "i \<in> rev_ID ` set (w_revs w)"
  shows "\<exists>rv. GetRevision i w = (Inr rv, bump w) \<and> rev_ID rv = i"
  using assms calm_row [OF assms(1), of _ w_revs "\<lambda>r. rev_ID r = i"] unfolding GetRevision_def by (auto simp: seen_revs.io_blind)

lemma calm_application:
  assumes "solid w" "i \<in> app_ID ` set (w_apps w)"
  shows "\<exists>app. GetApplication i w = (Inr app, bump w) \<and> app_ID app = i"
  using assms calm_row [OF assms(1), of _ w_apps "\<lambda>r. app_ID r = i"] unfolding GetApplication_def by (auto simp: seen_apps.io_blind)

lemma calm_queue: "solid w \<Longrightarrow> ListActiveDeploymentsByApplication a w = (Inr (queue_of a (w_deps w)), bump w)"
  by (simp add: ListActiveDeploymentsByApplication_def calm_query many_rows_def bump_def)

lemma calm_status: "solid w \<Longrightarrow> \<exists>w'. SetApplicationStatus i s det w = (Inr (), w')"
  by (simp add: SetApplicationStatus_def calm_query)

section \<open>Starting settles a queue\<close>

lemma flowing_flight:
  assumes "wf_ids ds" "head_of i ds" "dep_row i ds = Some d" "in_flight (dep_Status d)"
  shows "flowing (dep_ApplicationID d) ds"
  using head_queue [OF assms(1-3)] assms(4) by (auto simp: flowing_def)

definition flying :: "string \<Rightarrow> string \<Rightarrow> deployment list \<Rightarrow> bool" where
  "flying a i ds \<longleftrightarrow> wf_ids ds \<and> head_of i ds \<and> (\<exists>d. dep_row i ds = Some d \<and> dep_ApplicationID d = a \<and> in_flight (dep_Status d))"

lemma flying_flowing: "flying a i ds \<Longrightarrow> flowing a ds"
  using flowing_flight by (auto simp: flying_def)

lemma flying_advance:
  assumes "wf_ids ds" "head_of i ds" "dep_row i ds = Some d" "dep_ApplicationID d = a" "in_flight s"
  shows "flying a i (dep_upd i (set_status t s det) ds)"
proof -
  have act: "active x" if "x \<in> set ds" "dep_ID x = i" for x
    using head_row [OF assms(1,2)] status_activates [OF assms(1)] that by blast
  then have "head_of i (dep_upd i (set_status t s det) ds)"
    using assms by (intro head_of_upd) (auto simp: active_in_flight)
  with assms show ?thesis by (auto simp: flying_def dep_row_upd same_keyD [OF same_key_set_status])
qed

lemma flying_annotate:
  assumes "flying a i ds" "same_key f" "\<And>x. dep_Status (f x) = dep_Status x"
  shows "flying a i (dep_upd i f ds)"
proof -
  have "active (f x) = active x" for x using assms(3) by (simp add: active_def)
  then have "head_of i (dep_upd i f ds)"
    using assms by (intro head_of_upd [OF assms(2)]) (auto simp: flying_def)
  with assms show ?thesis by (auto simp: flying_def dep_row_upd same_keyD [OF assms(2)])
qed

lemma stamp_flying: "keeps (\<lambda>w. flying a i (w_deps w)) (SetDeploymentEnvResolved i)"
proof (rule keepsI)
  fix w :: world assume fl: "flying a i (w_deps w)"
  obtain r w' where run: "SetDeploymentEnvResolved i w = (r, w')" by fastforce
  from stamp_deps [OF run] flying_annotate [OF fl, of "dep_EnvResolvedAt_update (\<lambda>_. Some (w_dbnow w))"] fl run
  show "flying a i (w_deps (snd (SetDeploymentEnvResolved i w)))" by (cases r) simp_all
qed

lemma quiet_flying: "frames w_deps m \<Longrightarrow> keeps (\<lambda>w. flying a i (w_deps w)) m"
  by (simp add: keeps_def frames_def)

text \<open>
  \<open>settles n a st\<close>: started on the head of a queue of \<open>a\<close> while fewer than \<open>n\<close> deployments are
  active, \<open>st\<close> leaves the queue flowing.
\<close>

definition settles :: "nat \<Rightarrow> string \<Rightarrow> (deployment \<Rightarrow> unit op) \<Rightarrow> bool" where
  "settles n a st \<longleftrightarrow> (\<forall>d rest w. solid w \<longrightarrow> actives w < n \<longrightarrow> queue_of a (w_deps w) = d # rest
     \<longrightarrow> flowing a (w_deps (snd (st d w))))"

lemma promote_flows:
  assumes "settles n a st" "solid w" "actives w < n"
  shows "flowing a (w_deps (snd (promoteNext_with st a w)))"
proof (cases "queue_of a (w_deps w)")
  case Nil
  then show ?thesis using calm_queue [OF assms(2)]
    by (simp add: promoteNext_with_def runs flowing_def seen_deps.io_blind)
next
  case (Cons d rest)
  have bump: "solid (bump w)" "actives (bump w) = actives w"
    using assms(2) by (auto simp: solid_def bump_def actives_def)
  show ?thesis
  proof (cases "dep_Status d = DeployQueued")
    case True
    then have "snd (promoteNext_with st a w) = snd (st d (bump w))"
      using calm_queue [OF assms(2)] Cons by (simp add: promoteNext_with_def runs split: prod.split)
    with assms Cons bump show ?thesis unfolding settles_def by (metis seen_deps.io_blind)
  next
    case False
    with Cons calm_queue [OF assms(2)] show ?thesis
      by (simp add: promoteNext_with_def runs flowing_def seen_deps.io_blind)
  qed
qed

text \<open>How many others are active: what is left once deployment \<open>i\<close> is over.\<close>

definition rivals :: "string \<Rightarrow> world \<Rightarrow> nat" where
  "rivals i w = length (filter active (other_rows i w))"

lemma actives_end:
  assumes "w_deps w' = dep_upd i (set_status t DeployFailed det) (w_deps w)"
  shows "actives w' = rivals i w"
proof -
  have "\<forall>e \<in> set (w_deps w'). dep_ID e = i \<longrightarrow> \<not> active e"
    using assms upd_inactive [of "set_status t DeployFailed det" _ i] by (auto simp: inactive_statuses)
  then have "filter active (w_deps w') = filter active (other_rows i w')"
    unfolding other_rows_def by (auto intro!: filter_cong)
  moreover have "other_rows i w' = other_rows i w" by (simp add: other_rows_def assms other_rows_upd)
  ultimately show ?thesis by (simp add: actives_def rivals_def)
qed

lemma rivals_less:
  assumes "d \<in> set (w_deps w)" "dep_ID d = i" "active d"
  shows "rivals i w < actives w"
proof -
  have "filter active (other_rows i w) = filter (\<lambda>x. dep_ID x \<noteq> i) (filter active (w_deps w))"
    by (simp add: other_rows_def conj_commute)
  moreover have "length (filter (\<lambda>x. dep_ID x \<noteq> i) (filter active (w_deps w))) < length (filter active (w_deps w))"
    by (rule length_filter_less [of d]) (use assms in auto)
  ultimately show ?thesis by (simp add: rivals_def actives_def)
qed

lemma grounded_clear [fr]: "frames ground (clearDeployingStatus app detail)"
  unfolding clearDeployingStatus_def Let_def by (intro fr)

text \<open>Operations that never return an error.\<close>

definition never_fails :: "'a op \<Rightarrow> bool" where
  "never_fails m \<longleftrightarrow> (\<forall>w. \<exists>x. fst (m w) = Inr x)"

lemma never_fails_intros:
  "never_fails (ret x)" "never_fails (attempt m)" "never_fails (emit e)"
  by (auto simp: never_fails_def attempt_run emit_def split: prod.split)

lemma never_fails_bnd: "never_fails m \<Longrightarrow> (\<And>x. never_fails (f x)) \<Longrightarrow> never_fails (bnd m f)"
  unfolding never_fails_def bnd_run by (auto split: prod.split sum.split) (metis fst_conv sum.distinct(1))

lemma never_fails_forE: "(\<And>x. never_fails (f x)) \<Longrightarrow> never_fails (forE xs f)"
  by (induction xs) (auto intro: never_fails_bnd never_fails_intros)

lemma never_fails_clear: "never_fails (clearDeployingStatus app det)"
  unfolding clearDeployingStatus_def by (auto intro!: never_fails_bnd never_fails_intros split: prod.split)

lemma never_fails_emit: "never_fails (emitDeploy cfg app d)"
  unfolding emitDeploy_def forall_sinks_def by (intro never_fails_forE never_fails_intros)

lemma never_fails_run: "never_fails m \<Longrightarrow> \<exists>x w'. m w = (Inr x, w')"
  unfolding never_fails_def by (metis prod.collapse)

lemma endActive_flows:
  assumes "settles n a st" "solid w" "dep_row (dep_ID dep) (w_deps w) = Some d"
    "dep_ApplicationID dep = a" "rivals (dep_ID dep) w < n"
  shows "flowing a (w_deps (snd (endActive_with st cfg dep det b w)))"
proof -
  obtain x w1 where upd: "UpdateDeploymentStatus (dep_ID dep) DeployFailed det w = (Inr x, w1)" "solid w1"
    "w_deps w1 = dep_upd (dep_ID dep) (set_status (w_dbnow w) DeployFailed det) (w_deps w)"
    using calm_update [OF assms(2,3)] by blast
  define told where "told = (\<lambda>r. case r of Inl (_ :: error) \<Rightarrow> ret ()
          | Inr app \<Rightarrow> bnd (clearDeployingStatus app det) (\<lambda>_. if b then emitDeploy cfg app x else (ret () :: unit op)))"
  obtain r w2 where get: "GetApplication a w1 = (r, w2)" by fastforce
  obtain u w3 where tell: "told r w2 = (Inr u, w3)"
  proof -
    have "never_fails (told r)" unfolding told_def
      by (cases r) (auto intro: never_fails_bnd never_fails_intros never_fails_clear never_fails_emit)
    then show ?thesis using never_fails_run that by blast
  qed
  have frs: "frames w_deps (GetApplication a)" "frames ground (GetApplication a)" "frames w_deps (told r)" "frames ground (told r)"
    unfolding told_def by (intro fr)+
  have w3: "solid w3" "w_deps w3 = w_deps w1"
    using solid_quiet [OF frs(4,3) solid_quiet [OF frs(2,1) upd(2) get] tell]
      frames_run [OF get frs(1)] frames_run [where m = "told r", OF tell frs(3)] by simp_all
  then have "actives w3 < n" using actives_end [OF upd(3)] assms(5) by (simp add: actives_def)
  moreover have "snd (endActive_with st cfg dep det b w) = snd (promoteNext_with st a w3)"
    using upd(1) get tell assms(4)
    by (simp add: endActive_with_def bnd_run mapE_run attempt_run told_def [symmetric] split: prod.split sum.split)
  ultimately show ?thesis using promote_flows [OF assms(1) w3(1)] by simp
qed

lemma fail_flows:
  assumes "settles n a st" "solid w" "dep_row (dep_ID dep) (w_deps w) = Some d"
    "dep_ApplicationID dep = a" "rivals (dep_ID dep) w < n" and quiet: "\<And>x. frames w_deps (f x)"
  shows "flowing a (w_deps (snd (bnd (fail_with st cfg dep det) f w)))"
proof -
  have "snd (fail_with st cfg dep det w) = snd (endActive_with st cfg dep det True w)"
    by (simp add: fail_with_def runs split: prod.split)
  then have "flowing a (w_deps (snd (fail_with st cfg dep det w)))"
    using endActive_flows [OF assms(1-5), of cfg det True] by simp
  moreover have "w_deps (snd (bnd m f v)) = w_deps (snd (m v))" for m v
    using quiet by (auto simp: bnd_run frames_def split: prod.split sum.split)
  ultimately show ?thesis by simp
qed

lemma keeps_flying: "(\<And>w. flying a i (w_deps w) \<Longrightarrow> flying a i (w_deps (snd (m w)))) \<Longrightarrow> keeps (\<lambda>w. flying a i (w_deps w)) m"
  by (rule keepsI)

lemma advance_flows:
  assumes "solid w" "head_of i (w_deps w)" "dep_row i (w_deps w) = Some d" "dep_ApplicationID d = a" "in_flight s"
    and "\<And>x. keeps (\<lambda>w. flying a i (w_deps w)) (f x)"
  shows "flying a i (w_deps (snd (bnd (UpdateDeploymentStatus i s det) f w)))"
proof -
  obtain x w1 where upd: "UpdateDeploymentStatus i s det w = (Inr x, w1)"
    "w_deps w1 = dep_upd i (set_status (w_dbnow w) s det) (w_deps w)"
    using calm_update [OF assms(1,3)] by blast
  have "flying a i (w_deps w1)"
    using flying_advance [OF _ assms(2-5)] assms(1) upd(2) by (simp add: solid_def)
  with keepsD [OF assms(6)] upd(1) show ?thesis by (simp add: bnd_run)
qed

lemma startDistribute_flows:
  assumes "solid w" "head_of (dep_ID dep) (w_deps w)" "dep_row (dep_ID dep) (w_deps w) = Some d" "dep_ApplicationID d = a"
  shows "flying a (dep_ID dep) (w_deps (snd (startDistribute dep app rv w)))"
  unfolding startDistribute_def promotedSourceImage_def Let_def
  by (rule advance_flows [OF assms]) (simp, intro quiet_flying fr)

lemma startRollout_flows:
  assumes "solid w" "head_of (dep_ID dep) (w_deps w)" "dep_row (dep_ID dep) (w_deps w) = Some d" "dep_ApplicationID d = a"
  shows "flying a (dep_ID dep) (w_deps (snd (startRollout cfg dep app rv w)))"
  unfolding startRollout_def
  by (rule advance_flows [OF assms])
    (simp, rule keeps_bnd, intro quiet_flying fr, rule keeps_bnd, intro keeps_attempt stamp_flying, intro quiet_flying fr)

text \<open>The state while a deployment is on its way, and how the stage of building moves through it.\<close>

definition under_way :: "nat \<Rightarrow> string \<Rightarrow> string \<Rightarrow> world \<Rightarrow> bool" where
  "under_way n a i w \<longleftrightarrow> solid w \<and> flying a i (w_deps w) \<and> rivals i w < n"

lemma under_way_flows: "under_way n a i w \<Longrightarrow> flowing a (w_deps w)"
  by (auto simp: under_way_def intro: flying_flowing)

lemma quiet_under_way:
  assumes "frames w_deps m" "frames ground m"
  shows "triple (under_way n a i) m (\<lambda>_. under_way n a i) (\<lambda>_ w. flowing a (w_deps w))"
proof (rule triple_conseq [OF keeps_triple [THEN iffD1]])
  show "keeps (under_way n a i) m"
  proof (rule keepsI)
    fix w assume w: "under_way n a i w"
    obtain r w' where run: "m w = (r, w')" by fastforce
    have "w_deps w' = w_deps w" using run assms(1) by (rule frames_run)
    with w run solid_quiet [OF assms(2,1) _ run] show "under_way n a i (snd (m w))"
      by (simp add: under_way_def rivals_def other_rows_def)
  qed
qed (auto intro: under_way_flows)

lemma builder_under_way:
  assumes "dep_ID dep = i" "dep_ApplicationID dep = a"
  shows "triple (under_way n a i) (if b then mapE h (SetDeploymentBuilder i s) else ret dep)
     (\<lambda>d w. under_way n a i w \<and> dep_ID d = i \<and> dep_ApplicationID d = a) (\<lambda>_ w. flowing a (w_deps w))"
proof -
  let ?f = "dep_BuilderServerID_update (\<lambda>_. Some s)"
  have "under_way n a i w' \<and> (\<forall>d. r = Inr d \<longrightarrow> dep_ID d = i \<and> dep_ApplicationID d = a)"
    if w: "under_way n a i w" and run: "SetDeploymentBuilder i s w = (r, w')" for w r w'
  proof -
    note eff = builder_deps [OF run]
    have ground: "ground w' = ground w" using run by (rule frames_run) (intro fr)
    show ?thesis
    proof (cases r)
      case (Inl e)
      with eff ground w solid_same [of w w'] show ?thesis by (auto simp: under_way_def rivals_def other_rows_def)
    next
      case (Inr d)
      with eff have deps: "w_deps w' = dep_upd i ?f (w_deps w)" "dep_row i (w_deps w') = Some d" by auto
      have fl: "flying a i (w_deps w')" using flying_annotate [of a i "w_deps w" ?f] w deps by (simp add: under_way_def)
      moreover have "solid w'" using solid_upd [OF _ ground deps(1)] w by (simp add: under_way_def)
      moreover have "rivals i w' = rivals i w" by (simp add: rivals_def other_rows_def deps(1) other_rows_upd)
      ultimately show ?thesis using w Inr deps(2) dep_row_Some [OF deps(2)] by (auto simp: under_way_def flying_def)
    qed
  qed
  then show ?thesis using assms
    by (auto simp: triple_def mapE_run split: prod.split sum.split dest: under_way_flows)
qed

lemma fail_under_way:
  assumes "settles n a st" "dep_ID dep = i" "dep_ApplicationID dep = a"
  shows "triple (under_way n a i) (bnd (fail_with st cfg dep det) (\<lambda>_. throw e :: unit op))
     (\<lambda>_ w. flowing a (w_deps w)) (\<lambda>_ w. flowing a (w_deps w))"
  unfolding triple_def
proof (intro allI impI)
  fix w assume w: "under_way n a i w"
  then obtain d where "dep_row (dep_ID dep) (w_deps w) = Some d" using assms(2) by (auto simp: under_way_def flying_def)
  from fail_flows [OF assms(1) _ this assms(3), of "\<lambda>_. throw e :: unit op" cfg det] w assms(2)
  show "case bnd (fail_with st cfg dep det) (\<lambda>_. throw e :: unit op) w of (Inl _, w') \<Rightarrow> flowing a (w_deps w') | (Inr _, w') \<Rightarrow> flowing a (w_deps w')"
    by (auto simp: under_way_def frames_throw split: prod.splits sum.splits)
qed

lemma triple_known: "(B \<Longrightarrow> triple P m Q E) \<Longrightarrow> triple (\<lambda>w. P w \<and> B) m Q E"
  by (cases B) (simp_all add: triple_def)

lemma stage_flows:
  assumes "settles n a st" "solid w" "head_of (dep_ID dep) (w_deps w)" "dep_row (dep_ID dep) (w_deps w) = Some d"
    "dep_ApplicationID d = a" "dep_ApplicationID dep = a" "rivals (dep_ID dep) w < n"
  shows "flowing a (w_deps (snd (start_stage st cfg dep app rv w)))"
proof -
  let ?i = "dep_ID dep"
  let ?F = "\<lambda>_ w. flowing a (w_deps w)"
  have work: "triple (under_way n a ?i) (bnd (attempt (buildWork cfg d' app rv)) (\<lambda>wk. case wk of
              Inl e \<Rightarrow> bnd (fail_with st cfg d' (error_text e)) (\<lambda>_. throw e)
            | Inr work \<Rightarrow> mapE (Wrapped ''scheduler: publishing build'')
                  (PublishWork (Build s) (dep_ID d' @ ''.build'') (BuildWork work)))) ?F ?F"
    if "dep_ID d' = ?i" "dep_ApplicationID d' = a" for d' s
  proof (rule triple_bnd [OF quiet_under_way])
    show "triple (under_way n a ?i) (case wk of
              Inl e \<Rightarrow> bnd (fail_with st cfg d' (error_text e)) (\<lambda>_. throw e)
            | Inr work \<Rightarrow> mapE (Wrapped ''scheduler: publishing build'')
                  (PublishWork (Build s) (dep_ID d' @ ''.build'') (BuildWork work))) ?F ?F" for wk
      by (cases wk) (simp_all add: fail_under_way [OF assms(1) that],
          rule triple_conseq [OF quiet_under_way], intro fr, intro fr, assumption, erule under_way_flows)
  qed (intro fr)+
  have build: "triple (under_way n a ?i) (bnd (attempt (selectBuilder app)) (\<lambda>b. case b of
          Inl e \<Rightarrow> bnd (fail_with st cfg dep (error_text e)) (\<lambda>_. throw e)
        | Inr builderID \<Rightarrow>
            bnd (if builderID \<noteq> rt_ServerID (app_Runtime app)
                 then mapE (Wrapped ''scheduler: recording builder'') (SetDeploymentBuilder (dep_ID dep) builderID)
                 else ret dep) (\<lambda>dep. bnd (attempt (buildWork cfg dep app rv)) (\<lambda>wk. case wk of
              Inl e \<Rightarrow> bnd (fail_with st cfg dep (error_text e)) (\<lambda>_. throw e)
            | Inr work \<Rightarrow> mapE (Wrapped ''scheduler: publishing build'')
                  (PublishWork (Build builderID) (dep_ID dep @ ''.build'') (BuildWork work)))))) ?F ?F"
  proof (rule triple_bnd [OF quiet_under_way])
    show "triple (under_way n a ?i) (case b of
          Inl e \<Rightarrow> bnd (fail_with st cfg dep (error_text e)) (\<lambda>_. throw e)
        | Inr builderID \<Rightarrow>
            bnd (if builderID \<noteq> rt_ServerID (app_Runtime app)
                 then mapE (Wrapped ''scheduler: recording builder'') (SetDeploymentBuilder (dep_ID dep) builderID)
                 else ret dep) (\<lambda>dep. bnd (attempt (buildWork cfg dep app rv)) (\<lambda>wk. case wk of
              Inl e \<Rightarrow> bnd (fail_with st cfg dep (error_text e)) (\<lambda>_. throw e)
            | Inr work \<Rightarrow> mapE (Wrapped ''scheduler: publishing build'')
                  (PublishWork (Build builderID) (dep_ID dep @ ''.build'') (BuildWork work))))) ?F ?F" for b
    proof (cases b)
      case (Inr s)
      show ?thesis unfolding Inr sum.case
        by (rule triple_bnd [OF builder_under_way [OF refl assms(6)]]) (rule triple_known, erule conjE, rule work)
    qed (simp add: fail_under_way [OF assms(1) refl assms(6)])
  qed (intro fr)+
  show ?thesis
  proof (cases "rev_PromotedFromRevisionID rv = [] \<and> rev_Image rv = []")
    case True
    obtain x w1 where upd: "UpdateDeploymentStatus ?i DeployBuilding [] w = (Inr x, w1)" "solid w1"
      "w_deps w1 = dep_upd ?i (set_status (w_dbnow w) DeployBuilding []) (w_deps w)"
      using calm_update [OF assms(2,4)] by blast
    have "under_way n a ?i w1"
      using flying_advance [OF _ assms(3-5)] assms(2,7) upd(2,3)
      by (simp add: under_way_def solid_def rivals_def other_rows_def other_rows_upd)
    from tripleD [OF build this] True upd(1) show ?thesis
      by (simp add: start_stage_def bnd_run [of "UpdateDeploymentStatus b c d" for b c d] split: prod.splits sum.splits)
  next
    case False
    then show ?thesis
      using flying_flowing [OF startDistribute_flows [OF assms(2-5)]] flying_flowing [OF startRollout_flows [OF assms(2-5)]]
      by (auto simp: start_stage_def)
  qed
qed

lemma start_flows:
  "solid w \<Longrightarrow> queue_of a (w_deps w) = q # rest \<Longrightarrow> dep_ID dep = dep_ID q \<Longrightarrow> dep_ApplicationID dep = a
    \<Longrightarrow> dep_RevisionID dep = dep_RevisionID q \<Longrightarrow> flowing a (w_deps (snd (start cfg dep w)))"
proof (induction "actives w" arbitrary: w q rest dep rule: less_induct)
  case less
  define n where "n = actives w"
  have settles: "settles n a (start cfg)"
    unfolding settles_def n_def using less.hyps queue_head(2) by blast
  have wf: "wf_ids (w_deps w)" using less.prems(1) by (simp add: solid_def)
  note head = queue_head [OF less.prems(2)]
  note row = dep_row_unique [OF wf head(4)]
  have riv: "rivals (dep_ID dep) w < n" unfolding n_def using rivals_less [OF head(4) _ head(3)] less.prems(3) by simp
  have refs: "dep_RevisionID dep \<in> rev_ID ` set (w_revs w)" "a \<in> app_ID ` set (w_apps w)"
    using less.prems(1,5) head by (auto simp: solid_def)
  have solid_bump: "solid (bump v)" if "solid v" for v using that by (simp add: solid_def bump_def)
  obtain rv where rv: "GetRevision (dep_RevisionID dep) w = (Inr rv, bump w)"
    using calm_revision [OF less.prems(1) refs(1)] by blast
  obtain app where app: "GetApplication a (bump w) = (Inr app, bump (bump w))"
    using calm_application [OF solid_bump [OF less.prems(1)]] refs(2) by (auto simp: seen_apps.io_blind)
  let ?w2 = "bump (bump w)"
  have solid2: "solid ?w2" using less.prems(1) solid_bump by blast
  obtain w3 where st: "SetApplicationStatus (app_ID app) AppDeploying [] ?w2 = (Inr (), w3)"
    using calm_status [OF solid2] by blast
  obtain env w4 where env: "resolveEnv cfg app envStrict w3 = (env, w4)" by fastforce
  have solid3: "solid w3" using st by (rule solid_run) (intro fr, intro fr, rule solid2)
  have solid4: "solid w4" using env by (rule solid_run) (intro fr, intro fr, rule solid3)
  have "w_deps w3 = w_deps ?w2" using st by (rule frames_run) (intro fr)
  moreover have "w_deps w4 = w_deps w3" using env by (rule frames_run) (intro fr)
  ultimately have deps: "w_deps w4 = w_deps w" by (simp add: seen_deps.io_blind)
  have body: "start cfg dep w = (case env of
       Inl e \<Rightarrow> bnd (fail_with (start cfg) cfg dep
                (case root_cause e of
                   UnresolvedReferenceError a b c \<Rightarrow> error_text (UnresolvedReferenceError a b c)
                 | _ \<Rightarrow> ''could not resolve this application'' @ [CHR 0x27] @ ''s environment''))
           (\<lambda>_. throw e)
     | Inr _ \<Rightarrow> start_stage (start cfg) cfg dep app rv) w4"
    unfolding start_eq [of cfg dep w] start_body_def
    using rv app st env less.prems(4) by (simp add: bnd_run [of "attempt m" for m] bnd_run [of "mapE h m" for h m]
        bnd_run [of "SetApplicationStatus i s t" for i s t] mapE_run attempt_run)
  have riv4: "rivals (dep_ID dep) w4 < n" using riv by (simp add: rivals_def other_rows_def deps)
  show ?case
  proof (cases env)
    case (Inl e)
    have row4: "dep_row (dep_ID dep) (w_deps w4) = Some q" using row deps less.prems(3) by simp
    have "flowing a (w_deps (snd (bnd (fail_with (start cfg) cfg dep det) (\<lambda>_. throw e :: unit op) w4)))" for det
      by (rule fail_flows [OF settles solid4 row4 less.prems(4) riv4]) (intro fr)
    then show ?thesis unfolding body Inl sum.case .
  next
    case (Inr v)
    from stage_flows [OF settles solid4 _ _ _ less.prems(4) riv4, of q] row deps less.prems(3) Inr body head show ?thesis
      by simp
  qed
qed

lemma start_settles: "settles n a (start cfg)"
  unfolding settles_def using start_flows queue_head(2) by blast

lemma promoteNext_flows: "solid w \<Longrightarrow> flowing a (w_deps (snd (promoteNext cfg a w)))"
  unfolding promoteNext_def using promote_flows [OF start_settles, of w "Suc (actives w)"] by simp

end
