(* ===== verification/Pipeline_Flow.thy ===== *)
theory Pipeline_Flow
  imports Pipeline_Live
begin

text \<open>
  Every request keeps every queue flowing: the liveness of theory \<open>Pipeline_Live\<close>, carried from the
  start of one deployment to whole requests.
\<close>

section \<open>Keeping the ground solid\<close>

named_theorems sk \<open>operations that keep the ground solid\<close>

lemma solid_frame: "frames ground m \<Longrightarrow> frames w_deps m \<Longrightarrow> keeps solid m"
  by (rule keepsI) (metis prod.collapse solid_run)

lemma solid_writes [sk]:
  "keeps solid (UpdateDeploymentStatus i s d)" "keeps solid (SetDeploymentBuilder i b)"
  "keeps solid (SetDeploymentEnvResolved i)"
proof -
  have step: "keeps solid m" if eff: "\<And>w r w'. m w = (r, w') \<Longrightarrow> w_deps w' = w_deps w \<or> (\<exists>f. same_key f \<and> w_deps w' = dep_upd i f (w_deps w))"
    and fr: "frames ground m" for m :: "'a op"
  proof (rule keepsI)
    fix w assume w: "solid w"
    obtain r w' where run: "m w = (r, w')" by fastforce
    have "ground w' = ground w" using run fr by (rule frames_run)
    with eff [OF run] w run show "solid (snd (m w))" by (auto intro: solid_same solid_upd)
  qed
  show "keeps solid (UpdateDeploymentStatus i s d)"
    by (rule step) (auto split: sum.splits intro: grounded dest!: update_deps intro!: exI [of _ "set_status _ s d"])
  show "keeps solid (SetDeploymentBuilder i b)"
    by (rule step) (auto split: sum.splits intro: grounded dest!: builder_deps
        intro!: exI [of _ "dep_BuilderServerID_update (\<lambda>_. Some b)"])
  show "keeps solid (SetDeploymentEnvResolved i)"
    by (rule step) (auto split: sum.splits intro: grounded dest!: stamp_deps
        intro!: exI [of _ "dep_EnvResolvedAt_update (\<lambda>_. Some (w_dbnow _))"])
qed

lemma solid_create [sk]: "keeps solid (CreateDeployment i a rv t)"
proof (rule keepsI)
  fix w assume w: "solid w"
  obtain r w' where run: "CreateDeployment i a rv t w = (r, w')" by fastforce
  have ground: "ground w' = ground w" using run by (rule frames_run) (intro fr)
  show "solid (snd (CreateDeployment i a rv t w))"
  proof (cases r)
    case (Inl e)
    with create_deps [OF run] ground w run show ?thesis by (auto intro: solid_same)
  next
    case (Inr d)
    then have keys: "a \<in> app_ID ` set (w_apps w)" "rv \<in> rev_ID ` set (w_revs w)"
      using run by (auto simp: CreateDeployment_def query_Inr_iff Let_def bump_def split: if_splits)
    from create_deps [OF run] Inr have "w_deps w' = w_deps w @ [d]" "dep_row i (w_deps w) = None" "dep_ID d = i"
      "dep_ApplicationID d = a" "dep_RevisionID d = rv" by auto
    with keys w run ground show ?thesis
      by (auto simp: solid_ground ground_def wf_ids_def dep_row_None)
  qed
qed

text \<open>A statement that only adds revisions.\<close>

lemma solid_more_revisions:
  assumes "frames w_deps m"
    and "\<And>w r w'. m w = (r, w') \<Longrightarrow> w_faults w' = w_faults w \<and> w_apps w' = w_apps w \<and> set (w_revs w) \<subseteq> set (w_revs w')"
  shows "keeps solid m"
proof (rule keepsI)
  fix w assume w: "solid w"
  obtain r w' where run: "m w = (r, w')" by fastforce
  have "w_deps w' = w_deps w" using run assms(1) by (rule frames_run)
  moreover note assms(2) [OF run]
  moreover from this have "rev_ID ` set (w_revs w) \<subseteq> rev_ID ` set (w_revs w')" by auto
  ultimately show "solid (snd (m w))" using w run by (auto simp: solid_def)
qed

lemma solid_revision [sk]: "keeps solid (CreateRevision i a c snap)" "keeps solid (CreatePromotedRevision i a c snap img src)"
  by (rule solid_more_revisions, intro fr,
      force simp: store_ops query_def runs io_run bump_def Let_def split: option.splits if_splits)+

lemma keeps_logged [tri]: "keeps I m \<Longrightarrow> keeps I (logged m)"
  unfolding logged_def by (intro tri)

lemma reads_solid: "reads m \<Longrightarrow> keeps solid m"
  by (rule solid_frame) (auto intro: seen_ground.reading seen_deps.reading)

lemmas solid_reads [sk] = reading_ops [THEN reads_solid]

lemma solid_other_writes [sk]:
  "keeps solid (SetApplicationDesiredRevision i r)" "keeps solid (SetApplicationStatus i s d)"
  "keeps solid (SetApplicationObservedStatus i s d r t)" "keeps solid (SetApplicationReplicaStatus i rs)"
  "keeps solid (BumpApplicationRestartToken i tok)" "keeps solid (ApplyDeploymentEnvStamp i)"
  "keeps solid (SetRevisionImage i img)" "keeps solid (SetRevisionSourceCommit i s)"
  "keeps solid (PublishWork s k wk)" "keeps solid (emitDeploy cfg app dep)" "keeps solid (emitAppHealth cfg app t1 t2)"
  "keeps solid (emit ev)" "keeps solid (EnsureWorkConsumer s)" "keeps solid (CreateDeployApproval d e u ro)"
  by (rule solid_frame; intro fr)+

lemma solid_stages [sk]:
  "keeps solid (startDistribute dep app rv)" "keeps solid (startRollout cfg dep app rv)"
  "keeps solid (clearDeployingStatus app det)"
  unfolding startDistribute_def startRollout_def promotedSourceImage_def clearDeployingStatus_def Let_def
  by (intro tri sk)+

lemma solid_promote_with: "(\<And>d. keeps solid (st d)) \<Longrightarrow> keeps solid (promoteNext_with st a)"
  unfolding promoteNext_with_def by (intro tri sk)

lemma solid_end_with: "(\<And>d. keeps solid (st d)) \<Longrightarrow> keeps solid (endActive_with st cfg dep det b)"
  unfolding endActive_with_def by (intro tri sk solid_promote_with)

lemma solid_fail_with: "(\<And>d. keeps solid (st d)) \<Longrightarrow> keeps solid (fail_with st cfg dep det)"
  unfolding fail_with_def by (intro tri solid_end_with)

lemma solid_start_fuel: "keeps solid (start_fuel n cfg dep)"
proof (induction n arbitrary: dep)
  case (Suc n)
  then show ?case unfolding start_fuel.simps start_body_def start_stage_def
    by (intro tri sk solid_fail_with)
qed (auto intro: tri)

lemma solid_start [sk]: "keeps solid (start cfg dep)"
  unfolding start_def keeps_def using solid_start_fuel [unfolded keeps_def] by blast

lemma solid_pipeline [sk]:
  "keeps solid (promoteNext cfg a)" "keeps solid (endActive cfg dep det b)" "keeps solid (fail cfg dep det)"
  "keeps solid (tryStart cfg dep)" "keeps solid (failParked dep det)" "keeps solid (started_record cfg dep)"
  unfolding promoteNext_def endActive_def fail_def tryStart_def failParked_def started_record_def
  by (intro tri sk solid_promote_with solid_end_with solid_fail_with)+

lemma solid_Park [sk]: "keeps solid (Park pc dep e u ro)"
  unfolding Park_def noticeFor_def emailOf_def by (intro tri sk)

lemma solid_park [sk]: "keeps solid (park (protection_gate p) dep app adm u)"
  unfolding park_def protection_gate_def gate_ops.select_convs by (intro tri sk)

lemma solid_admit [sk]: "keeps solid (admit (wire pc cfg) app)"
  by (cases pc) (simp_all add: admit_def wire_gates protection_gate_def keeps_ret keeps_mapE reads_solid reads_Admit)

lemma solid_finish [sk]: "keeps solid (finish_deploy (wire pc cfg) dep app adm u)"
  unfolding finish_deploy_def wire_gates by (cases "adm_NeedsApproval adm"; cases pc) (simp_all add: sk)

lemma solid_quotaGate [sk]: "keeps solid (quotaGate p)"
  by (rule solid_frame) (auto intro: metered.asks_deps fr)

lemma solid_quota [sk]: "keeps solid (admitQuota (wire pc cfg) app)"
  unfolding admitQuota_def wire_gates option.case by (intro tri sk)

lemma solid_deploys [sk]:
  "keeps solid (DeployAs (wire pc cfg) nr nd a t ref u)" "keeps solid (RollbackAs (wire pc cfg) nd i u)"
  "keeps solid (ApproveDeployment cfg i)" "keeps solid (RejectDeployment i det)" "keeps solid (Cancel cfg i who)"
  unfolding DeployAs_def RollbackAs_def ApproveDeployment_def RejectDeployment_def Cancel_def Let_def
  by (intro tri sk)+

lemma solid_Promote [sk]: "keeps solid (PromoteRevision (wire pc cfg) nr nd i a u)"
proof -
  have "keeps solid (promote_admitted (wire pc cfg) nr nd plan i source target adm u)" for plan source target adm
    unfolding promote_admitted_def wire_gates
    by (intro tri sk; cases "adm_NeedsApproval adm"; cases pc) (simp_all, (intro tri sk)+)
  then show ?thesis unfolding PromoteRevision_def by (intro tri sk) (auto intro: tri sk split: list.split)
qed

lemma solid_quiet_requests [sk]:
  "keeps solid (ConvergeApp cfg a)" "keeps solid (Restart cfg tok a)" "keeps solid (RemoveApp s a)"
  "keeps solid (reconcileDatabaseLocked cfg db)" "keeps solid (RequestServerResync s reason)"
  "keeps solid (announceHealth cfg app x y)" "keeps solid (pinRevisionImage st)"
  unfolding ConvergeApp_def Restart_def RemoveApp_def reconcileDatabaseLocked_def RequestServerResync_def
    announceHealth_def pinRevisionImage_def
  by (intro tri sk)+

lemma solid_resync [sk]: "keeps solid (RequestResync reason)"
proof -
  have "keeps solid (resync_loop reason srvs n)" for srvs n
    by (induction srvs arbitrary: n) (auto intro!: tri sk)
  then show ?thesis unfolding RequestResync_def by (intro tri sk)
qed

lemma solid_outside [sk]: "keeps solid (HandleScheduledTaskRun s ev)" "keeps solid (HandleDbStatus s st)"
  unfolding HandleScheduledTaskRun_def HandleDbStatus_def Let_def CreateTaskRun_def DeleteOldTaskRuns_def
    SetDatabaseObservedStatus_def DeleteDatabase_def
  by (intro tri sk; (rule solid_frame; intro seen_ground.query seen_deps.query frames_modify)?;
      auto simp: frames_def ground_def)+

lemma keeps_case_stage [tri]:
  "(\<And>c. keeps I (case c of STAGE_UNSPECIFIED \<Rightarrow> m1 | STAGE_BUILD \<Rightarrow> m2 | STAGE_DISTRIBUTE \<Rightarrow> m3 | STAGE_ROLLOUT \<Rightarrow> m4 | STAGE_REMOVE \<Rightarrow> m5))"
  if "keeps I m1" "keeps I m2" "keeps I m3" "keeps I m4" "keeps I m5"
  using that by (simp split: stage.split)

lemma solid_events [sk]: "keeps solid (HandleDeployEvent cfg s ev)" "keeps solid (HandleAppStatus cfg s st)"
  unfolding HandleDeployEvent_def handle_build_def handle_distribute_def handle_rollout_def HandleAppStatus_def
    complete_deployment_def Let_def
  by (intro tri sk)+

lemma keeps_case_status:
  "keeps I m1 \<Longrightarrow> keeps I m2 \<Longrightarrow> keeps I m3 \<Longrightarrow> keeps I (case c of DeployBuilding \<Rightarrow> m1 | DeployDistributing \<Rightarrow> m2 | _ \<Rightarrow> m3)"
  by (cases c) simp_all

lemma solid_recover_one [sk]: "keeps solid (recover_one cfg d)"
  unfolding recover_one_def by (intro tri sk keeps_case_status)

lemma solid_recover [sk]: "keeps solid (Recover cfg)"
  unfolding Recover_def recover_databases_def by (intro tri sk)

lemma serve_solid: "solid w \<Longrightarrow> solid (serve (wire pc cfg) rq w)"
  by (cases rq) (auto simp: ReconcileDatabase_def intro: keepsD [OF _ _] sk)

section \<open>Writes that keep queues flowing\<close>

abbreviation all_flowing :: "deployment list \<Rightarrow> bool" where
  "all_flowing ds \<equiv> (\<forall>a. flowing a ds)"

lemma flowing_drive: "drive a i ds ds' \<Longrightarrow> wf_ids ds \<Longrightarrow> b \<noteq> a \<Longrightarrow> flowing b ds' = flowing b ds"
  unfolding drive_def flowing_def by (metis others_pipes others_queue)

lemma queue_upd_active:
  assumes "same_key f" "\<And>d. d \<in> set ds \<Longrightarrow> dep_ID d = i \<Longrightarrow> active (f d) = active d"
  shows "queue_of a (dep_upd i f ds) = dep_upd i f (queue_of a ds)"
  using assms(2) unfolding queue_of_def by (induction ds) (auto simp: same_keyD [OF assms(1)])

lemma queue_upd_inactive:
  assumes "same_key f" "\<And>d. \<not> active (f d)"
  shows "queue_of a (dep_upd i f ds) = filter (\<lambda>d. dep_ID d \<noteq> i) (queue_of a ds)"
  using assms(2) unfolding queue_of_def by (induction ds) (auto simp: same_keyD [OF assms(1)])

text \<open>Taking a deployment that is not on its way out of the queue.\<close>

lemma flowing_remove:
  assumes "wf_ids ds" "all_flowing ds" "dep_row i ds = Some d" "\<not> in_flight (dep_Status d)"
    and "same_key f" "\<And>x. \<not> active (f x)"
  shows "all_flowing (dep_upd i f ds)"
proof
  fix a
  have "filter (\<lambda>e. dep_ID e \<noteq> i) (queue_of a ds) = x # rest \<Longrightarrow> dep_Status x \<noteq> DeployQueued" for x rest
  proof (cases "queue_of a ds")
    case (Cons y ys)
    assume q: "filter (\<lambda>e. dep_ID e \<noteq> i) (queue_of a ds) = x # rest"
    have y: "dep_Status y \<noteq> DeployQueued" using assms(2) Cons by (auto simp: flowing_def)
    have "dep_ID y \<noteq> i"
    proof
      assume "dep_ID y = i"
      with queue_head(3,4) [OF Cons] row_only [OF assms(1,3)] have "y = d" "active d" by auto
      with y assms(4) show False by (cases "dep_Status d") (auto simp: active_def)
    qed
    with Cons q y show ?thesis by simp
  qed simp
  then show "flowing a (dep_upd i f ds)" by (simp add: flowing_def queue_upd_inactive [OF assms(5,6)])
qed

text \<open>Advancing a deployment that is on its way, or only annotating it.\<close>

lemma flowing_upd:
  assumes "all_flowing ds" "same_key f" "\<And>d. d \<in> set ds \<Longrightarrow> dep_ID d = i \<Longrightarrow> active (f d) = active d"
    and "\<And>d. d \<in> set ds \<Longrightarrow> dep_ID d = i \<Longrightarrow> dep_Status (f d) = DeployQueued \<Longrightarrow> dep_Status d = DeployQueued"
  shows "all_flowing (dep_upd i f ds)"
proof
  fix a
  show "flowing a (dep_upd i f ds)"
  proof (cases "queue_of a ds")
    case (Cons y ys)
    with assms(1) queue_head(4) [OF Cons] assms(4) have "dep_Status (if dep_ID y = i then f y else y) \<noteq> DeployQueued"
      by (auto simp: flowing_def)
    with Cons show ?thesis by (simp add: flowing_def queue_upd_active [OF assms(2,3)])
  qed (simp add: flowing_def queue_upd_active [OF assms(2,3)])
qed

lemma flowing_advance:
  assumes "wf_ids ds" "all_flowing ds" "dep_row i ds = Some d" "in_flight (dep_Status d)" "in_flight s"
  shows "all_flowing (dep_upd i (set_status t s det) ds)"
proof (rule flowing_upd [OF assms(2)])
  fix e assume "e \<in> set ds" "dep_ID e = i"
  then have "e = d" using row_only [OF assms(1,3)] by simp
  then show "active (set_status t s det e) = active e" using assms(4,5) by (auto simp: active_in_flight in_flight_active)
  show "dep_Status (set_status t s det e) = DeployQueued \<Longrightarrow> dep_Status e = DeployQueued" using assms(5) by auto
qed simp

section \<open>Requests\<close>

text \<open>From solid ground with all queues flowing, an operation leaves all queues flowing.\<close>

definition steady :: "(deployment list \<Rightarrow> bool) \<Rightarrow> 'a op \<Rightarrow> bool" where
  "steady P m \<longleftrightarrow> (\<forall>w. solid w \<longrightarrow> all_flowing (w_deps w) \<longrightarrow> P (w_deps w) \<longrightarrow> all_flowing (w_deps (snd (m w))))"

lemma steadyI:
  "(\<And>w. solid w \<Longrightarrow> all_flowing (w_deps w) \<Longrightarrow> P (w_deps w) \<Longrightarrow> all_flowing (w_deps (snd (m w)))) \<Longrightarrow> steady P m"
  by (simp add: steady_def)

lemma steady_frame: "frames w_deps m \<Longrightarrow> steady P m"
  by (simp add: steady_def frames_def)

lemma steady_pre: "steady P' m \<Longrightarrow> (\<And>ds. P ds \<Longrightarrow> P' ds) \<Longrightarrow> steady P m"
  by (simp add: steady_def)

lemma steady_if: "(b \<Longrightarrow> steady P m) \<Longrightarrow> (\<not> b \<Longrightarrow> steady P n) \<Longrightarrow> steady P (if b then m else n)"
  by simp

lemma steady_case_sum:
  "(\<And>e. x = Inl e \<Longrightarrow> steady P (f e)) \<Longrightarrow> (\<And>y. x = Inr y \<Longrightarrow> steady P (g y)) \<Longrightarrow> steady P (case x of Inl e \<Rightarrow> f e | Inr y \<Rightarrow> g y)"
  by (cases x) auto

lemma steady_mapE: "steady P m \<Longrightarrow> steady P (mapE h m)"
  unfolding steady_def mapE_run by (simp split: prod.split sum.split) (metis snd_conv)

lemma steady_followed:
  assumes "steady P m" "\<And>x. frames w_deps (f x)"
  shows "steady P (bnd m f)"
proof (rule steadyI)
  fix w :: world assume w: "solid w" "all_flowing (w_deps w)" "P (w_deps w)"
  then have "all_flowing (w_deps (snd (m w)))" using assms(1) by (simp add: steady_def)
  moreover have "w_deps (snd (bnd m f w)) = w_deps (snd (m w))"
    using assms(2) by (auto simp: bnd_run frames_def split: prod.split sum.split)
  ultimately show "all_flowing (w_deps (snd (bnd m f w)))" by simp
qed

lemma steady_logged: "steady P m \<Longrightarrow> steady P (logged m)"
  unfolding logged_def by (rule steady_followed) (auto simp: steady_def attempt_run intro: fr split: prod.split)

lemma steady_reading:
  assumes "frames w_deps m" "keeps solid m"
    and "\<And>w r w'. m w = (r, w') \<Longrightarrow> (case r of Inl _ \<Rightarrow> True | Inr x \<Rightarrow> K x (w_deps w))"
    and "\<And>x. steady (\<lambda>ds. P ds \<and> K x ds) (f x)"
  shows "steady P (bnd m f)"
proof (rule steadyI)
  fix w :: world assume w: "solid w" "all_flowing (w_deps w)" "P (w_deps w)"
  obtain r w1 where m: "m w = (r, w1)" by fastforce
  have same: "w_deps w1 = w_deps w" using m assms(1) by (rule frames_run)
  have sol: "solid w1" using keeps_run [OF assms(2) w(1) m] .
  show "all_flowing (w_deps (snd (bnd m f w)))"
  proof (cases r)
    case (Inr x)
    with assms(3) [OF m] w same have "P (w_deps w1) \<and> K x (w_deps w1)" by simp
    with assms(4) [of x] sol same w(2) have "all_flowing (w_deps (snd (f x w1)))" unfolding steady_def by metis
    with m Inr show ?thesis by (simp add: bnd_run)
  qed (use m same w(2) in \<open>simp add: bnd_run\<close>)
qed

lemma steady_quiet: "frames w_deps m \<Longrightarrow> keeps solid m \<Longrightarrow> (\<And>x. steady P (f x)) \<Longrightarrow> steady P (bnd m f)"
  by (rule steady_reading [where K = "\<lambda>_ _. True"]) (auto split: sum.split)

lemma steady_get:
  assumes "\<And>d. steady (\<lambda>ds. dep_row i ds = Some d) (f d)"
  shows "steady P (bnd (mapE h (GetDeployment i)) f)"
  by (rule steady_reading [where K = "\<lambda>d ds. dep_row i ds = Some d"])
    (auto intro: fr sk keeps_mapE steady_pre [OF assms] split: sum.split dest: GetDeployment_row simp: mapE_Inr_iff)

lemma steady_get_attempt:
  assumes "\<And>d. steady (\<lambda>ds. dep_row i ds = Some d) (f d)" and "\<And>e. steady P (g e)"
  shows "steady P (bnd (attempt (GetDeployment i)) (\<lambda>r. case r of Inl e \<Rightarrow> g e | Inr d \<Rightarrow> f d))"
  by (rule steady_reading [where K = "\<lambda>r ds. case r of Inl _ \<Rightarrow> True | Inr d \<Rightarrow> dep_row i ds = Some d"])
    (auto intro: fr sk keeps_attempt steady_pre [OF assms(1)] steady_pre [OF assms(2)] split: sum.split
      dest: GetDeployment_row simp: attempt_run split: prod.splits)

lemma steady_update:
  assumes "\<And>ds t. wf_ids ds \<Longrightarrow> all_flowing ds \<Longrightarrow> P ds \<Longrightarrow> all_flowing (dep_upd i (set_status t s det) ds)"
  shows "steady P (UpdateDeploymentStatus i s det)"
proof (rule steadyI)
  fix w :: world assume w: "solid w" "all_flowing (w_deps w)" "P (w_deps w)"
  obtain r w' where run: "UpdateDeploymentStatus i s det w = (r, w')" by fastforce
  from update_deps [OF run] assms [of "w_deps w" "w_dbnow w"] w run
  show "all_flowing (w_deps (snd (UpdateDeploymentStatus i s det w)))" by (cases r) (auto simp: solid_def)
qed

lemma steady_keeping:
  assumes "steady P m" "\<And>x. keeps (\<lambda>w. all_flowing (w_deps w)) (f x)"
  shows "steady P (bnd m f)"
proof (rule steadyI)
  fix w :: world assume w: "solid w" "all_flowing (w_deps w)" "P (w_deps w)"
  obtain r w1 where m: "m w = (r, w1)" by fastforce
  from assms(1) w m have "all_flowing (w_deps w1)" unfolding steady_def by (metis snd_conv)
  with keepsD [OF assms(2)] m show "all_flowing (w_deps (snd (bnd m f w)))" by (cases r) (simp_all add: bnd_run)
qed

lemma steady_failParked:
  "\<not> in_flight (dep_Status d) \<Longrightarrow> steady (\<lambda>ds. dep_row i ds = Some d) (failParked d det)"
  unfolding failParked_def
proof (intro steady_mapE steady_update)
  fix ds t assume "\<not> in_flight (dep_Status d)" "wf_ids ds" "all_flowing ds" "dep_row i ds = Some d"
  with dep_row_Some [of i ds d] show "all_flowing (dep_upd (dep_ID d) (set_status t DeployFailed det) ds)"
    by (intro flowing_remove [where d = d]) (auto simp: inactive_statuses)
qed

lemma steady_endActive:
  assumes "\<not> Terminal (dep_Status d)"
  shows "steady (\<lambda>ds. dep_row i ds = Some d) (endActive cfg d det b)"
proof (rule steadyI, rule allI)
  fix w :: world and c
  assume w: "solid w" "all_flowing (w_deps w)" and row: "dep_row i (w_deps w) = Some d"
  have i: "dep_ID d = i" using dep_row_Some [OF row] by simp
  let ?a = "dep_ApplicationID d"
  have "drives ?a i (alive ?a i) (endActive cfg d det b) (\<lambda>_ _. True) (\<lambda>_. True)"
    unfolding endActive_def using endActive_drives [OF start_drives refl i] by blast
  then have dr: "drive ?a i (w_deps w) (w_deps (snd (endActive cfg d det b w)))"
    using w(1) row_alive [OF row assms] i unfolding drives_def solid_def by (metis surjective_pairing)
  have "flowing ?a (w_deps (snd (endActive cfg d det b w)))"
    unfolding endActive_def
    by (rule endActive_flows [OF start_settles [of "Suc (rivals i w)"] w(1) _ refl]) (simp_all add: i row)
  then show "flowing c (w_deps (snd (endActive cfg d det b w)))"
    using flowing_drive [OF dr] w by (cases "c = ?a") (auto simp: solid_def)
qed

lemma steady_fail: "\<not> Terminal (dep_Status d) \<Longrightarrow> steady (\<lambda>ds. dep_row i ds = Some d) (fail cfg d det)"
  using steady_endActive [of d i cfg det True]
  by (simp add: fail_def fail_with_def endActive_def steady_def runs split: prod.split) (metis snd_conv)

lemma stamp_all: "keeps (\<lambda>w. all_flowing (w_deps w)) (SetDeploymentEnvResolved i)"
proof (rule keepsI)
  fix w :: world assume fl: "all_flowing (w_deps w)"
  obtain r w' where run: "SetDeploymentEnvResolved i w = (r, w')" by fastforce
  have "all_flowing (dep_upd i (dep_EnvResolvedAt_update (\<lambda>_. Some (w_dbnow w))) (w_deps w))"
    by (rule flowing_upd [OF fl]) (auto simp: active_def)
  with stamp_deps [OF run] fl run show "all_flowing (w_deps (snd (SetDeploymentEnvResolved i w)))"
    by (cases r) simp_all
qed

lemma quiet_all: "frames w_deps m \<Longrightarrow> keeps (\<lambda>w. all_flowing (w_deps w)) m"
  by (simp add: keeps_def frames_def)

lemma steady_stages:
  assumes "in_flight (dep_Status d)"
  shows "steady (\<lambda>ds. dep_row i ds = Some d) (startDistribute d app rv)"
    and "steady (\<lambda>ds. dep_row i ds = Some d) (startRollout cfg d app rv)"
proof -
  have upd: "steady (\<lambda>ds. dep_row i ds = Some d) (UpdateDeploymentStatus (dep_ID d) s det)" if "in_flight s" for s det
    by (rule steady_update) (use flowing_advance assms that dep_row_Some in blast)
  show "steady (\<lambda>ds. dep_row i ds = Some d) (startDistribute d app rv)"
    unfolding startDistribute_def promotedSourceImage_def Let_def by (rule steady_followed [OF upd]) (simp, intro fr)
  show "steady (\<lambda>ds. dep_row i ds = Some d) (startRollout cfg d app rv)"
    unfolding startRollout_def
    by (rule steady_keeping [OF upd], simp, rule keeps_bnd, intro quiet_all fr, rule keeps_bnd,
        intro keeps_attempt stamp_all, intro quiet_all fr)
qed

lemma flowing_complete:
  assumes "complete a i ds ds'" "wf_ids ds" "b \<noteq> a"
  shows "flowing b ds' = flowing b ds"
  using others_complete [OF assms(1,2)] others_queue [OF assms(3)] by (metis flowing_def)

lemma steady_complete:
  assumes "dep_Status d = DeployRollingOut"
  shows "steady (\<lambda>ds. dep_row (dep_ID d) ds = Some d) (complete_deployment cfg app d)"
proof (rule steadyI, rule allI)
  fix w :: world and c
  assume w: "solid w" "all_flowing (w_deps w)" and row: "dep_row (dep_ID d) (w_deps w) = Some d"
  let ?a = "dep_ApplicationID d" and ?w' = "snd (complete_deployment cfg app d w)"
  have wf: "wf_ids (w_deps w)" using w(1) by (simp add: solid_def)
  obtain x w1 where upd: "UpdateDeploymentStatus (dep_ID d) DeploySucceeded [] w = (Inr x, w1)" "solid w1"
    using calm_update [OF w(1) row] by blast
  obtain u w2 where stamp: "ApplyDeploymentEnvStamp (dep_ID d) w1 = (u, w2)" by fastforce
  obtain v w3 where tell: "emitDeploy cfg app x w2 = (Inr v, w3)" using never_fails_run [OF never_fails_emit] by blast
  have "solid w3" using keeps_run [OF solid_other_writes(10) keeps_run [OF solid_other_writes(6) upd(2) stamp] tell] .
  moreover have "?w' = snd (promoteNext cfg ?a w3)"
    using upd(1) stamp tell by (simp add: complete_deployment_def bnd_run attempt_run)
  ultimately have own: "flowing ?a (w_deps ?w')" using promoteNext_flows by simp
  show "flowing c (w_deps ?w')"
  proof (cases "c = ?a")
    case False
    from complete_run [OF wf row assms, of cfg app] show ?thesis
    proof (elim disjE exE conjE)
      fix ds1 assume ds1: "complete ?a (dep_ID d) (w_deps w) ds1" "drive ?a (dep_ID d) ds1 (w_deps ?w')"
      have "flowing c ds1" using flowing_complete [OF ds1(1) wf False] w(2) by simp
      with flowing_drive [OF ds1(2) complete_wf [OF ds1(1) wf] False] show ?thesis by simp
    qed (use w(2) in simp)
  qed (use own in simp)
qed

text \<open>
  Starting at the head. \<open>due a i ds\<close>: every queue flows, except that deployment \<open>i\<close> may have come to
  the head of the queue of \<open>a\<close> without being started yet.
\<close>

definition due :: "string \<Rightarrow> string \<Rightarrow> deployment list \<Rightarrow> bool" where
  "due a i ds \<longleftrightarrow> (\<forall>b. flowing b ds \<or> (b = a \<and> (\<exists>x rest. queue_of a ds = x # rest \<and> dep_ID x = i)))"

lemma tryStart_settles:
  assumes "solid w" "due (dep_ApplicationID dep) (dep_ID dep) (w_deps w)"
    and "\<And>x. dep_row (dep_ID dep) (w_deps w) = Some x \<Longrightarrow> dep_RevisionID x = dep_RevisionID dep"
  shows "all_flowing (w_deps (snd (tryStart cfg dep w)))"
proof
  fix c
  let ?a = "dep_ApplicationID dep" and ?i = "dep_ID dep"
  have wf: "wf_ids (w_deps w)" using assms(1) by (simp add: solid_def)
  have sol: "solid (bump w)" using assms(1) by (simp add: solid_def bump_def)
  have dr: "drive ?a ?i (w_deps w) (w_deps (snd (tryStart cfg dep w)))"
    using tryStart_drives [of dep ?a ?i cfg] wf unfolding drives_def by (metis surjective_pairing)
  have list: "ListActiveDeploymentsByApplication ?a w = (Inr (queue_of ?a (w_deps w)), bump w)"
    by (rule calm_queue [OF assms(1)])
  show "flowing c (w_deps (snd (tryStart cfg dep w)))"
  proof (cases "c = ?a")
    case False
    then show ?thesis using flowing_drive [OF dr wf] assms(2) by (auto simp: due_def)
  next
    case True
    show ?thesis
    proof (cases "\<exists>x rest. queue_of ?a (w_deps w) = x # rest \<and> dep_ID x = ?i")
      case False
      then have "flowing ?a (w_deps w)" using assms(2) by (auto simp: due_def)
      moreover have "w_deps (snd (tryStart cfg dep w)) = w_deps w"
        using False list by (auto simp: tryStart_def runs seen_deps.io_blind split: list.split)
      ultimately show ?thesis using True by simp
    next
      case True
      then obtain x rest where x: "queue_of ?a (w_deps w) = x # rest" "dep_ID x = ?i" by blast
      have rev: "dep_RevisionID dep = dep_RevisionID x"
        using assms(3) dep_row_unique [OF wf queue_head(4) [OF x(1)]] x(2) by simp
      have "tryStart cfg dep w = start cfg dep (bump w)" using list x by (simp add: tryStart_def runs)
      with start_flows [OF sol, of ?a x rest dep cfg] x rev \<open>c = ?a\<close> show ?thesis
        by (simp add: seen_deps.io_blind)
    qed
  qed
qed

lemma started_deps: "w_deps (snd (started_record cfg dep w)) = w_deps (snd (tryStart cfg dep w))"
proof -
  have "frames w_deps (GetDeployment i)" for i by (intro fr)
  then show ?thesis by (auto simp: started_record_def runs frames_def split: prod.split sum.split) (metis snd_conv)+
qed

lemma due_created:
  assumes "all_flowing ds" "dep_row (dep_ID d) ds = None" "dep_Status d = DeployQueued"
  shows "due (dep_ApplicationID d) (dep_ID d) (ds @ [d])"
  unfolding due_def
proof
  fix b
  show "flowing b (ds @ [d]) \<or> (b = dep_ApplicationID d \<and>
     (\<exists>x rest. queue_of (dep_ApplicationID d) (ds @ [d]) = x # rest \<and> dep_ID x = dep_ID d))"
  proof (cases "queue_of b ds")
    case Nil
    then show ?thesis using assms(3) by (auto simp: flowing_def queue_of_def active_def)
  next
    case (Cons y ys)
    with assms(1) have "dep_Status y \<noteq> DeployQueued" by (auto simp: flowing_def)
    moreover have "\<exists>zs. queue_of b (ds @ [d]) = y # zs" using Cons by (simp add: queue_of_def)
    ultimately show ?thesis by (auto simp: flowing_def)
  qed
qed

lemma flowing_parked:
  assumes "wf_ids (ds @ [d])" "all_flowing ds" "dep_Status d = DeployQueued"
  shows "all_flowing (dep_upd (dep_ID d) (set_status t DeployAwaitingApproval det) (ds @ [d]))"
proof -
  have fresh: "dep_row (dep_ID d) ds = None" using assms(1) by (auto simp: wf_ids_def dep_row_None)
  have "\<not> active (set_status t DeployAwaitingApproval det d)" by (simp add: inactive_statuses)
  then have "queue_of a (dep_upd (dep_ID d) (set_status t DeployAwaitingApproval det) (ds @ [d])) = queue_of a ds" for a
    using dep_upd_missing [OF fresh] by (simp add: queue_of_def)
  with assms(2) show ?thesis by (simp add: flowing_def)
qed

lemma park_flows:
  assumes "solid w" "w_deps w = ds @ [dep]" "all_flowing ds" "dep_Status dep = DeployQueued"
  shows "all_flowing (w_deps (snd (park (protection_gate p) dep app adm u w)))"
proof -
  have wf: "wf_ids (ds @ [dep])" using assms(1,2) by (simp add: solid_def)
  have row: "dep_row (dep_ID dep) (w_deps w) = Some dep" using dep_row_unique [OF wf] assms(2) by simp
  define det where "det = ''waiting for approval from '' @ articleFor (adm_RequiredRole adm)"
  obtain x w1 where upd: "UpdateDeploymentStatus (dep_ID dep) DeployAwaitingApproval det w = (Inr x, w1)" "solid w1" "dep_ID x = dep_ID dep"
    "w_deps w1 = dep_upd (dep_ID dep) (set_status (w_dbnow w) DeployAwaitingApproval det) (w_deps w)"
    using calm_update [OF assms(1) row] by blast
  have fl: "all_flowing (w_deps w1)" using flowing_parked [OF wf assms(3,4)] upd(4) assms(2) by simp
  have rowx: "dep_row (dep_ID x) (w_deps w1) = Some x" "\<not> in_flight (dep_Status x)"
    using update_deps [OF upd(1)] upd(3) by (auto simp: dep_row_upd)
  obtain r w2 where pk: "Park p x (app_EnvironmentID app) u (adm_RequiredRole adm) w1 = (r, w2)" by fastforce
  have w2: "solid w2" "w_deps w2 = w_deps w1"
    using keeps_run [OF solid_Park upd(2) pk] frames_run [OF pk Park_frames(1)] by auto
  show ?thesis
  proof (cases r)
    case (Inr v)
    with upd(1) pk fl w2 show ?thesis
      by (simp add: park_def protection_gate_def bnd_run attempt_run det_def)
  next
    case (Inl e)
    define msg where "msg = ''could not record the approval request '' @ dash @ '' deploy again''"
    have "all_flowing (w_deps (snd (failParked x msg w2)))"
      using steady_failParked [OF rowx(2), of "dep_ID x" msg] w2 fl rowx(1) by (simp add: steady_def)
    moreover have "snd (park (protection_gate p) dep app adm u w) = snd (failParked x msg w2)"
      unfolding park_def using upd(1) pk Inl
      by (simp add: protection_gate_def bnd_run attempt_run det_def msg_def split: prod.split)
    ultimately show ?thesis by simp
  qed
qed

lemma steady_created:
  "steady P (bnd (mapE h (CreateDeployment nd a rv t)) (\<lambda>dep. finish_deploy (wire pc cfg) dep app adm u))"
proof (rule steadyI)
  fix w :: world assume w: "solid w" "all_flowing (w_deps w)"
  obtain r w1 where mk: "CreateDeployment nd a rv t w = (r, w1)" by fastforce
  note eff = create_deps [OF mk] and sol = keeps_run [OF solid_create w(1) mk]
  show "all_flowing (w_deps (snd (bnd (mapE h (CreateDeployment nd a rv t)) (\<lambda>dep. finish_deploy (wire pc cfg) dep app adm u) w)))"
  proof (cases r)
    case (Inl e)
    with mk eff w(2) show ?thesis by (auto simp: bnd_run mapE_run)
  next
    case (Inr d)
    with eff have d: "w_deps w1 = w_deps w @ [d]" "dep_row (dep_ID d) (w_deps w) = None" "dep_Status d = DeployQueued" by auto
    have "all_flowing (w_deps (snd (finish_deploy (wire pc cfg) d app adm u w1)))"
    proof (cases "adm_NeedsApproval adm \<and> pc \<noteq> None")
      case True
      then obtain p where "finish_deploy (wire pc cfg) d app adm u = park (protection_gate p) d app adm u"
        by (auto simp: finish_deploy_def wire_gates)
      with park_flows [OF sol d(1) w(2) d(3)] show ?thesis by simp
    next
      case False
      then have "finish_deploy (wire pc cfg) d app adm u = started_record (wire pc cfg) d"
        by (cases pc; cases "adm_NeedsApproval adm") (auto simp: finish_deploy_def wire_gates)
      moreover have "dep_row (dep_ID d) (w_deps w1) = Some d" using d dep_row_snoc by simp
      ultimately show ?thesis
        using tryStart_settles [OF sol, of d] due_created [OF w(2) d(2,3)] d(1) by (simp add: started_deps)
    qed
    with mk Inr show ?thesis by (simp add: bnd_run mapE_run)
  qed
qed

text \<open>A promotion writes the server of the artifact between the creation and the start.\<close>

lemma calm_builder:
  assumes "solid w" "dep_row i (w_deps w) = Some d"
  shows "\<exists>x w'. SetDeploymentBuilder i b w = (Inr x, w') \<and> solid w' \<and> x = d\<lparr>dep_BuilderServerID := Some b\<rparr>
    \<and> w_deps w' = dep_upd i (dep_BuilderServerID_update (\<lambda>_. Some b)) (w_deps w)"
proof -
  obtain r w' where run: "SetDeploymentBuilder i b w = (r, w')" by fastforce
  have sol: "solid w'" using solid_writes(2) assms(1) run by (rule keeps_run)
  have row: "dep_row i (dep_upd i (dep_BuilderServerID_update (\<lambda>_. Some b)) (w_deps w)) = Some (d\<lparr>dep_BuilderServerID := Some b\<rparr>)"
    using assms(2) by (simp add: dep_row_upd)
  have "\<exists>x. r = Inr x"
    using run row by (simp add: SetDeploymentBuilder_def calm_query [OF assms(1)] runs one_row_def upd_dep_def bump_def
        dep_row_def [symmetric] dep_upd_def [symmetric]) auto
  with builder_deps [OF run] row run sol show ?thesis by auto
qed

lemma steady_promoted: "steady P (promote_admitted (wire pc cfg) nr nd plan i source target adm u)"
  unfolding promote_admitted_def
proof (rule steady_quiet, intro fr, intro sk, rule steadyI)
  fix rv and w :: world
  assume w: "solid w" "all_flowing (w_deps w)"
  let ?h = "Wrapped ''scheduler: creating the promotion deployment''"
  let ?k = "Wrapped (''scheduler: recording the artifact'' @ [CHR 0x27] @ ''s server'')"
  let ?finish = "\<lambda>d. case (adm_NeedsApproval adm, sc_gate (wire pc cfg)) of
     (True, Some g) \<Rightarrow> park g d target adm u | _ \<Rightarrow> bnd (tryStart (wire pc cfg) d) (\<lambda>_. GetDeployment (dep_ID d))"
  let ?rest = "\<lambda>d0. bnd (mapE ?k (SetDeploymentBuilder (dep_ID d0) (rt_ServerID (app_Runtime source)))) ?finish"
  obtain r w1 where mk: "CreateDeployment nd (app_ID target) (rev_ID rv) ''promotion'' w = (r, w1)" by fastforce
  note eff = create_deps [OF mk] and sol = keeps_run [OF solid_create w(1) mk]
  show "all_flowing (w_deps (snd (bnd (mapE ?h (CreateDeployment nd (app_ID target) (rev_ID rv) ''promotion'')) ?rest w)))"
  proof (cases r)
    case (Inl e)
    with mk eff w(2) show ?thesis by (auto simp: bnd_run mapE_run)
  next
    case (Inr d0)
    with eff have d0: "w_deps w1 = w_deps w @ [d0]" "dep_row (dep_ID d0) (w_deps w) = None" "dep_Status d0 = DeployQueued" by auto
    then have "dep_row (dep_ID d0) (w_deps w1) = Some d0" using dep_row_snoc by simp
    from calm_builder [OF sol this] obtain w2 where
      set: "SetDeploymentBuilder (dep_ID d0) (rt_ServerID (app_Runtime source)) w1
        = (Inr (d0\<lparr>dep_BuilderServerID := Some (rt_ServerID (app_Runtime source))\<rparr>), w2)" "solid w2"
      "w_deps w2 = dep_upd (dep_ID d0) (dep_BuilderServerID_update (\<lambda>_. Some (rt_ServerID (app_Runtime source)))) (w_deps w1)" by blast
    define d where "d = d0\<lparr>dep_BuilderServerID := Some (rt_ServerID (app_Runtime source))\<rparr>"
    have deps: "w_deps w2 = w_deps w @ [d]" "dep_row (dep_ID d) (w_deps w) = None" "dep_Status d = DeployQueued"
      using set(3) d0 dep_upd_missing [OF d0(2)] by (auto simp: d_def dep_upd_def update_where_def)
    have "all_flowing (w_deps (snd (?finish d w2)))"
    proof (cases "adm_NeedsApproval adm \<and> pc \<noteq> None")
      case True
      then obtain p where "?finish d = park (protection_gate p) d target adm u" by (auto simp: wire_gates)
      with park_flows [OF set(2) deps(1) w(2) deps(3)] show ?thesis by simp
    next
      case False
      then have "?finish d = bnd (tryStart (wire pc cfg) d) (\<lambda>_. GetDeployment (dep_ID d))"
        by (cases pc; cases "adm_NeedsApproval adm") (auto simp: wire_gates)
      moreover have "w_deps (snd (bnd (tryStart c d) (\<lambda>_. GetDeployment (dep_ID d)) v)) = w_deps (snd (tryStart c d v))" for c v
      proof -
        have "frames w_deps (GetDeployment (dep_ID d))" by (intro fr)
        then show ?thesis by (auto simp: bnd_run frames_def split: prod.split sum.split)
      qed
      moreover have "dep_row (dep_ID d) (w_deps w2) = Some d" using deps dep_row_snoc by simp
      ultimately show ?thesis
        using tryStart_settles [OF set(2), of d] due_created [OF w(2) deps(2,3)] deps(1) by simp
    qed
    with mk Inr set(1) [folded d_def] show ?thesis by (simp add: bnd_run mapE_run)
  qed
qed

lemma steady_Promote: "steady P (PromoteRevision (wire pc cfg) nr nd i a u)"
  unfolding PromoteRevision_def
  by (rule steady_quiet, intro fr, intro sk, split list.split, intro conjI impI allI, rule steady_quiet, intro fr, intro sk,
      rule steady_quiet, intro fr, intro sk, rule steady_quiet, intro fr, intro sk, rule steady_quiet, rule quiet_admit, simp, rule sk,
      rule steady_if, intro steady_frame fr, rule steady_quiet, rule quiet_quota, simp, rule sk, rule steady_promoted, intro steady_frame fr)

lemma steady_DeployAs: "steady P (DeployAs (wire pc cfg) nr nd a t ref u)"
  unfolding DeployAs_def Let_def
  by (rule steady_quiet, intro fr, intro tri sk, rule steady_quiet, rule quiet_admit, simp, rule sk, rule steady_if,
      intro steady_frame fr, rule steady_quiet, rule quiet_quota, simp, rule sk, rule steady_quiet, intro fr, intro tri sk,
      rule steady_quiet, intro fr, intro tri sk) (rule steady_created)

lemma steady_RollbackAs: "steady P (RollbackAs (wire pc cfg) nd i u)"
  unfolding RollbackAs_def
  by (rule steady_quiet, intro fr, intro tri sk, rule steady_quiet, intro fr, intro tri sk, rule steady_if,
      intro steady_frame fr, rule steady_quiet, intro fr, intro tri sk, rule steady_quiet, rule quiet_admit, simp,
      rule sk, rule steady_if, intro steady_frame fr) (rule steady_created)

lemma due_released:
  assumes "wf_ids ds" "all_flowing ds" "dep_row i ds = Some d" "Parked (dep_Status d)"
  shows "due (dep_ApplicationID d) i (dep_upd i (set_status t DeployQueued det) ds)"
  unfolding due_def
proof
  fix b
  let ?f = "set_status t DeployQueued det" and ?ds = "dep_upd i (set_status t DeployQueued det) ds"
  show "flowing b ?ds \<or> (b = dep_ApplicationID d \<and> (\<exists>x rest. queue_of (dep_ApplicationID d) ?ds = x # rest \<and> dep_ID x = i))"
  proof (cases "queue_of b ?ds")
    case (Cons x rest)
    show ?thesis
    proof (cases "dep_ID x = i")
      case True
      have "dep_ApplicationID x = dep_ApplicationID d"
      proof -
        obtain e where e: "e \<in> set ds" "x = (if dep_ID e = i then ?f e else e)"
          using queue_head(4) [OF Cons] by (auto simp: in_dep_upd)
        with True have "dep_ID e = i" by (auto simp: same_keyD [OF same_key_set_status] split: if_splits)
        with e row_only [OF assms(1,3)] show ?thesis by (simp add: same_keyD [OF same_key_set_status])
      qed
      with True Cons queue_head(2) [OF Cons] show ?thesis by auto
    next
      case False
      have inact: "\<not> active d" using assms(4) by (simp add: active_def Parked_def)
      have same: "filter (\<lambda>y. dep_ID y \<noteq> i) (queue_of b ?ds) = queue_of b ds"
      proof -
        have "active e \<Longrightarrow> dep_ID e \<noteq> i" if "e \<in> set ds" for e
          using row_only [OF assms(1,3) that] inact by auto
        then show ?thesis unfolding queue_of_def
          by (induction ds) (auto simp: same_keyD [OF same_key_set_status])
      qed
      have "queue_of b ds = x # filter (\<lambda>y. dep_ID y \<noteq> i) rest" using same Cons False by simp
      with assms(2) have "dep_Status x \<noteq> DeployQueued" by (auto simp: flowing_def)
      with Cons show ?thesis by (simp add: flowing_def)
    qed
  qed (simp add: flowing_def)
qed

lemma steady_ApproveDeployment: "steady P (ApproveDeployment cfg i)"
  unfolding ApproveDeployment_def
proof (rule steady_get, rule steady_if, intro steady_frame fr, rule steadyI)
  fix d :: deployment and w :: world
  assume p: "\<not> \<not> Parked (dep_Status d)" and w: "solid w" "all_flowing (w_deps w)" and row: "dep_row i (w_deps w) = Some d"
  have wf: "wf_ids (w_deps w)" using w(1) by (simp add: solid_def)
  have i: "dep_ID d = i" using dep_row_Some [OF row] by simp
  obtain x w1 where upd: "UpdateDeploymentStatus i DeployQueued [] w = (Inr x, w1)" "solid w1" "dep_ID x = i"
    "dep_ApplicationID x = dep_ApplicationID d" "w_deps w1 = dep_upd i (set_status (w_dbnow w) DeployQueued []) (w_deps w)"
    using calm_update [OF w(1) row] by blast
  have rowx: "dep_row i (w_deps w1) = Some x" using update_deps [OF upd(1)] by auto
  have "due (dep_ApplicationID x) (dep_ID x) (w_deps w1)"
    using due_released [OF wf w(2) row] p upd(3-5) by simp
  then have "all_flowing (w_deps (snd (started_record cfg x w1)))"
    using tryStart_settles [OF upd(2), of x cfg] rowx upd(3) by (simp add: started_deps)
  with upd(1) i show "all_flowing (w_deps (snd (bnd (UpdateDeploymentStatus (dep_ID d) DeployQueued [])
      (\<lambda>queued. started_record cfg queued) w)))" by (simp add: bnd_run)
qed


lemma steady_RejectDeployment: "steady P (RejectDeployment i det)"
  unfolding RejectDeployment_def
  by (rule steady_get, rule steady_if, intro steady_frame fr, rule steady_failParked) (simp add: Parked_def)

lemma steady_Cancel: "steady P (Cancel cfg i who)"
  unfolding Cancel_def Let_def
  by (rule steady_get, rule steady_if, rule steady_failParked, force, rule steady_if, rule steady_endActive)
    (auto simp: Terminal_def intro: steady_frame fr)

lemma steady_events: "steady P (HandleDeployEvent cfg s ev)"
proof -
  let ?row = "\<lambda>d ds. dep_row (de_DeploymentId ev) ds = Some d"
  note failing = steady_fail [of _ "de_DeploymentId ev" cfg]
  have build: "steady (?row d) (handle_build cfg d app ev)" if "\<not> Terminal (dep_Status d)" for d app
    unfolding handle_build_def
    by (intro steady_if steady_logged steady_quiet failing [OF that] steady_stages tri sk steady_frame [OF frames_ret])
      (simp_all add: fr in_flight_def)
  have distribute: "steady (?row d) (handle_distribute cfg s d app ev)" if "\<not> Terminal (dep_Status d)" for d app
    unfolding handle_distribute_def
    by (intro steady_if steady_logged steady_quiet failing [OF that] steady_stages tri sk steady_frame [OF frames_ret])
      (simp_all add: fr in_flight_def)
  have rollout: "steady (?row d) (handle_rollout cfg d ev)" if "\<not> Terminal (dep_Status d)" for d
    unfolding handle_rollout_def by (intro steady_if failing [OF that] steady_frame [OF frames_ret])
  show ?thesis unfolding HandleDeployEvent_def
    by (rule steady_get_attempt, rule steady_if, intro steady_frame fr, rule steady_quiet, intro fr, intro tri sk,
        rule steady_case_sum, intro steady_frame fr, rule steady_if, intro steady_frame fr)
      (auto intro: build distribute rollout steady_frame fr split: stage.split)
qed

lemma steady_status: "steady P (HandleAppStatus cfg s st)"
proof -
  have hit: "steady (\<lambda>ds. l = queue_of a ds) (case List.find (completes st) l of
      None \<Rightarrow> ret () | Some d \<Rightarrow> complete_deployment cfg app d)" for l a app
  proof (rule steadyI)
    fix w :: world assume w: "solid w" "all_flowing (w_deps w)" and l: "l = queue_of a (w_deps w)"
    show "all_flowing (w_deps (snd ((case List.find (completes st) l of
        None \<Rightarrow> ret () | Some d \<Rightarrow> complete_deployment cfg app d) w)))"
    proof (cases "List.find (completes st) l")
      case (Some d)
      with find_Some_set [OF this] l have d: "d \<in> set (w_deps w)" "dep_Status d = DeployRollingOut"
        by (auto simp: completes_def queue_of_def)
      have "dep_row (dep_ID d) (w_deps w) = Some d" using dep_row_unique [OF _ d(1)] w(1) by (simp add: solid_def)
      with steady_complete [OF d(2), of cfg app] w Some show ?thesis by (simp add: steady_def)
    qed (use w in simp)
  qed
  have listing: "steady P' (bnd (attempt (ListActiveDeploymentsByApplication a)) (\<lambda>r. case r of Inl e \<Rightarrow> ret ()
      | Inr l \<Rightarrow> (case List.find (completes st) l of None \<Rightarrow> ret () | Some d \<Rightarrow> complete_deployment cfg app d)))"
    for P' a app
    by (rule steady_reading [where K = "\<lambda>r ds. case r of Inl _ \<Rightarrow> True | Inr l \<Rightarrow> l = queue_of a ds"])
      (auto intro: fr tri sk steady_frame steady_pre [OF hit] split: sum.split dest: ListActive_queue
        simp: attempt_run split: prod.splits)
  show ?thesis unfolding HandleAppStatus_def Let_def
    by (intro steady_quiet steady_case_sum steady_if listing steady_frame [OF frames_ret]) (intro fr tri sk)+
qed

section \<open>Recovery\<close>

text \<open>Besides being current where it is on its way, a snapshot entry names the revision its row names.\<close>

definition snapshot :: "deployment list \<Rightarrow> deployment list \<Rightarrow> bool" where
  "snapshot l ds \<longleftrightarrow> current l ds
     \<and> (\<forall>d \<in> set l. \<exists>x. dep_row (dep_ID d) ds = Some x \<and> dep_RevisionID x = dep_RevisionID d)"

lemma steady_recover_one: "steady (snapshot (d # l)) (recover_one cfg d)"
proof -
  have row: "dep_row (dep_ID d) ds = Some d" if "in_flight (dep_Status d)" "snapshot (d # l) ds" for ds
    using that by (simp add: snapshot_def current_def)
  have tries: "steady (snapshot (d # l)) (tryStart cfg d)"
    by (rule steadyI, rule tryStart_settles) (auto simp: snapshot_def due_def)
  have failing: "steady (snapshot (d # l)) (fail cfg d det)" if "in_flight (dep_Status d)" for det
    by (rule steady_pre [OF steady_fail [of _ "dep_ID d"] row [OF that]])
      (use that in_flight_active active_not_terminal in auto)
  have stages: "steady (snapshot (d # l)) (startDistribute d app rv)" "steady (snapshot (d # l)) (startRollout cfg d app rv)"
    if "in_flight (dep_Status d)" for app rv
    using steady_pre [OF steady_stages(1) [OF that] row [OF that]] steady_pre [OF steady_stages(2) [OF that] row [OF that]]
    by auto
  have build: "steady (snapshot (d # l)) (bnd (attempt (buildWork cfg d app rv)) (\<lambda>wk. case wk of
        Inl e \<Rightarrow> fail cfg d (error_text e) | Inr work \<Rightarrow> PublishWork s k (BuildWork work)))"
    if "in_flight (dep_Status d)" for app rv s k
    by (intro steady_quiet steady_case_sum failing [OF that] steady_frame fr tri sk)
  have "steady (snapshot (d # l)) (case dep_Status d of
       DeployBuilding \<Rightarrow> bnd (attempt (buildWork cfg d app rv)) (\<lambda>wk. case wk of
          Inl e \<Rightarrow> fail cfg d (error_text e)
        | Inr work \<Rightarrow> PublishWork (Build (builderFor d app)) (dep_ID d @ ''.build'') (BuildWork work))
     | DeployDistributing \<Rightarrow> startDistribute d app rv
     | _ \<Rightarrow> startRollout cfg d app rv)"
    if "dep_Status d \<noteq> DeployQueued" "\<not> (Terminal (dep_Status d) \<or> dep_Status d = DeployAwaitingApproval)" for app rv
    using that stages [of app rv] build [of app rv] by (cases "dep_Status d") simp_all
  then show ?thesis unfolding recover_one_def
    by (intro steady_if steady_logged tries steady_quiet steady_frame [OF frames_ret]) (intro fr tri sk | simp)+
qed

lemma evolves_row:
  assumes "evolves ds ds'" "wf_ids ds'" "dep_row i ds = Some x"
  shows "\<exists>y. dep_row i ds' = Some y \<and> dep_RevisionID y = dep_RevisionID x"
proof -
  obtain k where k: "k < length ds" "ds ! k = x" "dep_ID x = i"
    using dep_row_Some [OF assms(3)] by (auto simp: in_set_conv_nth)
  with assms(1) have y: "dep_ID (ds' ! k) = i" "dep_RevisionID (ds' ! k) = dep_RevisionID x" "ds' ! k \<in> set ds'"
    by (auto simp: evolves_def)
  with dep_row_unique [OF assms(2) y(3)] show ?thesis by auto
qed

lemma snapshot_step:
  assumes "drive a (dep_ID d) ds ds'" "wf_ids ds" "snapshot (d # l) ds"
  shows "snapshot l ds'"
proof -
  have "current l ds'"
    using assms(1,3) unfolding snapshot_def current_def drive_def kept_def by (auto simp: image_iff)
  moreover have "evolves ds ds'" using assms(1,2) by (auto simp: drive_def intro: evolves_pipes_any pipe_pipes)
  ultimately show ?thesis
    using assms(3) evolves_row [OF _ drive_wf [OF assms(1,2)]] unfolding snapshot_def
    by (metis list.set_intros(2))
qed

lemma recover_loop_flows:
  "solid w \<Longrightarrow> all_flowing (w_deps w) \<Longrightarrow> snapshot l (w_deps w) \<Longrightarrow>
     all_flowing (w_deps (snd (forE l (recover_one cfg) w)))"
proof (induction l arbitrary: w)
  case (Cons d l)
  obtain r w1 where one: "recover_one cfg d w = (r, w1)" by fastforce
  have wf: "wf_ids (w_deps w)" using Cons.prems(1) by (simp add: solid_def)
  from drivesD [where m = "recover_one cfg d", OF one recover_one_drives wf] Cons.prems(3)
  have dr: "drive (dep_ApplicationID d) (dep_ID d) (w_deps w) (w_deps w1)" by (auto simp: snapshot_def current_def)
  have "all_flowing (w_deps w1)"
    using steady_recover_one [of d l cfg] Cons.prems one unfolding steady_def by (metis snd_conv)
  moreover have "solid w1" using keeps_run [OF solid_recover_one Cons.prems(1) one] .
  moreover have "snapshot l (w_deps w1)" using snapshot_step [OF dr wf Cons.prems(3)] .
  ultimately show ?case using Cons.IH [of w1] one by (cases r) (simp_all add: bnd_run)
qed simp

lemma steady_Recover: "steady P (Recover cfg)"
  unfolding Recover_def
proof (rule steady_quiet, intro fr, intro tri sk, rule steady_quiet, intro fr, intro tri sk, rule steady_quiet, intro fr,
    unfold recover_databases_def, intro tri sk, rule steady_reading [where K = "\<lambda>l ds. l = filter active ds"], intro fr, intro tri sk)
  show "steady (\<lambda>ds. P ds \<and> l = filter active ds) (forE l (recover_one cfg))" for l
  proof (rule steadyI)
    fix w :: world
    assume w: "solid w" "all_flowing (w_deps w)" and l: "P (w_deps w) \<and> l = filter active (w_deps w)"
    have wf: "wf_ids (w_deps w)" using w(1) by (simp add: solid_def)
    have "snapshot l (w_deps w)"
      using current_snapshot [OF wf] l by (auto simp: snapshot_def dep_row_unique [OF wf])
    then show "all_flowing (w_deps (snd (forE l (recover_one cfg) w)))" using w by (rule recover_loop_flows [rotated 2])
  qed
qed (auto simp: mapE_Inr_iff split: sum.split dest: ListActive_all)

section \<open>Every request\<close>

lemma serve_flows:
  assumes "solid w" "all_flowing (w_deps w)"
  shows "all_flowing (w_deps (serve (wire pc cfg) rq w))"
proof -
  have run: "steady (\<lambda>_. True) m \<Longrightarrow> all_flowing (w_deps (snd (m w)))" for m :: "'a op"
    using assms by (simp add: steady_def)
  have quiet: "frames w_deps m \<Longrightarrow> all_flowing (w_deps (snd (m w)))" for m :: "'a op"
    by (rule run) (rule steady_frame)
  show ?thesis
    by (cases rq) (simp_all only: serve.simps ReconcileDatabase_def run [OF steady_DeployAs] run [OF steady_RollbackAs] run [OF steady_Promote]
        run [OF steady_ApproveDeployment] run [OF steady_RejectDeployment] run [OF steady_Cancel]
        run [OF steady_events] run [OF steady_status] run [OF steady_Recover] quiet fr simp_thms)
qed

end
