(* ===== verification/Teams.thy ===== *)
theory Teams
  imports Store
begin

text \<open>
  Tenancy (\<open>src/core/teams/teams.go\<close>, the statements of \<open>src/core/store/teams.go\<close>): teams, ranked
  memberships, panel accounts, and the rules that hold whatever route is taken: who may grant what,
  the last-owner guard, the delete guard. Identifiers the service mints and the password hash it
  computes are arguments.
\<close>

section \<open>Statements (store/teams.go, store.go, inbox.go, access.go)\<close>

definition CreateTeam :: "string \<Rightarrow> string \<Rightarrow> team op" where
  "CreateTeam i name = query ''creating team''
     (\<lambda>w. if \<exists>t \<in> set (w_teams w). team_ID t = i \<or> team_Name t = name then (Inl ErrConflict, w)
          else let t = \<lparr> team_ID = i, team_Name = name \<rparr> in (Inr t, w\<lparr>w_teams := w_teams w @ [t]\<rparr>))"

definition GetTeam :: "string \<Rightarrow> team op" where
  "GetTeam i = query ''getting team'' (one_row (\<lambda>t. team_ID t = i) w_teams)"

definition ListTeams :: "team list op" where
  "ListTeams = query ''listing teams'' (many_rows w_teams)"

definition RenameTeam :: "string \<Rightarrow> string \<Rightarrow> team op" where
  "RenameTeam i name = query ''renaming team''
     (\<lambda>w. case List.find (\<lambda>t. team_ID t = i) (w_teams w) of
        None \<Rightarrow> (Inl ErrNotFound, w)
      | Some t \<Rightarrow>
          if \<exists>u \<in> set (w_teams w). team_ID u \<noteq> i \<and> team_Name u = name then (Inl ErrConflict, w)
          else (Inr (t\<lparr>team_Name := name\<rparr>),
                w\<lparr>w_teams := update_where (\<lambda>t. team_ID t = i) (team_Name_update (\<lambda>_. name)) (w_teams w)\<rparr>))"

text \<open>
  Projects refer to their team without a cascade, so a team with projects cannot be deleted;
  memberships, invitations, requests and inbox items of the team go with it.
\<close>

definition DeleteTeam :: "string \<Rightarrow> unit op" where
  "DeleteTeam i = query ''deleting team''
     (\<lambda>w. if \<exists>p \<in> set (w_projects w). snd p = i then (Inl ErrInUse, w)
          else (Inr (), w\<lparr>w_teams := filter (\<lambda>t. team_ID t \<noteq> i) (w_teams w),
                          w_members := filter (\<lambda>m. tmb_TeamID m \<noteq> i) (w_members w),
                          w_invites := filter (\<lambda>v. inv_TeamID v \<noteq> i) (w_invites w),
                          w_requests := filter (\<lambda>r. acr_TeamID r \<noteq> i) (w_requests w),
                          w_inbox := filter (\<lambda>b. ib_TeamID b \<noteq> Some i) (w_inbox w),
                          w_quotas := filter (\<lambda>q. rq_TeamID q \<noteq> i) (w_quotas w)\<rparr>))"

definition CountTeamProjects :: "string \<Rightarrow> nat op" where
  "CountTeamProjects i = query ''counting team projects''
     (gets (\<lambda>w. length (filter (\<lambda>p. snd p = i) (w_projects w))))"

text \<open>\<open>INSERT ... ON CONFLICT (team_id, user_id) DO UPDATE SET role\<close>.\<close>

definition UpsertTeamMember :: "string \<Rightarrow> string \<Rightarrow> string \<Rightarrow> teamMember op" where
  "UpsertTeamMember teamID userID role = query ''upserting team member''
     (\<lambda>w. let m = \<lparr> tmb_TeamID = teamID, tmb_UserID = userID, tmb_Role = role \<rparr> in
          if \<exists>x \<in> set (w_members w). tmb_TeamID x = teamID \<and> tmb_UserID x = userID
          then (Inr m, w\<lparr>w_members := update_where (\<lambda>x. tmb_TeamID x = teamID \<and> tmb_UserID x = userID)
                  (tmb_Role_update (\<lambda>_. role)) (w_members w)\<rparr>)
          else if (\<forall>t \<in> set (w_teams w). team_ID t \<noteq> teamID) \<or> (\<forall>u \<in> set (w_users w). usr_ID u \<noteq> userID)
          then (Inl ErrNotFound, w)
          else (Inr m, w\<lparr>w_members := w_members w @ [m]\<rparr>))"

definition GetTeamMember :: "string \<Rightarrow> string \<Rightarrow> teamMember op" where
  "GetTeamMember teamID userID = query ''getting team member''
     (one_row (\<lambda>m. tmb_TeamID m = teamID \<and> tmb_UserID m = userID) w_members)"

text \<open>The listing joins the users table, so each member comes with an address.\<close>

definition ListTeamMembers :: "string \<Rightarrow> (teamMember \<times> string) list op" where
  "ListTeamMembers teamID = query ''listing team members''
     (many_rows (\<lambda>w. [(m, usr_Email u). m \<leftarrow> w_members w, tmb_TeamID m = teamID, u \<leftarrow> w_users w, usr_ID u = tmb_UserID m]))"

definition DeleteTeamMember :: "string \<Rightarrow> string \<Rightarrow> unit op" where
  "DeleteTeamMember teamID userID = query ''deleting team member''
     (modify (\<lambda>w. w\<lparr>w_members := filter (\<lambda>m. \<not> (tmb_TeamID m = teamID \<and> tmb_UserID m = userID)) (w_members w)\<rparr>))"

definition DeleteInboxItemsForTeamMember :: "string \<Rightarrow> string \<Rightarrow> unit op" where
  "DeleteInboxItemsForTeamMember teamID userID = query ''deleting inbox items for team member''
     (modify (\<lambda>w. w\<lparr>w_inbox := filter (\<lambda>b. \<not> (ib_UserID b = userID \<and> (ib_TeamID b = Some teamID
        \<or> (\<exists>p \<in> set (w_projects w). snd p = teamID \<and> ib_ProjectID b = Some (fst p))))) (w_inbox w)\<rparr>))"

definition live_invite :: "teamInvite \<Rightarrow> bool" where
  "live_invite v \<longleftrightarrow> inv_AcceptedAt v = None \<and> inv_RevokedAt v = None"

definition RevokeLiveTeamInvitesBy :: "string \<Rightarrow> string \<Rightarrow> nat op" where
  "RevokeLiveTeamInvitesBy teamID userID = query ''revoking team invites by member''
     (\<lambda>w. let hit = (\<lambda>v. inv_TeamID v = teamID \<and> inv_InvitedBy v = Some userID \<and> live_invite v) in
          (Inr (length (filter hit (w_invites w))),
           w\<lparr>w_invites := update_where hit (inv_RevokedAt_update (\<lambda>_. Some (w_dbnow w))) (w_invites w)\<rparr>))"

definition CountTeamOwners :: "string \<Rightarrow> nat op" where
  "CountTeamOwners teamID = query ''counting team owners''
     (gets (\<lambda>w. length (filter (\<lambda>m. tmb_TeamID m = teamID \<and> tmb_Role m = RoleOwner) (w_members w))))"

definition ListTeamsByUser :: "string \<Rightarrow> (team \<times> string) list op" where
  "ListTeamsByUser userID = query ''listing user teams''
     (many_rows (\<lambda>w. [(t, tmb_Role m). t \<leftarrow> w_teams w, m \<leftarrow> w_members w, tmb_TeamID m = team_ID t \<and> tmb_UserID m = userID]))"

definition GetTeamRoleForProject :: "string \<Rightarrow> string \<Rightarrow> string op" where
  "GetTeamRoleForProject projectID userID = query ''resolving project role''
     (bnd (one_row (\<lambda>x. True) (\<lambda>w. [m. p \<leftarrow> w_projects w, fst p = projectID, m \<leftarrow> w_members w,
         tmb_TeamID m = snd p \<and> tmb_UserID m = userID])) (\<lambda>m. ret (tmb_Role m)))"

definition GetUserByEmail :: "string \<Rightarrow> user op" where
  "GetUserByEmail email = query ''getting user by email'' (one_row (\<lambda>u. usr_Email u = email) w_users)"

definition StoreCreateUser :: "string \<Rightarrow> string \<Rightarrow> string \<Rightarrow> string \<Rightarrow> user op" where
  "StoreCreateUser i email passwordHash role = query ''creating user''
     (\<lambda>w. if \<exists>u \<in> set (w_users w). usr_ID u = i \<or> usr_Email u = email then (Inl ErrConflict, w)
          else let u = \<lparr> usr_ID = i, usr_Email = email, usr_PasswordHash = passwordHash, usr_Role = role,
                         usr_DisplayName = [], usr_Timezone = [], usr_TOTPEnabled = False \<rparr>
               in (Inr u, w\<lparr>w_users := w_users w @ [u]\<rparr>))"

definition StoreListUsers :: "user list op" where
  "StoreListUsers = query ''listing users'' (many_rows w_users)"

definition UpdateUserRole :: "string \<Rightarrow> string \<Rightarrow> user op" where
  "UpdateUserRole i role = query ''updating user role''
     (\<lambda>w. case List.find (\<lambda>u. usr_ID u = i) (w_users w) of
        None \<Rightarrow> (Inl ErrNotFound, w)
      | Some u \<Rightarrow> (Inr (u\<lparr>usr_Role := role\<rparr>),
          w\<lparr>w_users := update_where (\<lambda>u. usr_ID u = i) (usr_Role_update (\<lambda>_. role)) (w_users w)\<rparr>))"

text \<open>
  Memberships, sessions, tokens, second factor, pending address changes, requests and inbox items of the
  account go with it; invitations, decided
  requests, approvals and grants keep their row and forget the account.
\<close>

definition StoreDeleteUser :: "string \<Rightarrow> unit op" where
  "StoreDeleteUser i = query ''deleting user''
     (modify (\<lambda>w. if \<forall>u \<in> set (w_users w). usr_ID u \<noteq> i then w
        else w\<lparr>w_users := filter (\<lambda>u. usr_ID u \<noteq> i) (w_users w),
               w_members := filter (\<lambda>m. tmb_UserID m \<noteq> i) (w_members w),
               w_sessions := filter (\<lambda>s. ses_UserID s \<noteq> i) (w_sessions w),
               w_tokens := filter (\<lambda>t. tok_UserID t \<noteq> i) (w_tokens w),
               w_totp := filter (\<lambda>t. fst t \<noteq> i) (w_totp w),
               w_recovery := filter (\<lambda>c. rc_UserID c \<noteq> i) (w_recovery w),
               w_changes := filter (\<lambda>c. ech_UserID c \<noteq> i) (w_changes w),
               w_inbox := filter (\<lambda>b. ib_UserID b \<noteq> i) (w_inbox w),
               w_requests := map (\<lambda>r. if acr_DecidedBy r = Some i then r\<lparr>acr_DecidedBy := None\<rparr> else r)
                 (filter (\<lambda>r. acr_UserID r \<noteq> i) (w_requests w)),
               w_invites := map (\<lambda>v. if inv_InvitedBy v = Some i then v\<lparr>inv_InvitedBy := None\<rparr> else v) (w_invites w),
               w_approvals := map (\<lambda>a. a\<lparr>da_RequestedBy := (if da_RequestedBy a = i then [] else da_RequestedBy a),
                 da_DecidedBy := (if da_DecidedBy a = i then [] else da_DecidedBy a)\<rparr>) (w_approvals w),
               w_grants := map (\<lambda>g. if bg_OpenedBy g = i then g\<lparr>bg_OpenedBy := []\<rparr> else g) (w_grants w)\<rparr>))"

section \<open>Roles\<close>

definition RoleInTeam :: "user \<Rightarrow> string \<Rightarrow> string op" where
  "RoleInTeam actor teamID =
     (if usr_Role actor = RoleOwner then ret RoleOwner
      else bnd (attempt (GetTeamMember teamID (usr_ID actor))) (\<lambda>r.
           case r of
             Inl e \<Rightarrow> if errors_is e ErrNotFound then ret [] else throw e
           | Inr m \<Rightarrow> ret (tmb_Role m)))"

definition RoleForProject :: "user \<Rightarrow> string \<Rightarrow> string op" where
  "RoleForProject actor projectID =
     (if usr_Role actor = RoleOwner then ret RoleOwner
      else bnd (attempt (GetTeamRoleForProject projectID (usr_ID actor))) (\<lambda>r.
           case r of
             Inl e \<Rightarrow> if errors_is e ErrNotFound then ret [] else throw e
           | Inr role \<Rightarrow> ret role))"

section \<open>Teams\<close>

definition en_dash :: string where "en_dash = [CHR 0xE2, CHR 0x80, CHR 0x93]"

definition bad_team_name :: error where
  "bad_team_name = Invalid (''name must be 1'' @ en_dash @ ''100 characters'')"

definition TeamsCreate :: "string \<Rightarrow> string \<Rightarrow> user \<Rightarrow> team op" where
  "TeamsCreate newID name0 creator =
     (let name = trim_space name0 in
      if name = [] \<or> length name > 100 then throw bad_team_name
      else
        bnd (CreateTeam newID name) (\<lambda>t.
        bnd (attempt (UpsertTeamMember (team_ID t) (usr_ID creator) RoleOwner)) (\<lambda>r.
        case r of
          Inl e \<Rightarrow> bnd (attempt (DeleteTeam (team_ID t))) (\<lambda>_. throw (Wrapped ''teams: enrolling creator'' e))
        | Inr _ \<Rightarrow> ret t)))"

definition TeamsGet :: "string \<Rightarrow> team op" where
  "TeamsGet i = GetTeam i"

definition ListFor :: "user \<Rightarrow> (team \<times> string) list op" where
  "ListFor actor =
     (if usr_Role actor \<noteq> RoleOwner then ListTeamsByUser (usr_ID actor)
      else bnd ListTeams (\<lambda>ts. ret (map (\<lambda>t. (t, RoleOwner)) ts)))"

definition Rename :: "string \<Rightarrow> string \<Rightarrow> team op" where
  "Rename i name0 =
     (let name = trim_space name0 in
      if name = [] \<or> length name > 100 then throw bad_team_name else RenameTeam i name)"

definition TeamsDelete :: "string \<Rightarrow> unit op" where
  "TeamsDelete i =
     bnd (CountTeamProjects i) (\<lambda>n. if n > 0 then throw ErrTeamNotEmpty else DeleteTeam i)"

section \<open>Membership\<close>

definition requireGrantRank :: "string \<Rightarrow> string \<Rightarrow> unit op" where
  "requireGrantRank actorRole subjectRole =
     (if \<not> CanGrantRole actorRole subjectRole then throw TeamsForbidden else ret ())"

definition guardLastOwner :: "string \<Rightarrow> unit op" where
  "guardLastOwner teamID = bnd (CountTeamOwners teamID) (\<lambda>n. if n \<le> 1 then throw ErrLastOwner else ret ())"

definition bad_role :: error where
  "bad_role = Invalid ''role must be member, admin, or owner''"

definition Members :: "string \<Rightarrow> (teamMember \<times> string) list op" where
  "Members teamID = ListTeamMembers teamID"

text \<open>The member comes back with the account's address.\<close>

definition add_account :: "string \<Rightarrow> string \<Rightarrow> user \<Rightarrow> (teamMember \<times> string) op" where
  "add_account teamID role u =
     bnd (attempt (GetTeamMember teamID (usr_ID u))) (\<lambda>g.
     case g of
       Inr _ \<Rightarrow> throw (Invalid ''user is already a member of this team'')
     | Inl _ \<Rightarrow> bnd (UpsertTeamMember teamID (usr_ID u) role) (\<lambda>m. ret (m, usr_Email u)))"

definition AddMember :: "string \<Rightarrow> string \<Rightarrow> string \<Rightarrow> string \<Rightarrow> (teamMember \<times> string) op" where
  "AddMember teamID email role actorRole =
     (if \<not> ValidRole role then throw bad_role
      else
        bnd (requireGrantRank actorRole role) (\<lambda>_.
        bnd (attempt (GetUserByEmail (trim_space email))) (\<lambda>r.
        case r of
          Inl e \<Rightarrow> if errors_is e ErrNotFound then throw ErrUserNotFound else throw e
        | Inr u \<Rightarrow> add_account teamID role u)))"

text \<open>Everything \<open>ChangeMemberRole\<close> checks before it writes.\<close>

definition change_checks :: "string \<Rightarrow> string \<Rightarrow> string \<Rightarrow> string \<Rightarrow> unit op" where
  "change_checks teamID userID role actorRole =
     (if \<not> ValidRole role then throw bad_role
      else
        bnd (GetTeamMember teamID userID) (\<lambda>cur.
        bnd (requireGrantRank actorRole role) (\<lambda>_.
        bnd (requireGrantRank actorRole (tmb_Role cur)) (\<lambda>_.
        if tmb_Role cur = RoleOwner \<and> role \<noteq> RoleOwner then guardLastOwner teamID else ret ()))))"

definition ChangeMemberRole :: "string \<Rightarrow> string \<Rightarrow> string \<Rightarrow> string \<Rightarrow> teamMember op" where
  "ChangeMemberRole teamID userID role actorRole =
     bnd (change_checks teamID userID role actorRole) (\<lambda>_. UpsertTeamMember teamID userID role)"

text \<open>What goes after the membership: the member's inbox items of the team, and the invitations they issued.\<close>

definition clear_traces :: "string \<Rightarrow> string \<Rightarrow> unit op" where
  "clear_traces teamID userID =
     bnd (mapE (Wrapped (''teams: clearing inbox items for removed member '' @ userID))
            (DeleteInboxItemsForTeamMember teamID userID)) (\<lambda>_.
     bnd (mapE (Wrapped (''teams: revoking invitations issued by removed member '' @ userID))
            (RevokeLiveTeamInvitesBy teamID userID)) (\<lambda>_.
     ret ()))"

definition RemoveMember :: "string \<Rightarrow> string \<Rightarrow> string \<Rightarrow> unit op" where
  "RemoveMember teamID userID actorRole =
     bnd (GetTeamMember teamID userID) (\<lambda>cur.
     bnd (requireGrantRank actorRole (tmb_Role cur)) (\<lambda>_.
     bnd (if tmb_Role cur = RoleOwner then guardLastOwner teamID else ret ()) (\<lambda>_.
     bnd (DeleteTeamMember teamID userID) (\<lambda>_.
     clear_traces teamID userID))))"

section \<open>Accounts\<close>

text \<open>\<open>hash\<close> stands for bcrypt, which is not part of the repository.\<close>

definition CreateUser ::
  "(string \<Rightarrow> error + string) \<Rightarrow> string \<Rightarrow> string \<Rightarrow> string \<Rightarrow> string \<Rightarrow> string \<Rightarrow> user op" where
  "CreateUser hash newID email0 password role0 actorRole =
     (let email = trim_space email0 in
      if email = [] \<or> CHR ''@'' \<notin> set email then throw (Invalid ''a valid email is required'')
      else if length password < 12 then throw (Invalid ''password must be at least 12 characters'')
      else
        (let role = (if role0 = [] then RoleMember else role0) in
         if \<not> ValidRole role then throw bad_role
         else
           (let need = (if role \<noteq> RoleMember then RoleOwner else RoleAdmin) in
            if RoleRank actorRole < RoleRank need then throw TeamsForbidden
            else (case hash password of
                Inl e \<Rightarrow> throw (Wrapped ''teams: hashing password'' e)
              | Inr h \<Rightarrow> StoreCreateUser newID email h role))))"

definition ListUsers :: "user list op" where
  "ListUsers = StoreListUsers"

definition guardLastPanelOwner :: "unit op" where
  "guardLastPanelOwner =
     bnd StoreListUsers (\<lambda>us.
     if length (filter (\<lambda>u. usr_Role u = RoleOwner) us) \<le> 1 then throw ErrLastOwner else ret ())"

definition SetUserRole :: "string \<Rightarrow> string \<Rightarrow> user \<Rightarrow> user op" where
  "SetUserRole userID role actor =
     (if \<not> ValidRole role then throw bad_role
      else
        bnd (if userID = usr_ID actor \<and> role \<noteq> RoleOwner then guardLastPanelOwner else ret ()) (\<lambda>_.
        UpdateUserRole userID role))"

definition DeleteUser :: "string \<Rightarrow> user \<Rightarrow> unit op" where
  "DeleteUser userID actor =
     (if userID = usr_ID actor then throw (Invalid ''you cannot delete your own account'')
      else StoreDeleteUser userID)"


section \<open>Well-formed tenancy\<close>

definition member_key :: "teamMember \<Rightarrow> string \<times> string" where
  "member_key m = (tmb_TeamID m, tmb_UserID m)"

definition owners_of :: "teamMember list \<Rightarrow> (string \<times> string) set" where
  "owners_of ms = member_key ` {m \<in> set ms. tmb_Role m = RoleOwner}"

definition team_ids :: "world \<Rightarrow> string set" where
  "team_ids w = team_ID ` set (w_teams w)"

text \<open>The primary key of memberships, the foreign key of projects, and an owner for every team.\<close>

definition tenant :: "world \<Rightarrow> bool" where
  "tenant w \<longleftrightarrow> distinct (map member_key (w_members w)) \<and> snd ` set (w_projects w) \<subseteq> team_ids w
     \<and> team_ids w \<subseteq> fst ` owners_of (w_members w)"

definition tenancy_tables :: "world \<Rightarrow> string set \<times> teamMember list \<times> (string \<times> string) list" where
  "tenancy_tables w = (team_ids w, w_members w, w_projects w)"

lemma tenant_same: "tenancy_tables w' = tenancy_tables w \<Longrightarrow> tenant w' = tenant w"
  by (simp add: tenancy_tables_def tenant_def)

lemma tenancy_bump [simp]: "tenancy_tables (bump w) = tenancy_tables w" "tenancy_tables (at_rest w) = tenancy_tables w"
  by (simp_all add: tenancy_tables_def team_ids_def bump_def at_rest_def)

lemma members_bump [simp]: "w_members (bump w) = w_members w" "w_projects (bump w) = w_projects w" "w_teams (bump w) = w_teams w"
    "w_users (bump w) = w_users w" "w_faults (bump w) = w_faults w"
  by (simp_all add: bump_def)

lemma tenant_bump [simp]: "tenant (bump w) = tenant w" "tenant (at_rest w) = tenant w"
  by (rule tenant_same, simp)+

lemma tenant_reads: "reads m \<Longrightarrow> keeps tenant m"
  by (rule reads_keeps) simp_all

lemma reads_teams [rd]:
  "reads (GetTeam i)" "reads ListTeams" "reads (CountTeamProjects i)" "reads (GetTeamMember t u)"
  "reads (ListTeamMembers t)" "reads (CountTeamOwners t)" "reads (ListTeamsByUser u)"
  "reads (GetTeamRoleForProject p u)" "reads (GetUserByEmail em)" "reads StoreListUsers"
  unfolding GetTeam_def ListTeams_def CountTeamProjects_def GetTeamMember_def ListTeamMembers_def CountTeamOwners_def
    ListTeamsByUser_def GetTeamRoleForProject_def GetUserByEmail_def StoreListUsers_def
  by (intro rd)+

lemma reads_roles [rd]:
  "reads (RoleInTeam actor t)" "reads (RoleForProject actor p)" "reads (ListFor actor)"
  "reads (requireGrantRank a r)" "reads (guardLastOwner t)" "reads guardLastPanelOwner"
  "reads (change_checks t u r a)"
  unfolding RoleInTeam_def RoleForProject_def ListFor_def requireGrantRank_def guardLastOwner_def
    guardLastPanelOwner_def change_checks_def
  by (intro rd)+

text \<open>A statement runs after one round trip; a statement the round trip fails for does not write.\<close>

lemma query_run:
  "query n m w = (case w_faults w (w_io w) of Some msg \<Rightarrow> (Inl (Wrapped (''store: '' @ n) (Driver msg)), bump w)
     | None \<Rightarrow> mapE (Wrapped (''store: '' @ n)) m (bump w))"
  by (simp add: query_def runs io_run split: option.split)

lemma query_step:
  assumes "query n m w = (r, w')" "\<And>x v. m (bump w) = (x, v) \<Longrightarrow> P v" "P (bump w)"
  shows "P w'"
  using assms by (auto simp: query_run mapE_run split: option.splits prod.splits sum.splits)

section \<open>The writes on memberships\<close>

definition upserted :: "string \<Rightarrow> string \<Rightarrow> string \<Rightarrow> teamMember list \<Rightarrow> teamMember list" where
  "upserted t u r ms =
     (if \<exists>x \<in> set ms. tmb_TeamID x = t \<and> tmb_UserID x = u
      then update_where (\<lambda>x. tmb_TeamID x = t \<and> tmb_UserID x = u) (tmb_Role_update (\<lambda>_. r)) ms
      else ms @ [\<lparr> tmb_TeamID = t, tmb_UserID = u, tmb_Role = r \<rparr>])"

lemma upserted_keys: "distinct (map member_key ms) \<Longrightarrow> distinct (map member_key (upserted t u r ms))"
proof -
  have "map member_key (update_where p (tmb_Role_update f) ms) = map member_key ms" for p f
    by (rule map_update_where) (simp add: member_key_def)
  then show "distinct (map member_key ms) \<Longrightarrow> distinct (map member_key (upserted t u r ms))"
    by (auto simp: upserted_def member_key_def)
qed

lemma in_owners_of:
  "(t, u) \<in> owners_of ms \<longleftrightarrow> (\<exists>m \<in> set ms. tmb_TeamID m = t \<and> tmb_UserID m = u \<and> tmb_Role m = RoleOwner)"
  by (auto simp: owners_of_def member_key_def image_iff)

lemma owners_append [simp]: "owners_of (xs @ ys) = owners_of xs \<union> owners_of ys"
  by (auto simp: owners_of_def)

lemma owners_nil [simp]: "owners_of [] = {}"
  by (simp add: owners_of_def)

lemma owners_cons: "owners_of (x # xs) = (if tmb_Role x = RoleOwner then {member_key x} else {}) \<union> owners_of xs"
  by (auto simp: owners_of_def)

lemma owners_update:
  "owners_of (update_where (\<lambda>x. tmb_TeamID x = t \<and> tmb_UserID x = u) (tmb_Role_update (\<lambda>_. r)) ms)
     = owners_of ms - {(t, u)} \<union> (if r = RoleOwner \<and> (\<exists>x \<in> set ms. tmb_TeamID x = t \<and> tmb_UserID x = u) then {(t, u)} else {})"
  by (induction ms) (auto simp: owners_cons member_key_def)

lemma owners_upserted: "owners_of (upserted t u r ms) = owners_of ms - {(t, u)} \<union> (if r = RoleOwner then {(t, u)} else {})"
proof (cases "\<exists>x \<in> set ms. tmb_TeamID x = t \<and> tmb_UserID x = u")
  case True
  then show ?thesis by (simp add: upserted_def owners_update)
next
  case False
  then have "(t, u) \<notin> owners_of ms" by (auto simp: owners_of_def member_key_def)
  moreover have "upserted t u r ms = ms @ [\<lparr> tmb_TeamID = t, tmb_UserID = u, tmb_Role = r \<rparr>]"
    using False unfolding upserted_def by (rule if_not_P)
  ultimately show ?thesis by (simp add: owners_cons member_key_def)
qed

lemma upsert_run:
  assumes "UpsertTeamMember t u r w = (x, w')"
  shows "at_rest w' = (case x of Inl _ \<Rightarrow> at_rest w | Inr _ \<Rightarrow> at_rest (w\<lparr>w_members := upserted t u r (w_members w)\<rparr>))"
proof (cases "w_faults w (w_io w)")
  case None
  define ms where "ms = w_members w"
  define hit where "hit \<longleftrightarrow> (\<exists>x \<in> set ms. tmb_TeamID x = t \<and> tmb_UserID x = u)"
  define dangling where "dangling \<longleftrightarrow> (\<forall>t' \<in> set (w_teams w). team_ID t' \<noteq> t) \<or> (\<forall>u' \<in> set (w_users w). usr_ID u' \<noteq> u)"
  have "UpsertTeamMember t u r w =
     (if \<not> hit \<and> dangling then (Inl (Wrapped (''store: '' @ ''upserting team member'') ErrNotFound), bump w)
      else (Inr \<lparr> tmb_TeamID = t, tmb_UserID = u, tmb_Role = r \<rparr>, (bump w)\<lparr>w_members := upserted t u r ms\<rparr>))"
    unfolding UpsertTeamMember_def query_run None option.case mapE_run Let_def members_bump
      ms_def [symmetric] hit_def [symmetric] dangling_def [symmetric] upserted_def by simp
  with assms show ?thesis by (auto simp: bump_def at_rest_def ms_def split: if_splits)
next
  case (Some e)
  with assms show ?thesis unfolding UpsertTeamMember_def query_run by auto
qed

lemma upsert_members:
  assumes "UpsertTeamMember t u r w = (x, w')"
  shows "w_members w' = (case x of Inl _ \<Rightarrow> w_members w | Inr _ \<Rightarrow> upserted t u r (w_members w))"
    and "team_ids w' = team_ids w" and "w_projects w' = w_projects w"
proof -
  have blind: "w_members (at_rest v) = w_members v" "team_ids (at_rest v) = team_ids v" "w_projects (at_rest v) = w_projects v" for v
    by (simp_all add: at_rest_def team_ids_def)
  note eff = upsert_run [OF assms]
  from arg_cong [OF eff, of w_members] show "w_members w' = (case x of Inl _ \<Rightarrow> w_members w | Inr _ \<Rightarrow> upserted t u r (w_members w))"
    by (simp add: blind split: sum.splits)
  from arg_cong [OF eff, of team_ids] show "team_ids w' = team_ids w"
    by (simp add: blind split: sum.splits) (simp add: team_ids_def)
  from arg_cong [OF eff, of w_projects] show "w_projects w' = w_projects w"
    by (simp add: blind split: sum.splits)
qed

text \<open>An owner can go as long as another one stays.\<close>

definition spare :: "string \<Rightarrow> string \<Rightarrow> teamMember list \<Rightarrow> bool" where
  "spare t u ms \<longleftrightarrow> (t, u) \<in> owners_of ms \<longrightarrow> (\<exists>v. v \<noteq> u \<and> (t, v) \<in> owners_of ms)"

lemma spare_covers:
  assumes "T \<subseteq> fst ` S" "(t, u) \<in> S \<longrightarrow> (\<exists>v. v \<noteq> u \<and> (t, v) \<in> S)"
  shows "T \<subseteq> fst ` (S - {(t, u)})"
proof
  fix k assume "k \<in> T"
  then obtain v where v: "(k, v) \<in> S" using assms(1) by auto
  show "k \<in> fst ` (S - {(t, u)})"
  proof (cases "(k, v) = (t, u)")
    case True
    then obtain v' where "v' \<noteq> u" "(t, v') \<in> S" using assms(2) v by auto
    with True show ?thesis by (force intro: image_eqI [of _ fst "(t, v')"])
  next
    case False
    with v show ?thesis by (force intro: image_eqI [of _ fst "(k, v)"])
  qed
qed

lemma upsert_keeps:
  assumes "tenant w" "UpsertTeamMember t u r w = (x, w')" "r = RoleOwner \<or> spare t u (w_members w)"
  shows "tenant w'"
proof (cases x)
  case (Inl e)
  with upsert_members [OF assms(2)] assms(1) show ?thesis by (simp add: tenant_def)
next
  case (Inr m)
  have own: "team_ids w \<subseteq> fst ` owners_of (w_members w)" using assms(1) by (simp add: tenant_def)
  have "team_ids w \<subseteq> fst ` owners_of (upserted t u r (w_members w))"
  proof (cases "r = RoleOwner")
    case True
    then have "owners_of (w_members w) \<subseteq> owners_of (upserted t u r (w_members w))" by (auto simp: owners_upserted)
    with own show ?thesis by (meson image_mono order_trans)
  next
    case False
    then show ?thesis using spare_covers [OF own] assms(3) by (auto simp: owners_upserted spare_def)
  qed
  with upsert_members [OF assms(2)] Inr assms(1) show ?thesis by (simp add: tenant_def upserted_keys)
qed

lemma delete_member_run:
  assumes "DeleteTeamMember t u w = (x, w')"
  shows "w_members w' = w_members w \<or> w_members w' = filter (\<lambda>m. \<not> (tmb_TeamID m = t \<and> tmb_UserID m = u)) (w_members w)"
    and "team_ids w' = team_ids w" and "w_projects w' = w_projects w"
  using assms by (auto simp: DeleteTeamMember_def query_run mapE_run bump_def team_ids_def split: option.splits)

lemma owners_deleted:
  "owners_of (filter (\<lambda>m. \<not> (tmb_TeamID m = t \<and> tmb_UserID m = u)) ms) = owners_of ms - {(t, u)}"
  by (auto simp: owners_of_def member_key_def)

lemma delete_member_keeps:
  assumes "tenant w" "DeleteTeamMember t u w = (x, w')" "spare t u (w_members w)"
  shows "tenant w'"
proof -
  have "team_ids w \<subseteq> fst ` (owners_of (w_members w) - {(t, u)})"
    using spare_covers [of "team_ids w" "owners_of (w_members w)" t u] assms(1,3) by (simp add: tenant_def spare_def)
  then have "tenant w'" if "w_members w' = filter (\<lambda>m. \<not> (tmb_TeamID m = t \<and> tmb_UserID m = u)) (w_members w)"
    using assms(1) delete_member_run(2,3) [OF assms(2)] unfolding tenant_def that owners_deleted
    by (simp add: distinct_map_filter)
  moreover have "tenant w'" if "w_members w' = w_members w"
    using assms(1) delete_member_run(2,3) [OF assms(2)] that by (simp add: tenant_def)
  ultimately show ?thesis using delete_member_run(1) [OF assms(2)] by blast
qed

lemma owners_without_team: "owners_of (filter (\<lambda>m. tmb_TeamID m \<noteq> t) ms) = {p \<in> owners_of ms. fst p \<noteq> t}"
proof (rule set_eqI)
  fix p :: "string \<times> string"
  obtain k v where "p = (k, v)" by fastforce
  then show "p \<in> owners_of (filter (\<lambda>m. tmb_TeamID m \<noteq> t) ms) \<longleftrightarrow> p \<in> {p \<in> owners_of ms. fst p \<noteq> t}"
    unfolding mem_Collect_eq by (simp add: in_owners_of) blast
qed

lemma delete_team_keeps: "keeps tenant (DeleteTeam t)"
proof (rule keepsI)
  fix w assume w: "tenant w"
  obtain x w' where run: "DeleteTeam t w = (x, w')" by fastforce
  have gone: "team_ID ` {k \<in> set ts. team_ID k \<noteq> t} = team_ID ` set ts - {t}" for ts :: "team list" by auto
  have "tenancy_tables w' = tenancy_tables w \<or> (tenancy_tables w' = (team_ids w - {t}, filter (\<lambda>m. tmb_TeamID m \<noteq> t) (w_members w), w_projects w)
      \<and> t \<notin> snd ` set (w_projects w))"
    using run unfolding DeleteTeam_def query_run mapE_run
    by (auto simp: bump_def tenancy_tables_def team_ids_def gone split: option.splits if_splits)
  then show "tenant (snd (DeleteTeam t w))"
  proof
    assume "tenancy_tables w' = tenancy_tables w"
    then show ?thesis using w run tenant_same [of w' w] by simp
  next
    assume new: "tenancy_tables w' = (team_ids w - {t}, filter (\<lambda>m. tmb_TeamID m \<noteq> t) (w_members w), w_projects w)
      \<and> t \<notin> snd ` set (w_projects w)"
    have "team_ids w - {t} \<subseteq> fst ` {p \<in> owners_of (w_members w). fst p \<noteq> t}"
    proof
      fix k assume k: "k \<in> team_ids w - {t}"
      then obtain v where "(k, v) \<in> owners_of (w_members w)" using w by (auto simp: tenant_def)
      with k show "k \<in> fst ` {p \<in> owners_of (w_members w). fst p \<noteq> t}" by (intro image_eqI [of _ _ "(k, v)"]) auto
    qed
    moreover have "snd ` set (w_projects w) \<subseteq> team_ids w - {t}" using w new by (auto simp: tenant_def)
    moreover have "distinct (map member_key (filter (\<lambda>m. tmb_TeamID m \<noteq> t) (w_members w)))"
      using w by (simp add: tenant_def distinct_map_filter)
    ultimately show ?thesis using new run by (simp add: tenancy_tables_def tenant_def owners_without_team)
  qed
qed

lemma rename_keeps: "keeps tenant (RenameTeam t name)"
proof (rule keepsI)
  fix w assume w: "tenant w"
  obtain x w' where run: "RenameTeam t name w = (x, w')" by fastforce
  have "map team_ID (update_where p (team_Name_update f) ts) = map team_ID ts" for p f and ts :: "team list"
    by (rule map_update_where) simp
  then have ids: "team_ID ` set (update_where p (team_Name_update f) ts) = team_ID ` set ts" for p f and ts :: "team list"
    by (metis list.set_map)
  have "tenancy_tables w' = tenancy_tables w"
  proof -
    have "w' = bump w \<or> w' = (bump w)\<lparr>w_teams := update_where (\<lambda>k. team_ID k = t) (team_Name_update (\<lambda>_. name)) (w_teams w)\<rparr>"
      using run unfolding RenameTeam_def query_run mapE_run
      by (auto split: option.splits if_splits)
    then show ?thesis by (elim disjE) (simp_all add: tenancy_tables_def team_ids_def ids)
  qed
  with w run tenant_same [of w' w] show "tenant (snd (RenameTeam t name w))" by simp
qed

section \<open>The guards\<close>

lemma two_owners_spare:
  assumes "distinct (map member_key ms)" "1 < length (filter (\<lambda>m. tmb_TeamID m = t \<and> tmb_Role m = RoleOwner) ms)"
  shows "\<exists>v. v \<noteq> u \<and> (t, v) \<in> owners_of ms"
proof -
  let ?o = "filter (\<lambda>m. tmb_TeamID m = t \<and> tmb_Role m = RoleOwner) ms"
  obtain a b rest where o: "?o = a # b # rest" using assms(2) by (cases ?o; cases "tl ?o") auto
  then have in_o: "a \<in> set ?o" "b \<in> set ?o" by (metis list.set_intros)+
  have "distinct (map member_key ?o)" using assms(1) by (rule distinct_map_filter)
  with o have "member_key a \<noteq> member_key b" by simp
  with in_o have "tmb_UserID a \<noteq> tmb_UserID b" by (auto simp: member_key_def)
  then have "tmb_UserID a \<noteq> u \<or> tmb_UserID b \<noteq> u" by auto
  with in_o show ?thesis by (auto simp: in_owners_of)
qed

lemma after_read:
  assumes "m w = (r, w')" "reads m"
  shows "tenant w' = tenant w" "w_members w' = w_members w" "w_faults w' = w_faults w" "w_users w' = w_users w"
proof -
  have rest: "at_rest w' = at_rest w" using assms(2,1) by (rule reads_run)
  show "tenant w' = tenant w" using arg_cong [OF rest, of tenant] by simp
  show "w_members w' = w_members w" "w_faults w' = w_faults w" "w_users w' = w_users w"
    using rest by (rule at_rest_eqD)+
qed

lemma GetTeamMember_row:
  "GetTeamMember t u w = (Inr m, w') \<Longrightarrow> m \<in> set (w_members w) \<and> tmb_TeamID m = t \<and> tmb_UserID m = u"
  by (auto simp: GetTeamMember_def query_Inr_iff one_row_Inr_iff dest!: find_Some_set)

lemma guardLastOwner_passes:
  "guardLastOwner t w = (Inr x, w') \<Longrightarrow> 1 < length (filter (\<lambda>m. tmb_TeamID m = t \<and> tmb_Role m = RoleOwner) (w_members w))"
  by (auto simp: guardLastOwner_def CountTeamOwners_def inverts query_Inr_iff split: if_splits)

lemma grant_passes: "requireGrantRank a r w = (Inr x, w') \<longleftrightarrow> CanGrantRole a r \<and> w' = w"
  by (auto simp: requireGrantRank_def)

text \<open>What the checks establish: the actor outranks both roles, and an owner who steps down is not the last.\<close>

lemma change_checks_pass:
  assumes "change_checks t u r a w = (Inr x, w')" "distinct (map member_key (w_members w))"
  shows "CanGrantRole a r \<and> (\<exists>cur \<in> set (w_members w). tmb_TeamID cur = t \<and> tmb_UserID cur = u \<and> CanGrantRole a (tmb_Role cur))
    \<and> (r = RoleOwner \<or> spare t u (w_members w))"
proof -
  obtain cur w1 where cur: "GetTeamMember t u w = (Inr cur, w1)" "CanGrantRole a r" "CanGrantRole a (tmb_Role cur)"
    and guard: "(if tmb_Role cur = RoleOwner \<and> r \<noteq> RoleOwner then guardLastOwner t else ret ()) w1 = (Inr x, w')"
    using assms(1) by (auto simp: change_checks_def inverts grant_passes split: if_splits)
  note row = GetTeamMember_row [OF cur(1)]
  have same: "w_members w1 = w_members w" using cur(1) reads_teams(4) by (rule after_read)
  have only: "x = cur" if "x \<in> set (w_members w)" "tmb_TeamID x = t" "tmb_UserID x = u" for x
    using that row assms(2) by (auto simp: distinct_map inj_on_def member_key_def)
  have "spare t u (w_members w)" if "r \<noteq> RoleOwner"
  proof (cases "tmb_Role cur = RoleOwner")
    case True
    with guard that guardLastOwner_passes [of t w1 x w'] same two_owners_spare [OF assms(2)] show ?thesis
      by (auto simp: spare_def)
  next
    case False
    then show ?thesis using only by (auto simp: spare_def in_owners_of)
  qed
  with cur row show ?thesis by blast
qed

lemma ChangeMemberRole_keeps: "keeps tenant (ChangeMemberRole t u r a)"
proof (rule keepsI)
  fix w assume w: "tenant w"
  obtain x w1 where chk: "change_checks t u r a w = (x, w1)" by fastforce
  have w1: "tenant w1" "w_members w1 = w_members w"
    using after_read [where m = "change_checks t u r a", OF chk reads_roles(7)] w by simp_all
  show "tenant (snd (ChangeMemberRole t u r a w))"
  proof (cases x)
    case (Inl e)
    with chk w1 show ?thesis by (simp add: ChangeMemberRole_def bnd_run)
  next
    case (Inr y)
    obtain z w2 where up: "UpsertTeamMember t u r w1 = (z, w2)" by fastforce
    have "r = RoleOwner \<or> spare t u (w_members w1)"
      using change_checks_pass [OF chk [unfolded Inr]] w w1(2) by (simp add: tenant_def)
    from upsert_keeps [OF w1(1) up this] chk Inr up show ?thesis by (simp add: ChangeMemberRole_def bnd_run)
  qed
qed

lemma tenant_outside:
  "keeps tenant (DeleteInboxItemsForTeamMember t u)" "keeps tenant (RevokeLiveTeamInvitesBy t u)"
  "keeps tenant (StoreCreateUser i em h r)" "keeps tenant (UpdateUserRole i r)"
proof -
  have quiet: "keeps tenant m" if "\<And>w. tenancy_tables (snd (m w)) = tenancy_tables w" for m :: "'a op"
    using that tenant_same unfolding keeps_def by blast
  show "keeps tenant (DeleteInboxItemsForTeamMember t u)" "keeps tenant (RevokeLiveTeamInvitesBy t u)"
    "keeps tenant (StoreCreateUser i em h r)" "keeps tenant (UpdateUserRole i r)"
    by (rule quiet, simp add: DeleteInboxItemsForTeamMember_def RevokeLiveTeamInvitesBy_def StoreCreateUser_def
        UpdateUserRole_def query_run mapE_run Let_def tenancy_tables_def team_ids_def split: option.split)+
qed

lemma RemoveMember_keeps: "keeps tenant (RemoveMember t u a)"
proof (rule keepsI)
  fix w assume w: "tenant w"
  have tail: "keeps tenant (clear_traces t u)"
    unfolding clear_traces_def by (intro tri tenant_outside)
  obtain x w1 where get: "GetTeamMember t u w = (x, w1)" by fastforce
  have w1: "tenant w1" "w_members w1 = w_members w"
    using after_read [where m = "GetTeamMember t u", OF get reads_teams(4)] w by simp_all
  show "tenant (snd (RemoveMember t u a w))"
  proof (cases x)
    case (Inl e)
    with get w1 show ?thesis by (simp add: RemoveMember_def bnd_run)
  next
    case (Inr cur)
    define guard where "guard = (if tmb_Role cur = RoleOwner then guardLastOwner t else ret ())"
    obtain y w2 where gd: "guard w1 = (y, w2)" by fastforce
    have "reads guard" by (simp add: guard_def rd)
    then have w2: "tenant w2" "w_members w2 = w_members w1"
      using after_read [where m = guard, OF gd] w1 by simp_all
    obtain z w3 where del: "DeleteTeamMember t u w2 = (z, w3)" by fastforce
    have "spare t u (w_members w2)" if "y = Inr ()"
    proof (cases "tmb_Role cur = RoleOwner")
      case True
      with gd that guardLastOwner_passes [of t w1] w1 w2 w two_owners_spare show ?thesis
        by (auto simp: spare_def guard_def tenant_def)
    next
      case False
      have "m = cur" if "m \<in> set (w_members w)" "tmb_TeamID m = t" "tmb_UserID m = u" for m
        using that GetTeamMember_row [OF get [unfolded Inr]] w by (auto simp: tenant_def distinct_map inj_on_def member_key_def)
      with False w1 w2 show ?thesis by (auto simp: spare_def in_owners_of)
    qed
    then have "tenant w3" if "y = Inr ()" using delete_member_keeps [OF w2(1) del] that by simp
    then show ?thesis using get Inr gd del w1 w2 keepsD [OF tail]
      by (simp add: RemoveMember_def bnd_run requireGrantRank_def guard_def [symmetric] split: sum.split)
  qed
qed

section \<open>Every team keeps an owner\<close>

datatype tenancy_request =
    CreateTeamReq string string user
  | RenameTeamReq string string
  | DeleteTeamReq string
  | AddMemberReq string string string string
  | ChangeRoleReq string string string string
  | RemoveMemberReq string string string
  | CreateUserReq string string string string string
  | SetUserRoleReq string string user
  | DeleteUserReq string user

fun serve_tenancy :: "(string \<Rightarrow> error + string) \<Rightarrow> tenancy_request \<Rightarrow> world \<Rightarrow> world" where
  "serve_tenancy hash (CreateTeamReq i name creator) w = snd (TeamsCreate i name creator w)"
| "serve_tenancy hash (RenameTeamReq i name) w = snd (Rename i name w)"
| "serve_tenancy hash (DeleteTeamReq i) w = snd (TeamsDelete i w)"
| "serve_tenancy hash (AddMemberReq t email role a) w = snd (AddMember t email role a w)"
| "serve_tenancy hash (ChangeRoleReq t u role a) w = snd (ChangeMemberRole t u role a w)"
| "serve_tenancy hash (RemoveMemberReq t u a) w = snd (RemoveMember t u a w)"
| "serve_tenancy hash (CreateUserReq i email pw role a) w = snd (CreateUser hash i email pw role a w)"
| "serve_tenancy hash (SetUserRoleReq u role actor) w = snd (SetUserRole u role actor w)"
| "serve_tenancy hash (DeleteUserReq u actor) w = snd (DeleteUser u actor w)"

definition calm :: "world \<Rightarrow> bool" where
  "calm w \<longleftrightarrow> w_faults w = (\<lambda>_. None)"

text \<open>
  Requests whose last-owner check cannot be skipped: all but deleting an account, and as long as the
  database answers, all but that.
\<close>

fun guarded :: "tenancy_request \<Rightarrow> world \<Rightarrow> bool" where
  "guarded (DeleteUserReq u actor) w = False"
| "guarded (CreateTeamReq i name creator) w = calm w"
| "guarded (AddMemberReq t email role a) w = calm w"
| "guarded _ w = True"

lemma calm_member_missing:
  assumes "calm w" "GetTeamMember t u w = (Inl e, w')"
  shows "(t, u) \<notin> member_key ` set (w_members w)"
  using assms by (auto simp: GetTeamMember_def query_run mapE_run calm_def one_row_def find_None_all member_key_def
      split: option.splits)

lemma AddMember_keeps:
  assumes "tenant w" "calm w"
  shows "tenant (snd (AddMember t email role a w))"
proof -
  obtain x w1 where usr: "GetUserByEmail (trim_space email) w = (x, w1)" by fastforce
  have w1: "tenant w1" "calm w1"
    using after_read [where m = "GetUserByEmail (trim_space email)", OF usr reads_teams(9)] assms by (simp_all add: calm_def)
  have "tenant (snd (add_account t role u w1))" for u
  proof -
    obtain g w2 where get: "GetTeamMember t (usr_ID u) w1 = (g, w2)" by fastforce
    have w2: "tenant w2" "w_members w2 = w_members w1"
      using after_read [where m = "GetTeamMember t (usr_ID u)", OF get reads_teams(4)] w1 by simp_all
    obtain y w3 where up: "UpsertTeamMember t (usr_ID u) role w2 = (y, w3)" by fastforce
    have "spare t (usr_ID u) (w_members w2)" if "g = Inl e" for e
    proof -
      have "(t, usr_ID u) \<notin> member_key ` set (w_members w2)"
        using calm_member_missing [OF w1(2) get [unfolded that]] w2(2) by simp
      then show ?thesis by (auto simp: spare_def owners_of_def)
    qed
    then have "tenant w3" if "g = Inl e" for e using upsert_keeps [OF w2(1) up] that by simp
    then show ?thesis using get up w2 by (cases g; cases y) (simp_all add: add_account_def bnd_run attempt_run)
  qed
  then show ?thesis using usr w1 assms(1)
    by (simp add: AddMember_def bnd_run attempt_run requireGrantRank_def split: sum.split)
qed

lemma TeamsCreate_keeps:
  assumes "tenant w" "calm w"
  shows "tenant (snd (TeamsCreate i name creator w))"
proof -
  obtain x w1 where mk: "CreateTeam i (trim_space name) w = (x, w1)" by fastforce
  have made: "team_ids w1 = insert i (team_ids w)" "i \<notin> team_ids w" "w_members w1 = w_members w"
    "w_projects w1 = w_projects w" "calm w1" "team_ID t = i" if "x = Inr t" for t
    using mk that assms(2) unfolding CreateTeam_def query_run mapE_run Let_def
    by (auto simp: calm_def team_ids_def bump_def split: option.splits if_splits)
  have none: "tenant w1" if "x = Inl e" for e
    using mk that assms(1) unfolding CreateTeam_def query_run mapE_run Let_def
    by (auto split: option.splits if_splits)
  show ?thesis
  proof (cases x)
    case (Inl e)
    with mk none assms(1) show ?thesis by (simp add: TeamsCreate_def Let_def bnd_run)
  next
    case (Inr t)
    note w1 = made [OF Inr]
    obtain y w2 where up: "UpsertTeamMember i (usr_ID creator) RoleOwner w1 = (y, w2)" by fastforce
    note eff = upsert_members [OF up]
    have "tenant w2" if "y = Inr m" for m
    proof -
      have "i \<in> fst ` owners_of (w_members w2)" using eff(1) that by (auto simp: owners_upserted image_iff)
      moreover have "owners_of (w_members w) \<subseteq> owners_of (w_members w2)" using eff(1) that w1 by (auto simp: owners_upserted)
      then have "team_ids w \<subseteq> fst ` owners_of (w_members w2)"
        using assms(1) image_mono [of "owners_of (w_members w)" "owners_of (w_members w2)" fst]
        unfolding tenant_def by (meson order_trans)
      ultimately show ?thesis using assms(1) eff w1 that by (auto simp: tenant_def upserted_keys)
    qed
    moreover have "tenant (snd (DeleteTeam i w2))" if "y = Inl e" for e
    proof -
      have quiet: "w_faults w2 = w_faults w1" 
      proof (rule at_rest_eqD)
        show "at_rest w2 = at_rest w1" using upsert_run [OF up] that by simp
      qed
      have "i \<notin> snd ` set (w_projects w2)" using assms(1) w1 eff by (auto simp: tenant_def)
      then have "tenancy_tables (snd (DeleteTeam i w2)) = (team_ids w2 - {i}, filter (\<lambda>m. tmb_TeamID m \<noteq> i) (w_members w2), w_projects w2)"
        using w1(5) quiet unfolding DeleteTeam_def query_run mapE_run
        by (auto simp: calm_def tenancy_tables_def team_ids_def bump_def)
      moreover have "team_ids w2 - {i} = team_ids w" "w_members w2 = w_members w" "w_projects w2 = w_projects w"
        using eff w1 that by auto
      moreover have "team_ids w \<subseteq> fst ` {p \<in> owners_of (w_members w). fst p \<noteq> i}"
        using assms(1) w1(2) by (force simp: tenant_def)
      ultimately show ?thesis
        using assms(1) by (simp add: tenancy_tables_def tenant_def owners_without_team distinct_map_filter)
    qed
    ultimately show ?thesis using mk Inr up w1(6) assms(1)
      by (cases y) (auto simp: TeamsCreate_def Let_def bnd_run attempt_run split: prod.split)
  qed
qed

lemma quiet_tenancy:
  "keeps tenant (Rename i name)" "keeps tenant (TeamsDelete i)" "keeps tenant (CreateUser hash i em pw r a)"
  "keeps tenant (SetUserRole u r actor)"
  unfolding Rename_def TeamsDelete_def CreateUser_def SetUserRole_def Let_def
  by (intro tri rename_keeps delete_team_keeps tenant_outside tenant_reads rd)+



definition person :: "string \<Rightarrow> string \<Rightarrow> user" where
  "person i role = \<lparr> usr_ID = i, usr_Email = i @ ''@acme'', usr_PasswordHash = [], usr_Role = role, usr_DisplayName = [],
     usr_Timezone = [], usr_TOTPEnabled = False \<rparr>"

text \<open>One team of two owners and an admin.\<close>

definition crew :: world where
  "crew = \<lparr> w_apps = [], w_revs = [], w_deps = [], w_envs = [], w_servers = [], w_envvars = [], w_shared = [], w_keys = [],
     w_tasks = [], w_runs = [], w_prot = [], w_approvals = [], w_grants = [],
     w_members = [\<lparr> tmb_TeamID = ''tm_1'', tmb_UserID = ''ann'', tmb_Role = ''owner'' \<rparr>,
                  \<lparr> tmb_TeamID = ''tm_1'', tmb_UserID = ''bob'', tmb_Role = ''owner'' \<rparr>,
                  \<lparr> tmb_TeamID = ''tm_1'', tmb_UserID = ''cat'', tmb_Role = ''admin'' \<rparr>],
     w_projects = [(''prj_1'', ''tm_1'')],
     w_users = [person ''ann'' ''member'', person ''bob'' ''member'', person ''cat'' ''member'', person ''root'' ''owner''],
     w_dbs = [], w_dbrevs = [], w_teams = [\<lparr> team_ID = ''tm_1'', team_Name = ''core'' \<rparr>], w_invites = [], w_requests = [],
     w_sessions = [], w_inbox = [], w_totp = [], w_recovery = [], w_tokens = [], w_changes = [], w_quotas = [], w_quotaStates = [], w_disk = [], w_previews = [], w_stacks = [], w_byAddress = None, w_byAccount = None, w_byInvite = None, w_bus = [], w_consumers = [],
     w_events = [], w_now = 5, w_dbnow = 5, w_io = 0, w_faults = \<lambda>_. None \<rparr>"

definition team_owners :: "string \<Rightarrow> world \<Rightarrow> string list" where
  "team_owners t w = map tmb_UserID (filter (\<lambda>m. tmb_TeamID m = t \<and> tmb_Role m = RoleOwner) (w_members w))"


section \<open>Nobody grants above their rank\<close>

fun acting :: "tenancy_request \<Rightarrow> string option" where
  "acting (AddMemberReq t email role a) = Some a"
| "acting (ChangeRoleReq t u role a) = Some a"
| "acting (RemoveMemberReq t u a) = Some a"
| "acting _ = None"

lemma grant_rank: "CanGrantRole a r \<Longrightarrow> RoleRank RoleAdmin \<le> RoleRank a \<and> (r = RoleOwner \<longrightarrow> RoleRank RoleOwner \<le> RoleRank a)"
  by (auto simp: CanGrantRole_def RoleRank_def RoleAdmin_def RoleOwner_def RoleMember_def Let_def split: if_splits)

text \<open>What an operation on memberships may do for an actor of a given role.\<close>

definition within_rank :: "string \<Rightarrow> world \<Rightarrow> world \<Rightarrow> bool" where
  "within_rank a w w' \<longleftrightarrow> (RoleRank a < RoleRank RoleOwner \<longrightarrow> owners_of (w_members w') = owners_of (w_members w))
     \<and> (RoleRank a < RoleRank RoleAdmin \<longrightarrow> w_members w' = w_members w)"

lemma within_rank_same: "w_members w' = w_members w \<Longrightarrow> within_rank a w w'"
  by (simp add: within_rank_def)

lemma within_rank_upsert:
  assumes "UpsertTeamMember t u r w = (x, w')" "CanGrantRole a r" "(t, u) \<in> owners_of (w_members w) \<longrightarrow> RoleRank RoleOwner \<le> RoleRank a"
  shows "within_rank a w w'"
  using upsert_members(1) [OF assms(1)] grant_rank [OF assms(2)] assms(3)
  by (cases x) (auto simp: within_rank_def owners_upserted)

lemma ChangeMemberRole_within:
  assumes "distinct (map member_key (w_members w))"
  shows "within_rank a w (snd (ChangeMemberRole t u r a w))"
proof -
  obtain x w1 where chk: "change_checks t u r a w = (x, w1)" by fastforce
  have same: "w_members w1 = w_members w" using chk reads_roles(7) by (rule after_read)
  show ?thesis
  proof (cases x)
    case (Inl e)
    with chk same show ?thesis by (simp add: ChangeMemberRole_def bnd_run within_rank_same)
  next
    case (Inr y)
    obtain z w2 where up: "UpsertTeamMember t u r w1 = (z, w2)" by fastforce
    obtain cur where cur: "cur \<in> set (w_members w)" "tmb_TeamID cur = t" "tmb_UserID cur = u" "CanGrantRole a (tmb_Role cur)"
      and gr: "CanGrantRole a r"
      using change_checks_pass [OF chk [unfolded Inr] assms] by blast
    have "m = cur" if "m \<in> set (w_members w)" "tmb_TeamID m = t" "tmb_UserID m = u" for m
      using that cur assms by (auto simp: distinct_map inj_on_def member_key_def)
    then have "(t, u) \<in> owners_of (w_members w1) \<longrightarrow> RoleRank RoleOwner \<le> RoleRank a"
      using grant_rank [OF cur(4)] same by (auto simp: in_owners_of)
    from within_rank_upsert [OF up gr this] chk Inr up same show ?thesis
      by (simp add: ChangeMemberRole_def bnd_run within_rank_def)
  qed
qed

lemma clear_traces_members: "w_members (snd (clear_traces t u w)) = w_members w"
  by (simp add: clear_traces_def runs DeleteInboxItemsForTeamMember_def RevokeLiveTeamInvitesBy_def query_run Let_def
      split: option.split)

lemma RemoveMember_within:
  assumes "distinct (map member_key (w_members w))"
  shows "within_rank a w (snd (RemoveMember t u a w))"
proof -
  obtain x w1 where get: "GetTeamMember t u w = (x, w1)" by fastforce
  have w1: "w_members w1 = w_members w" using get reads_teams(4) by (rule after_read)
  show ?thesis
  proof (cases x)
    case (Inl e)
    with get w1 show ?thesis by (simp add: RemoveMember_def bnd_run within_rank_same)
  next
    case (Inr cur)
    define guard where "guard = (if tmb_Role cur = RoleOwner then guardLastOwner t else ret ())"
    obtain y w2 where gd: "guard w1 = (y, w2)" by fastforce
    have "reads guard" by (simp add: guard_def rd)
    then have w2: "w_members w2 = w_members w" using after_read(2) [where m = guard, OF gd] w1 by simp
    obtain z w3 where del: "DeleteTeamMember t u w2 = (z, w3)" by fastforce
    note row = GetTeamMember_row [OF get [unfolded Inr]]
    have only: "m = cur" if "m \<in> set (w_members w)" "tmb_TeamID m = t" "tmb_UserID m = u" for m
      using that row assms by (auto simp: distinct_map inj_on_def member_key_def)
    have "within_rank a w w3" if "CanGrantRole a (tmb_Role cur)"
    proof -
      have "(t, u) \<in> owners_of (w_members w) \<longrightarrow> RoleRank RoleOwner \<le> RoleRank a"
        using grant_rank [OF that] only by (auto simp: in_owners_of)
      moreover have "owners_of (w_members w3) = owners_of (w_members w) \<or> owners_of (w_members w3) = owners_of (w_members w) - {(t, u)}"
        using delete_member_run(1) [OF del] unfolding w2
        by (elim disjE) (simp_all only: owners_deleted simp_thms)
      moreover have "\<not> RoleRank a < RoleRank RoleAdmin" using grant_rank [OF that] by simp
      ultimately show ?thesis unfolding within_rank_def by (metis Diff_empty Diff_insert0 not_le)
    qed
    then show ?thesis using get Inr gd del w1 w2 clear_traces_members [of t u w3]
      by (simp add: RemoveMember_def bnd_run requireGrantRank_def guard_def [symmetric] within_rank_def split: sum.split)
  qed
qed

lemma AddMember_within:
  assumes "calm w"
  shows "within_rank a w (snd (AddMember t email role a w))"
proof -
  obtain x w1 where usr: "GetUserByEmail (trim_space email) w = (x, w1)" by fastforce
  have w1: "w_members w1 = w_members w" "calm w1"
    using after_read [where m = "GetUserByEmail (trim_space email)", OF usr reads_teams(9)] assms by (simp_all add: calm_def)
  have "within_rank a w (snd (add_account t role u w1))" if gr: "CanGrantRole a role" for u
  proof -
    obtain g w2 where get: "GetTeamMember t (usr_ID u) w1 = (g, w2)" by fastforce
    have w2: "w_members w2 = w_members w" using get reads_teams(4) w1 by (metis after_read(2))
    obtain y w3 where up: "UpsertTeamMember t (usr_ID u) role w2 = (y, w3)" by fastforce
    have "within_rank a w2 w3" if "g = Inl e" for e
    proof -
      have "(t, usr_ID u) \<notin> member_key ` set (w_members w2)"
        using calm_member_missing [OF w1(2) get [unfolded that]] w1 w2 by simp
      then have "(t, usr_ID u) \<notin> owners_of (w_members w2)" by (auto simp: owners_of_def)
      then show ?thesis using within_rank_upsert [OF up gr] by simp
    qed
    then show ?thesis using get up w2
      by (cases g; cases y) (simp_all add: add_account_def bnd_run attempt_run within_rank_def)
  qed
  then show ?thesis using usr w1
    by (simp add: AddMember_def bnd_run attempt_run requireGrantRank_def within_rank_same split: sum.split)
qed



definition demotions_racing :: "(error + unit) \<times> (error + unit) \<times> world" where
  "demotions_racing =
     (case change_checks ''tm_1'' ''ann'' ''member'' ''owner'' crew of (r1, w1) \<Rightarrow>
      case change_checks ''tm_1'' ''bob'' ''member'' ''owner'' w1 of (r2, w2) \<Rightarrow>
      case UpsertTeamMember ''tm_1'' ''ann'' ''member'' w2 of (_, w3) \<Rightarrow>
      case UpsertTeamMember ''tm_1'' ''bob'' ''member'' w3 of (_, w4) \<Rightarrow> (r1, r2, w4))"


end
