(* ===== verification/Approvals.thy ===== *)
theory Approvals
  imports Pipeline_Props Teams
begin

text \<open>
  Deciding a parked deployment: \<open>Approve\<close> and \<open>Reject\<close> of \<open>src/core/protection/protection.go\<close>, the
  authorization of \<open>src/core/api/rest/authz.go\<close> they stand behind and the two handlers of
  \<open>handlers_protection.go\<close>. A handler returns the status code it writes; audit rows are events.
  The parts this joins are the approvals table, the deploy pipeline and team roles.
\<close>

section \<open>The decisions (protection.go)\<close>

definition conflict_decided :: "error \<Rightarrow> error" where
  "conflict_decided e = (if errors_is e ErrConflict then ErrAlreadyDecided else e)"

definition Approve :: "protection_cfg \<Rightarrow> sched_cfg \<Rightarrow> string \<Rightarrow> user \<Rightarrow> (deployment \<times> deployApproval) op" where
  "Approve pc sc deploymentID actor =
     bnd (GetDeployApproval deploymentID) (\<lambda>ap.
     if \<not> Pending ap then throw ErrAlreadyDecided
     else
       bnd (guardSelfApproval ap actor) (\<lambda>_.
       bnd (mapE conflict_decided (DecideDeployApproval deploymentID ApprovalApproved (usr_ID actor) [])) (\<lambda>decided.
       bnd (attempt (ApproveDeployment sc deploymentID)) (\<lambda>r.
       bnd (announce pc decided actor DeployApprovedItem) (\<lambda>_.
       case r of Inl perr \<Rightarrow> throw perr | Inr dep \<Rightarrow> ret (dep, decided))))))"

definition Reject ::
  "protection_cfg \<Rightarrow> string \<Rightarrow> string \<Rightarrow> user \<Rightarrow> (deployment \<times> deployApproval) op" where
  "Reject pc deploymentID reason0 actor =
     (let reason = trim_space reason0 in
      case validateReason reason MaxRejectReason ''reason'' of
        Some e \<Rightarrow> throw e
      | None \<Rightarrow>
          bnd (GetDeployApproval deploymentID) (\<lambda>ap.
          if \<not> Pending ap then throw ErrAlreadyDecided
          else
            bnd (mapE conflict_decided (DecideDeployApproval deploymentID ApprovalRejected (usr_ID actor) reason)) (\<lambda>decided.
            bnd (attempt (RejectDeployment deploymentID (RejectionDetail (usr_Email actor) reason))) (\<lambda>r.
            bnd (announce pc decided actor DeployRejectedItem) (\<lambda>_.
            case r of Inl perr \<Rightarrow> throw perr | Inr dep \<Rightarrow> ret (dep, decided))))))"

section \<open>Authorization (authz.go)\<close>

text \<open>
  A gate answers \<open>None\<close> when the caller may go on, or the status it has written. The scope is the
  project an API token is narrowed to.
\<close>

definition requirePanelRole :: "user \<Rightarrow> string \<Rightarrow> nat option" where
  "requirePanelRole u need = (if RoleRank (usr_Role u) < RoleRank need then Some 403 else None)"

definition requireProjectRole :: "string option \<Rightarrow> user \<Rightarrow> string \<Rightarrow> string \<Rightarrow> nat option op" where
  "requireProjectRole scope u projectID need =
     (if scope \<noteq> None \<and> scope \<noteq> Some projectID then ret (Some 404)
      else
        bnd (attempt (RoleForProject u projectID)) (\<lambda>r.
        case r of
          Inl _ \<Rightarrow> ret (Some 500)
        | Inr role \<Rightarrow>
            if role = [] then ret (Some 404)
            else if RoleRank role < RoleRank need then ret (Some 403)
            else ret None))"

definition requireTeamRole :: "user \<Rightarrow> string \<Rightarrow> string \<Rightarrow> nat option op" where
  "requireTeamRole u teamID need =
     bnd (attempt (RoleInTeam u teamID)) (\<lambda>r.
     case r of
       Inl _ \<Rightarrow> ret (Some 500)
     | Inr role \<Rightarrow>
         if role = [] then ret (Some 404)
         else if RoleRank role < RoleRank need then ret (Some 403)
         else ret None)"

definition projectIDForEnvironment :: "string \<Rightarrow> string op" where
  "projectIDForEnvironment envID = bnd (GetEnvironment envID) (\<lambda>env. ret (env_ProjectID env))"

definition projectIDForApplication :: "string \<Rightarrow> string op" where
  "projectIDForApplication appID =
     bnd (mapE (Wrapped ''applications: getting application'') (GetApplication appID)) (\<lambda>app.
     projectIDForEnvironment (app_EnvironmentID app))"

definition projectIDForDeployment :: "string \<Rightarrow> string op" where
  "projectIDForDeployment depID =
     bnd (GetDeployment depID) (\<lambda>dep. projectIDForApplication (dep_ApplicationID dep))"

section \<open>The handlers (handlers_protection.go)\<close>

definition protection_status :: "error \<Rightarrow> nat" where
  "protection_status e = (case root_cause e of
       ValidationError _ \<Rightarrow> 400
     | ErrSelfApproval \<Rightarrow> 403
     | ErrAlreadyDecided \<Rightarrow> 409
     | ErrNotParked \<Rightarrow> 409
     | ErrPreviewProtection \<Rightarrow> 409
     | ErrNotFound \<Rightarrow> 404
     | _ \<Rightarrow> 500)"

text \<open>Either a status, or the approval and the project it belongs to.\<close>

definition authorizeDecision :: "string option \<Rightarrow> user \<Rightarrow> string \<Rightarrow> (nat + deployApproval \<times> string) op" where
  "authorizeDecision scope u depID =
     bnd (attempt (projectIDForDeployment depID)) (\<lambda>p.
     case p of
       Inl e \<Rightarrow> ret (Inl (if errors_is e ErrNotFound then 404 else 500))
     | Inr projectID \<Rightarrow>
         bnd (requireProjectRole scope u projectID RoleMember) (\<lambda>g.
         case g of
           Some status \<Rightarrow> ret (Inl status)
         | None \<Rightarrow>
             bnd (attempt (ApprovalFor depID)) (\<lambda>a.
             case a of
               Inl e \<Rightarrow> ret (Inl (protection_status e))
             | Inr ap \<Rightarrow>
                 bnd (requireProjectRole scope u projectID (da_RequiredRole ap)) (\<lambda>g'.
                 case g' of
                   Some status \<Rightarrow> ret (Inl status)
                 | None \<Rightarrow> ret (Inr (ap, projectID))))))"

definition audit_event :: "string \<Rightarrow> string \<Rightarrow> string \<Rightarrow> unit op" where
  "audit_event action resource projectID =
     bnd (attempt (bnd io (\<lambda>_. emit (Audit action resource projectID)))) (\<lambda>_. ret ())"

definition handleApproveDeployment ::
  "protection_cfg \<Rightarrow> sched_cfg \<Rightarrow> string option \<Rightarrow> user \<Rightarrow> string \<Rightarrow> nat op" where
  "handleApproveDeployment pc sc scope u depID =
     bnd (authorizeDecision scope u depID) (\<lambda>z.
     case z of
       Inl status \<Rightarrow> ret status
     | Inr (_, projectID) \<Rightarrow>
         bnd (attempt (Approve pc sc depID u)) (\<lambda>r.
         case r of
           Inl e \<Rightarrow> if errors_is e ErrRevisionNotBuilt then ret 202 else ret (protection_status e)
         | Inr (dep, _) \<Rightarrow>
             bnd (audit_event ''protection.approved'' (dep_ID dep) projectID) (\<lambda>_. ret 202)))"

definition handleRejectDeployment ::
  "protection_cfg \<Rightarrow> string option \<Rightarrow> user \<Rightarrow> string \<Rightarrow> string \<Rightarrow> nat op" where
  "handleRejectDeployment pc scope u depID reason =
     bnd (authorizeDecision scope u depID) (\<lambda>z.
     case z of
       Inl status \<Rightarrow> ret status
     | Inr (_, projectID) \<Rightarrow>
         bnd (attempt (Reject pc depID reason u)) (\<lambda>r.
         case r of
           Inl e \<Rightarrow> ret (protection_status e)
         | Inr (dep, _) \<Rightarrow>
             bnd (audit_event ''protection.rejected'' (dep_ID dep) projectID) (\<lambda>_. ret 200)))"

section \<open>What a decision changes\<close>

lemmas undecided [fr] =
  reading_ops [THEN seen_approvals.reading] seen_approvals.apps [simplified] seen_approvals.revs [simplified]
  seen_approvals.deps [simplified] seen_approvals.publishing [simplified] seen_approvals.sinks [simplified]
  seen_approvals.emitting [simplified]

lemma frames_case_list [fr]:
  "frames ob m \<Longrightarrow> (\<And>y ys. frames ob (g y ys)) \<Longrightarrow> frames ob (case l of [] \<Rightarrow> m | y # ys \<Rightarrow> g y ys)"
  by (cases l) auto

lemma undecided_start [fr]: "frames w_approvals (start cfg dep)"
proof -
  have "frames w_approvals (start_fuel n cfg dep)" for n dep
  proof (induction n arbitrary: dep)
    case (Suc n)
    show ?case
      unfolding start_fuel.simps start_body_def start_stage_def fail_with_def endActive_with_def promoteNext_with_def
        clearDeployingStatus_def startDistribute_def startRollout_def promotedSourceImage_def Let_def
      by (intro fr Suc.IH)
  qed (simp add: fr)
  then show ?thesis unfolding start_def frames_def by (simp del: start_fuel.simps)
qed

lemma undecided_release [fr]:
  "frames w_approvals (ApproveDeployment cfg i)" "frames w_approvals (RejectDeployment i det)"
  unfolding ApproveDeployment_def RejectDeployment_def failParked_def started_record_def tryStart_def
  by (intro fr)+

lemma reads_noticed [rd]: "reads (ApprovalFor i)"
  unfolding ApprovalFor_def by (intro rd)

lemma undecided_announce [fr]: "frames w_approvals (announce pc ap actor mk)"
  unfolding announce_def noticeFor_def by (intro fr)

text \<open>The row a decision leaves for the pending approval of a deployment.\<close>

definition decided_as :: "string \<Rightarrow> string \<Rightarrow> string \<Rightarrow> string \<Rightarrow> world \<Rightarrow> deployApproval list" where
  "decided_as i st by reason w =
     update_where (\<lambda>a. da_DeploymentID a = i \<and> Pending a) (decide_row (w_dbnow w) st by reason) (w_approvals w)"

lemma decide_run:
  assumes "DecideDeployApproval i st by reason w = (r, w')"
  shows "(w_approvals w' = w_approvals w \<and> (\<exists>e. r = Inl e))
    \<or> ((\<exists>a \<in> set (w_approvals w). da_DeploymentID a = i \<and> Pending a) \<and> w_approvals w' = decided_as i st by reason w)"
proof -
  have same: "w_approvals (bump v) = w_approvals v" "w_dbnow (bump v) = w_dbnow v" for v by (simp_all add: bump_def)
  show ?thesis using assms
    by (auto simp: DecideDeployApproval_def GetDeployApproval_def query_run runs one_row_def same decided_as_def
        split: option.splits if_splits)
qed

text \<open>The two-person rule: nobody but the requester ranks high enough, if the requester decides.\<close>

definition approval_of :: "world \<Rightarrow> string \<Rightarrow> deployApproval option" where
  "approval_of w i = List.find (\<lambda>a. da_DeploymentID a = i) (w_approvals w)"

definition second_person :: "world \<Rightarrow> deployApproval \<Rightarrow> user \<Rightarrow> bool" where
  "second_person w ap u \<longleftrightarrow> da_RequestedBy ap = [] \<or> da_RequestedBy ap \<noteq> usr_ID u
     \<or> (\<exists>env. env_row w (da_EnvironmentID ap) = Some env
          \<and> (\<forall>m \<in> set (w_members w). (env_ProjectID env, tmb_TeamID m) \<in> set (w_projects w)
               \<longrightarrow> tmb_UserID m \<noteq> usr_ID u \<longrightarrow> RoleRank (tmb_Role m) < RoleRank (da_RequiredRole ap)))"

lemma guard_second_person:
  assumes "guardSelfApproval ap u w = (Inr (), w')"
  shows "second_person w ap u"
proof -
  have un: "w_members (bump v) = w_members v" "w_projects (bump v) = w_projects v" for v by (simp_all add: bump_def)
  show ?thesis using assms
    by (fastforce simp: guardSelfApproval_def second_person_def bnd_Inr_iff mapE_Inr_iff CountQualifiedApprovers_def
        query_Inr_iff gets_def un filter_empty_conv not_le split: if_splits dest!: GetEnvironment_InrD)
qed

lemma guard_error: "guardSelfApproval ap u w = (Inl e, w') \<Longrightarrow> \<not> errors_is e ErrRevisionNotBuilt"
  by (auto simp: guardSelfApproval_def GetEnvironment_def CountQualifiedApprovers_def query_run runs one_row_def gets_def
      errors_is_def split: if_splits option.splits)

lemma approval_read:
  assumes "GetDeployApproval i w = (r, w')"
  shows "w' = bump w \<and> (case r of Inl e \<Rightarrow> \<not> errors_is e ErrRevisionNotBuilt
    | Inr ap \<Rightarrow> \<exists>a. approval_of w i = Some a \<and> ap = joined w a)"
proof -
  have un: "w_approvals (bump v) = w_approvals v" "joined (bump v) = joined v" for v
    by (simp_all add: bump_def joined_def email_of_def fun_eq_iff)
  show ?thesis using assms
    by (auto simp: GetDeployApproval_def query_run runs one_row_def gets_def errors_is_def un approval_of_def
        split: option.splits)
qed

lemma decide_error: "DecideDeployApproval i st by reason w = (Inl e, w') \<Longrightarrow> \<not> errors_is (conflict_decided e) ErrRevisionNotBuilt"
  by (auto simp: DecideDeployApproval_def GetDeployApproval_def query_run runs one_row_def gets_def conflict_decided_def
      errors_is_def split: if_splits option.splits)

lemma joined_simps [simp]:
  "Pending (joined w a) = Pending a" "da_RequestedBy (joined w a) = da_RequestedBy a"
  "da_EnvironmentID (joined w a) = da_EnvironmentID a" "da_RequiredRole (joined w a) = da_RequiredRole a"
  "da_DeploymentID (joined w a) = da_DeploymentID a" "second_person v (joined w a) u = second_person v a u"
  by (simp_all add: joined_def Pending_def second_person_def)

lemma second_person_bump [simp]: "second_person (bump w) ap u = second_person w ap u"
  by (simp add: second_person_def env_row_def bump_def)

text \<open>An approval either leaves the table alone and fails, or decides the pending row of that deployment.\<close>

lemma Approve_effect:
  assumes "Approve pc sc i u w = (r, w')"
  shows "(w_approvals w' = w_approvals w \<and> (\<exists>e. r = Inl e \<and> \<not> errors_is e ErrRevisionNotBuilt))
    \<or> (\<exists>ap. approval_of w i = Some ap \<and> Pending ap \<and> second_person w ap u
        \<and> w_approvals w' = decided_as i ApprovalApproved (usr_ID u) [] w)"
proof -
  obtain x w1 where get: "GetDeployApproval i w = (x, w1)" by fastforce
  note ap = approval_read [OF get]
  have quiet: "w_approvals (bump w) = w_approvals w" by (simp add: bump_def)
  show ?thesis
  proof (cases x)
    case (Inl e)
    with assms get ap show ?thesis by (auto simp: Approve_def runs quiet)
  next
    case (Inr j)
    then obtain a where a: "approval_of w i = Some a" "j = joined w a" using ap by auto
    show ?thesis
    proof (cases "Pending a")
      case False
      with assms get ap Inr a show ?thesis by (auto simp: Approve_def runs quiet errors_is_def)
    next
      case True
      obtain g w2 where guard: "guardSelfApproval j u w1 = (g, w2)" by fastforce
      have rest: "at_rest w2 = at_rest w" using reads_run [OF reads_guard guard] ap by simp
      note same = at_rest_eqD(12,21) [OF rest]
      obtain y w3 where dec: "DecideDeployApproval i ApprovalApproved (usr_ID u) [] w2 = (y, w3)" by fastforce
      note eff = decide_run [OF dec, unfolded decided_as_def same, folded decided_as_def]
      show ?thesis
      proof (cases g)
        case (Inl e)
        with assms get Inr a True guard same guard_error show ?thesis by (auto simp: Approve_def runs)
      next
        case g: (Inr _)
        have second: "second_person w a u" using guard_second_person guard g a ap by fastforce
        show ?thesis
        proof (cases y)
          case (Inl e)
          with assms get Inr a True guard g dec eff second decide_error show ?thesis
            by (auto simp: Approve_def runs decided_as_def)
        next
          case y: (Inr d)
          have "bnd (attempt (ApproveDeployment sc i)) (\<lambda>r. bnd (announce pc d u DeployApprovedItem) (\<lambda>_.
              case r of Inl perr \<Rightarrow> throw perr | Inr dep \<Rightarrow> ret (dep, d))) w3 = (r, w')"
            using assms get Inr a True guard g dec y by (simp add: Approve_def runs)
          then have "w_approvals w' = w_approvals w3" by (rule frames_run) (intro fr)
          with eff y a True second show ?thesis by auto
        qed
      qed
    qed
  qed
qed

lemma Reject_effect:
  assumes "Reject pc i why u w = (r, w')"
  shows "(w_approvals w' = w_approvals w \<and> (\<exists>e. r = Inl e))
    \<or> ((\<exists>ap. approval_of w i = Some ap \<and> Pending ap)
        \<and> w_approvals w' = decided_as i ApprovalRejected (usr_ID u) (trim_space why) w)"
proof (cases "validateReason (trim_space why) MaxRejectReason ''reason''")
  case (Some e)
  with assms show ?thesis by (auto simp: Reject_def runs Let_def)
next
  case None
  obtain x w1 where get: "GetDeployApproval i w = (x, w1)" by fastforce
  note ap = approval_read [OF get]
  have quiet: "w_approvals (bump w) = w_approvals w" "w_dbnow (bump w) = w_dbnow w" by (simp_all add: bump_def)
  show ?thesis
  proof (cases "\<exists>j. x = Inr j \<and> Pending j")
    case False
    with assms get ap None show ?thesis by (cases x) (auto simp: Reject_def runs quiet Let_def)
  next
    case True
    then obtain a where a: "approval_of w i = Some a" "x = Inr (joined w a)" "Pending a" using ap by auto
    obtain y w3 where dec: "DecideDeployApproval i ApprovalRejected (usr_ID u) (trim_space why) w1 = (y, w3)" by fastforce
    have eff: "(w_approvals w3 = w_approvals w \<and> (\<exists>e. y = Inl e))
        \<or> w_approvals w3 = decided_as i ApprovalRejected (usr_ID u) (trim_space why) w"
      using decide_run [OF dec] ap by (auto simp: decided_as_def quiet)
    show ?thesis
    proof (cases y)
      case (Inl e)
      with assms get a dec eff None show ?thesis by (auto simp: Reject_def runs Let_def)
    next
      case y: (Inr d)
      have "bnd (attempt (RejectDeployment i (RejectionDetail (usr_Email u) (trim_space why))))
          (\<lambda>r. bnd (announce pc d u DeployRejectedItem) (\<lambda>_.
          case r of Inl perr \<Rightarrow> throw perr | Inr dep \<Rightarrow> ret (dep, d))) w3 = (r, w')"
        using assms get a dec y None by (simp add: Reject_def runs Let_def)
      then have "w_approvals w' = w_approvals w3" by (rule frames_run) (intro fr)
      with eff y a show ?thesis by auto
    qed
  qed
qed

lemma decided_no_pending:
  assumes "st \<noteq> ApprovalPending"
    and "approval_of v i = Some a" "w_approvals v = decided_as i st by reason w"
  shows "\<not> Pending a"
proof -
  have a: "da_DeploymentID a = i" "a \<in> set (decided_as i st by reason w)"
    using assms(2,3) find_Some_set [of _ "w_approvals v" a] by (auto simp: approval_of_def)
  have off: "\<not> Pending (decide_row t st by reason x)" for t x using assms(1) by (simp add: decide_row_def Pending_def)
  from a show ?thesis by (auto simp: decided_as_def update_where_def off)
qed

lemma no_pending_refused:
  assumes "\<And>a. approval_of w i = Some a \<Longrightarrow> \<not> Pending a"
  shows "(\<exists>e. fst (Approve pc sc i u w) = Inl e) \<and> w_approvals (snd (Approve pc sc i u w)) = w_approvals w
    \<and> (\<exists>e. fst (Reject pc i why u w) = Inl e) \<and> w_approvals (snd (Reject pc i why u w)) = w_approvals w"
proof -
  obtain r v where a: "Approve pc sc i u w = (r, v)" by fastforce
  obtain r' v' where b: "Reject pc i why u w = (r', v')" by fastforce
  from Approve_effect [OF a] Reject_effect [OF b] assms a b show ?thesis by auto
qed

section \<open>Who may decide\<close>

definition has_rank :: "world \<Rightarrow> user \<Rightarrow> string \<Rightarrow> string \<Rightarrow> bool" where
  "has_rank w u projectID need \<longleftrightarrow> usr_Role u = RoleOwner \<and> RoleRank need \<le> RoleRank RoleOwner
     \<or> (\<exists>m \<in> set (w_members w). (projectID, tmb_TeamID m) \<in> set (w_projects w) \<and> tmb_UserID m = usr_ID u
          \<and> RoleRank need \<le> RoleRank (tmb_Role m))"

lemma RoleForProject_row:
  assumes "RoleForProject u p w = (Inr role, w')" "role \<noteq> []"
  shows "usr_Role u = RoleOwner \<and> role = RoleOwner \<or> (\<exists>m \<in> set (w_members w).
    (p, tmb_TeamID m) \<in> set (w_projects w) \<and> tmb_UserID m = usr_ID u \<and> tmb_Role m = role)"
proof -
  have un: "w_members (bump w) = w_members w" "w_projects (bump w) = w_projects w" by (simp_all add: bump_def)
  show ?thesis using assms
    by (fastforce simp: RoleForProject_def GetTeamRoleForProject_def query_run runs one_row_def un
        split: if_splits option.splits dest!: find_Some_set)
qed

lemma requireProjectRole_passes:
  assumes "requireProjectRole scope u p need w = (Inr None, w')"
  shows "(scope = None \<or> scope = Some p) \<and> has_rank w u p need"
proof -
  obtain r w1 where role: "RoleForProject u p w = (r, w1)" by fastforce
  with assms show ?thesis
    by (cases r) (auto simp: requireProjectRole_def runs has_rank_def not_less split: if_splits dest!: RoleForProject_row)
qed

lemma reads_authz [rd]:
  "reads (requireProjectRole scope u p need)" "reads (requireTeamRole u t need)"
  "reads (projectIDForEnvironment e)" "reads (projectIDForApplication a)" "reads (projectIDForDeployment i)"
  "reads (authorizeDecision scope u i)"
  unfolding authorizeDecision_def requireProjectRole_def requireTeamRole_def projectIDForDeployment_def
    projectIDForApplication_def projectIDForEnvironment_def
  by (intro rd)+

text \<open>The project a deployment belongs to.\<close>

definition project_of :: "world \<Rightarrow> string \<Rightarrow> string \<Rightarrow> bool" where
  "project_of w i p \<longleftrightarrow> (\<exists>dep app env. dep_row i (w_deps w) = Some dep \<and> app_row w (dep_ApplicationID dep) = Some app
     \<and> env_row w (app_EnvironmentID app) = Some env \<and> env_ProjectID env = p)"

lemma projectIDForDeployment_row:
  assumes "projectIDForDeployment i w = (Inr p, w')"
  shows "project_of w i p"
proof -
  have un: "w_deps (bump v) = w_deps v" "w_apps (bump v) = w_apps v" "w_envs (bump v) = w_envs v" for v
    by (simp_all add: bump_def)
  show ?thesis using assms
    by (auto simp: projectIDForDeployment_def projectIDForApplication_def projectIDForEnvironment_def bnd_Inr_iff
        mapE_Inr_iff GetDeployment_def GetApplication_def GetEnvironment_def query_Inr_iff one_row_Inr_iff project_of_def
        dep_row_def app_row_def env_row_def un)
qed

lemma seen_at_rest:
  assumes "at_rest w' = at_rest w"
  shows "approval_of w' i = approval_of w i" "has_rank w' u p need = has_rank w u p need"
    "second_person w' ap u = second_person w ap u" "decided_as i st by reason w' = decided_as i st by reason w"
  using at_rest_eqD [OF assms] by (simp_all add: approval_of_def has_rank_def second_person_def decided_as_def env_row_def)

definition refusals :: "nat set" where
  "refusals = {400, 403, 404, 409, 500}"

lemma in_refusals [simp]: "404 \<in> refusals" "500 \<in> refusals" "202 \<notin> refusals" "200 \<notin> refusals"
  by (simp_all add: refusals_def)

lemma authorizeDecision_row:
  assumes "authorizeDecision scope u i w = (Inr z, w')"
  shows "case z of Inl s \<Rightarrow> s \<in> refusals
    | Inr (j, p) \<Rightarrow> \<exists>ap. approval_of w i = Some ap \<and> project_of w i p \<and> (scope = None \<or> scope = Some p)
        \<and> has_rank w u p (da_RequiredRole ap)"
proof -
  have codes: "protection_status e \<in> refusals" for e by (simp add: refusals_def protection_status_def split: error.split)
  have refusal: "s \<in> refusals" if "requireProjectRole scope u p need v = (Inr (Some s), v')" for p need v v' s
    using that by (auto simp: requireProjectRole_def runs refusals_def split: if_splits prod.splits sum.splits)
  obtain p w1 where proj: "projectIDForDeployment i w = (p, w1)" by fastforce
  note rest1 = reads_run [OF reads_authz(5) proj]
  show ?thesis
  proof (cases p)
    case (Inl e)
    with assms proj show ?thesis by (auto simp: authorizeDecision_def runs)
  next
    case (Inr p')
    note owner = projectIDForDeployment_row [OF proj [unfolded Inr]]
    obtain g w2 where gate: "requireProjectRole scope u p' RoleMember w1 = (g, w2)" by fastforce
    note rest2 = reads_run [OF reads_authz(1) gate]
    obtain a w3 where appr: "ApprovalFor i w2 = (a, w3)" by fastforce
    have rest: "at_rest w2 = at_rest w" "at_rest w3 = at_rest w"
      using rest1 rest2 reads_run [OF reads_noticed appr] by simp_all
    show ?thesis
    proof (cases "g = Inr None \<and> (\<exists>j. a = Inr j)")
      case False
      with assms proj Inr gate appr refusal codes show ?thesis
        by (auto simp: authorizeDecision_def runs split: sum.splits option.splits)
    next
      case True
      then obtain j where j: "g = Inr None" "a = Inr j" by blast
      obtain ap where ap: "approval_of w i = Some ap" "j = joined w2 ap"
        using approval_read [of i w2] appr j seen_at_rest(1) [OF rest(1)] by (auto simp: ApprovalFor_def)
      obtain g' w4 where gate': "requireProjectRole scope u p' (da_RequiredRole ap) w3 = (g', w4)" by fastforce
      with assms proj Inr gate appr j ap have
        "(case g' of Inl e \<Rightarrow> (Inl e, w4) | Inr (Some s) \<Rightarrow> (Inr (Inl s), w4) | Inr None \<Rightarrow> (Inr (Inr (j, p')), w4)) = (Inr z, w')"
        by (auto simp: authorizeDecision_def runs split: sum.splits option.splits)
      then show ?thesis using gate' requireProjectRole_passes [of scope u p' _ w3 w4] refusal ap owner
          seen_at_rest(2) [OF rest(2)]
        by (fastforce split: sum.splits option.splits)
    qed
  qed
qed

lemma status_refused: "protection_status e \<in> refusals"
  by (simp add: refusals_def protection_status_def split: error.split)

lemma handleApprove_decides:
  assumes "handleApproveDeployment pc sc scope u i w = (Inr 202, w')"
  shows "\<exists>p ap. project_of w i p \<and> (scope = None \<or> scope = Some p) \<and> approval_of w i = Some ap \<and> Pending ap
    \<and> has_rank w u p (da_RequiredRole ap) \<and> second_person w ap u
    \<and> w_approvals w' = decided_as i ApprovalApproved (usr_ID u) [] w"
proof -
  obtain z w1 where auth: "authorizeDecision scope u i w = (Inr z, w1)"
    using assms by (auto simp: handleApproveDeployment_def bnd_Inr_iff)
  note may = authorizeDecision_row [OF auth]
  have rest: "at_rest w1 = at_rest w" using reads_authz(6) auth by (rule reads_run)
  obtain j p where z: "z = Inr (j, p)"
    using assms auth may by (cases z) (auto simp: handleApproveDeployment_def runs)
  obtain r w2 where run: "Approve pc sc i u w1 = (r, w2)" by fastforce
  note eff = Approve_effect [OF run, unfolded seen_at_rest [OF rest] at_rest_eqD(12) [OF rest]]
  have audit: "frames w_approvals (audit_event x y v)" for x y v unfolding audit_event_def by (intro fr)
  have "w_approvals w' = w_approvals w2 \<and> (case r of Inl e \<Rightarrow> errors_is e ErrRevisionNotBuilt | Inr _ \<Rightarrow> True)"
    using assms auth z run status_refused audit
    by (auto simp: handleApproveDeployment_def runs frames_def split: sum.splits prod.splits if_splits)
       (metis in_refusals(3) snd_conv)+
  with eff may z show ?thesis by (cases r) auto
qed

section \<open>Claims\<close>

text \<open>
  C13. An approval needs somebody entitled to give it. When the endpoint answers 202, the
  deployment had a pending approval, the caller is the panel owner or holds, in the team of its project,
  at least the role that was required when it parked, a token narrowed to a project is narrowed to this
  one, and nobody else qualifies if the caller asked for the deploy. The pending approval is then recorded as
  approved by the caller and no other approval changes. This holds whatever calls fail.
\<close>

theorem approval_needs_rank:
  assumes "handleApproveDeployment pc sc scope u i w = (Inr 202, w')"
  shows "\<exists>p ap. project_of w i p \<and> (scope = None \<or> scope = Some p) \<and> approval_of w i = Some ap \<and> Pending ap
    \<and> has_rank w u p (da_RequiredRole ap) \<and> second_person w ap u
    \<and> w_approvals w' = decided_as i ApprovalApproved (usr_ID u) [] w"
  using assms by (rule handleApprove_decides)

text \<open>A deploy that \<open>ann\<close> asked for and an admin has to approve; \<open>bob\<close> is an admin.\<close>

definition desk :: world where
  "desk = serve shop_cfg (DeployReq ''rev_1'' ''dep_1'' ''app_1'' ''manual'' [] ''ann'') (shop_world\<lparr>
     w_users := [person ''ann'' ''member'', person ''bob'' ''member''], w_projects := [(''prj_1'', ''team_1'')],
     w_members := [\<lparr> tmb_TeamID = ''team_1'', tmb_UserID = ''ann'', tmb_Role = ''owner'' \<rparr>,
                   \<lparr> tmb_TeamID = ''team_1'', tmb_UserID = ''bob'', tmb_Role = ''admin'' \<rparr>]\<rparr>)"

abbreviation ask_desk :: "string \<Rightarrow> nat op" where
  "ask_desk who \<equiv> handleApproveDeployment utc_protection shop_cfg None (person who ''member'') ''dep_1''"

theorem approval_needs_rank_witness:
  "fst (ask_desk ''ann'' desk) = Inr 403 \<and> fst (ask_desk ''bob'' desk) = Inr 202
   \<and> statuses (snd (ask_desk ''bob'' desk)) = [(''dep_1'', DeployBuilding)]
   \<and> w_approvals (snd (ask_desk ''bob'' desk)) = decided_as ''dep_1'' ApprovalApproved ''bob'' [] desk"
proof -
  have ok: "fst (ask_desk ''bob'' desk) = Inr 202" by code_simp
  obtain v where run: "ask_desk ''bob'' desk = (Inr 202, v)" using ok by (cases "ask_desk ''bob'' desk") simp
  have "w_approvals v = decided_as ''dep_1'' ApprovalApproved ''bob'' [] desk"
    using approval_needs_rank [OF run] by (auto simp: person_def)
  moreover have "fst (ask_desk ''ann'' desk) = Inr 403" by code_simp
  moreover have "statuses (snd (ask_desk ''bob'' desk)) = [(''dep_1'', DeployBuilding)]" by code_simp
  ultimately show ?thesis using ok run by simp
qed

text \<open>
  A deploy is decided once. After an approval or a rejection went through, every further attempt to
  approve or reject the same deployment, by anyone, fails and leaves all approvals as they are.
\<close>

theorem decided_once:
  assumes "Approve pc sc i u w = (Inr z, w') \<or> Reject pc i why u w = (Inr z, w')"
  shows "(\<exists>e. fst (Approve pc' sc' i v w') = Inl e) \<and> w_approvals (snd (Approve pc' sc' i v w')) = w_approvals w'
    \<and> (\<exists>e. fst (Reject pc' i why' v w') = Inl e) \<and> w_approvals (snd (Reject pc' i why' v w')) = w_approvals w'"
proof (rule no_pending_refused)
  fix a assume "approval_of w' i = Some a"
  moreover obtain st who reason where "w_approvals w' = decided_as i st who reason w" "st \<noteq> ApprovalPending"
    using assms Approve_effect [of pc sc i u w _ w'] Reject_effect [of pc i why u w _ w'] by (auto simp: approval_states)
  ultimately show "\<not> Pending a" using decided_no_pending by blast
qed

theorem decided_once_witness:
  "w_approvals (snd (Reject utc_protection ''dep_1'' ''not today'' (person ''ann'' ''member'')
       (snd (Approve utc_protection shop_cfg ''dep_1'' (person ''bob'' ''member'') desk))))
   = w_approvals (snd (Approve utc_protection shop_cfg ''dep_1'' (person ''bob'' ''member'') desk))"
proof -
  have "\<not> isl (fst (Approve utc_protection shop_cfg ''dep_1'' (person ''bob'' ''member'') desk))" by code_simp
  then obtain z w' where "Approve utc_protection shop_cfg ''dep_1'' (person ''bob'' ''member'') desk = (Inr z, w')"
    by (metis isl_def obj_sumE surjective_pairing)
  with decided_once [OF disjI1, OF this] show ?thesis by auto
qed

end
