(* ===== verification/TOTP.thy ===== *)
theory TOTP
  imports Limiter "HOL-Library.Word"
begin

text \<open>
  Time-based one-time passwords (\<open>src/core/auth/totp.go\<close>): the unpadded base32 of the secret,
  HMAC truncation on machine words, and the window of accepted steps. \<open>hmac.New(sha1.New, key)\<close> is the
  parameter \<open>hmac\<close>, from key and message to the digest; what is relied on is that a SHA-1 digest
  has twenty bytes. Of the standard library the base32 codec is modelled on bytes as words.
\<close>

unbundle bit_operations_syntax

type_synonym byte = "8 word"

section \<open>Base32 without padding\<close>

definition base32_char :: "byte \<Rightarrow> char" where
  "base32_char v = (if unat v < 26 then char_of (65 + unat v) else char_of (24 + unat v))"

definition base32_value :: "char \<Rightarrow> byte option" where
  "base32_value c =
     (let n = of_char c :: nat in
      if 65 \<le> n \<and> n \<le> 90 then Some (word_of_nat (n - 65))
      else if 50 \<le> n \<and> n \<le> 55 then Some (word_of_nat (n - 24))
      else None)"

text \<open>
  Five bytes give eight digits of five bits; a shorter last group gives two, four, five or seven. A
  digit takes its upper bits from one byte and the rest from the next.
\<close>

definition join5 :: "nat \<Rightarrow> byte \<Rightarrow> byte \<Rightarrow> byte" where
  "join5 k a b = (push_bit k a OR drop_bit (8 - k) b) AND 31"

definition cut5 :: "nat \<Rightarrow> byte \<Rightarrow> byte" where
  "cut5 k a = drop_bit k a AND 31"

definition quintets :: "byte \<Rightarrow> byte \<Rightarrow> byte \<Rightarrow> byte \<Rightarrow> byte \<Rightarrow> byte list" where
  "quintets b0 b1 b2 b3 b4 =
     [cut5 3 b0, join5 2 b0 b1, cut5 1 b1, join5 4 b1 b2, join5 1 b2 b3, cut5 2 b3, join5 3 b3 b4, cut5 0 b4]"

fun encode_quanta :: "byte list \<Rightarrow> byte list" where
  "encode_quanta [] = []"
| "encode_quanta [b0] = take 2 (quintets b0 0 0 0 0)"
| "encode_quanta [b0, b1] = take 4 (quintets b0 b1 0 0 0)"
| "encode_quanta [b0, b1, b2] = take 5 (quintets b0 b1 b2 0 0)"
| "encode_quanta [b0, b1, b2, b3] = take 7 (quintets b0 b1 b2 b3 0)"
| "encode_quanta (b0 # b1 # b2 # b3 # b4 # bs) = quintets b0 b1 b2 b3 b4 @ encode_quanta bs"

definition EncodeToString :: "byte list \<Rightarrow> string" where
  "EncodeToString bs = map base32_char (encode_quanta bs)"

text \<open>
  Eight digits give five bytes. A last group of two, four, five or seven digits gives the bytes it
  fills; one of any other length gives none, as the decoder of the standard library does.
\<close>

definition merge2 :: "nat \<Rightarrow> byte \<Rightarrow> nat \<Rightarrow> byte \<Rightarrow> byte" where
  "merge2 i x j y = push_bit i x OR drop_bit j y"

definition merge3 :: "nat \<Rightarrow> byte \<Rightarrow> nat \<Rightarrow> byte \<Rightarrow> nat \<Rightarrow> byte \<Rightarrow> byte" where
  "merge3 i x j y k z = push_bit i x OR push_bit j y OR drop_bit k z"

definition octets :: "byte \<Rightarrow> byte \<Rightarrow> byte \<Rightarrow> byte \<Rightarrow> byte \<Rightarrow> byte \<Rightarrow> byte \<Rightarrow> byte \<Rightarrow> byte list" where
  "octets d0 d1 d2 d3 d4 d5 d6 d7 =
     [merge2 3 d0 2 d1, merge3 6 d1 1 d2 4 d3, merge2 4 d3 1 d4, merge3 7 d4 2 d5 3 d6, merge2 5 d6 0 d7]"

fun decode_quanta :: "byte list \<Rightarrow> byte list" where
  "decode_quanta [d0, d1] = take 1 (octets d0 d1 0 0 0 0 0 0)"
| "decode_quanta [d0, d1, d2, d3] = take 2 (octets d0 d1 d2 d3 0 0 0 0)"
| "decode_quanta [d0, d1, d2, d3, d4] = take 3 (octets d0 d1 d2 d3 d4 0 0 0)"
| "decode_quanta [d0, d1, d2, d3, d4, d5, d6] = take 4 (octets d0 d1 d2 d3 d4 d5 d6 0)"
| "decode_quanta (d0 # d1 # d2 # d3 # d4 # d5 # d6 # d7 # ds) = octets d0 d1 d2 d3 d4 d5 d6 d7 @ decode_quanta ds"
| "decode_quanta ds = []"

definition DecodeString :: "string \<Rightarrow> byte list option" where
  "DecodeString s =
     map_option decode_quanta (those (map base32_value (filter (\<lambda>c. c \<noteq> CHR 0x0D \<and> c \<noteq> CHR 0x0A) s)))"

section \<open>One-time passwords (totp.go)\<close>

definition totpDigits :: nat where "totpDigits = 6"
definition totpPeriod :: time where "totpPeriod = 30 * second"
definition totpSecretBytes :: nat where "totpSecretBytes = 20"
definition totpSkew :: int where "totpSkew = 1"

type_synonym hmac = "byte list \<Rightarrow> byte list \<Rightarrow> byte list"

text \<open>The bytes of \<open>rand.Read\<close> are an argument.\<close>

definition newTOTPSecret :: "byte list \<Rightarrow> string" where
  "newTOTPSecret buf = EncodeToString buf"

definition PutUint64 :: "64 word \<Rightarrow> byte list" where
  "PutUint64 n = map (\<lambda>i. ucast (drop_bit (8 * i) n)) [7, 6, 5, 4, 3, 2, 1, 0]"

text \<open>\<open>fmt.Sprintf("%0*d", digits, n)\<close>\<close>

definition zero_padded :: "nat \<Rightarrow> nat \<Rightarrow> string" where
  "zero_padded w n = replicate (w - length (dec n)) (CHR ''0'') @ dec n"

text \<open>\<open>None\<close> is the panic of an index past the end of the digest.\<close>

definition hotp :: "hmac \<Rightarrow> byte list \<Rightarrow> 64 word \<Rightarrow> nat \<Rightarrow> string option" where
  "hotp hmac key counter digits =
     (let sum = hmac key (PutUint64 counter) in
      if sum = [] then None
      else
        (let offset = unat (last sum AND 0x0f) in
         if length sum \<le> offset + 3 then None
         else
           (let truncated =
                  push_bit 24 (ucast (sum ! offset) AND 0x7f)
                  OR push_bit 16 (ucast (sum ! (offset + 1)))
                  OR push_bit 8 (ucast (sum ! (offset + 2)))
                  OR ucast (sum ! (offset + 3)) :: 32 word;
                md = word_of_nat (10 ^ digits) :: 32 word
            in Some (zero_padded digits (unat (truncated mod md))))))"

text \<open>
  \<open>strings.ToUpper\<close> as far as the alphabet can tell: the two runes outside ASCII whose capitals
  are ASCII letters are mapped, every other one stays outside the alphabet.
\<close>

fun to_upper :: "string \<Rightarrow> string" where
  "to_upper [] = []"
| "to_upper (c # s) =
     (if has_prefix [CHR 0xC5, CHR 0xBF] (c # s) then CHR ''S'' # to_upper (drop 1 s)
      else if has_prefix [CHR 0xC4, CHR 0xB1] (c # s) then CHR ''I'' # to_upper (drop 1 s)
      else (let n = of_char c :: nat in
            if 97 \<le> n \<and> n \<le> 122 then char_of (n - 32) else c) # to_upper s)"

definition totp_counter :: "time \<Rightarrow> 64 word" where
  "totp_counter t = word_of_int (t div second) div 30"

text \<open>\<open>Inl\<close> is the decoding error.\<close>

definition totpCode :: "hmac \<Rightarrow> string \<Rightarrow> time \<Rightarrow> unit + string option" where
  "totpCode hmac secret t =
     (case DecodeString (to_upper (trim_space secret)) of
        None \<Rightarrow> Inl ()
      | Some key \<Rightarrow> Inr (hotp hmac key (totp_counter t) totpDigits))"

fun valid_loop :: "hmac \<Rightarrow> string \<Rightarrow> string \<Rightarrow> time list \<Rightarrow> bool \<Rightarrow> bool option" where
  "valid_loop hmac secret code [] ok = Some ok"
| "valid_loop hmac secret code (t # ts) ok =
     (case totpCode hmac secret t of
        Inl _ \<Rightarrow> Some False
      | Inr None \<Rightarrow> None
      | Inr (Some want) \<Rightarrow> valid_loop hmac secret code ts (ok \<or> want = code))"

definition validTOTP :: "hmac \<Rightarrow> string \<Rightarrow> string \<Rightarrow> time \<Rightarrow> bool option" where
  "validTOTP hmac secret code0 now =
     (let code = trim_space code0 in
      if length code \<noteq> totpDigits then Some False
      else valid_loop hmac secret code (map (\<lambda>i. now + i * totpPeriod) [- totpSkew .. totpSkew]) False)"

section \<open>The codec\<close>

lemma byte_eqI:
  fixes a b :: byte
  assumes "\<forall>n \<in> {0, 1, 2, 3, 4, 5, 6, 7}. bit a n = bit b n"
  shows "a = b"
proof (rule bit_word_eqI)
  fix n assume "n < LENGTH(8)"
  then have "n \<in> {0, 1, 2, 3, 4, 5, 6, 7}" by auto
  with assms show "bit a n = bit b n" by blast
qed

lemmas byte_bits = bit_or_iff bit_and_iff bit_simps bit_drop_bit_eq

text \<open>Decoding undoes encoding on whole groups and on the last one.\<close>

lemma merge_cut [simp]:
  "merge2 3 (cut5 3 a) 2 (join5 2 a b) = a" "merge3 6 (join5 2 a b) 1 (cut5 1 b) 4 (join5 4 b c) = b"
  "merge2 4 (join5 4 a b) 1 (join5 1 b c) = b" "merge3 7 (join5 1 a b) 2 (cut5 2 b) 3 (join5 3 b c) = b"
  "merge2 5 (join5 3 a b) 0 (cut5 0 b) = b"
  unfolding merge2_def merge3_def cut5_def join5_def
  by (rule byte_eqI; simp add: byte_bits del: One_nat_def; auto simp: eval_nat_numeral dest: bit_imp_le_length)+

lemma decode_encode_quanta: "decode_quanta (encode_quanta bs) = bs"
  by (induction bs rule: encode_quanta.induct) (simp_all add: quintets_def octets_def take_Cons' del: One_nat_def)

lemma small_quintet [simp]: "unat (cut5 k a) < 32" "unat (join5 k a b) < 32"
proof -
  have "unat (x AND 31) < 32" for x :: byte
    using word_and_le1 [of x 31] unfolding word_le_nat_alt by simp
  then show "unat (cut5 k a) < 32" "unat (join5 k a b) < 32" unfolding cut5_def join5_def by blast+
qed

lemma quanta_small: "v \<in> set (encode_quanta bs) \<Longrightarrow> unat v < 32"
proof -
  have five: "v \<in> set (quintets a b c d e) \<Longrightarrow> unat v < 32" for a b c d e
    unfolding quintets_def by auto
  show "v \<in> set (encode_quanta bs) \<Longrightarrow> unat v < 32"
    by (induction bs rule: encode_quanta.induct) (auto dest!: in_set_takeD five)
qed

text \<open>The alphabet.\<close>

definition base32_letter :: "char \<Rightarrow> bool" where
  "base32_letter c \<longleftrightarrow> (let n = of_char c :: nat in (65 \<le> n \<and> n \<le> 90) \<or> (50 \<le> n \<and> n \<le> 55))"

lemma base32_char_letter: "unat v < 32 \<Longrightarrow> base32_letter (base32_char v)"
  by (auto simp: base32_letter_def base32_char_def Let_def)

lemma base32_value_char: "unat v < 32 \<Longrightarrow> base32_value (base32_char v) = Some v"
  by (auto simp: base32_value_def base32_char_def Let_def)

lemma letters_encoded: "c \<in> set (EncodeToString bs) \<Longrightarrow> base32_letter c"
  by (auto simp: EncodeToString_def intro: base32_char_letter dest: quanta_small)

lemma those_map_Some: "(\<And>x. x \<in> set xs \<Longrightarrow> f (g x) = Some x) \<Longrightarrow> those (map f (map g xs)) = Some xs"
  by (induction xs) auto

lemma decode_encode: "DecodeString (EncodeToString bs) = Some bs"
proof -
  have plain: "filter (\<lambda>c. c \<noteq> CHR 0x0D \<and> c \<noteq> CHR 0x0A) (EncodeToString bs) = EncodeToString bs"
    by (rule filter_True) (auto dest!: letters_encoded simp: base32_letter_def Let_def)
  have "those (map base32_value (EncodeToString bs)) = Some (encode_quanta bs)"
    unfolding EncodeToString_def by (rule those_map_Some) (simp add: base32_value_char quanta_small)
  then show ?thesis by (simp add: DecodeString_def plain decode_encode_quanta)
qed

lemma letter_cases: "base32_letter c \<Longrightarrow> (of_char c :: nat) < 97"
  by (auto simp: base32_letter_def Let_def)

lemma to_upper_letters: "(\<And>c. c \<in> set s \<Longrightarrow> base32_letter c) \<Longrightarrow> to_upper s = s"
proof (induction s)
  case (Cons c s)
  then have "base32_letter c" "to_upper s = s" by simp_all
  then show ?case by (auto simp: base32_letter_def Let_def)
qed simp

lemma secret_key: "DecodeString (to_upper (trim_space (newTOTPSecret buf))) = Some buf"
proof -
  have "trim_space (EncodeToString buf) = EncodeToString buf"
    by (rule trim_space_plain) (auto dest!: letters_encoded simp: base32_letter_def Let_def)
  moreover have "to_upper (EncodeToString buf) = EncodeToString buf" by (rule to_upper_letters) (rule letters_encoded)
  ultimately show ?thesis by (simp add: newTOTPSecret_def decode_encode)
qed

section \<open>The codes\<close>

lemma length_dec: "n < 10 ^ k \<Longrightarrow> 0 < k \<Longrightarrow> length (dec n) \<le> k"
proof (induction n arbitrary: k rule: dec.induct)
  case (1 n)
  show ?case
  proof (cases "n < 10")
    case True
    with 1 show ?thesis by (simp add: dec.simps [of n])
  next
    case False
    from 1 False obtain j where k: "k = Suc j" "0 < j" by (cases k; cases "k - 1") auto
    with 1 have "n div 10 < 10 ^ j" by (simp add: less_mult_imp_div_less mult.commute)
    with 1 False k have "length (dec (n div 10)) \<le> j" by simp
    with False k show ?thesis by (simp add: dec.simps [of n])
  qed
qed

lemma hotp_code:
  assumes "length (hmac key (PutUint64 c)) = 20"
  shows "\<exists>n < 10 ^ 6. hotp hmac key c totpDigits = Some (zero_padded 6 n)"
proof -
  define sum where "sum = hmac key (PutUint64 c)"
  have len: "length sum = 20" "sum \<noteq> []" using assms by (auto simp: sum_def)
  have "last sum AND 0x0f \<le> 0x0f" by (rule word_and_le1)
  then have off: "unat (last sum AND 0x0f) \<le> 15" by (simp add: word_le_nat_alt)
  have md: "unat (t mod (1000000 :: 32 word)) < 1000000" for t
    using word_mod_less_divisor [of 1000000 t] by (simp add: word_less_nat_alt)
  show ?thesis using len off md unfolding hotp_def sum_def [symmetric] totpDigits_def Let_def by auto
qed

lemma counter_nonneg:
  assumes "0 \<le> t" "t < 2 ^ 64 * second"
  shows "totp_counter t = word_of_int (t div totpPeriod)"
proof -
  have range: "0 \<le> t div second" "t div second < 2 ^ 64"
    using assms by (auto simp: second_def pos_imp_zdiv_nonneg_iff div_less_iff_less_mult)
  have "take_bit 64 (t div second) = t div second" using range by (simp add: take_bit_int_eq_self)
  then have "uint (word_of_int (t div second) div 30 :: 64 word) = t div second div 30"
    using range by (simp add: uint_div_distrib unsigned_of_int)
  moreover have "t div second div 30 = t div totpPeriod"
    by (simp add: totpPeriod_def zdiv_zmult2_eq second_def)
  ultimately show ?thesis unfolding totp_counter_def by (metis word_of_int_uint)
qed

lemma near_steps:
  fixes t now p :: int
  assumes "0 < p" "\<bar>t - now\<bar> \<le> p"
  shows "t div p \<in> {(now + - 1 * p) div p, now div p, (now + 1 * p) div p}"
proof -
  have shift: "(now + k * p) div p = now div p + k" for k using assms(1) by simp
  have "(now + - 1 * p) div p \<le> t div p" "t div p \<le> (now + 1 * p) div p" using assms by (auto intro: zdiv_mono1)
  then show ?thesis unfolding shift by auto
qed

lemma valid_loop_all:
  assumes "\<And>t. t \<in> set ts \<Longrightarrow> \<exists>c. totpCode hmac secret t = Inr (Some c)"
  shows "valid_loop hmac secret code ts ok = Some (ok \<or> (\<exists>t \<in> set ts. totpCode hmac secret t = Inr (Some code)))"
  using assms
proof (induction ts arbitrary: ok)
  case (Cons t ts)
  then obtain c where "totpCode hmac secret t = Inr (Some c)" by auto
  with Cons show ?case by auto
qed simp

lemma totpCode_shape:
  assumes "\<And>k m. length (hmac k m) = 20" "DecodeString (to_upper (trim_space secret)) = Some key"
  shows "\<exists>c. totpCode hmac secret t = Inr (Some c) \<and> length c = totpDigits"
proof -
  obtain n where n: "n < 10 ^ 6" "hotp hmac key (totp_counter t) totpDigits = Some (zero_padded 6 n)"
    using hotp_code [of hmac key] assms(1) by blast
  from length_dec [OF n(1)] have "length (zero_padded 6 n) = 6" by (simp add: zero_padded_def)
  with n assms(2) show ?thesis by (simp add: totpCode_def totpDigits_def)
qed

lemma window_codes:
  assumes hm: "\<And>k m. length (hmac k m) = 20" and key: "DecodeString (to_upper (trim_space secret)) = Some key"
    and now: "totpPeriod \<le> now" "now + totpPeriod < 2 ^ 64 * second"
  shows "validTOTP hmac secret code now
    = Some (\<exists>t. \<bar>t - now\<bar> \<le> totpPeriod \<and> totpCode hmac secret t = Inr (Some (trim_space code)))"
proof -
  have shape: "\<exists>c. totpCode hmac secret t = Inr (Some c) \<and> length c = totpDigits" for t
    using hm key by (rule totpCode_shape)
  define want where "want = trim_space code"
  define steps where "steps = map (\<lambda>i. now + i * totpPeriod) [- totpSkew .. totpSkew]"
  have p: "0 < totpPeriod" by (simp add: totpPeriod_def second_def)
  have steps: "set steps = {now + - 1 * totpPeriod, now + 0 * totpPeriod, now + 1 * totpPeriod}"
    unfolding steps_def totpSkew_def by (simp add: upto.simps insert_commute)
  have loop: "valid_loop hmac secret want steps False = Some (\<exists>t \<in> set steps. totpCode hmac secret t = Inr (Some want))"
    using shape by (subst valid_loop_all) blast+
  have "(\<exists>t \<in> set steps. totpCode hmac secret t = Inr (Some want))
      \<longleftrightarrow> (\<exists>t. \<bar>t - now\<bar> \<le> totpPeriod \<and> totpCode hmac secret t = Inr (Some want))"
  proof
    assume "\<exists>t \<in> set steps. totpCode hmac secret t = Inr (Some want)"
    moreover have "\<forall>t \<in> set steps. \<bar>t - now\<bar> \<le> totpPeriod" using p unfolding steps by simp
    ultimately show "\<exists>t. \<bar>t - now\<bar> \<le> totpPeriod \<and> totpCode hmac secret t = Inr (Some want)" by blast
  next
    assume "\<exists>t. \<bar>t - now\<bar> \<le> totpPeriod \<and> totpCode hmac secret t = Inr (Some want)"
    then obtain t where t: "\<bar>t - now\<bar> \<le> totpPeriod" "totpCode hmac secret t = Inr (Some want)" by blast
    obtain s where s: "s \<in> set steps" "t div totpPeriod = s div totpPeriod"
      using near_steps [OF p t(1)] unfolding steps by auto
    have "0 \<le> t" "t < 2 ^ 64 * second" "0 \<le> s" "s < 2 ^ 64 * second" using t(1) now p s(1) unfolding steps by auto
    then have "totp_counter s = totp_counter t" by (simp add: counter_nonneg s(2))
    then have "totpCode hmac secret s = totpCode hmac secret t" by (simp add: totpCode_def split: option.split)
    with t(2) s(1) show "\<exists>t \<in> set steps. totpCode hmac secret t = Inr (Some want)" by auto
  qed
  moreover have "length want = totpDigits" if "totpCode hmac secret t = Inr (Some want)" for t
    using that shape [of t] by auto
  ultimately show ?thesis unfolding validTOTP_def Let_def want_def [symmetric] steps_def [symmetric] loop by auto
qed

section \<open>Claims\<close>

text \<open>
  C19. Enrolment round trip: the text shown to the authenticator decodes to exactly the random bytes it
  was made from, whatever their number, and the panel derives its codes from those bytes.
\<close>

theorem secret_round_trip:
  "DecodeString (newTOTPSecret buf) = Some buf
   \<and> totpCode hmac (newTOTPSecret buf) t = Inr (hotp hmac buf (totp_counter t) totpDigits)"
  by (simp add: totpCode_def secret_key) (simp add: newTOTPSecret_def decode_encode)

text \<open>
  C20. A one-time password is accepted exactly when an authenticator with the same secret shows it and its
  clock is off by at most thirty seconds; no index of the digest is out of range. The clock is between thirty
  seconds after the epoch and the end of 64-bit seconds, and a SHA-1 digest has twenty bytes.
\<close>

theorem validTOTP_window:
  assumes "\<And>k m. length (hmac k m) = 20" "totpPeriod \<le> now" "now + totpPeriod < 2 ^ 64 * second"
  shows "validTOTP hmac (newTOTPSecret buf) code now
    = Some (\<exists>t. \<bar>t - now\<bar> \<le> totpPeriod
        \<and> hotp hmac buf (totp_counter t) totpDigits = Some (trim_space code))"
proof -
  have "totpCode hmac (newTOTPSecret buf) t = Inr (hotp hmac buf (totp_counter t) totpDigits)" for t
    by (simp add: totpCode_def secret_key)
  moreover have "validTOTP hmac (newTOTPSecret buf) code now
    = Some (\<exists>t. \<bar>t - now\<bar> \<le> totpPeriod \<and> totpCode hmac (newTOTPSecret buf) t = Inr (Some (trim_space code)))"
    using assms(1) secret_key assms(2,3) by (rule window_codes)
  ultimately show ?thesis by simp
qed

text \<open>A digest that does not depend on anything: offset 1, the bytes there 0x07070707.\<close>

definition toy_hmac :: hmac where
  "toy_hmac k m = replicate 19 7 @ [1]"

theorem validTOTP_window_witness:
  "validTOTP toy_hmac (newTOTPSecret [1, 2, 3]) '' 901063'' (95 * second) = Some True"
proof -
  have "validTOTP toy_hmac (newTOTPSecret [1, 2, 3]) '' 901063'' (95 * second)
    = Some (\<exists>t. \<bar>t - 95 * second\<bar> \<le> totpPeriod
        \<and> hotp toy_hmac [1, 2, 3] (totp_counter t) totpDigits = Some (trim_space '' 901063''))"
    by (rule validTOTP_window) (simp_all add: toy_hmac_def totpPeriod_def second_def)
  moreover have "hotp toy_hmac [1, 2, 3] (totp_counter (70 * second)) totpDigits = Some ''901063''"
    by (simp add: hotp_def toy_hmac_def totpDigits_def zero_padded_def nth_append dec.simps digit_def)
      code_simp
  moreover have "trim_space '' 901063'' = ''901063''" by code_simp
  ultimately show ?thesis by (auto simp: totpPeriod_def second_def intro!: exI [of _ "70 * second"])
qed

end
