(* ===== verification/Auth.thy ===== *)
theory Auth
  imports Teams TOTP
begin

text \<open>
  Accounts of the panel (\<open>src/core/auth\<close>): sign-in with a password and a second factor, sessions, personal
  access tokens, moving an account to another address, and the statements of \<open>src/core/store/store.go\<close>
  they use. bcrypt, SHA-256, HMAC, the secret box, the parser of mail addresses, case folding and the zone
  database are fields of \<open>auth_cfg\<close>; random identifiers, secrets and nonces are arguments. The
  throttles and the tables are fields of the state. The comparison \<open>ConstantTimeEqual\<close> is equality.
\<close>

record auth_cfg =
  au_bcrypt :: "string \<Rightarrow> error + string"
  au_compare :: "string \<Rightarrow> string \<Rightarrow> bool"
  au_sha256 :: "string \<Rightarrow> bytes"
  au_hmac :: hmac
  au_seal :: "string \<Rightarrow> error + bytes \<times> bytes"
  au_open :: "bytes \<Rightarrow> bytes \<Rightarrow> error + string"
  au_lower :: "string \<Rightarrow> string"
  au_fold :: "string \<Rightarrow> string \<Rightarrow> bool"
  au_address :: "string \<Rightarrow> string option"
  au_zone :: "string \<Rightarrow> bool"
  au_sessionTTL :: time

definition CheckPassword :: "auth_cfg \<Rightarrow> string \<Rightarrow> string \<Rightarrow> bool" where
  "CheckPassword ac stored password = au_compare ac stored password"

definition HashPassword :: "auth_cfg \<Rightarrow> string \<Rightarrow> error + string" where
  "HashPassword ac password = (case au_bcrypt ac password of
       Inl e \<Rightarrow> Inl (Wrapped ''auth: hashing password'' e) | Inr h \<Rightarrow> Inr h)"

definition HashToken :: "auth_cfg \<Rightarrow> string \<Rightarrow> bytes" where
  "HashToken ac raw = au_sha256 ac raw"

definition lift :: "error + 'a \<Rightarrow> 'a op" where
  "lift r = (case r of Inl e \<Rightarrow> throw e | Inr x \<Rightarrow> ret x)"

section \<open>Sessions in the store (store.go)\<close>

definition CreateSession :: "string \<Rightarrow> string \<Rightarrow> bytes \<Rightarrow> time \<Rightarrow> unit op" where
  "CreateSession i userID tokenHash expiresAt = query ''creating session''
     (\<lambda>w. if \<exists>s \<in> set (w_sessions w). ses_ID s = i then (Inl (Driver ''sessions_pkey''), w)
          else if \<exists>s \<in> set (w_sessions w). ses_TokenHash s = tokenHash
               then (Inl (Driver ''sessions_token_hash_key''), w)
          else if \<forall>u \<in> set (w_users w). usr_ID u \<noteq> userID then (Inl (Driver ''sessions_user_id_fkey''), w)
          else (Inr (), w\<lparr>w_sessions := w_sessions w @
                 [\<lparr> ses_ID = i, ses_UserID = userID, ses_TokenHash = tokenHash, ses_ExpiresAt = expiresAt \<rparr>]\<rparr>))"

definition session_rows :: "bytes \<Rightarrow> world \<Rightarrow> (user \<times> session) list" where
  "session_rows tokenHash w = [(u, s). s \<leftarrow> w_sessions w, ses_TokenHash s = tokenHash \<and> ses_ExpiresAt s > w_dbnow w,
     u \<leftarrow> w_users w, usr_ID u = ses_UserID s]"

definition SessionForToken :: "bytes \<Rightarrow> (user \<times> string) op" where
  "SessionForToken tokenHash = query ''getting session''
     (bnd (one_row (\<lambda>_. True) (session_rows tokenHash)) (\<lambda>(u, s). ret (u, ses_ID s)))"

definition UserForSessionToken :: "bytes \<Rightarrow> user op" where
  "UserForSessionToken tokenHash = bnd (SessionForToken tokenHash) (\<lambda>(u, _). ret u)"

definition delete_sessions :: "string \<Rightarrow> (session \<Rightarrow> bool) \<Rightarrow> nat op" where
  "delete_sessions n p = query n
     (\<lambda>w. (Inr (length (filter p (w_sessions w))), w\<lparr>w_sessions := filter (\<lambda>s. \<not> p s) (w_sessions w)\<rparr>))"

definition DeleteSession :: "bytes \<Rightarrow> unit op" where
  "DeleteSession tokenHash = bnd (delete_sessions ''deleting session'' (\<lambda>s. ses_TokenHash s = tokenHash)) (\<lambda>_. ret ())"

definition DeleteExpiredSessions :: "time \<Rightarrow> nat op" where
  "DeleteExpiredSessions before = delete_sessions ''deleting expired sessions'' (\<lambda>s. ses_ExpiresAt s \<le> before)"

text \<open>Rows are kept in creation order; the listing is newest first and carries no token hash.\<close>

definition ListSessionsByUser :: "string \<Rightarrow> session list op" where
  "ListSessionsByUser userID = query ''listing sessions''
     (gets (\<lambda>w. map (ses_TokenHash_update (\<lambda>_. []))
        (rev (filter (\<lambda>s. ses_UserID s = userID \<and> ses_ExpiresAt s > w_dbnow w) (w_sessions w)))))"

definition DeleteSessionForUser :: "string \<Rightarrow> string \<Rightarrow> bool op" where
  "DeleteSessionForUser sessionID userID =
     bnd (delete_sessions ''deleting session'' (\<lambda>s. ses_ID s = sessionID \<and> ses_UserID s = userID)) (\<lambda>n. ret (n > 0))"

definition DeleteOtherSessionsForUser :: "string \<Rightarrow> bytes \<Rightarrow> nat op" where
  "DeleteOtherSessionsForUser userID keepTokenHash =
     delete_sessions ''revoking other sessions'' (\<lambda>s. ses_UserID s = userID \<and> ses_TokenHash s \<noteq> keepTokenHash)"

section \<open>Accounts and second factors in the store (store.go)\<close>

definition upd_user :: "string \<Rightarrow> (user \<Rightarrow> user) \<Rightarrow> world \<Rightarrow> world" where
  "upd_user i f w = w\<lparr>w_users := update_where (\<lambda>u. usr_ID u = i) f (w_users w)\<rparr>"

definition UpdateUserProfile :: "string \<Rightarrow> string \<Rightarrow> string \<Rightarrow> user op" where
  "UpdateUserProfile userID displayName timezone = query ''updating profile''
     (bnd (modify (upd_user userID (\<lambda>u. u\<lparr>usr_DisplayName := displayName, usr_Timezone := timezone\<rparr>))) (\<lambda>_.
      one_row (\<lambda>u. usr_ID u = userID) w_users))"

definition UpdateUserEmail :: "string \<Rightarrow> string \<Rightarrow> user op" where
  "UpdateUserEmail userID email = query ''updating email''
     (\<lambda>w. if (\<exists>u \<in> set (w_users w). usr_ID u = userID) \<and> (\<exists>u \<in> set (w_users w). usr_ID u \<noteq> userID \<and> usr_Email u = email)
          then (Inl ErrConflict, w)
          else bnd (modify (upd_user userID (usr_Email_update (\<lambda>_. email)))) (\<lambda>_.
                 one_row (\<lambda>u. usr_ID u = userID) w_users) w)"

definition UpdateUserPassword :: "string \<Rightarrow> string \<Rightarrow> unit op" where
  "UpdateUserPassword userID passwordHash = query ''updating password''
     (modify (upd_user userID (usr_PasswordHash_update (\<lambda>_. passwordHash))))"

definition SetTOTPSecret :: "string \<Rightarrow> bytes \<Rightarrow> bytes \<Rightarrow> unit op" where
  "SetTOTPSecret userID ct nonce = query ''setting totp secret''
     (modify (\<lambda>w. if \<forall>u \<in> set (w_users w). usr_ID u \<noteq> userID then w
        else (upd_user userID (usr_TOTPEnabled_update (\<lambda>_. False)) w)
               \<lparr>w_totp := filter (\<lambda>t. fst t \<noteq> userID) (w_totp w) @ [(userID, ct, nonce)]\<rparr>))"

definition StoreEnableTOTP :: "string \<Rightarrow> unit op" where
  "StoreEnableTOTP userID = query ''enabling totp''
     (modify (upd_user userID (usr_TOTPEnabled_update (\<lambda>_. True))))"

definition StoreDisableTOTP :: "string \<Rightarrow> unit op" where
  "StoreDisableTOTP userID = query ''disabling totp''
     (modify (\<lambda>w. (upd_user userID (usr_TOTPEnabled_update (\<lambda>_. False)) w)
                     \<lparr>w_totp := filter (\<lambda>t. fst t \<noteq> userID) (w_totp w)\<rparr>))"

definition totp_material :: "string \<Rightarrow> bool \<Rightarrow> world \<Rightarrow> totpSecret" where
  "totp_material userID enabled w = (case List.find (\<lambda>t. fst t = userID) (w_totp w) of
      None \<Rightarrow> \<lparr> ts_CT = [], ts_Nonce = [], ts_Enabled = enabled \<rparr>
    | Some (_, ct, nonce) \<Rightarrow> \<lparr> ts_CT = ct, ts_Nonce = nonce, ts_Enabled = enabled \<rparr>)"

definition GetTOTPSecret :: "string \<Rightarrow> totpSecret op" where
  "GetTOTPSecret userID = query ''getting totp secret''
     (bnd (one_row (\<lambda>u. usr_ID u = userID) w_users) (\<lambda>u. gets (totp_material userID (usr_TOTPEnabled u))))"

definition AddRecoveryCode :: "string \<Rightarrow> string \<Rightarrow> bytes \<Rightarrow> unit op" where
  "AddRecoveryCode i userID codeHash = query ''adding recovery code''
     (\<lambda>w. if \<exists>c \<in> set (w_recovery w). rc_ID c = i then (Inl (Driver ''totp_recovery_codes_pkey''), w)
          else if \<exists>c \<in> set (w_recovery w). rc_CodeHash c = codeHash
               then (Inl (Driver ''totp_recovery_codes_code_hash_key''), w)
          else if \<forall>u \<in> set (w_users w). usr_ID u \<noteq> userID
               then (Inl (Driver ''totp_recovery_codes_user_id_fkey''), w)
          else (Inr (), w\<lparr>w_recovery := w_recovery w @
                 [\<lparr> rc_ID = i, rc_UserID = userID, rc_CodeHash = codeHash, rc_UsedAt = None \<rparr>]\<rparr>))"

text \<open>\<open>UPDATE ... WHERE user_id AND code_hash AND used_at IS NULL RETURNING id\<close>: no row is \<open>False\<close>.\<close>

definition usable :: "string \<Rightarrow> bytes \<Rightarrow> recoveryCode \<Rightarrow> bool" where
  "usable i h c \<longleftrightarrow> rc_UserID c = i \<and> rc_CodeHash c = h \<and> rc_UsedAt c = None"

definition ConsumeRecoveryCode :: "string \<Rightarrow> bytes \<Rightarrow> bool op" where
  "ConsumeRecoveryCode userID codeHash = query ''consuming recovery code''
     (\<lambda>w. (Inr (list_ex (usable userID codeHash) (w_recovery w)),
           w\<lparr>w_recovery := update_where (usable userID codeHash) (rc_UsedAt_update (\<lambda>_. Some (w_dbnow w))) (w_recovery w)\<rparr>))"

definition CountUnusedRecoveryCodes :: "string \<Rightarrow> nat op" where
  "CountUnusedRecoveryCodes userID = query ''counting recovery codes''
     (gets (\<lambda>w. length (filter (\<lambda>c. rc_UserID c = userID \<and> rc_UsedAt c = None) (w_recovery w))))"

definition DeleteRecoveryCodes :: "string \<Rightarrow> unit op" where
  "DeleteRecoveryCodes userID = query ''deleting recovery codes''
     (modify (\<lambda>w. w\<lparr>w_recovery := filter (\<lambda>c. rc_UserID c \<noteq> userID) (w_recovery w)\<rparr>))"

section \<open>Tokens and address changes in the store (store.go)\<close>

definition CreateAPIToken ::
  "string \<Rightarrow> string \<Rightarrow> string \<Rightarrow> ability list \<Rightarrow> bytes \<Rightarrow> time option \<Rightarrow> string \<Rightarrow> apiToken op" where
  "CreateAPIToken i userID name abl tokenHash expiresAt projectID = query ''creating api token''
     (\<lambda>w. if \<exists>t \<in> set (w_tokens w). tok_ID t = i \<or> tok_TokenHash t = tokenHash then (Inl ErrConflict, w)
          else if (\<forall>u \<in> set (w_users w). usr_ID u \<noteq> userID)
                  \<or> (projectID \<noteq> [] \<and> (\<forall>p \<in> set (w_projects w). fst p \<noteq> projectID)) then (Inl ErrNotFound, w)
          else let t = \<lparr> tok_ID = i, tok_UserID = userID, tok_Name = name, tok_Abilities = abl, tok_ProjectID = projectID,
                         tok_TokenHash = tokenHash, tok_LastUsedAt = None, tok_ExpiresAt = expiresAt \<rparr>
               in (Inr t, w\<lparr>w_tokens := w_tokens w @ [t]\<rparr>))"

definition abilitiesFromStrings :: "string list \<Rightarrow> ability list" where
  "abilitiesFromStrings ss = filter ValidAbility ss"

definition APITokenByHash :: "bytes \<Rightarrow> (user \<times> string \<times> ability list \<times> string) op" where
  "APITokenByHash tokenHash = query ''getting api token''
     (bnd (one_row (\<lambda>_. True) (\<lambda>w. [(u, t). t \<leftarrow> w_tokens w,
         tok_TokenHash t = tokenHash \<and> (case tok_ExpiresAt t of None \<Rightarrow> True | Some e \<Rightarrow> e > w_dbnow w),
         u \<leftarrow> w_users w, usr_ID u = tok_UserID t]))
        (\<lambda>(u, t). ret (u, tok_ID t, abilitiesFromStrings (tok_Abilities t), tok_ProjectID t)))"

definition TouchAPIToken :: "bytes \<Rightarrow> unit op" where
  "TouchAPIToken tokenHash = query ''touching api token''
     (modify (\<lambda>w. w\<lparr>w_tokens := update_where (\<lambda>t. tok_TokenHash t = tokenHash)
        (tok_LastUsedAt_update (\<lambda>_. Some (w_dbnow w))) (w_tokens w)\<rparr>))"

text \<open>A token as the panel shows it: known abilities only, and no hash.\<close>

definition token_meta :: "apiToken \<Rightarrow> apiToken" where
  "token_meta t = t\<lparr>tok_Abilities := abilitiesFromStrings (tok_Abilities t), tok_TokenHash := []\<rparr>"

definition ListAPITokensByUser :: "string \<Rightarrow> apiToken list op" where
  "ListAPITokensByUser userID = query ''listing api tokens''
     (gets (\<lambda>w. map token_meta (rev (filter (\<lambda>t. tok_UserID t = userID) (w_tokens w)))))"

definition GetAPIToken :: "string \<Rightarrow> apiToken op" where
  "GetAPIToken i = query ''getting api token by id''
     (bnd (one_row (\<lambda>t. tok_ID t = i) w_tokens) (\<lambda>t. ret (token_meta t)))"

definition DeleteAPIToken :: "string \<Rightarrow> unit op" where
  "DeleteAPIToken i = query ''deleting api token''
     (modify (\<lambda>w. w\<lparr>w_tokens := filter (\<lambda>t. tok_ID t \<noteq> i) (w_tokens w)\<rparr>))"

definition CreateEmailChange :: "string \<Rightarrow> string \<Rightarrow> string \<Rightarrow> bytes \<Rightarrow> time \<Rightarrow> emailChange op" where
  "CreateEmailChange i userID newEmail tokenHash expiresAt = query ''creating email change''
     (\<lambda>w. if \<exists>c \<in> set (w_changes w). ech_ID c = i then (Inl ErrConflict, w)
          else if \<forall>u \<in> set (w_users w). usr_ID u \<noteq> userID then (Inl ErrNotFound, w)
          else let c = \<lparr> ech_ID = i, ech_UserID = userID, ech_NewEmail = newEmail, ech_TokenHash = tokenHash,
                         ech_ExpiresAt = expiresAt, ech_ConsumedAt = None \<rparr>
               in (Inr c, w\<lparr>w_changes := w_changes w @ [c]\<rparr>))"

definition EmailChangeTokenHash :: "string \<Rightarrow> (emailChange \<times> bytes) op" where
  "EmailChangeTokenHash i = query ''getting email change''
     (bnd (one_row (\<lambda>c. ech_ID c = i) w_changes) (\<lambda>c. ret (c, ech_TokenHash c)))"

definition live_change :: "world \<Rightarrow> emailChange \<Rightarrow> bool" where
  "live_change w c \<longleftrightarrow> ech_ConsumedAt c = None \<and> ech_ExpiresAt c > w_dbnow w"

definition consume_changes :: "(emailChange \<Rightarrow> bool) \<Rightarrow> world \<Rightarrow> world" where
  "consume_changes p w = w\<lparr>w_changes := update_where (\<lambda>c. p c \<and> live_change w c)
     (ech_ConsumedAt_update (\<lambda>_. Some (w_dbnow w))) (w_changes w)\<rparr>"

definition ConsumeEmailChange :: "string \<Rightarrow> emailChange op" where
  "ConsumeEmailChange i = query ''consuming email change''
     (\<lambda>w. case List.find (\<lambda>c. ech_ID c = i \<and> live_change w c) (w_changes w) of
            None \<Rightarrow> (Inl ErrNotFound, w)
          | Some c \<Rightarrow> (Inr (c\<lparr>ech_ConsumedAt := Some (w_dbnow w)\<rparr>), consume_changes (\<lambda>c. ech_ID c = i) w))"

definition StorePendingEmailChange :: "string \<Rightarrow> emailChange op" where
  "StorePendingEmailChange userID = query ''reading pending email change''
     (one_row (\<lambda>_. True) (\<lambda>w. rev (filter (\<lambda>c. ech_UserID c = userID \<and> live_change w c) (w_changes w))))"

definition CancelPendingEmailChanges :: "string \<Rightarrow> nat op" where
  "CancelPendingEmailChanges userID = query ''cancelling email changes''
     (\<lambda>w. (Inr (length (filter (\<lambda>c. ech_UserID c = userID \<and> live_change w c) (w_changes w))),
           consume_changes (\<lambda>c. ech_UserID c = userID) w))"

section \<open>Throttling\<close>

text \<open>The two limiters of the authenticator: by client address and by account.\<close>

definition throttle_op :: "string \<Rightarrow> string \<Rightarrow> unit op" where
  "throttle_op addressKey accKey = (\<lambda>w.
     case throttle (w_now w) [(w_byAddress w, addressKey), (w_byAccount w, accKey)] of
       (r, ls) \<Rightarrow> (case r of None \<Rightarrow> Inr () | Some (wait, first) \<Rightarrow> Inl (RateLimitedError wait first),
                   w\<lparr>w_byAddress := ls ! 0, w_byAccount := ls ! 1\<rparr>))"

definition fail_op :: "string \<Rightarrow> string \<Rightarrow> unit op" where
  "fail_op addressKey accKey = modify (\<lambda>w.
     w\<lparr>w_byAddress := map_option (Fail (w_now w) addressKey) (w_byAddress w),
       w_byAccount := map_option (Fail (w_now w) accKey) (w_byAccount w)\<rparr>)"

definition reset_op :: "string \<Rightarrow> string \<Rightarrow> unit op" where
  "reset_op addressKey accKey = modify (\<lambda>w.
     w\<lparr>w_byAddress := map_option (Reset addressKey) (w_byAddress w),
       w_byAccount := map_option (Reset accKey) (w_byAccount w)\<rparr>)"

definition NewAuthenticator :: "limiter option \<Rightarrow> limiter option \<Rightarrow> world \<Rightarrow> world" where
  "NewAuthenticator limiter accounts w = w\<lparr>w_byAddress := limiter,
     w_byAccount := (case accounts of Some a \<Rightarrow> Some a
       | None \<Rightarrow> map_option (\<lambda>l. NewLimiter (lim_max l * 2) (lim_window l)) limiter)\<rparr>"

definition accountKey :: "auth_cfg \<Rightarrow> string \<Rightarrow> string" where
  "accountKey ac email = ''login:'' @ au_lower ac (trim_space email)"

definition emailChangeKey :: "string \<Rightarrow> string" where
  "emailChangeKey userID = ''emailchange:'' @ userID"

section \<open>The second factor (totp\_service.go)\<close>

definition recoveryCodeCount :: nat where "recoveryCodeCount = 10"

definition openTOTPSecret :: "auth_cfg \<Rightarrow> string \<Rightarrow> (string \<times> totpSecret) op" where
  "openTOTPSecret ac user =
     bnd (GetTOTPSecret user) (\<lambda>sec.
     if ts_CT sec = [] then ret ([], sec)
     else bnd (mapE (Wrapped ''auth: opening totp secret'') (lift (au_open ac (ts_CT sec) (ts_Nonce sec))))
       (\<lambda>pt. ret (pt, sec)))"

definition normalizeRecoveryCode :: "auth_cfg \<Rightarrow> string \<Rightarrow> string" where
  "normalizeRecoveryCode ac code = au_lower ac (filter (\<lambda>c. c \<noteq> CHR ''-'') (trim_space code))"

definition newRecoveryCode :: "auth_cfg \<Rightarrow> byte list \<Rightarrow> string" where
  "newRecoveryCode ac buf = (let raw = au_lower ac (EncodeToString buf) in take 5 raw @ ''-'' @ take 5 (drop 5 raw))"

text \<open>A panic ends the request; \<open>validTOTP_window\<close> of theory \<open>TOTP\<close> shows that there is none.\<close>

definition validate :: "auth_cfg \<Rightarrow> string \<Rightarrow> string \<Rightarrow> bool op" where
  "validate ac secret code = bnd now_op (\<lambda>now.
     case validTOTP (au_hmac ac) secret code now of
       None \<Rightarrow> throw (Driver ''index out of range'')
     | Some ok \<Rightarrow> ret ok)"

definition checkSecondFactor :: "auth_cfg \<Rightarrow> string \<Rightarrow> string \<Rightarrow> bool op" where
  "checkSecondFactor ac user code =
     bnd (openTOTPSecret ac user) (\<lambda>(secret, _).
     bnd (if secret \<noteq> [] then validate ac secret code else ret False) (\<lambda>ok.
     if ok then ret True
     else ConsumeRecoveryCode user (HashToken ac (normalizeRecoveryCode ac code))))"

fun add_codes :: "auth_cfg \<Rightarrow> string \<Rightarrow> (string \<times> byte list) list \<Rightarrow> string list op" where
  "add_codes ac user [] = ret []"
| "add_codes ac user ((i, buf) # rest) =
     (let code = newRecoveryCode ac buf in
      bnd (AddRecoveryCode i user (HashToken ac (normalizeRecoveryCode ac code))) (\<lambda>_.
      bnd (add_codes ac user rest) (\<lambda>codes. ret (code # codes))))"

text \<open>\<open>fresh\<close> are the identifiers and random bytes of the ten codes.\<close>

definition regenerateRecoveryCodes :: "auth_cfg \<Rightarrow> (string \<times> byte list) list \<Rightarrow> string \<Rightarrow> string list op" where
  "regenerateRecoveryCodes ac fresh user =
     bnd (DeleteRecoveryCodes user) (\<lambda>_. add_codes ac user (take recoveryCodeCount fresh))"

definition EnrollTOTP :: "auth_cfg \<Rightarrow> byte list \<Rightarrow> string \<Rightarrow> string op" where
  "EnrollTOTP ac buf user =
     bnd (GetTOTPSecret user) (\<lambda>sec.
     if ts_Enabled sec then throw ErrTOTPAlreadyEnabled
     else
       (let secret = newTOTPSecret buf in
        bnd (mapE (Wrapped ''auth: sealing totp secret'') (lift (au_seal ac secret))) (\<lambda>(ct, nonce).
        bnd (SetTOTPSecret user ct nonce) (\<lambda>_.
        bnd (DeleteRecoveryCodes user) (\<lambda>_. ret secret)))))"

definition VerifyTOTP :: "auth_cfg \<Rightarrow> (string \<times> byte list) list \<Rightarrow> string \<Rightarrow> string \<Rightarrow> string list op" where
  "VerifyTOTP ac fresh user code =
     bnd (openTOTPSecret ac user) (\<lambda>(secret, sec).
     if secret = [] then throw ErrTOTPNotEnrolled
     else
       bnd (validate ac secret code) (\<lambda>ok.
       if \<not> ok then throw ErrInvalidTOTPCode
       else
         bnd (if \<not> ts_Enabled sec then StoreEnableTOTP user else ret ()) (\<lambda>_.
         regenerateRecoveryCodes ac fresh user)))"

definition DisableTOTP :: "auth_cfg \<Rightarrow> string \<Rightarrow> string \<Rightarrow> unit op" where
  "DisableTOTP ac user code =
     bnd (GetTOTPSecret user) (\<lambda>sec.
     if \<not> ts_Enabled sec then throw ErrTOTPNotEnrolled
     else
       bnd (checkSecondFactor ac user code) (\<lambda>ok.
       if \<not> ok then throw ErrInvalidTOTPCode
       else
         bnd (StoreDisableTOTP user) (\<lambda>_. DeleteRecoveryCodes user)))"

definition TOTPStatus :: "string \<Rightarrow> (bool \<times> nat) op" where
  "TOTPStatus user =
     bnd (GetTOTPSecret user) (\<lambda>sec.
     bnd (CountUnusedRecoveryCodes user) (\<lambda>left. ret (ts_Enabled sec, left)))"

section \<open>Signing in (service.go)\<close>

definition StartSession :: "auth_cfg \<Rightarrow> string \<Rightarrow> string \<Rightarrow> string \<Rightarrow> string op" where
  "StartSession ac newID rawToken userID =
     bnd now_op (\<lambda>now.
     bnd (mapE (Wrapped ''auth: creating session'')
            (CreateSession newID userID (HashToken ac rawToken) (now + au_sessionTTL ac))) (\<lambda>_.
     ret rawToken))"

text \<open>The check of the second factor inside \<open>Login\<close>.\<close>

definition second_factor :: "auth_cfg \<Rightarrow> string \<Rightarrow> string \<Rightarrow> user \<Rightarrow> string \<Rightarrow> unit op" where
  "second_factor ac addressKey accKey u totpCode0 =
     (if \<not> usr_TOTPEnabled u then ret ()
      else if totpCode0 = [] then throw ErrTOTPRequired
      else
        bnd (checkSecondFactor ac (usr_ID u) totpCode0) (\<lambda>ok.
        if \<not> ok then bnd (fail_op addressKey accKey) (\<lambda>_. throw ErrInvalidCredentials)
        else ret ()))"

definition Login ::
  "auth_cfg \<Rightarrow> string \<Rightarrow> string \<Rightarrow> string \<Rightarrow> string \<Rightarrow> string \<Rightarrow> string \<Rightarrow> (string \<times> user) op" where
  "Login ac newID rawToken email password totpCode0 throttleKey =
     bnd (throttle_op throttleKey (accountKey ac email)) (\<lambda>_.
     bnd (attempt (GetUserByEmail email)) (\<lambda>r.
     case r of
       Inl e \<Rightarrow>
         if errors_is e ErrNotFound
         then bnd (fail_op throttleKey (accountKey ac email)) (\<lambda>_. throw ErrInvalidCredentials)
         else throw (Wrapped ''auth: looking up user'' e)
     | Inr u \<Rightarrow>
         if \<not> CheckPassword ac (usr_PasswordHash u) password
         then bnd (fail_op throttleKey (accountKey ac email)) (\<lambda>_. throw ErrInvalidCredentials)
         else
           bnd (second_factor ac throttleKey (accountKey ac email) u totpCode0) (\<lambda>_.
           bnd (reset_op throttleKey (accountKey ac email)) (\<lambda>_.
           bnd (StartSession ac newID rawToken (usr_ID u)) (\<lambda>token. ret (token, u))))))"

datatype principalKind = KindSession | KindAPIToken

record principal =
  pr_User :: user
  pr_Kind :: principalKind
  pr_Abilities :: "ability list"
  pr_SessionID :: string
  pr_TokenID :: string
  pr_ProjectID :: string

definition ScopedToProject :: "principal \<Rightarrow> string \<times> bool" where
  "ScopedToProject p = (pr_ProjectID p, pr_ProjectID p \<noteq> [])"

definition Can :: "principal \<Rightarrow> ability \<Rightarrow> bool" where
  "Can p a = HasAbility (pr_Abilities p) a"

definition APITokenPrefix :: string where "APITokenPrefix = ''cyp_''"

definition authenticateAPIToken :: "auth_cfg \<Rightarrow> string \<Rightarrow> principal op" where
  "authenticateAPIToken ac rawToken =
     (if drop (length APITokenPrefix) rawToken = [] then throw ErrInvalidSession
      else
        bnd (attempt (APITokenByHash (HashToken ac rawToken))) (\<lambda>r.
        case r of
          Inl e \<Rightarrow> if errors_is e ErrNotFound then throw ErrInvalidSession
                   else throw (Wrapped ''auth: resolving api token'' e)
        | Inr (u, tokenID, abl, projectID) \<Rightarrow>
            bnd (attempt (TouchAPIToken (HashToken ac rawToken))) (\<lambda>_.
            ret \<lparr> pr_User = u, pr_Kind = KindAPIToken, pr_Abilities = abl, pr_SessionID = [],
                  pr_TokenID = tokenID, pr_ProjectID = projectID \<rparr>)))"

definition Authenticate :: "auth_cfg \<Rightarrow> string \<Rightarrow> principal op" where
  "Authenticate ac rawToken =
     (if has_prefix APITokenPrefix rawToken then authenticateAPIToken ac rawToken
      else
        bnd (attempt (SessionForToken (HashToken ac rawToken))) (\<lambda>r.
        case r of
          Inl e \<Rightarrow> if errors_is e ErrNotFound then throw ErrInvalidSession
                   else throw (Wrapped ''auth: resolving session'' e)
        | Inr (u, sessionID) \<Rightarrow>
            ret \<lparr> pr_User = u, pr_Kind = KindSession, pr_Abilities = AllAbilities, pr_SessionID = sessionID,
                  pr_TokenID = [], pr_ProjectID = [] \<rparr>))"

definition Logout :: "auth_cfg \<Rightarrow> string \<Rightarrow> unit op" where
  "Logout ac rawToken = mapE (Wrapped ''auth: logout'') (DeleteSession (HashToken ac rawToken))"

section \<open>Sessions (sessions.go)\<close>

definition ListSessions :: "string \<Rightarrow> session list op" where
  "ListSessions userID = mapE (Wrapped ''auth: listing sessions'') (ListSessionsByUser userID)"

definition RevokeSession :: "string \<Rightarrow> string \<Rightarrow> unit op" where
  "RevokeSession userID sessionID =
     bnd (mapE (Wrapped ''auth: revoking session'') (DeleteSessionForUser sessionID userID)) (\<lambda>deleted.
     if \<not> deleted then throw ErrSessionNotFound else ret ())"

definition RevokeOtherSessions :: "auth_cfg \<Rightarrow> string \<Rightarrow> string \<Rightarrow> nat op" where
  "RevokeOtherSessions ac userID rawToken =
     mapE (Wrapped ''auth: revoking other sessions'') (DeleteOtherSessionsForUser userID (HashToken ac rawToken))"

definition PurgeExpiredSessions :: "nat op" where
  "PurgeExpiredSessions = bnd now_op (\<lambda>now.
     mapE (Wrapped ''auth: purging expired sessions'') (DeleteExpiredSessions now))"

section \<open>Personal access tokens (apitokens.go)\<close>

fun dedupe_abilities :: "ability list \<Rightarrow> ability list \<Rightarrow> ability list option" where
  "dedupe_abilities [] acc = Some acc"
| "dedupe_abilities (a # rest) acc =
     (if \<not> ValidAbility a then None
      else dedupe_abilities rest (if a \<in> set acc then acc else acc @ [a]))"

definition CreateToken ::
  "auth_cfg \<Rightarrow> string \<Rightarrow> string \<Rightarrow> string \<Rightarrow> string \<Rightarrow> ability list \<Rightarrow> time option \<Rightarrow> string \<Rightarrow> (string \<times> apiToken) op" where
  "CreateToken ac newID secret userID name abl expiresAt projectID =
     (if abl = [] then throw ErrInvalidAbility
      else
        (case dedupe_abilities abl [] of
           None \<Rightarrow> throw ErrInvalidAbility
         | Some deduped \<Rightarrow>
             (let raw = APITokenPrefix @ secret in
              bnd (mapE (Wrapped ''auth: creating api token'')
                     (CreateAPIToken newID userID name deduped (HashToken ac raw) expiresAt projectID)) (\<lambda>tok.
              ret (raw, tok)))))"

definition ListTokens :: "string \<Rightarrow> apiToken list op" where
  "ListTokens userID = ListAPITokensByUser userID"

definition DeleteToken :: "string \<Rightarrow> string \<Rightarrow> unit op" where
  "DeleteToken userID tokenID =
     bnd (attempt (GetAPIToken tokenID)) (\<lambda>r.
     case r of
       Inl e \<Rightarrow> if errors_is e ErrNotFound then throw ErrTokenNotFound
                else throw (Wrapped ''auth: loading api token'' e)
     | Inr tok \<Rightarrow>
         if tok_UserID tok \<noteq> userID then throw ErrTokenNotFound
         else mapE (Wrapped ''auth: deleting api token'') (DeleteAPIToken tokenID))"

section \<open>Profile and password (profile.go)\<close>

definition maxDisplayName :: nat where "maxDisplayName = 64"
definition maxTimezone :: nat where "maxTimezone = 64"
definition minPasswordLen :: nat where "minPasswordLen = 8"

definition UpdateProfile :: "auth_cfg \<Rightarrow> string \<Rightarrow> string \<Rightarrow> string \<Rightarrow> user op" where
  "UpdateProfile ac userID displayName0 timezone0 =
     (let displayName = trim_space displayName0; timezone = trim_space timezone0 in
      if rune_count displayName > maxDisplayName
      then throw (Invalid (''a display name is at most '' @ dec maxDisplayName @ '' characters''))
      else if CHR 0x0D \<in> set displayName \<or> CHR 0x0A \<in> set displayName
      then throw (Invalid ''a display name is a single line'')
      else if timezone \<noteq> [] \<and> rune_count timezone > maxTimezone
      then throw (Invalid ''that is not an IANA timezone name'')
      else if timezone \<noteq> [] \<and> \<not> au_zone ac timezone
      then throw (Invalid (quoted timezone @ '' is not an IANA timezone name '' @ [CHR 0xE2, CHR 0x80, CHR 0x94]
             @ '' try Europe/Berlin''))
      else UpdateUserProfile userID displayName timezone)"

definition short_password :: error where
  "short_password = Invalid (''password must be at least '' @ dec minPasswordLen @ '' characters'')"

definition ChangePassword :: "auth_cfg \<Rightarrow> string \<Rightarrow> string \<Rightarrow> string \<Rightarrow> string \<Rightarrow> bool \<Rightarrow> nat op" where
  "ChangePassword ac userID current next_pw rawToken revokeOthers =
     bnd (GetUserByID userID) (\<lambda>u.
     if \<not> CheckPassword ac (usr_PasswordHash u) current then throw ErrInvalidCredentials
     else if length next_pw < minPasswordLen then throw short_password
     else if current = next_pw then throw ErrSamePassword
     else
       bnd (lift (HashPassword ac next_pw)) (\<lambda>h.
       bnd (UpdateUserPassword userID h) (\<lambda>_.
       if \<not> revokeOthers then ret 0 else RevokeOtherSessions ac userID rawToken)))"

section \<open>Moving to another address (emailchange.go)\<close>

definition emailChangeTTL :: time where "emailChangeTTL = 30 * 60 * second"

definition splitEmailChangeToken :: "string \<Rightarrow> (string \<times> string) option" where
  "splitEmailChangeToken t =
     (case takeWhile (\<lambda>c. c \<noteq> CHR ''.'') t of
        i \<Rightarrow> if length i = length t \<or> i = [] \<or> length i = length t - 1 then None
             else Some (i, drop (Suc (length i)) t))"

definition PendingEmailChange :: "string \<Rightarrow> emailChange op" where
  "PendingEmailChange userID = StorePendingEmailChange userID"

definition CancelEmailChange :: "string \<Rightarrow> nat op" where
  "CancelEmailChange userID = CancelPendingEmailChanges userID"

text \<open>The wire token, the new address as stored and the old one.\<close>

definition RequestEmailChange ::
  "auth_cfg \<Rightarrow> string \<Rightarrow> string \<Rightarrow> string \<Rightarrow> string \<Rightarrow> string \<Rightarrow> string \<Rightarrow> (string \<times> string \<times> string) op" where
  "RequestEmailChange ac newID secret userID newEmail0 currentPassword throttleKey =
     bnd (throttle_op throttleKey (emailChangeKey userID)) (\<lambda>_.
     case au_address ac (trim_space newEmail0) of
       None \<Rightarrow> throw (Invalid (quoted newEmail0 @ '' is not a valid email address''))
     | Some newEmail \<Rightarrow>
         bnd (GetUserByID userID) (\<lambda>u.
         if \<not> CheckPassword ac (usr_PasswordHash u) currentPassword
         then bnd (fail_op throttleKey (emailChangeKey userID)) (\<lambda>_. throw ErrInvalidCredentials)
         else
           bnd (reset_op throttleKey (emailChangeKey userID)) (\<lambda>_.
           if au_fold ac newEmail (usr_Email u) then throw ErrSameEmail
           else
             bnd (attempt (GetUserByEmail newEmail)) (\<lambda>r.
             case r of
               Inr _ \<Rightarrow> throw ErrEmailInUse
             | Inl e \<Rightarrow>
                 if \<not> errors_is e ErrNotFound then throw e
                 else
                   bnd now_op (\<lambda>now.
                   bnd (CreateEmailChange newID userID newEmail (HashToken ac secret) (now + emailChangeTTL)) (\<lambda>change.
                   ret (newID @ ''.'' @ secret, ech_NewEmail change, usr_Email u)))))))"

definition spendEmailChange :: "auth_cfg \<Rightarrow> string \<Rightarrow> string \<Rightarrow> emailChange op" where
  "spendEmailChange ac userID token =
     (case splitEmailChangeToken token of
        None \<Rightarrow> throw ErrInvalidEmailChange
      | Some (i, secret) \<Rightarrow>
          bnd (attempt (EmailChangeTokenHash i)) (\<lambda>r.
          case r of
            Inl _ \<Rightarrow> throw ErrInvalidEmailChange
          | Inr (pending, h) \<Rightarrow>
              if h \<noteq> HashToken ac secret then throw ErrInvalidEmailChange
              else if ech_UserID pending \<noteq> userID then throw ErrInvalidEmailChange
              else
                bnd now_op (\<lambda>now.
                if ech_ConsumedAt pending \<noteq> None \<or> \<not> now < ech_ExpiresAt pending then throw ErrInvalidEmailChange
                else
                  bnd (attempt (ConsumeEmailChange i)) (\<lambda>c.
                  case c of Inl _ \<Rightarrow> throw ErrInvalidEmailChange | Inr spent \<Rightarrow> ret spent))))"

definition ConfirmEmailChange ::
  "auth_cfg \<Rightarrow> string \<Rightarrow> string \<Rightarrow> string \<Rightarrow> string \<Rightarrow> (user \<times> nat) op" where
  "ConfirmEmailChange ac userID token rawSessionToken throttleKey =
     bnd (throttle_op throttleKey (emailChangeKey userID)) (\<lambda>_.
     bnd (attempt (spendEmailChange ac userID token)) (\<lambda>r.
     case r of
       Inl e \<Rightarrow> bnd (fail_op throttleKey (emailChangeKey userID)) (\<lambda>_. throw e)
     | Inr spent \<Rightarrow>
         bnd (reset_op throttleKey (emailChangeKey userID)) (\<lambda>_.
         bnd (attempt (UpdateUserEmail userID (ech_NewEmail spent))) (\<lambda>m.
         case m of
           Inl _ \<Rightarrow> throw ErrEmailInUse
         | Inr u \<Rightarrow>
             bnd (attempt (RevokeOtherSessions ac userID rawSessionToken)) (\<lambda>v.
             ret (u, case v of Inl _ \<Rightarrow> 0 | Inr n \<Rightarrow> n))))))"

section \<open>Signing in is sound\<close>

lemma bump_tables [simp]:
  "w_users (bump w) = w_users w" "w_sessions (bump w) = w_sessions w" "w_recovery (bump w) = w_recovery w"
  "w_totp (bump w) = w_totp w" "w_tokens (bump w) = w_tokens w" "w_changes (bump w) = w_changes w"
  "w_invites (bump w) = w_invites w" "w_requests (bump w) = w_requests w" "w_members (bump w) = w_members w"
  "w_teams (bump w) = w_teams w" "w_now (bump w) = w_now w" "w_dbnow (bump w) = w_dbnow w"
  "w_faults (bump w) = w_faults w" "w_byAddress (bump w) = w_byAddress w" "w_byAccount (bump w) = w_byAccount w"
  "w_byInvite (bump w) = w_byInvite w" "w_events (bump w) = w_events w" "w_io (bump w) = Suc (w_io w)"
  by (simp_all add: bump_def)

text \<open>What a caller has shown to pass the second factor: a current code, or an unused recovery code.\<close>

definition shows_code :: "auth_cfg \<Rightarrow> world \<Rightarrow> string \<Rightarrow> string \<Rightarrow> bool" where
  "shows_code ac w i code \<longleftrightarrow> (\<exists>ct nonce secret. (i, ct, nonce) \<in> set (w_totp w) \<and> au_open ac ct nonce = Inr secret
     \<and> validTOTP (au_hmac ac) secret code (w_now w) = Some True)"

definition unused_code :: "auth_cfg \<Rightarrow> world \<Rightarrow> string \<Rightarrow> string \<Rightarrow> bool" where
  "unused_code ac w i code \<longleftrightarrow> (\<exists>c \<in> set (w_recovery w).
     usable i (HashToken ac (normalizeRecoveryCode ac code)) c)"

lemma GetTOTPSecret_run:
  assumes "GetTOTPSecret i w = (Inr sec, w')"
  shows "w' = bump w" "ts_CT sec \<noteq> [] \<Longrightarrow> (i, ts_CT sec, ts_Nonce sec) \<in> set (w_totp w)"
proof -
  obtain b where w': "w' = bump w" and sec: "sec = totp_material i b w"
    using assms by (auto simp: GetTOTPSecret_def query_Inr_iff bnd_Inr_iff one_row_Inr_iff gets_def totp_material_def)
  from w' show "w' = bump w" .
  show "ts_CT sec \<noteq> [] \<Longrightarrow> (i, ts_CT sec, ts_Nonce sec) \<in> set (w_totp w)"
    unfolding sec totp_material_def
    by (cases "List.find (\<lambda>t. fst t = i) (w_totp w)") (auto dest: find_Some_set)
qed

lemma openTOTPSecret_run:
  assumes "openTOTPSecret ac i w = (Inr (secret, sec), w')"
  shows "w' = bump w" "secret \<noteq> [] \<Longrightarrow> \<exists>ct nonce. (i, ct, nonce) \<in> set (w_totp w) \<and> au_open ac ct nonce = Inr secret"
proof -
  obtain w1 where get: "GetTOTPSecret i w = (Inr sec, w1)"
    and rest: "secret = [] \<and> w' = w1 \<or> ts_CT sec \<noteq> [] \<and> au_open ac (ts_CT sec) (ts_Nonce sec) = Inr secret \<and> w' = w1"
    using assms by (auto simp: openTOTPSecret_def bnd_Inr_iff mapE_Inr_iff lift_def split: if_splits sum.splits)
  from rest GetTOTPSecret_run [OF get]
  show "w' = bump w" "secret \<noteq> [] \<Longrightarrow> \<exists>ct nonce. (i, ct, nonce) \<in> set (w_totp w) \<and> au_open ac ct nonce = Inr secret"
    by auto
qed

lemma consume_run:
  assumes "ConsumeRecoveryCode i h w = (Inr ok, w')"
  shows "ok \<longleftrightarrow> (\<exists>c \<in> set (w_recovery w). usable i h c)" "\<not> (\<exists>c \<in> set (w_recovery w'). usable i h c)"
    "w_users w' = w_users w" "w_sessions w' = w_sessions w" "w_now w' = w_now w"
proof -
  have run: "ok = list_ex (usable i h) (w_recovery w)"
    "w' = (bump w)\<lparr>w_recovery := update_where (usable i h) (rc_UsedAt_update (\<lambda>_. Some (w_dbnow w))) (w_recovery w)\<rparr>"
    using assms by (simp_all add: ConsumeRecoveryCode_def query_Inr_iff)
  from run(1) show "ok \<longleftrightarrow> (\<exists>c \<in> set (w_recovery w). usable i h c)" by (simp add: list_ex_iff)
  have off: "\<not> usable i h (rc_UsedAt_update (\<lambda>_. Some t) c)" for t c by (simp add: usable_def)
  have "\<not> usable i h c" if "c \<in> set (update_where (usable i h) (rc_UsedAt_update (\<lambda>_. Some t)) cs)" for c t cs
    using that by (auto simp: update_where_def off)
  then show "\<not> (\<exists>c \<in> set (w_recovery w'). usable i h c)" unfolding run(2) by auto
  show "w_users w' = w_users w" "w_sessions w' = w_sessions w" "w_now w' = w_now w" unfolding run(2) by simp_all
qed

lemma checkSecondFactor_run:
  assumes "checkSecondFactor ac i code w = (Inr True, w')"
  shows "w_users w' = w_users w" "w_sessions w' = w_sessions w" "w_now w' = w_now w"
    "shows_code ac w i code \<or> unused_code ac w i code \<and> \<not> unused_code ac w' i code"
proof -
  obtain secret sec w1 where op: "openTOTPSecret ac i w = (Inr (secret, sec), w1)"
    using assms by (auto simp: checkSecondFactor_def bnd_Inr_iff)
  note opened = openTOTPSecret_run [OF op]
  let ?h = "HashToken ac (normalizeRecoveryCode ac code)"
  have "(secret \<noteq> [] \<and> validTOTP (au_hmac ac) secret code (w_now w1) = Some True \<and> w' = w1)
      \<or> ConsumeRecoveryCode i ?h w1 = (Inr True, w')"
    using assms op by (auto simp: checkSecondFactor_def runs validate_def now_op_def gets_def split: if_splits option.splits)
  then show "w_users w' = w_users w" "w_sessions w' = w_sessions w" "w_now w' = w_now w"
    "shows_code ac w i code \<or> unused_code ac w i code \<and> \<not> unused_code ac w' i code"
    using opened consume_run [of i ?h w1 True w'] by (auto simp: shows_code_def unused_code_def)
qed

lemma second_factor_run:
  assumes "second_factor ac k1 k2 u code w = (Inr (), w')"
  shows "w_users w' = w_users w \<and> w_sessions w' = w_sessions w \<and> w_now w' = w_now w
    \<and> (usr_TOTPEnabled u \<longrightarrow> shows_code ac w (usr_ID u) code
        \<or> unused_code ac w (usr_ID u) code \<and> \<not> unused_code ac w' (usr_ID u) code)"
  using assms checkSecondFactor_run [of ac "usr_ID u" code w w']
  by (auto simp: second_factor_def bnd_Inr_iff split: if_splits)

definition within_budget :: "world \<Rightarrow> string \<Rightarrow> string \<Rightarrow> bool" where
  "within_budget w k1 k2 \<longleftrightarrow> (\<forall>l. w_byAddress w = Some l \<longrightarrow> fst (Allow (w_now w) k1 l))
     \<and> (\<forall>l. w_byAccount w = Some l \<longrightarrow> fst (Allow (w_now w) k2 l))"

lemma throttle_op_run:
  assumes "throttle_op k1 k2 w = (r, w')"
  shows "\<exists>a b. w' = w\<lparr>w_byAddress := a, w_byAccount := b\<rparr>" "r = Inr () \<Longrightarrow> within_budget w k1 k2"
proof -
  obtain x ls where t: "throttle (w_now w) [(w_byAddress w, k1), (w_byAccount w, k2)] = (x, ls)" by fastforce
  with assms show "\<exists>a b. w' = w\<lparr>w_byAddress := a, w_byAccount := b\<rparr>" by (auto simp: throttle_op_def)
  assume "r = Inr ()"
  with assms t have "x = None" by (auto simp: throttle_op_def split: option.splits)
  with t have "throttle (w_now w) [(w_byAddress w, k1), (w_byAccount w, k2)] = (None, ls)" by simp
  from throttle_allows [OF this] show "within_budget w k1 k2" by (auto simp: within_budget_def)
qed

lemma GetUserByEmail_run:
  "GetUserByEmail email w = (r, w') \<Longrightarrow> w' = bump w"
  "GetUserByEmail email w = (Inr u, w') \<Longrightarrow> u \<in> set (w_users w) \<and> usr_Email u = email"
  by (auto simp: GetUserByEmail_def query_run runs one_row_def split: option.splits dest!: find_Some_set)

lemma StartSession_run:
  assumes "StartSession ac i raw userID w = (Inr tok, w')"
  shows "tok = raw" "w_users w' = w_users w" "w_recovery w' = w_recovery w" "userID \<in> usr_ID ` set (w_users w)"
    "w_sessions w' = w_sessions w @ [\<lparr> ses_ID = i, ses_UserID = userID, ses_TokenHash = HashToken ac raw,
        ses_ExpiresAt = w_now w + au_sessionTTL ac \<rparr>]"
    "HashToken ac raw \<notin> ses_TokenHash ` set (w_sessions w)"
  using assms
  by (auto simp: StartSession_def CreateSession_def bnd_Inr_iff mapE_Inr_iff query_Inr_iff now_op_def gets_def
      split: if_splits)

lemma Login_sound:
  assumes "Login ac i raw email password code key w = (Inr (tok, u), w')"
  shows "u \<in> set (w_users w) \<and> usr_Email u = email \<and> CheckPassword ac (usr_PasswordHash u) password
    \<and> (usr_TOTPEnabled u \<longrightarrow> shows_code ac w (usr_ID u) code
         \<or> unused_code ac w (usr_ID u) code \<and> \<not> unused_code ac w' (usr_ID u) code)
    \<and> within_budget w key (accountKey ac email)
    \<and> tok = raw \<and> w_sessions w' = w_sessions w @ [\<lparr> ses_ID = i, ses_UserID = usr_ID u, ses_TokenHash = HashToken ac raw,
        ses_ExpiresAt = w_now w + au_sessionTTL ac \<rparr>]"
proof -
  let ?k = "accountKey ac email"
  obtain w1 where thr: "throttle_op key ?k w = (Inr (), w1)" using assms by (auto simp: Login_def bnd_Inr_iff)
  note budget = throttle_op_run [OF thr]
  obtain a b where w1: "w1 = w\<lparr>w_byAddress := a, w_byAccount := b\<rparr>" using budget(1) by blast
  obtain r w2 where get: "GetUserByEmail email w1 = (r, w2)" by fastforce
  note w2 = GetUserByEmail_run(1) [OF get]
  have r: "r = Inr u" "CheckPassword ac (usr_PasswordHash u) password"
    using assms thr get by (auto simp: Login_def runs fail_op_def modify_def split: sum.splits if_splits prod.splits)
  obtain w3 w4 where fac: "second_factor ac key ?k u code w2 = (Inr (), w3)"
    and res: "reset_op key ?k w3 = (Inr (), w4)" and ses: "StartSession ac i raw (usr_ID u) w4 = (Inr tok, w')"
    using assms thr get r by (auto simp: Login_def runs split: sum.splits prod.splits)
  obtain c d where w4: "w4 = w3\<lparr>w_byAddress := c, w_byAccount := d\<rparr>" using res by (auto simp: reset_op_def modify_def)
  note f = second_factor_run [OF fac] and start = StartSession_run [OF ses [unfolded w4]]
  have tables: "w_users w2 = w_users w" "w_totp w2 = w_totp w" "w_recovery w2 = w_recovery w" "w_now w2 = w_now w"
    "w_sessions w2 = w_sessions w"
    unfolding w2 w1 by simp_all
  have shown: "shows_code ac w2 j x = shows_code ac w j x" "unused_code ac w2 j x = unused_code ac w j x"
    "unused_code ac w' j x = unused_code ac w3 j x" for j x
    using tables start(3) by (simp_all add: shows_code_def unused_code_def)
  show ?thesis
    using f budget(2) GetUserByEmail_run(2) [OF get [unfolded r]] r start tables shown by (simp add: w1)
qed

section \<open>A session from sign-in to sign-out\<close>

lemma calm_run: "w_faults w = (\<lambda>_. None) \<Longrightarrow> query n m w = mapE (Wrapped (''store: '' @ n)) m (bump w)"
  by (simp add: query_run)

lemma find_user:
  assumes "distinct (map usr_ID us)" "u \<in> set us"
  shows "filter (\<lambda>v. usr_ID v = usr_ID u) us = [u]"
  using assms
proof (induction us)
  case (Cons x us)
  then have out: "usr_ID x \<notin> usr_ID ` set us" by simp
  show ?case
  proof (cases "u = x")
    case True
    have "filter (\<lambda>v. usr_ID v = usr_ID x) us = []"
      by (rule filter_False) (metis image_eqI out)
    with True show ?thesis by simp
  next
    case False
    with Cons out show ?thesis by auto
  qed
qed simp

text \<open>The rows the join of sessions and users yields for a token.\<close>

lemma session_rows_bump [simp]: "session_rows h (bump w) = session_rows h w"
  by (simp add: session_rows_def cong: if_cong)

lemma SessionForToken_calm:
  assumes "w_faults w = (\<lambda>_. None)"
  shows "session_rows h w = [] \<Longrightarrow> SessionForToken h w = (Inl (Wrapped ''store: getting session'' ErrNotFound), bump w)"
    "session_rows h w = (u, s) # rest \<Longrightarrow> SessionForToken h w = (Inr (u, ses_ID s), bump w)"
  by (simp_all add: SessionForToken_def calm_run [OF assms] runs one_row_def)

lemma session_rows_none:
  assumes "h \<notin> ses_TokenHash ` set (w_sessions w)"
  shows "session_rows h w = []"
  using assms by (auto simp: session_rows_def)

lemma joined_users: "[(u, s). u \<leftarrow> us, usr_ID u = i] = map (\<lambda>u. (u, s)) (filter (\<lambda>u. usr_ID u = i) us)"
  by (induction us) auto

lemma session_rows_new:
  assumes "h \<notin> ses_TokenHash ` set ss" "w_sessions w = ss @ [s]" "ses_TokenHash s = h" "w_dbnow w < ses_ExpiresAt s"
  shows "session_rows h w = map (\<lambda>u. (u, s)) (filter (\<lambda>u. usr_ID u = ses_UserID s) (w_users w))"
proof -
  have "[(u, s). s \<leftarrow> ss, ses_TokenHash s = h \<and> ses_ExpiresAt s > w_dbnow w, u \<leftarrow> w_users w, usr_ID u = ses_UserID s] = []"
    using assms(1) by auto
  with assms show ?thesis by (simp add: session_rows_def joined_users)
qed

lemma session_lives:
  assumes start: "StartSession ac i raw userID w = (Inr tok, w1)" and calm: "w_faults w = (\<lambda>_. None)"
    and users: "distinct (map usr_ID (w_users w))" and kind: "\<not> has_prefix APITokenPrefix raw"
    and ttl: "w_dbnow w < w_now w + au_sessionTTL ac"
  shows "\<exists>u \<in> set (w_users w). usr_ID u = userID \<and> Authenticate ac tok w1 = (Inr \<lparr> pr_User = u, pr_Kind = KindSession,
      pr_Abilities = AllAbilities, pr_SessionID = i, pr_TokenID = [], pr_ProjectID = [] \<rparr>, bump w1)"
proof -
  note run = StartSession_run [OF start]
  have w1: "w_faults w1 = (\<lambda>_. None)" "w_dbnow w1 = w_dbnow w"
    using start calm by (auto simp: StartSession_def CreateSession_def bnd_Inr_iff mapE_Inr_iff query_Inr_iff now_op_def gets_def
      split: if_splits)
  obtain u where u: "u \<in> set (w_users w)" "usr_ID u = userID" using run(4) by auto
  have "session_rows (HashToken ac raw) w1 = [(u, last (w_sessions w1))]"
    using session_rows_new [OF run(6,5)] find_user [OF users u(1)] u(2) ttl by (simp add: run(2,5) w1(2))
  from SessionForToken_calm(2) [OF w1(1) this] u kind run(1,5) show ?thesis by (auto simp: Authenticate_def runs)
qed

lemma logged_out:
  assumes "w_faults w = (\<lambda>_. None)" "\<not> has_prefix APITokenPrefix raw"
  shows "Logout ac raw w = (Inr (), (bump w)\<lparr>w_sessions := filter (\<lambda>s. ses_TokenHash s \<noteq> HashToken ac raw) (w_sessions w)\<rparr>)"
    "fst (Authenticate ac raw (snd (Logout ac raw w))) = Inl ErrInvalidSession"
proof -
  show out: "Logout ac raw w = (Inr (), (bump w)\<lparr>w_sessions := filter (\<lambda>s. ses_TokenHash s \<noteq> HashToken ac raw) (w_sessions w)\<rparr>)"
    using assms(1) by (simp add: Logout_def DeleteSession_def delete_sessions_def calm_run runs)
  define v where "v = snd (Logout ac raw w)"
  have v: "w_faults v = (\<lambda>_. None)" "session_rows (HashToken ac raw) v = []"
    unfolding v_def out using assms(1) by (auto intro: session_rows_none)
  from SessionForToken_calm(1) [OF v] show "fst (Authenticate ac raw (snd (Logout ac raw w))) = Inl ErrInvalidSession"
    unfolding v_def [symmetric] using assms(2) by (simp add: Authenticate_def runs errors_is_def)
qed

section \<open>An address change is spent once\<close>

lemma in_update_where:
  "x \<in> set (update_where p f xs) \<Longrightarrow> (\<exists>y \<in> set xs. p y \<and> x = f y) \<or> (x \<in> set xs \<and> \<not> p x)"
  unfolding update_where_def by auto

lemma consume_change_run:
  assumes "ConsumeEmailChange i w = (Inr c, w')"
  shows "\<exists>c0 \<in> set (w_changes w). ech_ID c0 = i \<and> live_change w c0 \<and> ech_NewEmail c = ech_NewEmail c0"
    "\<And>x. x \<in> set (w_changes w') \<Longrightarrow> ech_ID x = i \<Longrightarrow> \<not> live_change w x" "w_dbnow w' = w_dbnow w" "w_users w' = w_users w"
proof -
  obtain c0 where c0: "List.find (\<lambda>c. ech_ID c = i \<and> live_change w c) (w_changes w) = Some c0"
    "c = c0\<lparr>ech_ConsumedAt := Some (w_dbnow w)\<rparr>" and w': "w' = consume_changes (\<lambda>c. ech_ID c = i) (bump w)"
    using assms by (auto simp: ConsumeEmailChange_def query_Inr_iff live_change_def split: option.splits)
  from find_Some_set [OF c0(1)] c0(2)
  show "\<exists>c0 \<in> set (w_changes w). ech_ID c0 = i \<and> live_change w c0 \<and> ech_NewEmail c = ech_NewEmail c0" by auto
  have live: "live_change (bump w) = live_change w" by (simp add: live_change_def fun_eq_iff)
  have gone: "\<not> live_change w (ech_ConsumedAt_update (\<lambda>_. Some t) x)" for t x by (simp add: live_change_def)
  show "\<not> live_change w x" if "x \<in> set (w_changes w')" "ech_ID x = i" for x
  proof -
    have "x \<in> set (update_where (\<lambda>c. ech_ID c = i \<and> live_change w c) (ech_ConsumedAt_update (\<lambda>_. Some (w_dbnow w))) (w_changes w))"
      using that(1) unfolding w' consume_changes_def by (simp add: live)
    from in_update_where [OF this] that(2) gone show ?thesis by blast
  qed
  show "w_dbnow w' = w_dbnow w" "w_users w' = w_users w" unfolding w' by (simp_all add: consume_changes_def)
qed

lemma spend_run:
  assumes "spendEmailChange ac uid token w = (Inr c, w')"
  shows "\<exists>i secret. splitEmailChangeToken token = Some (i, secret)
    \<and> (\<exists>c0 \<in> set (w_changes w). ech_ID c0 = i \<and> ech_TokenHash c0 = HashToken ac secret \<and> ech_UserID c0 = uid)
    \<and> (\<exists>c1 \<in> set (w_changes w). ech_ID c1 = i \<and> live_change w c1 \<and> ech_NewEmail c = ech_NewEmail c1)
    \<and> (\<forall>x \<in> set (w_changes w'). ech_ID x = i \<longrightarrow> \<not> live_change w' x) \<and> w_users w' = w_users w"
proof -
  obtain i secret where tok: "splitEmailChangeToken token = Some (i, secret)"
    using assms by (auto simp: spendEmailChange_def split: option.splits)
  obtain r w1 where get: "EmailChangeTokenHash i w = (r, w1)" by fastforce
  obtain p h where r: "r = Inr (p, h)" and hash: "h = HashToken ac secret" "ech_UserID p = uid"
    using assms tok get by (auto simp: spendEmailChange_def runs split: sum.splits if_splits prod.splits)
  have w1: "w1 = bump w" and p: "p \<in> set (w_changes w)" "ech_ID p = i" "h = ech_TokenHash p"
    using get r by (auto simp: EmailChangeTokenHash_def query_Inr_iff bnd_Inr_iff one_row_Inr_iff dest!: find_Some_set)
  obtain x w2 where spend: "ConsumeEmailChange i w1 = (x, w2)" by fastforce
  with assms tok get r hash have spent: "x = Inr c" "w' = w2"
    by (auto simp: spendEmailChange_def runs now_op_def gets_def split: sum.splits if_splits prod.splits)
  note eff = consume_change_run [OF spend [unfolded spent]]
  have "live_change w' y = live_change w1 y" for y using eff(3) spent by (simp add: live_change_def)
  moreover have "live_change w1 y = live_change w y" for y unfolding w1 by (simp add: live_change_def)
  ultimately show ?thesis using tok p hash eff spent w1 by auto
qed

lemma spend_refused:
  assumes "splitEmailChangeToken token = Some (i, secret)" "\<And>x. x \<in> set (w_changes w) \<Longrightarrow> ech_ID x = i \<Longrightarrow> \<not> live_change w x"
  shows "\<exists>e. fst (spendEmailChange ac uid token w) = Inl e"
proof (cases "fst (spendEmailChange ac uid token w)")
  case (Inr c)
  then obtain w' where "spendEmailChange ac uid token w = (Inr c, w')" by (metis prod.collapse)
  from spend_run [OF this] assms show ?thesis by auto
qed simp

lemma UpdateUserEmail_run:
  assumes "UpdateUserEmail uid email w = (Inr u, w')"
  shows "w' = upd_user uid (usr_Email_update (\<lambda>_. email)) (bump w)" "u \<in> set (w_users w')" "usr_ID u = uid" "usr_Email u = email"
proof -
  show w': "w' = upd_user uid (usr_Email_update (\<lambda>_. email)) (bump w)"
    using assms by (auto simp: UpdateUserEmail_def query_Inr_iff bnd_Inr_iff one_row_Inr_iff split: if_splits)
  have row: "List.find (\<lambda>u. usr_ID u = uid) (w_users w') = Some u"
    using assms by (auto simp: UpdateUserEmail_def query_Inr_iff bnd_Inr_iff one_row_Inr_iff split: if_splits)
  from find_Some_set [OF row] show "u \<in> set (w_users w')" "usr_ID u = uid" by auto
  have "List.find (\<lambda>u. usr_ID u = uid) (w_users w') = map_option (usr_Email_update (\<lambda>_. email))
      (List.find (\<lambda>u. usr_ID u = uid) (w_users w))"
    unfolding w' upd_user_def by (simp add: find_update_where_same)
  with row show "usr_Email u = email" by auto
qed

lemma confirm_run:
  assumes "ConfirmEmailChange ac uid token raw key w = (Inr (u, n), w')"
  shows "\<exists>i secret. splitEmailChangeToken token = Some (i, secret)
    \<and> (\<exists>c0 \<in> set (w_changes w). ech_ID c0 = i \<and> ech_TokenHash c0 = HashToken ac secret \<and> ech_UserID c0 = uid)
    \<and> (\<exists>c1 \<in> set (w_changes w). ech_ID c1 = i \<and> live_change w c1 \<and> usr_Email u = ech_NewEmail c1)
    \<and> u \<in> set (w_users w') \<and> usr_ID u = uid
    \<and> (\<forall>x \<in> set (w_changes w'). ech_ID x = i \<longrightarrow> \<not> live_change w' x)"
proof -
  let ?k = "emailChangeKey uid"
  obtain w1 where thr: "throttle_op key ?k w = (Inr (), w1)" using assms by (auto simp: ConfirmEmailChange_def bnd_Inr_iff)
  obtain a b where w1: "w1 = w\<lparr>w_byAddress := a, w_byAccount := b\<rparr>" using throttle_op_run(1) [OF thr] by blast
  obtain r w2 where spend: "spendEmailChange ac uid token w1 = (r, w2)" by fastforce
  obtain c where r: "r = Inr c"
    using assms thr spend by (auto simp: ConfirmEmailChange_def runs fail_op_def modify_def split: sum.splits prod.splits)
  obtain w3 where res: "reset_op key ?k w2 = (Inr (), w3)" by (auto simp: reset_op_def modify_def)
  obtain d e where w3: "w3 = w2\<lparr>w_byAddress := d, w_byAccount := e\<rparr>" using res by (auto simp: reset_op_def modify_def)
  obtain m w4 where upd: "UpdateUserEmail uid (ech_NewEmail c) w3 = (m, w4)" by fastforce
  have m: "m = Inr u" using assms thr spend r res upd
    by (auto simp: ConfirmEmailChange_def runs split: sum.splits prod.splits)
  obtain v w5 where rev: "RevokeOtherSessions ac uid raw w4 = (v, w5)" by fastforce
  have w': "w' = w5" using assms thr spend r res upd m rev
    by (auto simp: ConfirmEmailChange_def runs split: sum.splits prod.splits)
  have u: "w_changes w4 = w_changes w2" "w_dbnow w4 = w_dbnow w2" "u \<in> set (w_users w4)" "usr_ID u = uid"
    "usr_Email u = ech_NewEmail c"
    using UpdateUserEmail_run [OF upd [unfolded m]] w3 by (simp_all add: upd_user_def)
  have v: "w_changes w5 = w_changes w4" "w_dbnow w5 = w_dbnow w4" "w_users w5 = w_users w4"
    using rev by (auto simp: RevokeOtherSessions_def DeleteOtherSessionsForUser_def delete_sessions_def query_run runs
        split: option.splits)
  have live: "live_change w' = live_change w2" "live_change w1 = live_change w"
    using u v w' unfolding w1 by (simp_all add: live_change_def fun_eq_iff)
  from spend_run [OF spend [unfolded r]] u v w' live show ?thesis unfolding w1 by auto
qed

section \<open>Claims\<close>

text \<open>
  C21. Signing in needs the credentials. When \<open>Login\<close> hands out a session, an account with that address
  exists and the password matches its hash; with the second factor on, the code is a current one or an unused
  recovery code, which is then no longer usable; neither throttle was exhausted; and exactly one
  session was added, for that account, holding the hash of the token and expiring after the configured time.
  This holds under every pattern of database failures.
\<close>

theorem Login_needs_credentials:
  assumes "Login ac i raw email password code key w = (Inr (tok, u), w')"
  shows "u \<in> set (w_users w) \<and> usr_Email u = email \<and> CheckPassword ac (usr_PasswordHash u) password
    \<and> (usr_TOTPEnabled u \<longrightarrow> shows_code ac w (usr_ID u) code
         \<or> unused_code ac w (usr_ID u) code \<and> \<not> unused_code ac w' (usr_ID u) code)
    \<and> within_budget w key (accountKey ac email)
    \<and> tok = raw \<and> w_sessions w' = w_sessions w @ [\<lparr> ses_ID = i, ses_UserID = usr_ID u, ses_TokenHash = HashToken ac raw,
        ses_ExpiresAt = w_now w + au_sessionTTL ac \<rparr>]"
  using assms by (rule Login_sound)

text \<open>
  Stand-ins for the libraries: a password is stored with a mark in front, hashes are the text itself, every
  address parses.
\<close>

definition plain_auth :: auth_cfg where
  "plain_auth = \<lparr> au_bcrypt = (\<lambda>p. Inr (CHR ''#'' # p)), au_compare = (\<lambda>h p. h = CHR ''#'' # p), au_sha256 = (\<lambda>s. s),
     au_hmac = toy_hmac, au_seal = (\<lambda>s. Inr (s, [])), au_open = (\<lambda>ct n. Inr ct), au_lower = (\<lambda>s. s),
     au_fold = (\<lambda>a b. a = b), au_address = Some, au_zone = (\<lambda>_. False), au_sessionTTL = 3600 * second \<rparr>"

definition dan :: user where
  "dan = (person ''dan'' ''member'')\<lparr>usr_PasswordHash := ''#hunter22'', usr_TOTPEnabled := True\<rparr>"

definition lobby :: world where
  "lobby = crew\<lparr>w_users := [dan], w_now := 1000, w_dbnow := 1000,
     w_recovery := [\<lparr> rc_ID = ''rc_1'', rc_UserID = ''dan'', rc_CodeHash = ''abcdefghij'', rc_UsedAt = None \<rparr>],
     w_byAddress := Some (NewLimiter 5 (60 * second))\<rparr>"

definition enter :: "string \<Rightarrow> world \<Rightarrow> (error + string \<times> user) \<times> world" where
  "enter code w = Login plain_auth ''ses_1'' ''TOKEN'' ''dan@acme'' ''hunter22'' code ''10.0.0.1'' w"

theorem Login_needs_credentials_witness:
  "fst (enter [] lobby) = Inl ErrTOTPRequired \<and> fst (enter ''abcde-fghij'' lobby) = Inr (''TOKEN'', dan)
   \<and> map ses_UserID (w_sessions (snd (enter ''abcde-fghij'' lobby))) = [''dan'']
   \<and> \<not> unused_code plain_auth (snd (enter ''abcde-fghij'' lobby)) ''dan'' ''abcde-fghij''"
proof -
  have ok: "fst (enter ''abcde-fghij'' lobby) = Inr (''TOKEN'', dan)" by code_simp
  then obtain w' where run: "enter ''abcde-fghij'' lobby = (Inr (''TOKEN'', dan), w')" by (metis prod.collapse)
  note sound = Login_needs_credentials [OF run [unfolded enter_def]]
  have "\<not> shows_code plain_auth lobby ''dan'' ''abcde-fghij''" by (simp add: shows_code_def lobby_def crew_def)
  with sound have "\<not> unused_code plain_auth w' ''dan'' ''abcde-fghij''" by (simp add: dan_def person_def)
  moreover have "map ses_UserID (w_sessions w') = [''dan'']" using sound by (simp add: lobby_def crew_def dan_def person_def)
  moreover have "fst (enter [] lobby) = Inl ErrTOTPRequired" by code_simp
  ultimately show ?thesis using ok run by simp
qed

text \<open>
  A session round trip. While the database answers, the token that \<open>StartSession\<close> returns
  authenticates as the account it was started for, with the abilities of a session and no project scope; once
  it is signed out the token is refused, and the table of sessions is what it was before.
\<close>

theorem session_round_trip:
  assumes "StartSession ac i raw userID w = (Inr tok, w1)" "w_faults w = (\<lambda>_. None)" "distinct (map usr_ID (w_users w))"
    "\<not> has_prefix APITokenPrefix raw" "w_dbnow w < w_now w + au_sessionTTL ac"
  shows "(\<exists>u \<in> set (w_users w). usr_ID u = userID \<and> fst (Authenticate ac tok w1) = Inr \<lparr> pr_User = u, pr_Kind = KindSession,
        pr_Abilities = AllAbilities, pr_SessionID = i, pr_TokenID = [], pr_ProjectID = [] \<rparr>)
    \<and> fst (Authenticate ac tok (snd (Logout ac tok w1))) = Inl ErrInvalidSession
    \<and> w_sessions (snd (Logout ac tok w1)) = w_sessions w"
proof -
  note run = StartSession_run [OF assms(1)]
  have calm: "w_faults w1 = (\<lambda>_. None)"
    using assms(1,2) by (auto simp: StartSession_def CreateSession_def bnd_Inr_iff mapE_Inr_iff query_Inr_iff now_op_def gets_def
      split: if_splits)
  note out = logged_out [OF calm assms(4), of ac]
  have "filter (\<lambda>s. ses_TokenHash s \<noteq> HashToken ac raw) (w_sessions w) = w_sessions w"
    by (rule filter_True) (metis image_eqI run(6))
  then have "w_sessions (snd (Logout ac tok w1)) = w_sessions w" unfolding run(1) out(1) by (simp add: run(5))
  with session_lives [OF assms] out(2) run(1) show ?thesis by fastforce
qed

theorem session_round_trip_witness:
  "fst (Authenticate plain_auth ''TOKEN'' (snd (Logout plain_auth ''TOKEN''
     (snd (StartSession plain_auth ''ses_1'' ''TOKEN'' ''dan'' lobby))))) = Inl ErrInvalidSession"
proof -
  have "fst (StartSession plain_auth ''ses_1'' ''TOKEN'' ''dan'' lobby) = Inr ''TOKEN''" by code_simp
  then obtain w1 where run: "StartSession plain_auth ''ses_1'' ''TOKEN'' ''dan'' lobby = (Inr ''TOKEN'', w1)"
    by (metis prod.collapse)
  have "w_faults lobby = (\<lambda>_. None)" "distinct (map usr_ID (w_users lobby))" "\<not> has_prefix APITokenPrefix ''TOKEN''"
    "w_dbnow lobby < w_now lobby + au_sessionTTL plain_auth"
    by (simp_all add: lobby_def crew_def APITokenPrefix_def plain_auth_def second_def)
  from session_round_trip [OF run this] run show ?thesis by simp
qed

text \<open>
  C22. An address moves only by the link, once. When \<open>ConfirmEmailChange\<close> succeeds, the token names a
  pending change of this very account, that is neither spent nor expired, with the hash of its secret; the
  account now has the address of that change; and the same link is refused from then on, from any account.
\<close>

theorem email_change_once:
  assumes "ConfirmEmailChange ac uid token raw key w = (Inr (u, n), w')"
  shows "(\<exists>i secret. splitEmailChangeToken token = Some (i, secret)
      \<and> (\<exists>c \<in> set (w_changes w). ech_ID c = i \<and> ech_TokenHash c = HashToken ac secret \<and> ech_UserID c = uid)
      \<and> (\<exists>c \<in> set (w_changes w). ech_ID c = i \<and> live_change w c \<and> usr_Email u = ech_NewEmail c))
    \<and> u \<in> set (w_users w') \<and> usr_ID u = uid \<and> (\<exists>e. fst (ConfirmEmailChange ac uid' token raw' key' w') = Inl e)"
proof -
  obtain i secret where c: "splitEmailChangeToken token = Some (i, secret)"
    "\<exists>c \<in> set (w_changes w). ech_ID c = i \<and> ech_TokenHash c = HashToken ac secret \<and> ech_UserID c = uid"
    "\<exists>c \<in> set (w_changes w). ech_ID c = i \<and> live_change w c \<and> usr_Email u = ech_NewEmail c"
    "u \<in> set (w_users w')" "usr_ID u = uid" "\<forall>x \<in> set (w_changes w'). ech_ID x = i \<longrightarrow> \<not> live_change w' x"
    using confirm_run [OF assms] by blast
  have "\<exists>e. fst (ConfirmEmailChange ac uid' token raw' key' w') = Inl e"
  proof (cases "ConfirmEmailChange ac uid' token raw' key' w'")
    case (Pair r w2)
    show ?thesis
    proof (cases r)
      case (Inr z)
      with Pair obtain u' n' where "ConfirmEmailChange ac uid' token raw' key' w' = (Inr (u', n'), w2)" by (cases z) auto
      from confirm_run [OF this] c(1,6) show ?thesis by auto
    qed (simp add: Pair)
  qed
  with c show ?thesis by blast
qed

definition moving :: world where
  "moving = lobby\<lparr>w_changes := [\<lparr> ech_ID = ''ec_1'', ech_UserID = ''dan'', ech_NewEmail = ''dan@new'', ech_TokenHash = ''S3'',
     ech_ExpiresAt = 5000, ech_ConsumedAt = None \<rparr>]\<rparr>"

definition confirm :: "world \<Rightarrow> (error + user \<times> nat) \<times> world" where
  "confirm w = ConfirmEmailChange plain_auth ''dan'' ''ec_1.S3'' ''TOKEN'' ''10.0.0.1'' w"

theorem email_change_once_witness:
  "map usr_Email (w_users (snd (confirm moving))) = [''dan@new''] \<and> \<not> isl (fst (confirm moving))
   \<and> isl (fst (confirm (snd (confirm moving))))"
proof -
  have ok: "\<not> isl (fst (confirm moving))" by code_simp
  then obtain u n w' where run: "confirm moving = (Inr (u, n), w')"
    by (cases "confirm moving"; cases "fst (confirm moving)") auto
  from email_change_once [OF run [unfolded confirm_def]] run
  have "isl (fst (confirm (snd (confirm moving))))" unfolding confirm_def by (metis isl_def snd_conv)
  moreover have "map usr_Email (w_users (snd (confirm moving))) = [''dan@new'']" by code_simp
  ultimately show ?thesis using ok by simp
qed

text \<open>
  A confirmation link is lost to an outage. When the database fails while the address is written, the
  answer is that the address is taken although no account has it, the link is spent, and trying again is
  refused; a failure before that is taken for a wrong link and counts against the client.
\<close>

theorem email_change_lost:
  "(let out = (\<lambda>n. moving\<lparr>w_io := 0, w_faults := (\<lambda>k. if k = n then Some ''timeout'' else None)\<rparr>);
        later = snd (confirm (out 2))
    in fst (confirm (out 2)) = Inl ErrEmailInUse \<and> map usr_Email (w_users later) = [''dan@acme'']
     \<and> fst (confirm later) = Inl ErrInvalidEmailChange
     \<and> fst (confirm (out 0)) = Inl ErrInvalidEmailChange
     \<and> map_option (\<lambda>l. lim_attempts l ''10.0.0.1'') (w_byAddress (snd (confirm (out 0)))) = Some (Some [1000]))"
  by code_simp

end
