(* ===== verification/Access.thy ===== *)
theory Access
  imports Auth
begin

text \<open>
  Getting into a team (\<open>src/core/access\<close>): invitations, which are links that grant one membership once, and
  access requests, with which a member asks the owners for a higher rank; with the statements of
  \<open>src/core/store/access.go\<close>. Identifiers and secrets the service mints are arguments. The mailer and
  the inbox are calls that may fail; \<open>access_cfg\<close> says whether they are configured at all, and holds
  the libraries of theory \<open>Auth\<close>, whose sign-in an invitation for a known address goes through.
\<close>

record access_cfg =
  ax_auth :: auth_cfg
  ax_mailer :: bool
  ax_inbox :: bool
  ax_baseURL :: string

section \<open>Invitations in the store (store/access.go)\<close>

text \<open>The partial unique index allows one live invitation per team and address.\<close>

definition CreateTeamInvite :: "teamInvite \<Rightarrow> teamInvite op" where
  "CreateTeamInvite v = query ''creating team invite''
     (\<lambda>w. if \<exists>x \<in> set (w_invites w). inv_ID x = inv_ID v
             \<or> live_invite x \<and> inv_TeamID x = inv_TeamID v \<and> inv_Email x = inv_Email v then (Inl ErrConflict, w)
          else if (\<forall>t \<in> set (w_teams w). team_ID t \<noteq> inv_TeamID v)
               \<or> (case inv_InvitedBy v of None \<Rightarrow> False | Some i \<Rightarrow> \<forall>u \<in> set (w_users w). usr_ID u \<noteq> i)
               then (Inl ErrNotFound, w)
          else let row = v\<lparr>inv_AcceptedAt := None, inv_RevokedAt := None\<rparr>
               in (Inr row, w\<lparr>w_invites := w_invites w @ [row]\<rparr>))"

definition GetTeamInvite :: "string \<Rightarrow> teamInvite op" where
  "GetTeamInvite i = query ''getting team invite'' (one_row (\<lambda>v. inv_ID v = i) w_invites)"

definition ListTeamInvites :: "string \<Rightarrow> bool \<Rightarrow> teamInvite list op" where
  "ListTeamInvites teamID decided = query ''listing team invites''
     (many_rows (\<lambda>w. rev (filter (\<lambda>v. inv_TeamID v = teamID
        \<and> (decided \<or> live_invite v \<and> inv_ExpiresAt v > w_dbnow w)) (w_invites w))))"

definition revoke_invites :: "(teamInvite \<Rightarrow> bool) \<Rightarrow> world \<Rightarrow> world" where
  "revoke_invites p w = w\<lparr>w_invites := update_where (\<lambda>v. p v \<and> live_invite v)
     (inv_RevokedAt_update (\<lambda>_. Some (w_dbnow w))) (w_invites w)\<rparr>"

definition RevokeTeamInvite :: "string \<Rightarrow> string \<Rightarrow> teamInvite op" where
  "RevokeTeamInvite teamID i = query ''revoking team invite''
     (\<lambda>w. case List.find (\<lambda>v. (inv_ID v = i \<and> inv_TeamID v = teamID) \<and> live_invite v) (w_invites w) of
            None \<Rightarrow> (Inl ErrNotFound, w)
          | Some v \<Rightarrow> (Inr (v\<lparr>inv_RevokedAt := Some (w_dbnow w)\<rparr>),
                       revoke_invites (\<lambda>v. inv_ID v = i \<and> inv_TeamID v = teamID) w))"

definition RevokeLiveTeamInvitesFor :: "string \<Rightarrow> string \<Rightarrow> nat op" where
  "RevokeLiveTeamInvitesFor teamID email = query ''superseding team invites''
     (\<lambda>w. (Inr (length (filter (\<lambda>v. (inv_TeamID v = teamID \<and> inv_Email v = email) \<and> live_invite v) (w_invites w))),
           revoke_invites (\<lambda>v. inv_TeamID v = teamID \<and> inv_Email v = email) w))"

text \<open>The whole predicate is in the statement: \<open>UPDATE ... WHERE ... RETURNING *\<close>.\<close>

definition spendable :: "world \<Rightarrow> string \<Rightarrow> teamInvite \<Rightarrow> bool" where
  "spendable w i v \<longleftrightarrow> inv_ID v = i \<and> live_invite v \<and> inv_ExpiresAt v > w_dbnow w"

definition AcceptTeamInvite :: "string \<Rightarrow> teamInvite op" where
  "AcceptTeamInvite i = query ''accepting team invite''
     (\<lambda>w. case List.find (spendable w i) (w_invites w) of
            None \<Rightarrow> (Inl ErrNotFound, w)
          | Some v \<Rightarrow> (Inr (v\<lparr>inv_AcceptedAt := Some (w_dbnow w)\<rparr>),
                       w\<lparr>w_invites := update_where (spendable w i)
                           (inv_AcceptedAt_update (\<lambda>_. Some (w_dbnow w))) (w_invites w)\<rparr>))"

section \<open>Access requests in the store (store/access.go)\<close>

text \<open>
  The address and the current rank of the requester are not columns of the table: each read joins them in, the
  rank as it is now and empty for someone who left.
\<close>

definition current_role :: "world \<Rightarrow> string \<Rightarrow> string \<Rightarrow> string" where
  "current_role w teamID userID =
     (case List.find (\<lambda>m. tmb_TeamID m = teamID \<and> tmb_UserID m = userID) (w_members w) of
        None \<Rightarrow> [] | Some m \<Rightarrow> tmb_Role m)"

definition request_rows :: "(accessRequest \<Rightarrow> bool) \<Rightarrow> world \<Rightarrow> accessRequest list" where
  "request_rows p w = [r\<lparr>acr_UserEmail := usr_Email u, acr_CurrentRole := current_role w (acr_TeamID r) (acr_UserID r)\<rparr>.
     r \<leftarrow> w_requests w, p r, u \<leftarrow> w_users w, usr_ID u = acr_UserID r]"

definition GetAccessRequest :: "string \<Rightarrow> accessRequest op" where
  "GetAccessRequest i = query ''getting access request'' (one_row (\<lambda>_. True) (request_rows (\<lambda>r. acr_ID r = i)))"

definition ListAccessRequests :: "string \<Rightarrow> bool \<Rightarrow> accessRequest list op" where
  "ListAccessRequests teamID decided = query ''listing access requests''
     (many_rows (\<lambda>w. rev (request_rows (\<lambda>r. acr_TeamID r = teamID
        \<and> (decided \<or> acr_State r = AccessRequestPending)) w)))"

definition open_request :: "accessRequest \<Rightarrow> bool" where
  "open_request r \<longleftrightarrow> acr_State r = AccessRequestPending"

definition CreateAccessRequest :: "string \<Rightarrow> string \<Rightarrow> string \<Rightarrow> string \<Rightarrow> string \<Rightarrow> accessRequest op" where
  "CreateAccessRequest i teamID userID role message =
     bnd (query ''creating access request''
       (\<lambda>w. if \<exists>x \<in> set (w_requests w). acr_ID x = i
               \<or> open_request x \<and> acr_TeamID x = teamID \<and> acr_UserID x = userID then (Inl ErrConflict, w)
            else if (\<forall>t \<in> set (w_teams w). team_ID t \<noteq> teamID) \<or> (\<forall>u \<in> set (w_users w). usr_ID u \<noteq> userID)
                 then (Inl ErrNotFound, w)
            else (Inr (), w\<lparr>w_requests := w_requests w @
                   [\<lparr> acr_ID = i, acr_TeamID = teamID, acr_UserID = userID, acr_UserEmail = [], acr_CurrentRole = [],
                      acr_RequestedRole = role, acr_Message = message, acr_State = AccessRequestPending,
                      acr_DecidedBy = None, acr_DecidedByLabel = [], acr_DecisionReason = [], acr_DecidedAt = None \<rparr>]\<rparr>)))
     (\<lambda>_. GetAccessRequest i)"

definition record_decision :: "string \<Rightarrow> string \<Rightarrow> string \<Rightarrow> string \<Rightarrow> time \<Rightarrow> accessRequest \<Rightarrow> accessRequest" where
  "record_decision st decidedBy label reason now r =
     r\<lparr>acr_State := st, acr_DecidedBy := (if decidedBy = [] then None else Some decidedBy),
       acr_DecidedByLabel := label, acr_DecisionReason := reason, acr_DecidedAt := Some now\<rparr>"

definition pending_id :: "string \<Rightarrow> accessRequest \<Rightarrow> bool" where
  "pending_id i r \<longleftrightarrow> acr_ID r = i \<and> open_request r"

definition DecideAccessRequest ::
  "string \<Rightarrow> string \<Rightarrow> string \<Rightarrow> string \<Rightarrow> string \<Rightarrow> accessRequest op" where
  "DecideAccessRequest i st decidedBy label reason =
     bnd (query ''deciding access request''
       (\<lambda>w. if \<not> list_ex (pending_id i) (w_requests w) then (Inl ErrNotFound, w)
            else if decidedBy \<noteq> [] \<and> (\<forall>u \<in> set (w_users w). usr_ID u \<noteq> decidedBy)
                 then (Inl (Driver ''access_requests_decided_by_fkey''), w)
            else (Inr (), w\<lparr>w_requests := update_where (pending_id i)
                   (record_decision st decidedBy label reason (w_dbnow w)) (w_requests w)\<rparr>)))
     (\<lambda>_. GetAccessRequest i)"

definition owner_emails :: "string \<Rightarrow> world \<Rightarrow> string list" where
  "owner_emails teamID w = sort [usr_Email u. m \<leftarrow> w_members w, tmb_TeamID m = teamID \<and> tmb_Role m = RoleOwner,
     u \<leftarrow> w_users w, usr_ID u = tmb_UserID m]"

definition ListTeamOwnerEmails :: "string \<Rightarrow> string list op" where
  "ListTeamOwnerEmails teamID = query ''listing team owner emails'' (many_rows (owner_emails teamID))"

section \<open>Mail and input (access.go)\<close>

text \<open>\<open>notify.SanitizeHeader\<close>: a line break in a header would start another header.\<close>

definition SanitizeHeader :: "string \<Rightarrow> string" where
  "SanitizeHeader v = map (\<lambda>c. if c = CHR 0x0D \<or> c = CHR 0x0A then CHR '' '' else c) v"

definition send :: "access_cfg \<Rightarrow> string list \<Rightarrow> string \<Rightarrow> string \<Rightarrow> bool op" where
  "send ac to subject body =
     (if \<not> ax_mailer ac \<or> to = [] then ret False
      else bnd (attempt (bnd io (\<lambda>_. emit (Mail to (SanitizeHeader subject) body)))) (\<lambda>r. ret (\<not> isl r)))"

definition bounded :: "string \<Rightarrow> string \<Rightarrow> nat \<Rightarrow> error + string" where
  "bounded field v0 m =
     (let v = trim_space v0 in
      if rune_count v > m then Inl (AccessInvalid (field @ '' is at most '' @ dec m @ '' characters'')) else Inr v)"

definition roleOrDefault :: "string \<Rightarrow> error + string" where
  "roleOrDefault role0 =
     (let role = (if role0 = [] then RoleMember else role0) in
      if \<not> ValidRole role then Inl (AccessInvalid ''role must be member, admin, or owner'') else Inr role)"

section \<open>Invitations (invites.go)\<close>

definition inviteThrottleKey :: "string \<Rightarrow> string" where
  "inviteThrottleKey clientIP = ''invite:'' @ clientIP"

definition trim_right_slash :: "string \<Rightarrow> string" where
  "trim_right_slash s = rev (dropWhile (\<lambda>c. c = CHR ''/'') (rev s))"

definition acceptURL :: "access_cfg \<Rightarrow> string \<Rightarrow> string" where
  "acceptURL ac token = trim_right_slash (ax_baseURL ac) @ ''/invite/'' @ token"

definition em_dash :: string where "em_dash = [CHR 0xE2, CHR 0x80, CHR 0x94]"

definition newline :: string where "newline = [CHR 0x0A]"

definition inviteBody :: "string \<Rightarrow> teamInvite \<Rightarrow> string \<Rightarrow> string" where
  "inviteBody teamName v url =
     (let who = (if inv_InvitedByLabel v = [] then ''Someone'' else inv_InvitedByLabel v) in
      who @ '' invited you to join '' @ teamName @ '' on CypherPanel as '' @ inv_Role v @ ''.'' @ newline @ newline
      @ ''Open this link to accept:'' @ newline @ newline @ url @ newline @ newline
      @ ''The link works once and expires in 7 days. If you were not expecting this, ignore it ''
      @ em_dash @ '' nothing happens until you open it.'')"

text \<open>The split is at the last dot, unlike that of an address change.\<close>

definition splitToken :: "string \<Rightarrow> (string \<times> string) option" where
  "splitToken t =
     (let secret = rev (takeWhile (\<lambda>c. c \<noteq> CHR ''.'') (rev t)) in
      if length secret = length t \<or> length secret + 1 = length t \<or> secret = [] then None
      else Some (take (length t - length secret - 1) t, secret))"

definition invite_throttle :: "string \<Rightarrow> unit op" where
  "invite_throttle key = (\<lambda>w.
     case w_byInvite w of
       None \<Rightarrow> (Inr (), w)
     | Some l \<Rightarrow>
         (case Allow (w_now w) key l of (ok, l1) \<Rightarrow>
            if ok then (Inr (), w\<lparr>w_byInvite := Some l1\<rparr>)
            else
              (case RetryAfter (w_now w) key l1 of (d, l2) \<Rightarrow>
                 (case d of
                    None \<Rightarrow> (Inl (Driver ''index out of range''), w\<lparr>w_byInvite := Some l2\<rparr>)
                  | Some wait \<Rightarrow>
                      (case Refuse (w_now w) key l2 of (first, l3) \<Rightarrow>
                         (Inl (RateLimitedError wait first), w\<lparr>w_byInvite := Some l3\<rparr>))))))"

definition invite_fail :: "string \<Rightarrow> unit op" where
  "invite_fail key = modify (\<lambda>w. w\<lparr>w_byInvite := map_option (Fail (w_now w) key) (w_byInvite w)\<rparr>)"

definition invite_reset :: "string \<Rightarrow> unit op" where
  "invite_reset key = modify (\<lambda>w. w\<lparr>w_byInvite := map_option (Reset key) (w_byInvite w)\<rparr>)"

text \<open>The look at the address in \<open>Create\<close>: someone the team already has is refused.\<close>

definition not_a_member :: "string \<Rightarrow> string \<Rightarrow> unit op" where
  "not_a_member teamID email =
     bnd (attempt (GetUserByEmail email)) (\<lambda>r.
     case r of
       Inr u \<Rightarrow>
         bnd (attempt (GetTeamMember teamID (usr_ID u))) (\<lambda>m.
         case m of
           Inr _ \<Rightarrow> throw ErrAlreadyMember
         | Inl e \<Rightarrow> if \<not> errors_is e ErrNotFound then throw (Wrapped ''access: checking membership'' e) else ret ())
     | Inl e \<Rightarrow> if \<not> errors_is e ErrNotFound then throw (Wrapped (''access: looking up '' @ email) e) else ret ())"

record created_invite =
  ci_Invite :: teamInvite
  ci_AcceptURL :: string
  ci_MailSent :: bool

definition InvitesCreate ::
  "access_cfg \<Rightarrow> string \<Rightarrow> string \<Rightarrow> string \<Rightarrow> string \<Rightarrow> string \<Rightarrow> user \<Rightarrow> string \<Rightarrow> created_invite op" where
  "InvitesCreate ac newID secret teamID email0 role0 actor actorRole =
     bnd (lift (roleOrDefault role0)) (\<lambda>role.
     if \<not> CanGrantRole actorRole role then throw AccessForbidden
     else
       (case au_address (ax_auth ac) (trim_space email0) of
          None \<Rightarrow> throw (AccessInvalid (quoted email0 @ '' is not a valid email address''))
        | Some addr \<Rightarrow>
            (let email = au_lower (ax_auth ac) addr in
             bnd (GetTeam teamID) (\<lambda>team.
             bnd (not_a_member teamID email) (\<lambda>_.
             bnd (RevokeLiveTeamInvitesFor teamID email) (\<lambda>_.
             bnd now_op (\<lambda>now.
             bnd (CreateTeamInvite \<lparr> inv_ID = newID, inv_TeamID = teamID, inv_Email = email, inv_Role = role,
                    inv_TokenHash = HashToken (ax_auth ac) secret, inv_InvitedBy = Some (usr_ID actor),
                    inv_InvitedByLabel = usr_Email actor, inv_ExpiresAt = now + InviteTTL,
                    inv_AcceptedAt = None, inv_RevokedAt = None \<rparr>) (\<lambda>v.
             (let url = acceptURL ac (newID @ ''.'' @ secret) in
              bnd (send ac [inv_Email v]
                     (''You'' @ [CHR 0x27] @ ''ve been invited to '' @ team_Name team @ '' on CypherPanel'')
                     (inviteBody (team_Name team) v url)) (\<lambda>sent.
              ret \<lparr> ci_Invite = v, ci_AcceptURL = url, ci_MailSent = sent \<rparr>))))))))))"

definition InvitesList :: "string \<Rightarrow> bool \<Rightarrow> teamInvite list op" where
  "InvitesList teamID decided = ListTeamInvites teamID decided"

definition InvitesRevoke :: "string \<Rightarrow> string \<Rightarrow> teamInvite op" where
  "InvitesRevoke teamID i = RevokeTeamInvite teamID i"

definition resolve_invite :: "access_cfg \<Rightarrow> string \<Rightarrow> teamInvite op" where
  "resolve_invite ac token =
     (case splitToken token of
        None \<Rightarrow> throw ErrInvalidInvite
      | Some (i, secret) \<Rightarrow>
          bnd (attempt (GetTeamInvite i)) (\<lambda>r.
          case r of
            Inl e \<Rightarrow> if errors_is e ErrNotFound then throw ErrInvalidInvite
                     else throw (Wrapped (''access: reading invitation '' @ quoted i) e)
          | Inr v \<Rightarrow>
              if inv_TokenHash v \<noteq> HashToken (ax_auth ac) secret then throw ErrInvalidInvite
              else bnd now_op (\<lambda>now. if \<not> Acceptable v now then throw ErrInvalidInvite else ret v)))"

text \<open>The common head of \<open>Preview\<close> and \<open>Accept\<close>: only a wrong token costs the address a strike.\<close>

definition open_invite :: "access_cfg \<Rightarrow> string \<Rightarrow> string \<Rightarrow> (teamInvite \<times> team) op" where
  "open_invite ac token clientIP =
     (let key = inviteThrottleKey clientIP in
      bnd (invite_throttle key) (\<lambda>_.
      bnd (attempt (resolve_invite ac token)) (\<lambda>r.
      case r of
        Inl e \<Rightarrow> if errors_is e ErrInvalidInvite then bnd (invite_fail key) (\<lambda>_. throw e) else throw e
      | Inr v \<Rightarrow>
          bnd (invite_reset key) (\<lambda>_.
          bnd (attempt (GetTeam (inv_TeamID v))) (\<lambda>t.
          case t of
            Inl e \<Rightarrow> if errors_is e ErrNotFound then throw ErrInvalidInvite else throw e
          | Inr team \<Rightarrow> ret (v, team))))))"

record preview =
  pv_TeamName :: string
  pv_InviterLabel :: string
  pv_Email :: string
  pv_Role :: string
  pv_ExpiresAt :: time
  pv_AccountExists :: bool

definition Preview :: "access_cfg \<Rightarrow> string \<Rightarrow> string \<Rightarrow> preview op" where
  "Preview ac token clientIP =
     bnd (open_invite ac token clientIP) (\<lambda>(v, team).
     bnd (attempt (GetUserByEmail (inv_Email v))) (\<lambda>r.
     bnd (case r of
            Inr _ \<Rightarrow> ret True
          | Inl e \<Rightarrow> if \<not> errors_is e ErrNotFound then throw (Wrapped (''access: looking up '' @ inv_Email v) e)
                     else ret False) (\<lambda>known.
     ret \<lparr> pv_TeamName = team_Name team, pv_InviterLabel = inv_InvitedByLabel v, pv_Email = inv_Email v,
           pv_Role = inv_Role v, pv_ExpiresAt = inv_ExpiresAt v, pv_AccountExists = known \<rparr>)))"

record acceptInput =
  ai_Password :: string
  ai_DisplayName :: string
  ai_TOTPCode :: string

record accepted =
  ac_Token :: string
  ac_User :: user
  ac_Invite :: teamInvite
  ac_TeamName :: string
  ac_Created :: bool

definition spend_invite :: "string \<Rightarrow> teamInvite op" where
  "spend_invite i =
     bnd (attempt (AcceptTeamInvite i)) (\<lambda>r.
     case r of Inl e \<Rightarrow> if errors_is e ErrNotFound then throw ErrInvalidInvite else throw e | Inr v \<Rightarrow> ret v)"

definition announceAccepted :: "access_cfg \<Rightarrow> teamInvite \<Rightarrow> user \<Rightarrow> unit op" where
  "announceAccepted ac v u =
     (case inv_InvitedBy v of
        None \<Rightarrow> ret ()
      | Some inviter \<Rightarrow>
          if \<not> ax_inbox ac then ret ()
          else
            bnd (attempt (GetTeam (inv_TeamID v))) (\<lambda>t.
            case t of
              Inl _ \<Rightarrow> ret ()
            | Inr team \<Rightarrow>
                bnd (attempt (bnd io (\<lambda>_. emit (InviteAcceptedItem
                  \<lparr> in_TeamID = inv_TeamID v, in_TeamName = team_Name team, in_InviteID = inv_ID v,
                    in_InviterID = inviter, in_Email = usr_Email u, in_Role = inv_Role v \<rparr>)))) (\<lambda>_. ret ())))"

definition grant_invite :: "access_cfg \<Rightarrow> teamInvite \<Rightarrow> user \<Rightarrow> unit op" where
  "grant_invite ac v u =
     bnd (mapE (Wrapped (''access: adding '' @ usr_ID u @ '' to team '' @ inv_TeamID v))
            (UpsertTeamMember (inv_TeamID v) (usr_ID u) (inv_Role v))) (\<lambda>_.
     announceAccepted ac v u)"

text \<open>The check between sign-in and spending: someone added by hand in the meantime is refused, and the link dies.\<close>

definition refuse_member :: "teamInvite \<Rightarrow> user \<Rightarrow> unit op" where
  "refuse_member v u =
     bnd (attempt (GetTeamMember (inv_TeamID v) (usr_ID u))) (\<lambda>m.
     case m of
       Inr _ \<Rightarrow> bnd (attempt (RevokeTeamInvite (inv_TeamID v) (inv_ID v))) (\<lambda>_. throw ErrAlreadyMember)
     | Inl e \<Rightarrow> if \<not> errors_is e ErrNotFound then throw (Wrapped ''access: checking membership'' e) else ret ())"

definition acceptAsExistingUser ::
  "access_cfg \<Rightarrow> string \<Rightarrow> string \<Rightarrow> teamInvite \<Rightarrow> team \<Rightarrow> acceptInput \<Rightarrow> string \<Rightarrow> accepted op" where
  "acceptAsExistingUser ac sessionID rawToken v team inp clientIP =
     bnd (Login (ax_auth ac) sessionID rawToken (inv_Email v) (ai_Password inp) (ai_TOTPCode inp) clientIP)
       (\<lambda>(token, u).
     bnd (refuse_member v u) (\<lambda>_.
     bnd (spend_invite (inv_ID v)) (\<lambda>spent.
     bnd (grant_invite ac spent u) (\<lambda>_.
     ret \<lparr> ac_Token = token, ac_User = u, ac_Invite = spent, ac_TeamName = team_Name team, ac_Created = False \<rparr>))))"

text \<open>A display name the profile rejects does not cost the account.\<close>

definition name_account :: "access_cfg \<Rightarrow> user \<Rightarrow> string \<Rightarrow> user op" where
  "name_account ac u displayName =
     (let name = trim_space displayName in
      if name = [] then ret u
      else bnd (attempt (UpdateProfile (ax_auth ac) (usr_ID u) name [])) (\<lambda>r.
           case r of Inl _ \<Rightarrow> ret u | Inr u' \<Rightarrow> ret u'))"

definition acceptAsNewUser ::
  "access_cfg \<Rightarrow> string \<Rightarrow> string \<Rightarrow> string \<Rightarrow> teamInvite \<Rightarrow> team \<Rightarrow> acceptInput \<Rightarrow> accepted op" where
  "acceptAsNewUser ac userID sessionID rawToken v team inp =
     (if length (ai_Password inp) < minPasswordLen
      then throw (AccessInvalid (''password must be at least '' @ dec minPasswordLen @ '' characters''))
      else
        bnd (mapE (Wrapped ''access: hashing password'') (lift (HashPassword (ax_auth ac) (ai_Password inp)))) (\<lambda>h.
        bnd (spend_invite (inv_ID v)) (\<lambda>spent.
        bnd (mapE (Wrapped (''access: creating account for '' @ inv_Email v))
               (StoreCreateUser userID (inv_Email v) h RoleMember)) (\<lambda>u0.
        bnd (name_account ac u0 (ai_DisplayName inp)) (\<lambda>u.
        bnd (grant_invite ac spent u) (\<lambda>_.
        bnd (mapE (Wrapped ''access: starting session'')
               (StartSession (ax_auth ac) sessionID rawToken (usr_ID u))) (\<lambda>token.
        ret \<lparr> ac_Token = token, ac_User = u, ac_Invite = spent, ac_TeamName = team_Name team, ac_Created = True \<rparr>)))))))"

definition Accept ::
  "access_cfg \<Rightarrow> string \<Rightarrow> string \<Rightarrow> string \<Rightarrow> string \<Rightarrow> acceptInput \<Rightarrow> string \<Rightarrow> accepted op" where
  "Accept ac userID sessionID rawToken token inp clientIP =
     bnd (open_invite ac token clientIP) (\<lambda>(v, team).
     bnd (attempt (GetUserByEmail (inv_Email v))) (\<lambda>r.
     case r of
       Inr _ \<Rightarrow> acceptAsExistingUser ac sessionID rawToken v team inp clientIP
     | Inl e \<Rightarrow>
         if errors_is e ErrNotFound then acceptAsNewUser ac userID sessionID rawToken v team inp
         else throw (Wrapped (''access: looking up '' @ inv_Email v) e)))"

section \<open>Access requests (requests.go)\<close>

definition announce_request :: "access_cfg \<Rightarrow> accessRequest \<Rightarrow> string \<Rightarrow> string \<Rightarrow> (accessNotice \<Rightarrow> event) \<Rightarrow> unit op" where
  "announce_request ac req teamName actorEmail item =
     (if \<not> ax_inbox ac then ret ()
      else
        bnd (attempt (bnd io (\<lambda>_. emit (item
          \<lparr> an_TeamID = acr_TeamID req, an_TeamName = teamName, an_RequestID = acr_ID req, an_RequesterID = acr_UserID req,
            an_RequesterEmail = acr_UserEmail req, an_CurrentRole = acr_CurrentRole req,
            an_RequestedRole = acr_RequestedRole req, an_Message = acr_Message req, an_ActorEmail = actorEmail,
            an_Reason = acr_DecisionReason req \<rparr>)))) (\<lambda>_. ret ()))"

definition arrow :: string where "arrow = [CHR 0xE2, CHR 0x86, CHR 0x92]"

definition requestBody :: "accessRequest \<Rightarrow> string \<Rightarrow> string" where
  "requestBody req teamName =
     (let from = (if acr_CurrentRole req = [] then ''no role'' else acr_CurrentRole req) in
      acr_UserEmail req @ '' asks to move from '' @ from @ '' to '' @ acr_RequestedRole req @ '' on '' @ teamName @ ''.''
      @ (if acr_Message req \<noteq> [] then newline @ newline @ acr_Message req else [])
      @ newline @ newline @ ''Answer it in the panel under Settings '' @ arrow @ '' Teams.'')"

definition mailOwners :: "access_cfg \<Rightarrow> accessRequest \<Rightarrow> string \<Rightarrow> unit op" where
  "mailOwners ac req teamName =
     (if \<not> ax_mailer ac then ret ()
      else
        bnd (attempt (ListTeamOwnerEmails (acr_TeamID req))) (\<lambda>r.
        case r of
          Inl _ \<Rightarrow> ret ()
        | Inr owners \<Rightarrow>
            bnd (send ac owners (''Access request for '' @ teamName) (requestBody req teamName)) (\<lambda>_. ret ())))"

definition RequestsCreate ::
  "access_cfg \<Rightarrow> string \<Rightarrow> string \<Rightarrow> user \<Rightarrow> string \<Rightarrow> string \<Rightarrow> string \<Rightarrow> accessRequest op" where
  "RequestsCreate ac newID teamID actor actorRole requestedRole message0 =
     bnd (lift (roleOrDefault requestedRole)) (\<lambda>role.
     if RoleRank role \<le> RoleRank actorRole
     then throw (AccessInvalid ''you already hold that role or higher on this team'')
     else
       bnd (lift (bounded ''a message'' message0 AccessMessageMax)) (\<lambda>message.
       bnd (GetTeam teamID) (\<lambda>team.
       bnd (attempt (CreateAccessRequest newID teamID (usr_ID actor) role message)) (\<lambda>r.
       case r of
         Inl e \<Rightarrow> if errors_is e ErrConflict then throw ErrRequestOpen else throw e
       | Inr req \<Rightarrow>
           bnd (announce_request ac req (team_Name team) [] AccessRequestedItem) (\<lambda>_.
           bnd (mailOwners ac req (team_Name team)) (\<lambda>_. ret req))))))"

definition RequestsList :: "string \<Rightarrow> bool \<Rightarrow> accessRequest list op" where
  "RequestsList teamID decided = ListAccessRequests teamID decided"

definition RequestsGet :: "string \<Rightarrow> accessRequest op" where
  "RequestsGet i = GetAccessRequest i"

definition pending_request :: "string \<Rightarrow> accessRequest op" where
  "pending_request i =
     bnd (GetAccessRequest i) (\<lambda>req.
     if acr_State req \<noteq> AccessRequestPending then throw ErrDecided else ret req)"

definition decide_request :: "access_cfg \<Rightarrow> accessRequest \<Rightarrow> string \<Rightarrow> user \<Rightarrow> string \<Rightarrow> accessRequest op" where
  "decide_request ac req st actor reason =
     bnd (attempt (DecideAccessRequest (acr_ID req) st (usr_ID actor) (usr_Email actor) reason)) (\<lambda>r.
     case r of
       Inl e \<Rightarrow> if errors_is e ErrNotFound then throw ErrDecided else throw e
     | Inr decided \<Rightarrow>
         bnd (attempt (GetTeam (acr_TeamID decided))) (\<lambda>t.
         bnd (announce_request ac decided (case t of Inl _ \<Rightarrow> [] | Inr team \<Rightarrow> team_Name team) (usr_Email actor)
                (if st = AccessRequestGranted then AccessGrantedItem else AccessDeniedItem)) (\<lambda>_.
         ret decided)))"

definition Grant :: "access_cfg \<Rightarrow> string \<Rightarrow> user \<Rightarrow> string \<Rightarrow> accessRequest op" where
  "Grant ac i actor actorRole =
     bnd (pending_request i) (\<lambda>req.
     if acr_CurrentRole req = [] then throw ErrNotMember
     else
       bnd (ChangeMemberRole (acr_TeamID req) (acr_UserID req) (acr_RequestedRole req) actorRole) (\<lambda>_.
       decide_request ac req AccessRequestGranted actor []))"

definition Deny :: "access_cfg \<Rightarrow> string \<Rightarrow> string \<Rightarrow> user \<Rightarrow> accessRequest op" where
  "Deny ac i reason0 actor =
     bnd (lift (bounded ''a reason'' reason0 AccessMessageMax)) (\<lambda>reason.
     bnd (pending_request i) (\<lambda>req.
     decide_request ac req AccessRequestDenied actor reason))"

end
