(* ===== verification/Access_Inv.thy ===== *)
theory Access_Inv
  imports Access
begin

text \<open>
  What every operation on teams, invitations and requests keeps. The tables a ledger consists of are named
  once; \<open>access_ledger\<close> is the contract of the statements that write them, under which each
  service operation, and so each run of any number of them in any order, keeps a predicate. It is
  interpreted on the constraints of the schema, on an invitation that is no longer live, and on the
  credentials of the accounts.
\<close>

section \<open>Operations beside the ledger\<close>

definition books :: "world \<Rightarrow> user list \<times> teamInvite list \<times> accessRequest list \<times> teamMember list \<times> team list" where
  "books w = (w_users w, w_invites w, w_requests w, w_members w, w_teams w)"

definition quiet :: "'a op \<Rightarrow> bool" where
  "quiet m \<longleftrightarrow> (\<forall>v. keeps (\<lambda>w. books w = v) m)"

named_theorems qt \<open>operations that write no table of the ledger\<close>

lemma quietI: "(\<And>w. books (snd (m w)) = books w) \<Longrightarrow> quiet m"
  by (simp add: quiet_def keeps_def)

lemma quietD: "quiet m \<Longrightarrow> books (snd (m w)) = books w"
  unfolding quiet_def keeps_def by blast

lemma books_bump [simp]: "books (bump w) = books w" "books (at_rest w) = books w"
  by (simp_all add: books_def bump_def at_rest_def)

lemma reads_quiet: "reads m \<Longrightarrow> quiet m"
  by (rule quietI) (metis readsD books_bump(2))

lemma quiet_basic [qt]:
  "quiet (ret x)" "quiet (throw e)" "quiet (gets f)" "quiet io" "quiet (emit ev)" "quiet now_op"
  by (simp_all add: quiet_def keeps_def io_run emit_def now_op_def books_def bump_def)

lemma quiet_bnd [qt]: "quiet m \<Longrightarrow> (\<And>x. quiet (f x)) \<Longrightarrow> quiet (bnd m f)"
  by (simp add: quiet_def keeps_bnd)

lemma quiet_attempt [qt]: "quiet m \<Longrightarrow> quiet (attempt m)"
  by (simp add: quiet_def keeps_attempt)

lemma quiet_mapE [qt]: "quiet m \<Longrightarrow> quiet (mapE h m)"
  by (simp add: quiet_def keeps_mapE)

lemma quiet_if [qt]: "(b \<Longrightarrow> quiet m) \<Longrightarrow> (\<not> b \<Longrightarrow> quiet n) \<Longrightarrow> quiet (if b then m else n)"
  by simp

lemma quiet_case [qt]:
  "(x = None \<Longrightarrow> quiet m) \<Longrightarrow> (\<And>y. x = Some y \<Longrightarrow> quiet (f y)) \<Longrightarrow> quiet (case x of None \<Rightarrow> m | Some y \<Rightarrow> f y)"
  "(\<And>e. s = Inl e \<Longrightarrow> quiet (g e)) \<Longrightarrow> (\<And>y. s = Inr y \<Longrightarrow> quiet (h y)) \<Longrightarrow> quiet (case s of Inl e \<Rightarrow> g e | Inr y \<Rightarrow> h y)"
  "(\<And>a b. p = (a, b) \<Longrightarrow> quiet (k a b)) \<Longrightarrow> quiet (case p of (a, b) \<Rightarrow> k a b)"
  by (simp_all split: option.split sum.split prod.split)

lemma quiet_query [qt]: "quiet m \<Longrightarrow> quiet (query n m)"
  unfolding query_def by (intro quiet_mapE quiet_bnd quiet_basic)

lemma quiet_lift [qt]: "quiet (lift r)"
  by (cases r) (simp_all add: lift_def quiet_basic)

lemma quiet_auth [qt]:
  "quiet (CreateSession i u h t)" "quiet (delete_sessions n p)" "quiet (ConsumeRecoveryCode u h)"
  "quiet (fail_op a b)" "quiet (reset_op a b)" "quiet (throttle_op a b)"
  "quiet (DeleteInboxItemsForTeamMember tm u)"
  "quiet (invite_throttle k)" "quiet (invite_fail k)" "quiet (invite_reset k)"
proof -
  show "quiet (CreateSession i u h t)" unfolding CreateSession_def
    by (rule quiet_query, rule quietI) (simp add: books_def)
  show "quiet (delete_sessions n p)" unfolding delete_sessions_def
    by (rule quiet_query, rule quietI) (simp add: books_def)
  show "quiet (ConsumeRecoveryCode u h)" unfolding ConsumeRecoveryCode_def
    by (rule quiet_query, rule quietI) (simp add: books_def)
  show "quiet (DeleteInboxItemsForTeamMember tm u)" unfolding DeleteInboxItemsForTeamMember_def
    by (rule quiet_query, rule quietI) (simp add: books_def)
  show "quiet (fail_op a b)" "quiet (reset_op a b)" "quiet (invite_fail k)" "quiet (invite_reset k)"
    by (rule quietI, simp add: fail_op_def reset_op_def invite_fail_def invite_reset_def books_def)+
  show "quiet (throttle_op a b)"
    by (rule quietI) (simp add: throttle_op_def books_def split: prod.split)
  show "quiet (invite_throttle k)"
    by (rule quietI) (simp add: invite_throttle_def books_def split: option.split prod.split)
qed

lemma reads_access [rd]:
  "reads (GetTeamInvite i)" "reads (ListTeamInvites t b)" "reads (GetAccessRequest i)" "reads (ListAccessRequests t b)"
  "reads (ListTeamOwnerEmails t)"
  unfolding GetTeamInvite_def ListTeamInvites_def GetAccessRequest_def ListAccessRequests_def ListTeamOwnerEmails_def
  by (intro rd)+

lemmas quiet_reads [qt] = reads_teams [THEN reads_quiet] reads_roles [THEN reads_quiet] reads_access [THEN reads_quiet]

lemma quiet_services [qt]:
  "quiet (GetTOTPSecret u)" "quiet (openTOTPSecret c u)" "quiet (validate c s x)"
  "quiet (StartSession c i raw u)" "quiet (send ac to s b)" "quiet (announceAccepted ac v usr)"
  "quiet (announce_request ac r n a item)" "quiet (mailOwners ac r n)" "quiet (not_a_member t em)"
  "quiet (resolve_invite ac tok)" "quiet (pending_request i)" "quiet (Logout c raw)"
  unfolding openTOTPSecret_def GetTOTPSecret_def validate_def StartSession_def send_def announceAccepted_def
    announce_request_def mailOwners_def not_a_member_def resolve_invite_def pending_request_def Logout_def DeleteSession_def
  by (intro qt reads_quiet [OF reads_one_row])+

lemma quiet_sign_in [qt]: "quiet (checkSecondFactor c u x)" "quiet (second_factor c a b usr x)"
    "quiet (Login c i raw em p x k)" "quiet (open_invite ac tok ip)" "quiet (Preview ac tok ip)"
  unfolding checkSecondFactor_def second_factor_def Login_def open_invite_def Preview_def Let_def
  by (intro qt)+

section \<open>The contract of the statements\<close>

locale access_ledger =
  fixes J :: "world \<Rightarrow> bool"
  assumes same: "books w' = books w \<Longrightarrow> J w' = J w"
    and roles: "J w \<Longrightarrow> v \<in> set (w_invites w) \<Longrightarrow> ValidRole (inv_Role v)"
    and inviting: "ValidRole (inv_Role v) \<Longrightarrow> keeps J (CreateTeamInvite v)"
    and accepting: "keeps J (AcceptTeamInvite i)"
    and revoking: "keeps J (RevokeTeamInvite t i)" "keeps J (RevokeLiveTeamInvitesFor t em)"
      "keeps J (RevokeLiveTeamInvitesBy t u)"
    and asking: "ValidRole r \<Longrightarrow> keeps J (CreateAccessRequest i t u r msg)"
    and deciding: "keeps J (DecideAccessRequest i st d lbl reason)"
    and joining: "ValidRole r \<Longrightarrow> keeps J (UpsertTeamMember t u r)"
    and leaving: "keeps J (DeleteTeamMember t u)"
    and enrolling: "keeps J (StoreCreateUser i em h r)"
    and naming: "keeps J (UpdateUserProfile i d z)"
begin

lemma beside: "quiet m \<Longrightarrow> keeps J m"
  by (rule keepsI) (simp add: same [OF quietD])

lemma profile: "keeps J (UpdateProfile c i d z)"
  unfolding UpdateProfile_def Let_def by (intro keeps_if keeps_throw naming)

lemma naming_account: "keeps J (name_account ac u d)"
  unfolding name_account_def Let_def by (intro keeps_if keeps_ret keeps_bnd keeps_attempt profile keeps_case_sum)

lemma spent_role:
  assumes "J w" "AcceptTeamInvite i w = (Inr v, w')"
  shows "ValidRole (inv_Role v)"
proof -
  obtain v0 where "List.find (spendable (bump w) i) (w_invites w) = Some v0" "inv_Role v = inv_Role v0"
    using assms(2) by (auto simp: AcceptTeamInvite_def query_Inr_iff split: option.splits)
  with find_Some_set [OF this(1)] roles [OF assms(1)] show ?thesis by simp
qed

lemma spend: "keeps J (spend_invite i)" "J w \<Longrightarrow> spend_invite i w = (Inr v, w') \<Longrightarrow> ValidRole (inv_Role v)"
proof -
  show "keeps J (spend_invite i)"
    unfolding spend_invite_def by (intro keeps_bnd keeps_attempt accepting keeps_case_sum keeps_if keeps_throw keeps_ret)
  assume "J w" "spend_invite i w = (Inr v, w')"
  moreover from this(2) obtain w1 where "AcceptTeamInvite i w = (Inr v, w1)"
    by (auto simp: spend_invite_def runs split: prod.splits sum.splits if_splits)
  ultimately show "ValidRole (inv_Role v)" using spent_role by blast
qed

lemma granting: "ValidRole (inv_Role v) \<Longrightarrow> keeps J (grant_invite ac v u)"
  unfolding grant_invite_def by (intro keeps_bnd keeps_mapE joining beside qt)

lemma existing: "keeps J (acceptAsExistingUser ac sid raw v team inp ip)"
proof -
  have refuse: "keeps J (refuse_member v u)" for u
    unfolding refuse_member_def
    by (intro keeps_bnd keeps_attempt keeps_case_sum keeps_if keeps_throw keeps_ret revoking beside qt)
  show ?thesis
    unfolding acceptAsExistingUser_def
    by (intro keeps_bnd [OF beside [OF quiet_sign_in(3)]] keeps_case_prod keeps_bnd [OF refuse]
        keeps_bnd_run [OF spend(1)] keeps_bnd [OF granting] keeps_ret spend(2))
qed

lemma newcomer: "keeps J (acceptAsNewUser ac uid sid raw v team inp)"
  unfolding acceptAsNewUser_def
  by (intro keeps_if keeps_throw keeps_bnd [OF keeps_mapE [OF beside [OF quiet_lift]]] keeps_bnd_run [OF spend(1)]
      keeps_bnd [OF keeps_mapE [OF enrolling]] keeps_bnd [OF naming_account] keeps_bnd [OF granting]
      keeps_bnd [OF keeps_mapE [OF beside [OF quiet_services(4)]]] keeps_ret spend(2))

lemma Accept: "keeps J (Accept ac uid sid raw tok inp ip)"
  unfolding Accept_def
  by (intro keeps_bnd [OF beside [OF quiet_sign_in(4)]] keeps_case_prod keeps_bnd [OF keeps_attempt [OF beside [OF quiet_reads(9)]]]
      keeps_case_sum keeps_if existing newcomer keeps_throw)

lemma good_role: "roleOrDefault r = Inr role \<Longrightarrow> ValidRole role"
  by (auto simp: roleOrDefault_def Let_def split: if_splits)

lemma lift_Inr: "lift r w = (Inr x, w') \<Longrightarrow> r = Inr x"
  by (cases r) (simp_all add: lift_def)

lemma Create: "keeps J (InvitesCreate ac i s t em r a ar)"
  unfolding InvitesCreate_def Let_def
  by (intro keeps_bnd_run [OF beside [OF quiet_lift]] keeps_if keeps_throw keeps_case_option
      keeps_bnd [OF beside [OF quiet_reads(1)]] keeps_bnd [OF beside [OF quiet_services(9)]]
      keeps_bnd [OF revoking(2)] keeps_bnd [OF beside [OF quiet_basic(6)]] keeps_bnd [OF inviting]
      keeps_bnd [OF beside [OF quiet_services(5)]] keeps_ret)
    (auto dest: lift_Inr good_role)

lemma Request: "keeps J (RequestsCreate ac i t a ar r msg)"
  unfolding RequestsCreate_def
  by (intro keeps_bnd_run [OF beside [OF quiet_lift]] keeps_if keeps_throw keeps_bnd [OF beside [OF quiet_lift]]
      keeps_bnd [OF beside [OF quiet_reads(1)]] keeps_bnd [OF keeps_attempt [OF asking]] keeps_case_sum
      keeps_bnd [OF beside [OF quiet_services(7)]] keeps_bnd [OF beside [OF quiet_services(8)]] keeps_ret)
    (auto dest: lift_Inr good_role)

lemma decide: "keeps J (decide_request ac req st a reason)"
  unfolding decide_request_def
  by (intro keeps_bnd [OF keeps_attempt [OF deciding]] keeps_case_sum keeps_if keeps_throw keeps_bnd keeps_ret keeps_attempt
      beside qt)

lemma change_role: "keeps J (ChangeMemberRole t u r a)"
proof -
  have "ValidRole r" if "change_checks t u r a w = (Inr x, w')" for w x w'
    using that by (auto simp: change_checks_def split: if_splits)
  then show ?thesis
    unfolding ChangeMemberRole_def by (intro keeps_bnd_run [OF beside [OF reads_quiet [OF reads_roles(7)]]] joining)
qed

lemma add_member: "keeps J (AddMember t em r a)"
proof -
  have add: "keeps J (add_account t r u)" if "ValidRole r" for u
    unfolding add_account_def by (intro keeps_bnd keeps_attempt keeps_case_sum keeps_throw keeps_ret joining that beside qt)
  then show ?thesis
    unfolding AddMember_def by (intro keeps_if keeps_throw keeps_bnd keeps_attempt keeps_case_sum add beside qt) auto
qed

lemma remove_member: "keeps J (RemoveMember t u a)"
  unfolding RemoveMember_def clear_traces_def
  by (intro keeps_bnd keeps_if keeps_mapE leaving revoking keeps_ret beside qt)

lemma decisions: "keeps J (Grant ac i a ar)" "keeps J (Deny ac i reason a)" "keeps J (InvitesRevoke t i)"
  unfolding Grant_def Deny_def InvitesRevoke_def
  by (intro keeps_bnd keeps_if keeps_throw change_role decide beside qt revoking)+

end

section \<open>Runs\<close>

text \<open>
  One operation of anybody, with any arguments and whatever it answers; or the clocks move and the database
  starts or stops failing.
\<close>

inductive access_step :: "access_cfg \<Rightarrow> world \<Rightarrow> world \<Rightarrow> bool" for ac :: access_cfg where
  inviting: "access_step ac w (snd (InvitesCreate ac i secret t em role actor actorRole w))"
| withdrawing: "access_step ac w (snd (InvitesRevoke t i w))"
| previewing: "access_step ac w (snd (Preview ac token ip w))"
| accepting: "access_step ac w (snd (Accept ac uid sid raw token inp ip w))"
| requesting: "access_step ac w (snd (RequestsCreate ac i t actor actorRole role msg w))"
| granting: "access_step ac w (snd (Grant ac i actor actorRole w))"
| denying: "access_step ac w (snd (Deny ac i reason actor w))"
| adding: "access_step ac w (snd (AddMember t em role actorRole w))"
| ranking: "access_step ac w (snd (ChangeMemberRole t u role actorRole w))"
| removing: "access_step ac w (snd (RemoveMember t u actorRole w))"
| signing_in: "access_step ac w (snd (Login (ax_auth ac) sid raw em password code key w))"
| signing_out: "access_step ac w (snd (Logout (ax_auth ac) raw w))"
| weather: "access_step ac w (w\<lparr>w_now := now, w_dbnow := dbnow, w_faults := faults\<rparr>)"

context access_ledger
begin

lemma step: "access_step ac w w' \<Longrightarrow> J w \<Longrightarrow> J w'"
proof (induction rule: access_step.induct)
  case (weather w faults dbnow now)
  have "books (w\<lparr>w_now := now, w_dbnow := dbnow, w_faults := faults\<rparr>) = books w" by (simp add: books_def)
  with weather same show ?case by blast
qed (simp_all add: keepsD [OF Create] keepsD [OF decisions(3)] keepsD [OF beside [OF quiet_sign_in(5)]] keepsD [OF Accept]
    keepsD [OF Request] keepsD [OF decisions(1)] keepsD [OF decisions(2)] keepsD [OF add_member] keepsD [OF change_role]
    keepsD [OF remove_member] keepsD [OF beside [OF quiet_sign_in(3)]] keepsD [OF beside [OF quiet_services(12)]])

lemma steps: "(access_step ac)\<^sup>*\<^sup>* w w' \<Longrightarrow> J w \<Longrightarrow> J w'"
  by (induction rule: rtranclp_induct) (auto intro: step)

end

section \<open>The constraints of the schema\<close>

definition invite_key :: "teamInvite \<Rightarrow> string \<times> string" where
  "invite_key v = (inv_TeamID v, inv_Email v)"

definition request_key :: "accessRequest \<Rightarrow> string \<times> string" where
  "request_key r = (acr_TeamID r, acr_UserID r)"

text \<open>Keys are unique; one live invitation per team and address, one open request per team and person; ranks are ranks.\<close>

definition invites_ok :: "teamInvite list \<Rightarrow> bool" where
  "invites_ok vs \<longleftrightarrow> distinct (map inv_ID vs) \<and> distinct (map invite_key (filter live_invite vs))
     \<and> list_all (\<lambda>v. ValidRole (inv_Role v)) vs"

definition requests_ok :: "accessRequest list \<Rightarrow> bool" where
  "requests_ok rs \<longleftrightarrow> distinct (map acr_ID rs) \<and> distinct (map request_key (filter open_request rs))
     \<and> list_all (\<lambda>r. ValidRole (acr_RequestedRole r)) rs"

definition members_ok :: "teamMember list \<Rightarrow> bool" where
  "members_ok ms \<longleftrightarrow> distinct (map member_key ms) \<and> list_all (\<lambda>m. ValidRole (tmb_Role m)) ms"

definition users_ok :: "user list \<Rightarrow> bool" where
  "users_ok us \<longleftrightarrow> distinct (map usr_ID us) \<and> distinct (map usr_Email us)"

definition schema :: "world \<Rightarrow> bool" where
  "schema w \<longleftrightarrow> invites_ok (w_invites w) \<and> requests_ok (w_requests w) \<and> members_ok (w_members w) \<and> users_ok (w_users w)"

lemma distinct_map_filter_update:
  assumes "\<And>x. p x \<Longrightarrow> \<not> q (f x)" and "distinct (map k (filter q xs))"
  shows "distinct (map k (filter q (update_where p f xs)))"
proof -
  have "filter q (update_where p f xs) = filter (\<lambda>x. \<not> p x) (filter q xs)"
    using assms(1) by (induction xs) auto
  then show ?thesis using distinct_map_filter [OF assms(2)] by simp
qed

lemma list_all_update_where:
  "(\<And>x. P x \<Longrightarrow> P (f x)) \<Longrightarrow> list_all P xs \<Longrightarrow> list_all P (update_where p f xs)"
  by (induction xs) auto

lemma invites_ok_update:
  assumes "invites_ok vs" "\<And>v. \<not> live_invite (f v)" "\<And>v. inv_ID (f v) = inv_ID v" "\<And>v. inv_Role (f v) = inv_Role v"
  shows "invites_ok (update_where p f vs)"
  using assms unfolding invites_ok_def
  by (simp add: map_update_where distinct_map_filter_update list_all_update_where)

lemma requests_ok_update:
  assumes "requests_ok rs" "\<And>r. p r \<Longrightarrow> open_request r" "\<And>r. acr_ID (f r) = acr_ID r"
    "\<And>r. acr_RequestedRole (f r) = acr_RequestedRole r" "\<And>r. request_key (f r) = request_key r"
  shows "requests_ok (update_where p f rs)"
proof -
  have "distinct (map request_key (filter open_request (update_where p f rs)))" if "distinct (map request_key (filter open_request rs))"
  proof -
    have "map request_key (filter open_request (update_where p f rs))
        = map request_key (filter (\<lambda>r. if p r then open_request (f r) else open_request r) rs)"
      using assms(5) by (induction rs) auto
    moreover have "filter (\<lambda>r. if p r then open_request (f r) else open_request r) rs
        = filter (\<lambda>r. p r \<longrightarrow> open_request (f r)) (filter open_request rs)"
      using assms(2) by (induction rs) auto
    ultimately show ?thesis using distinct_map_filter [OF that] by simp
  qed
  then show ?thesis
    using assms unfolding requests_ok_def by (simp add: map_update_where list_all_update_where)
qed

lemma users_ok_update:
  assumes "users_ok us" "\<And>u. usr_ID (f u) = usr_ID u" "\<And>u. usr_Email (f u) = usr_Email u"
  shows "users_ok (update_where p f us)"
  using assms by (simp add: users_ok_def map_update_where)

lemma members_ok_upserted: "members_ok ms \<Longrightarrow> ValidRole r \<Longrightarrow> members_ok (upserted t u r ms)"
  using upserted_keys [of ms t u r] by (auto simp: members_ok_def upserted_def list_all_update_where)

lemma members_ok_filter: "members_ok ms \<Longrightarrow> members_ok (filter p ms)"
  by (auto simp: members_ok_def distinct_map_filter list_all_iff)

lemma keeps_query:
  assumes "\<And>w. J (bump w) = J w" "\<And>w. J w \<Longrightarrow> J (snd (m w))"
  shows "keeps J (query n m)"
proof (rule keepsI)
  fix w assume "J w"
  with assms show "J (snd (query n m w))"
    by (cases rule: query_cases [of n m w]) (metis snd_conv)+
qed

lemma keeps_conj: "keeps I m \<Longrightarrow> keeps K m \<Longrightarrow> keeps (\<lambda>w. I w \<and> K w) m"
  by (simp add: keeps_def)

lemma keeps_upsert:
  assumes "\<And>w w'. books w' = books w \<Longrightarrow> J w' = J w" "\<And>w. J w \<Longrightarrow> J (w\<lparr>w_members := upserted t u r (w_members w)\<rparr>)"
  shows "keeps J (UpsertTeamMember t u r)"
proof (rule keepsI)
  fix w assume J: "J w"
  obtain x w' where run: "UpsertTeamMember t u r w = (x, w')" by fastforce
  have "books (at_rest w') = books (at_rest w) \<or> books (at_rest w') = books (at_rest (w\<lparr>w_members := upserted t u r (w_members w)\<rparr>))"
    using arg_cong [OF upsert_run [OF run], of books] by (cases x) simp_all
  with assms J show "J (snd (UpsertTeamMember t u r w))" unfolding run by (metis books_bump(2) snd_conv)
qed

lemma not_live [simp]: "\<not> live_invite (inv_RevokedAt_update (\<lambda>_. Some t) v)" "\<not> live_invite (inv_AcceptedAt_update (\<lambda>_. Some t) v)"
  by (simp_all add: live_invite_def)

lemma schema_same: "books w' = books w \<Longrightarrow> schema w' = schema w"
  by (simp add: books_def schema_def)

lemma schema_bump [simp]: "schema (bump w) = schema w"
  by (rule schema_same) simp

lemma invites_ok_revoked: "schema w \<Longrightarrow> schema (revoke_invites p w)"
  by (auto simp: schema_def revoke_invites_def intro!: invites_ok_update)

lemma schema_invites:
  "ValidRole (inv_Role v) \<Longrightarrow> keeps schema (CreateTeamInvite v)" "keeps schema (AcceptTeamInvite i)"
  "keeps schema (RevokeTeamInvite t i)" "keeps schema (RevokeLiveTeamInvitesFor t em)" "keeps schema (RevokeLiveTeamInvitesBy t u)"
proof -
  show "keeps schema (CreateTeamInvite v)" if "ValidRole (inv_Role v)"
    unfolding CreateTeamInvite_def
    using that by (intro keeps_query) (auto simp: schema_def invites_ok_def invite_key_def live_invite_def Let_def)
  show "keeps schema (AcceptTeamInvite i)" unfolding AcceptTeamInvite_def
    by (intro keeps_query) (auto simp: schema_def intro!: invites_ok_update split: option.split)
  show "keeps schema (RevokeTeamInvite t i)" unfolding RevokeTeamInvite_def
    by (intro keeps_query) (simp_all add: invites_ok_revoked split: option.split)
  show "keeps schema (RevokeLiveTeamInvitesFor t em)" unfolding RevokeLiveTeamInvitesFor_def
    by (intro keeps_query) (simp_all add: invites_ok_revoked)
  show "keeps schema (RevokeLiveTeamInvitesBy t u)" unfolding RevokeLiveTeamInvitesBy_def Let_def
    by (intro keeps_query) (auto simp: schema_def intro!: invites_ok_update)
qed

lemma schema_requests:
  "ValidRole r \<Longrightarrow> keeps schema (CreateAccessRequest i t u r msg)" "keeps schema (DecideAccessRequest i st d lbl reason)"
proof -
  have get: "keeps schema (GetAccessRequest j)" for j
    by (rule reads_keeps [OF reads_access(3)]) (rule schema_same, simp)
  show "keeps schema (CreateAccessRequest i t u r msg)" if "ValidRole r"
    unfolding CreateAccessRequest_def
    using that by (intro keeps_bnd keeps_query get) (auto simp: schema_def requests_ok_def request_key_def open_request_def)
  have "requests_ok (update_where (pending_id i) (record_decision st d lbl reason now) rs)" if "requests_ok rs" for rs now
    using that by (rule requests_ok_update) (simp_all add: pending_id_def record_decision_def request_key_def)
  then show "keeps schema (DecideAccessRequest i st d lbl reason)"
    unfolding DecideAccessRequest_def by (intro keeps_bnd keeps_query get) (simp_all add: schema_def)
qed

lemma schema_people:
  "ValidRole r \<Longrightarrow> keeps schema (UpsertTeamMember t u r)" "keeps schema (DeleteTeamMember t u)"
  "keeps schema (StoreCreateUser i em h r)" "keeps schema (UpdateUserProfile i d z)"
proof -
  show "keeps schema (UpsertTeamMember t u r)" if "ValidRole r"
    by (rule keeps_upsert, erule schema_same) (simp add: schema_def members_ok_upserted that)
  show "keeps schema (DeleteTeamMember t u)" unfolding DeleteTeamMember_def
    by (intro keeps_query) (simp_all add: schema_def members_ok_filter)
  show "keeps schema (StoreCreateUser i em h r)" unfolding StoreCreateUser_def
    by (intro keeps_query) (auto simp: schema_def users_ok_def Let_def)
  have "schema (upd_user i (\<lambda>u. u\<lparr>usr_DisplayName := d, usr_Timezone := z\<rparr>) w)" if "schema w" for w
    using that by (simp add: schema_def upd_user_def users_ok_update)
  then show "keeps schema (UpdateUserProfile i d z)" unfolding UpdateUserProfile_def
    by (intro keeps_query) (simp_all add: runs one_row_def split: option.split)
qed

interpretation lawful: access_ledger schema
proof
  show "ValidRole (inv_Role v)" if "schema w" "v \<in> set (w_invites w)" for w v
    using that by (simp add: schema_def invites_ok_def list_all_iff)
qed (erule schema_same schema_invites schema_requests schema_people
    | rule schema_invites schema_requests schema_people)+

section \<open>What stays beside the schema\<close>

text \<open>A predicate on invitations and accounts alone; with the schema it is kept by everything.\<close>

locale access_fact =
  fixes K :: "world \<Rightarrow> bool"
  assumes same: "books w' = books w \<Longrightarrow> K w' = K w"
    and blind: "K (w\<lparr>w_members := ms\<rparr>) = K w" "K (w\<lparr>w_requests := rs\<rparr>) = K w"
    and inviting: "keeps K (CreateTeamInvite v)"
    and accepting: "keeps K (AcceptTeamInvite i)"
    and revoking: "keeps K (RevokeTeamInvite t i)" "keeps K (RevokeLiveTeamInvitesFor t em)" "keeps K (RevokeLiveTeamInvitesBy t u)"
    and enrolling: "keeps K (StoreCreateUser i em h r)"
    and naming: "keeps K (UpdateUserProfile i d z)"
begin

lemma bumped: "K (bump w) = K w"
  by (rule same) simp

lemma reading: "reads m \<Longrightarrow> keeps K m"
  by (erule reads_keeps) (rule same, simp)

lemma elsewhere:
  "keeps K (UpsertTeamMember t u r)" "keeps K (DeleteTeamMember t u)" "keeps K (CreateAccessRequest i t u r msg)"
  "keeps K (DecideAccessRequest i st d lbl reason)"
proof -
  show "keeps K (UpsertTeamMember t u r)" by (rule keeps_upsert, erule same) (simp add: blind)
  show "keeps K (DeleteTeamMember t u)" unfolding DeleteTeamMember_def
    by (intro keeps_query) (simp_all add: blind bumped)
  show "keeps K (CreateAccessRequest i t u r msg)" unfolding CreateAccessRequest_def
    by (intro keeps_bnd keeps_query reading reads_access) (simp_all add: blind bumped)
  show "keeps K (DecideAccessRequest i st d lbl reason)" unfolding DecideAccessRequest_def
    by (intro keeps_bnd keeps_query reading reads_access) (simp_all add: blind bumped)
qed

end

sublocale access_fact \<subseteq> both: access_ledger "\<lambda>w. schema w \<and> K w"
proof
  show "(schema w' \<and> K w') = (schema w \<and> K w)" if "books w' = books w" for w w'
    using same [OF that] schema_same [OF that] by simp
  show "ValidRole (inv_Role v)" if "schema w \<and> K w" "v \<in> set (w_invites w)" for w v
    using that lawful.roles by blast
qed (intro keeps_conj schema_invites schema_requests schema_people inviting accepting revoking enrolling naming elsewhere, assumption?)+

definition dead :: "string \<Rightarrow> world \<Rightarrow> bool" where
  "dead i w \<longleftrightarrow> i \<in> inv_ID ` set (w_invites w) \<and> list_all (\<lambda>v. inv_ID v = i \<longrightarrow> \<not> live_invite v) (w_invites w)"

lemma dead_update:
  assumes "\<And>v. \<not> live_invite (f v)" "\<And>v. inv_ID (f v) = inv_ID v" "dead i w"
  shows "dead i (w\<lparr>w_invites := update_where p f (w_invites w)\<rparr>)"
proof -
  have "inv_ID ` set (update_where p f (w_invites w)) = inv_ID ` set (w_invites w)"
    using map_update_where [of inv_ID f p "w_invites w"] assms(2) by (metis list.set_map)
  with assms show ?thesis by (simp add: dead_def list_all_update_where)
qed

lemma dead_bump [simp]: "dead i (bump w) = dead i w"
  by (simp add: dead_def)

interpretation spent: access_fact "dead i" for i
proof
  show "dead i w' = dead i w" if "books w' = books w" for w w'
    using that by (simp add: books_def dead_def)
  show "keeps (dead i) (CreateTeamInvite v)" for v unfolding CreateTeamInvite_def
    by (intro keeps_query) (auto simp: dead_def Let_def)
  show "keeps (dead i) (AcceptTeamInvite j)" for j unfolding AcceptTeamInvite_def
    by (intro keeps_query) (auto intro!: dead_update split: option.split)
  show "keeps (dead i) (RevokeTeamInvite t j)" for t j unfolding RevokeTeamInvite_def
    by (intro keeps_query) (auto simp: revoke_invites_def intro!: dead_update split: option.split)
  show "keeps (dead i) (RevokeLiveTeamInvitesFor t em)" for t em unfolding RevokeLiveTeamInvitesFor_def
    by (intro keeps_query) (auto simp: revoke_invites_def intro!: dead_update)
  show "keeps (dead i) (RevokeLiveTeamInvitesBy t u)" for t u unfolding RevokeLiveTeamInvitesBy_def Let_def
    by (intro keeps_query) (auto intro!: dead_update)
  show "keeps (dead i) (StoreCreateUser j em h r)" for j em h r unfolding StoreCreateUser_def
    by (intro keeps_query) (simp_all add: dead_def Let_def)
  show "keeps (dead i) (UpdateUserProfile j d z)" for j d z unfolding UpdateUserProfile_def
    by (intro keeps_query) (simp_all add: runs one_row_def dead_def upd_user_def split: option.split)
qed (simp_all add: dead_def)

text \<open>Who an account is: identifier, address, password hash, panel role.\<close>

definition credentials :: "user \<Rightarrow> string \<times> string \<times> string \<times> string" where
  "credentials u = (usr_ID u, usr_Email u, usr_PasswordHash u, usr_Role u)"

definition keeps_accounts :: "user list \<Rightarrow> world \<Rightarrow> bool" where
  "keeps_accounts us w \<longleftrightarrow> has_prefix (map credentials us) (map credentials (w_users w))"

lemma keeps_accounts_bump [simp]: "keeps_accounts us (bump w) = keeps_accounts us w"
  by (simp add: keeps_accounts_def)

lemma keeps_accounts_invites [simp]: "keeps_accounts us (w\<lparr>w_invites := vs\<rparr>) = keeps_accounts us w"
  by (simp add: keeps_accounts_def)

interpretation accounts: access_fact "keeps_accounts us" for us
proof
  show "keeps_accounts us w' = keeps_accounts us w" if "books w' = books w" for w w'
    using that by (simp add: books_def keeps_accounts_def)
  show "keeps (keeps_accounts us) (CreateTeamInvite v)" for v unfolding CreateTeamInvite_def
    by (intro keeps_query) (simp_all add: Let_def)
  show "keeps (keeps_accounts us) (AcceptTeamInvite j)" for j unfolding AcceptTeamInvite_def
    by (intro keeps_query) (simp_all split: option.split)
  show "keeps (keeps_accounts us) (RevokeTeamInvite t j)" for t j unfolding RevokeTeamInvite_def
    by (intro keeps_query) (simp_all add: revoke_invites_def split: option.split)
  show "keeps (keeps_accounts us) (RevokeLiveTeamInvitesFor t em)" for t em unfolding RevokeLiveTeamInvitesFor_def
    by (intro keeps_query) (simp_all add: revoke_invites_def)
  show "keeps (keeps_accounts us) (RevokeLiveTeamInvitesBy t u)" for t u unfolding RevokeLiveTeamInvitesBy_def Let_def
    by (intro keeps_query) simp_all
  show "keeps (keeps_accounts us) (StoreCreateUser j em h r)" for j em h r unfolding StoreCreateUser_def
    by (intro keeps_query) (auto simp: keeps_accounts_def Let_def has_prefix_iff)
  have "map credentials (update_where p (\<lambda>u. u\<lparr>usr_DisplayName := d, usr_Timezone := z\<rparr>) vs) = map credentials vs" for p d z vs
    by (rule map_update_where) (simp add: credentials_def)
  then show "keeps (keeps_accounts us) (UpdateUserProfile j d z)" for j d z unfolding UpdateUserProfile_def
    by (intro keeps_query) (simp_all add: runs one_row_def keeps_accounts_def upd_user_def split: option.split)
qed (simp_all add: keeps_accounts_def)

end
