(* ===== verification/Access_Props.thy ===== *)
theory Access_Props
  imports Access_Inv
begin

text \<open>
  What an invitation and an access request are worth: an accepted invitation gives exactly the membership it
  names and is of no use afterwards, whatever anybody does; accepting one changes no existing
  account; a fresh link shows what was created; and what happens when the database fails half way.
\<close>

section \<open>Running the parts of an acceptance\<close>

lemma quiet_run: "quiet m \<Longrightarrow> m w = (r, w') \<Longrightarrow> books w' = books w"
  by (metis quietD snd_conv)

lemma booksD:
  assumes "books w' = books w"
  shows "w_users w' = w_users w" "w_invites w' = w_invites w" "w_requests w' = w_requests w" "w_members w' = w_members w"
    "w_teams w' = w_teams w"
  using assms by (simp_all add: books_def)

lemma resolve_run:
  assumes "resolve_invite ac token w = (Inr v, w')"
  shows "\<exists>i secret. splitToken token = Some (i, secret) \<and> v \<in> set (w_invites w) \<and> inv_ID v = i
    \<and> inv_TokenHash v = HashToken (ax_auth ac) secret \<and> Acceptable v (w_now w)"
proof -
  obtain i secret where tok: "splitToken token = Some (i, secret)"
    using assms by (auto simp: resolve_invite_def split: option.splits)
  obtain r w1 where get: "GetTeamInvite i w = (r, w1)" by fastforce
  obtain v1 where r: "r = Inr v1"
    using assms tok get by (auto simp: resolve_invite_def runs split: sum.splits if_splits)
  have row: "v1 \<in> set (w_invites w)" "inv_ID v1 = i" "w1 = bump w"
    using get r by (auto simp: GetTeamInvite_def query_Inr_iff one_row_Inr_iff dest!: find_Some_set)
  have "v1 = v" "inv_TokenHash v1 = HashToken (ax_auth ac) secret" "Acceptable v1 (w_now w1)"
    using assms tok get r by (auto simp: resolve_invite_def runs now_op_def split: if_splits)
  with tok row show ?thesis by simp
qed

lemma invite_throttle_run: "invite_throttle key w = (r, w') \<Longrightarrow> \<exists>l. w' = w\<lparr>w_byInvite := l\<rparr>"
  by (rule exI [of _ "w_byInvite w'"])
    (auto simp: invite_throttle_def split: prod.splits if_splits option.splits)

lemma open_invite_run:
  assumes "open_invite ac token ip w = (Inr (v, team), w')"
  shows "books w' = books w" "\<exists>i secret. splitToken token = Some (i, secret) \<and> v \<in> set (w_invites w) \<and> inv_ID v = i
    \<and> inv_TokenHash v = HashToken (ax_auth ac) secret \<and> Acceptable v (w_now w)"
proof -
  show "books w' = books w" using quiet_run [OF quiet_sign_in(4) assms] .
  obtain w1 where thr: "invite_throttle (inviteThrottleKey ip) w = (Inr (), w1)"
    using assms by (auto simp: open_invite_def bnd_Inr_iff Let_def)
  obtain r w2 where res: "resolve_invite ac token w1 = (r, w2)" by fastforce
  have "r = Inr v"
    using assms thr res
    by (auto simp: open_invite_def Let_def runs invite_fail_def modify_def split: sum.splits if_splits prod.splits)
  moreover obtain l where "w1 = w\<lparr>w_byInvite := l\<rparr>" using invite_throttle_run [OF thr] by blast
  ultimately show "\<exists>i secret. splitToken token = Some (i, secret) \<and> v \<in> set (w_invites w) \<and> inv_ID v = i
    \<and> inv_TokenHash v = HashToken (ax_auth ac) secret \<and> Acceptable v (w_now w)"
    using resolve_run [of ac token w1 v w2] res by simp
qed

lemma spend_invite_run:
  assumes "spend_invite i w = (Inr v', w')" "schema w"
  shows "\<exists>v \<in> set (w_invites w). inv_ID v = i \<and> live_invite v \<and> v' = v\<lparr>inv_AcceptedAt := Some (w_dbnow w)\<rparr>"
    "dead i w'" "w_users w' = w_users w" "w_members w' = w_members w"
proof -
  have run: "AcceptTeamInvite i w = (Inr v', w')"
    using assms(1) by (auto simp: spend_invite_def runs split: prod.splits sum.splits if_splits)
  obtain v where v: "List.find (spendable (bump w) i) (w_invites w) = Some v" "v' = v\<lparr>inv_AcceptedAt := Some (w_dbnow w)\<rparr>"
    and w': "w' = (bump w)\<lparr>w_invites := update_where (spendable (bump w) i) (inv_AcceptedAt_update (\<lambda>_. Some (w_dbnow w))) (w_invites w)\<rparr>"
    using run by (auto simp: AcceptTeamInvite_def query_Inr_iff split: option.splits)
  note hit = find_Some_set [OF v(1)]
  then show "\<exists>v \<in> set (w_invites w). inv_ID v = i \<and> live_invite v \<and> v' = v\<lparr>inv_AcceptedAt := Some (w_dbnow w)\<rparr>"
    using v(2) by (auto simp: spendable_def)
  show "w_users w' = w_users w" "w_members w' = w_members w" unfolding w' by simp_all
  have one: "inj_on inv_ID (set (w_invites w))" using assms(2) by (simp add: schema_def invites_ok_def distinct_map)
  have off: "\<not> live_invite x" if "x \<in> set (w_invites w')" "inv_ID x = i" for x
  proof -
    from that(1) have "x \<in> set (update_where (spendable (bump w) i) (inv_AcceptedAt_update (\<lambda>_. Some (w_dbnow w))) (w_invites w))"
      unfolding w' by simp
    from in_update_where [OF this] show ?thesis
    proof
      assume "x \<in> set (w_invites w) \<and> \<not> spendable (bump w) i x"
      with hit that(2) inj_onD [OF one, of x v] show ?thesis by (auto simp: spendable_def)
    qed auto
  qed
  have "map inv_ID (w_invites w') = map inv_ID (w_invites w)" unfolding w' by (simp add: map_update_where)
  with hit have "i \<in> inv_ID ` set (w_invites w')" by (metis image_eqI list.set_map spendable_def)
  with off show "dead i w'" by (auto simp: dead_def list_all_iff)
qed

lemma in_upserted: "\<lparr> tmb_TeamID = t, tmb_UserID = u, tmb_Role = r \<rparr> \<in> set (upserted t u r ms)"
  by (auto simp: upserted_def update_where_def image_iff intro: bexI)

lemma grant_invite_run:
  assumes "grant_invite ac v u w = (Inr (), w')"
  shows "w_members w' = upserted (inv_TeamID v) (usr_ID u) (inv_Role v) (w_members w)"
    "w_users w' = w_users w" "w_invites w' = w_invites w"
proof -
  obtain m w1 where up: "UpsertTeamMember (inv_TeamID v) (usr_ID u) (inv_Role v) w = (Inr m, w1)"
    and tell: "announceAccepted ac v u w1 = (Inr (), w')"
    using assms by (auto simp: grant_invite_def bnd_Inr_iff mapE_Inr_iff)
  note out = booksD [OF quiet_run [OF quiet_services(6) tell]]
  have "at_rest w1 = at_rest (w\<lparr>w_members := upserted (inv_TeamID v) (usr_ID u) (inv_Role v) (w_members w)\<rparr>)"
    using upsert_run [OF up] by simp
  note eff = at_rest_eqD [OF this]
  from out eff show "w_members w' = upserted (inv_TeamID v) (usr_ID u) (inv_Role v) (w_members w)"
    "w_users w' = w_users w" "w_invites w' = w_invites w" by simp_all
qed

lemma UpdateUserProfile_run:
  assumes "UpdateUserProfile i d z w = (r, w')"
  shows "w_invites w' = w_invites w" "w_members w' = w_members w" "r = Inr u' \<Longrightarrow> usr_ID u' = i \<and> u' \<in> set (w_users w')"
  using assms by (auto simp: UpdateUserProfile_def query_run runs one_row_def upd_user_def
      split: option.splits dest!: find_Some_set)


lemma keeps_accounts_refl [simp]: "keeps_accounts (w_users w) w"
  by (simp add: keeps_accounts_def)

lemma keeps_accounts_find:
  assumes "keeps_accounts us w'" "schema w'" "u \<in> set us" "x \<in> set (w_users w')" "usr_ID x = usr_ID u"
  shows "credentials x = credentials u"
proof -
  from assms(1,3) have "credentials u \<in> credentials ` set (w_users w')"
    by (auto simp: keeps_accounts_def has_prefix_iff) (metis UnI1 image_eqI list.set_map set_append)
  then obtain y where y: "y \<in> set (w_users w')" "credentials y = credentials u" by auto
  moreover from y(2) have "usr_ID y = usr_ID x" using assms(5) by (simp add: credentials_def)
  moreover have "inj_on usr_ID (set (w_users w'))" using assms(2) by (simp add: schema_def users_ok_def distinct_map)
  ultimately show ?thesis using assms(4) by (metis inj_onD)
qed

lemma name_account_run:
  assumes "name_account ac u d w = (Inr u', w')" "schema w" "u \<in> set (w_users w)"
  shows "usr_ID u' = usr_ID u" "usr_Email u' = usr_Email u" "w_invites w' = w_invites w" "w_members w' = w_members w"
proof -
  have "schema w \<and> keeps_accounts (w_users w) w" using assms(2) by simp
  note acc = keeps_run [OF accounts.both.naming_account this assms(1)]
  have "u' = u \<and> w' = w \<or> (\<exists>r. UpdateUserProfile (usr_ID u) (trim_space (trim_space d)) (trim_space []) w = (r, w') \<and> (u' = u \<or> r = Inr u'))
      \<or> u' = u \<and> w' = w"
    using assms(1) by (auto simp: name_account_def UpdateProfile_def Let_def runs split: if_splits prod.splits sum.splits)
  then have out: "w_invites w' = w_invites w" "w_members w' = w_members w" "u' = u \<or> usr_ID u' = usr_ID u \<and> u' \<in> set (w_users w')"
    by (auto dest: UpdateUserProfile_run)
  then show "w_invites w' = w_invites w" "w_members w' = w_members w" by simp_all
  have "credentials u' = credentials u"
    using out(3) keeps_accounts_find [of "w_users w" w' u u'] acc assms(3) by blast
  then show "usr_ID u' = usr_ID u" "usr_Email u' = usr_Email u" by (simp_all add: credentials_def)
qed

section \<open>An acceptance as a whole\<close>

text \<open>What the holder of \<open>token\<close> presented, and what came of it.\<close>

definition presented :: "access_cfg \<Rightarrow> string \<Rightarrow> world \<Rightarrow> teamInvite \<Rightarrow> bool" where
  "presented ac token w v \<longleftrightarrow> (\<exists>i secret. splitToken token = Some (i, secret) \<and> v \<in> set (w_invites w) \<and> inv_ID v = i
     \<and> inv_TokenHash v = HashToken (ax_auth ac) secret \<and> Acceptable v (w_now w))"

lemma granted_after_spend:
  assumes "spend_invite (inv_ID v) w = (Inr v', w1)" "schema w" "v \<in> set (w_invites w)"
    and "grant_invite ac v' u w2 = (Inr (), w')" "w_invites w2 = w_invites w1"
  shows "\<lparr> tmb_TeamID = inv_TeamID v, tmb_UserID = usr_ID u, tmb_Role = inv_Role v \<rparr> \<in> set (w_members w') \<and> dead (inv_ID v) w'"
proof -
  note sp = spend_invite_run [OF assms(1,2)] and gr = grant_invite_run [OF assms(4)]
  obtain x where x: "x \<in> set (w_invites w)" "inv_ID x = inv_ID v" "v' = x\<lparr>inv_AcceptedAt := Some (w_dbnow w)\<rparr>" using sp(1) by blast
  have "inj_on inv_ID (set (w_invites w))" using assms(2) by (simp add: schema_def invites_ok_def distinct_map)
  with x assms(3) have "x = v" by (metis inj_onD)
  with x(3) have "inv_TeamID v' = inv_TeamID v" "inv_Role v' = inv_Role v" by simp_all
  moreover have "dead (inv_ID v) w'" using sp(2) assms(5) gr(3) by (simp add: dead_def)
  ultimately show ?thesis using gr(1) in_upserted by simp
qed

lemma existing_run:
  assumes "acceptAsExistingUser ac sid raw v team inp ip w = (Inr a, w')" "schema w" "v \<in> set (w_invites w)"
  shows "usr_Email (ac_User a) = inv_Email v \<and> dead (inv_ID v) w'
    \<and> \<lparr> tmb_TeamID = inv_TeamID v, tmb_UserID = usr_ID (ac_User a), tmb_Role = inv_Role v \<rparr> \<in> set (w_members w')"
proof -
  obtain tok u w1 w2 v' w3 where login: "Login (ax_auth ac) sid raw (inv_Email v) (ai_Password inp) (ai_TOTPCode inp) ip w = (Inr (tok, u), w1)"
    and ref: "refuse_member v u w1 = (Inr (), w2)" and sp: "spend_invite (inv_ID v) w2 = (Inr v', w3)"
    and gr: "grant_invite ac v' u w3 = (Inr (), w')" and a: "ac_User a = u"
    using assms(1) by (auto simp: acceptAsExistingUser_def bnd_Inr_iff split: prod.splits)
  have "quiet (attempt (GetTeamMember (inv_TeamID v) (usr_ID u)))" by (intro qt)
  moreover have "\<exists>r. attempt (GetTeamMember (inv_TeamID v) (usr_ID u)) w1 = (Inr r, w2)"
    using ref by (auto simp: refuse_member_def runs split: prod.splits sum.splits if_splits)
  ultimately have same: "books w2 = books w"
    using quiet_run quiet_run [OF quiet_sign_in(3) login] by metis
  have s2: "schema w2" "v \<in> set (w_invites w2)" using schema_same [OF same] booksD [OF same] assms(2,3) by simp_all
  have "usr_Email u = inv_Email v" using Login_sound [OF login] by blast
  then show ?thesis using granted_after_spend [OF sp s2 gr refl] unfolding a by blast
qed

lemma newcomer_run:
  assumes "acceptAsNewUser ac uid sid raw v team inp w = (Inr a, w')" "schema w" "v \<in> set (w_invites w)"
  shows "usr_Email (ac_User a) = inv_Email v \<and> dead (inv_ID v) w'
    \<and> \<lparr> tmb_TeamID = inv_TeamID v, tmb_UserID = usr_ID (ac_User a), tmb_Role = inv_Role v \<rparr> \<in> set (w_members w')"
proof -
  obtain h v' w1 u0 w2 u w3 w4 tok where
    sp: "spend_invite (inv_ID v) w = (Inr v', w1)" and cr: "StoreCreateUser uid (inv_Email v) h RoleMember w1 = (Inr u0, w2)"
    and nm: "name_account ac u0 (ai_DisplayName inp) w2 = (Inr u, w3)" and gr: "grant_invite ac v' u w3 = (Inr (), w4)"
    and st: "StartSession (ax_auth ac) sid raw (usr_ID u) w4 = (Inr tok, w')" and a: "ac_User a = u"
    using assms(1) by (auto simp: acceptAsNewUser_def bnd_Inr_iff mapE_Inr_iff lift_def split: if_splits sum.splits)
  have s1: "schema w1" using keeps_run [OF lawful.spend(1) assms(2) sp] .
  have s2: "schema w2" using keeps_run [OF schema_people(3) s1 cr] .
  have u0: "u0 \<in> set (w_users w2)" "usr_Email u0 = inv_Email v" "w_invites w2 = w_invites w1"
    using cr by (auto simp: StoreCreateUser_def query_Inr_iff Let_def split: if_splits)
  note named = name_account_run [OF nm s2 u0(1)]
  have "w_invites w3 = w_invites w1" using named(3) u0(3) by simp
  note got = granted_after_spend [OF sp assms(2,3) gr this]
  have "books w' = books w4" using quiet_run [OF quiet_services(4) st] .
  then have "dead (inv_ID v) w' = dead (inv_ID v) w4" "w_members w' = w_members w4" by (simp_all add: books_def dead_def)
  with got named u0(2) show ?thesis unfolding a by simp
qed

lemma Accept_run:
  assumes "Accept ac uid sid raw token inp ip w = (Inr a, w')" "schema w"
  shows "\<exists>v. presented ac token w v \<and> usr_Email (ac_User a) = inv_Email v \<and> dead (inv_ID v) w'
    \<and> \<lparr> tmb_TeamID = inv_TeamID v, tmb_UserID = usr_ID (ac_User a), tmb_Role = inv_Role v \<rparr> \<in> set (w_members w')"
proof -
  obtain v team w1 where op: "open_invite ac token ip w = (Inr (v, team), w1)"
    using assms(1) by (auto simp: Accept_def bnd_Inr_iff)
  note head = open_invite_run [OF op]
  obtain r w2 where get: "GetUserByEmail (inv_Email v) w1 = (r, w2)" by fastforce
  have "books w2 = books w" using GetUserByEmail_run(1) [OF get] head(1) by simp
  then have s: "schema w2" "v \<in> set (w_invites w2)"
    using schema_same booksD(2) assms(2) head(2) by (metis, metis)
  have "acceptAsExistingUser ac sid raw v team inp ip w2 = (Inr a, w') \<or> acceptAsNewUser ac uid sid raw v team inp w2 = (Inr a, w')"
    using assms(1) op get by (auto simp: Accept_def runs split: sum.splits if_splits)
  then show ?thesis
    using existing_run [OF _ s] newcomer_run [OF _ s] head(2) unfolding presented_def by metis
qed

text \<open>A dead invitation is refused.\<close>

lemma dead_refused:
  assumes "dead i w" "splitToken token = Some (i, secret)"
  shows "\<exists>e. fst (Accept ac uid sid raw token inp ip w) = Inl e" "\<exists>e. fst (Preview ac token ip w) = Inl e"
proof -
  have "\<exists>e. fst (open_invite ac token ip w) = Inl e"
  proof (cases "open_invite ac token ip w")
    case (Pair r w')
    have False if "r = Inr z" for z
    proof -
      obtain v t where "z = (v, t)" by fastforce
      with Pair that have "open_invite ac token ip w = (Inr (v, t), w')" by simp
      from open_invite_run(2) [OF this] assms show False
        by (auto simp: dead_def list_all_iff live_invite_def Acceptable_def InviteState_def InviteStatePending_def
            InviteStateAccepted_def InviteStateRevoked_def split: if_splits)
    qed
    with Pair show ?thesis by (cases r) auto
  qed
  then show "\<exists>e. fst (Accept ac uid sid raw token inp ip w) = Inl e" "\<exists>e. fst (Preview ac token ip w) = Inl e"
    by (auto simp: Accept_def Preview_def runs split: prod.splits)
qed

section \<open>A fresh link\<close>

lemma splitToken_join:
  assumes "i \<noteq> []" "secret \<noteq> []" "CHR ''.'' \<notin> set secret"
  shows "splitToken (i @ ''.'' @ secret) = Some (i, secret)"
proof -
  have "takeWhile (\<lambda>c. c \<noteq> CHR ''.'') (rev secret @ CHR ''.'' # rev i) = rev secret"
    by (subst takeWhile_append2) (use assms(3) in auto)
  with assms show ?thesis by (simp add: splitToken_def Let_def)
qed

definition pays_in :: "world \<Rightarrow> string \<Rightarrow> bool" where
  "pays_in w ip \<longleftrightarrow> (\<forall>l. w_byInvite w = Some l \<longrightarrow> fst (Allow (w_now w) (inviteThrottleKey ip) l))"

lemma invite_throttle_pass:
  assumes "pays_in w ip"
  shows "\<exists>l. invite_throttle (inviteThrottleKey ip) w = (Inr (), w\<lparr>w_byInvite := l\<rparr>)"
proof -
  obtain r w' where run: "invite_throttle (inviteThrottleKey ip) w = (r, w')" by fastforce
  then have "r = Inr ()"
    using assms by (cases "w_byInvite w") (auto simp: pays_in_def invite_throttle_def split: prod.splits if_splits)
  with run invite_throttle_run [OF run] show ?thesis by auto
qed

lemma Preview_calm:
  assumes "w_faults w = (\<lambda>_. None)" "pays_in w ip" "splitToken token = Some (i, secret)"
    and "List.find (\<lambda>v. inv_ID v = i) (w_invites w) = Some v" "inv_TokenHash v = HashToken (ax_auth ac) secret"
    and "Acceptable v (w_now w)" "List.find (\<lambda>t. team_ID t = inv_TeamID v) (w_teams w) = Some t"
  shows "fst (Preview ac token ip w) = Inr \<lparr> pv_TeamName = team_Name t, pv_InviterLabel = inv_InvitedByLabel v,
    pv_Email = inv_Email v, pv_Role = inv_Role v, pv_ExpiresAt = inv_ExpiresAt v,
    pv_AccountExists = (List.find (\<lambda>u. usr_Email u = inv_Email v) (w_users w) \<noteq> None) \<rparr>"
proof -
  obtain l where thr: "invite_throttle (inviteThrottleKey ip) w = (Inr (), w\<lparr>w_byInvite := l\<rparr>)"
    using invite_throttle_pass [OF assms(2)] by blast
  have res: "resolve_invite ac token (w\<lparr>w_byInvite := l\<rparr>) = (Inr v, bump (w\<lparr>w_byInvite := l\<rparr>))"
    using assms by (simp add: resolve_invite_def runs GetTeamInvite_def calm_run one_row_def now_op_def)
  obtain l' where op: "open_invite ac token ip w = (Inr (v, t), bump ((bump (w\<lparr>w_byInvite := l\<rparr>))\<lparr>w_byInvite := l'\<rparr>))"
    using assms by (simp add: open_invite_def Let_def runs thr res invite_reset_def GetTeam_def calm_run one_row_def)
  show ?thesis
    using assms(1)
    by (simp add: Preview_def runs op GetUserByEmail_def calm_run one_row_def errors_is_def split: option.split)
qed

lemma find_snoc: "List.find p xs = None \<Longrightarrow> p x \<Longrightarrow> List.find p (xs @ [x]) = Some x"
  by (induction xs) (auto split: if_splits)

lemma send_run:
  assumes "send ac to s b w = (r, w')"
  shows "books w' = books w" "w_faults w' = w_faults w" "w_now w' = w_now w" "w_byInvite w' = w_byInvite w"
  using assms quiet_run [OF quiet_services(5) assms]
  by (auto simp: send_def runs io_run emit_def split: if_splits option.splits prod.splits)

lemma CreateTeamInvite_run:
  assumes "CreateTeamInvite v w = (Inr v', w')"
  shows "v' = v\<lparr>inv_AcceptedAt := None, inv_RevokedAt := None\<rparr>" "w' = (bump w)\<lparr>w_invites := w_invites w @ [v']\<rparr>"
    "\<forall>x \<in> set (w_invites w). inv_ID x \<noteq> inv_ID v"
  using assms by (auto simp: CreateTeamInvite_def query_Inr_iff Let_def split: if_splits)

lemma supersede_run:
  assumes "RevokeLiveTeamInvitesFor t em w = (Inr n, w')"
  shows "w' = revoke_invites (\<lambda>v. inv_TeamID v = t \<and> inv_Email v = em) (bump w)"
  using assms by (simp add: RevokeLiveTeamInvitesFor_def query_Inr_iff)

lemma reads_not_a_member: "reads (not_a_member t em)"
  unfolding not_a_member_def by (intro rd)

lemma InvitesCreate_run:
  assumes "InvitesCreate ac i secret t em0 role0 actor ar w = (Inr c, w')"
  shows "\<exists>addr role v team. au_address (ax_auth ac) (trim_space em0) = Some addr \<and> roleOrDefault role0 = Inr role
    \<and> CanGrantRole ar role \<and> List.find (\<lambda>x. team_ID x = t) (w_teams w) = Some team
    \<and> v = \<lparr> inv_ID = i, inv_TeamID = t, inv_Email = au_lower (ax_auth ac) addr, inv_Role = role,
          inv_TokenHash = HashToken (ax_auth ac) secret, inv_InvitedBy = Some (usr_ID actor), inv_InvitedByLabel = usr_Email actor,
          inv_ExpiresAt = w_now w + InviteTTL, inv_AcceptedAt = None, inv_RevokedAt = None \<rparr>
    \<and> List.find (\<lambda>x. inv_ID x = i) (w_invites w') = Some v \<and> w_teams w' = w_teams w \<and> w_users w' = w_users w
    \<and> w_faults w' = w_faults w \<and> w_now w' = w_now w \<and> w_byInvite w' = w_byInvite w
    \<and> ci_Invite c = v \<and> ci_AcceptURL c = acceptURL ac (i @ ''.'' @ secret)"
proof -
  obtain role addr where in_ok: "roleOrDefault role0 = Inr role" "CanGrantRole ar role"
    "au_address (ax_auth ac) (trim_space em0) = Some addr"
    using assms by (auto simp: InvitesCreate_def bnd_Inr_iff lift_def split: sum.splits if_splits option.splits)
  define em where "em = au_lower (ax_auth ac) addr"
  define v where "v = \<lparr> inv_ID = i, inv_TeamID = t, inv_Email = em, inv_Role = role,
          inv_TokenHash = HashToken (ax_auth ac) secret, inv_InvitedBy = Some (usr_ID actor), inv_InvitedByLabel = usr_Email actor,
          inv_ExpiresAt = w_now w + InviteTTL, inv_AcceptedAt = None, inv_RevokedAt = None \<rparr>"
  obtain team w1 w2 n w3 v' w4 r where team: "GetTeam t w = (Inr team, w1)" and free: "not_a_member t em w1 = (Inr (), w2)"
    and rev: "RevokeLiveTeamInvitesFor t em w2 = (Inr n, w3)"
    and new: "CreateTeamInvite (v\<lparr>inv_ExpiresAt := w_now w3 + InviteTTL\<rparr>) w3 = (Inr v', w4)"
    and mail: "\<exists>to subj body. send ac to subj body w4 = (Inr r, w')"
    and c: "ci_Invite c = v'" "ci_AcceptURL c = acceptURL ac (i @ ''.'' @ secret)"
    using assms in_ok unfolding InvitesCreate_def Let_def
    by (auto simp: bnd_Inr_iff lift_def now_op_def v_def em_def simp del: append.simps) blast
  from mail obtain to subj body where mail: "send ac to subj body w4 = (Inr r, w')" by blast
  have t: "List.find (\<lambda>x. team_ID x = t) (w_teams w) = Some team" "w1 = bump w"
    using team by (simp_all add: GetTeam_def query_Inr_iff one_row_Inr_iff)
  note calm = at_rest_eqD [OF reads_run [OF reads_not_a_member free]]
  note w3 = supersede_run [OF rev] and cr = CreateTeamInvite_run [OF new] and out = send_run [OF mail]
  have same: "w_teams w3 = w_teams w" "w_users w3 = w_users w" "w_faults w3 = w_faults w" "w_now w3 = w_now w" "w_byInvite w3 = w_byInvite w"
    unfolding w3 by (simp_all add: revoke_invites_def calm t(2))
  have v': "v' = v" using cr(1) same(4) by (simp add: v_def)
  have "List.find (\<lambda>x. inv_ID x = i) (w_invites w') = Some v"
    unfolding booksD(2) [OF out(1)] cr(2) v'
    using cr(3) by (simp add: find_snoc find_None_all v_def)
  moreover have "w_teams w' = w_teams w" "w_users w' = w_users w" "w_faults w' = w_faults w" "w_now w' = w_now w" "w_byInvite w' = w_byInvite w"
    using booksD [OF out(1)] out(2-4) same by (simp_all add: cr(2))
  ultimately show ?thesis using in_ok t(1) c v' unfolding v_def em_def by auto
qed

section \<open>A granted request\<close>

lemma in_request_rows:
  "x \<in> set (request_rows p w) \<Longrightarrow> \<exists>r \<in> set (w_requests w). p r \<and> acr_ID x = acr_ID r \<and> acr_TeamID x = acr_TeamID r
     \<and> acr_UserID x = acr_UserID r \<and> acr_RequestedRole x = acr_RequestedRole r \<and> acr_State x = acr_State r
     \<and> acr_CurrentRole x = current_role w (acr_TeamID r) (acr_UserID r)"
  by (auto simp: request_rows_def)

lemma GetAccessRequest_run:
  assumes "GetAccessRequest i w = (Inr x, w')"
  shows "w' = bump w" "\<exists>r \<in> set (w_requests w). acr_ID r = i \<and> acr_ID x = i \<and> acr_TeamID x = acr_TeamID r
     \<and> acr_UserID x = acr_UserID r \<and> acr_RequestedRole x = acr_RequestedRole r \<and> acr_State x = acr_State r
     \<and> acr_CurrentRole x = current_role w (acr_TeamID r) (acr_UserID r)"
proof -
  have f: "List.find (\<lambda>_. True) (request_rows (\<lambda>r. acr_ID r = i) (bump w)) = Some x" "w' = bump w"
    using assms by (simp_all add: GetAccessRequest_def query_Inr_iff one_row_Inr_iff)
  then show "w' = bump w" by simp
  from in_request_rows [of x "\<lambda>r. acr_ID r = i" "bump w"] find_Some_set [OF f(1)]
  show "\<exists>r \<in> set (w_requests w). acr_ID r = i \<and> acr_ID x = i \<and> acr_TeamID x = acr_TeamID r
     \<and> acr_UserID x = acr_UserID r \<and> acr_RequestedRole x = acr_RequestedRole r \<and> acr_State x = acr_State r
     \<and> acr_CurrentRole x = current_role w (acr_TeamID r) (acr_UserID r)"
    by (auto simp: current_role_def)
qed

lemma pending_request_run:
  assumes "pending_request i w = (Inr x, w')"
  shows "w' = bump w" "acr_ID x = i" "\<exists>r \<in> set (w_requests w). pending_id i r \<and> acr_TeamID x = acr_TeamID r
     \<and> acr_UserID x = acr_UserID r \<and> acr_RequestedRole x = acr_RequestedRole r
     \<and> acr_CurrentRole x = current_role w (acr_TeamID r) (acr_UserID r)"
proof -
  have get: "GetAccessRequest i w = (Inr x, w')" "acr_State x = AccessRequestPending"
    using assms by (auto simp: pending_request_def bnd_Inr_iff split: if_splits)
  note run = GetAccessRequest_run [OF get(1)]
  show "w' = bump w" by (rule run(1))
  show "acr_ID x = i" using run(2) by auto
  show "\<exists>r \<in> set (w_requests w). pending_id i r \<and> acr_TeamID x = acr_TeamID r
     \<and> acr_UserID x = acr_UserID r \<and> acr_RequestedRole x = acr_RequestedRole r
     \<and> acr_CurrentRole x = current_role w (acr_TeamID r) (acr_UserID r)"
    using run(2) get(2) by (auto simp: pending_id_def open_request_def)
qed

lemma pending_request_none: "\<not> list_ex (pending_id i) (w_requests w) \<Longrightarrow> \<exists>e. fst (pending_request i w) = Inl e"
proof (rule ccontr)
  assume none: "\<not> list_ex (pending_id i) (w_requests w)" and "\<nexists>e. fst (pending_request i w) = Inl e"
  then obtain x where "fst (pending_request i w) = Inr x" by (metis sum.exhaust)
  then have "pending_request i w = (Inr x, snd (pending_request i w))" by (metis prod.collapse)
  from pending_request_run(3) [OF this] none show False by (auto simp: list_ex_iff)
qed

lemma decide_request_run:
  assumes "decide_request ac req st actor reason w = (Inr d, w')" "schema w" "st \<noteq> AccessRequestPending"
  shows "w_members w' = w_members w" "\<not> list_ex (pending_id (acr_ID req)) (w_requests w')"
    "acr_ID d = acr_ID req" "acr_State d = st"
proof -
  let ?i = "acr_ID req" and ?f = "record_decision st (usr_ID actor) (usr_Email actor) reason"
  obtain w1 t w2 where dec: "DecideAccessRequest ?i st (usr_ID actor) (usr_Email actor) reason w = (Inr d, w1)"
    and tell: "announce_request ac d t (usr_Email actor) (if st = AccessRequestGranted then AccessGrantedItem else AccessDeniedItem) w2 = (Inr (), w')"
    and team: "\<exists>r. GetTeam (acr_TeamID d) w1 = (r, w2)"
    using assms(1) by (auto simp: decide_request_def runs split: prod.splits sum.splits if_splits)
  have "books w2 = books w1" using team quiet_run [OF quiet_reads(1)] by blast
  with quiet_run [OF quiet_services(7) tell] have out: "books w' = books w1" by simp
  obtain w0 where upd: "w0 = (bump w)\<lparr>w_requests := update_where (pending_id ?i) (?f (w_dbnow w)) (w_requests w)\<rparr>"
    and hit: "list_ex (pending_id ?i) (w_requests w)" and get: "GetAccessRequest ?i w0 = (Inr d, w1)"
    using dec by (auto simp: DecideAccessRequest_def bnd_Inr_iff query_Inr_iff split: if_splits)
  note read = GetAccessRequest_run [OF get]
  have rq: "w_requests w' = update_where (pending_id ?i) (?f (w_dbnow w)) (w_requests w)" "w_requests w0 = w_requests w'"
    using booksD(3) [OF out] read(1) by (simp_all add: upd)
  show "w_members w' = w_members w" using booksD(4) [OF out] read(1) by (simp add: upd)
  obtain r0 where r0: "r0 \<in> set (w_requests w)" "pending_id ?i r0" using hit by (auto simp: list_ex_iff)
  have one: "inj_on acr_ID (set (w_requests w))" using assms(2) by (simp add: schema_def requests_ok_def distinct_map)
  have decided: "acr_State x = st" if "x \<in> set (w_requests w')" "acr_ID x = ?i" for x
    using in_update_where [OF that(1) [unfolded rq(1)]]
  proof
    assume "x \<in> set (w_requests w) \<and> \<not> pending_id ?i x"
    with r0 that(2) inj_onD [OF one, of x r0] show ?thesis by (auto simp: pending_id_def)
  qed (auto simp: record_decision_def)
  with assms(3) show "\<not> list_ex (pending_id ?i) (w_requests w')" by (auto simp: list_ex_iff pending_id_def open_request_def)
  from read(2) decided rq(2) show "acr_ID d = ?i" "acr_State d = st" by auto
qed

lemma ChangeMemberRole_run:
  assumes "ChangeMemberRole t u r ar w = (Inr m, w')"
  shows "CanGrantRole ar r" "\<lparr> tmb_TeamID = t, tmb_UserID = u, tmb_Role = r \<rparr> \<in> set (w_members w')"
proof -
  obtain w1 where chk: "change_checks t u r ar w = (Inr (), w1)" and up: "UpsertTeamMember t u r w1 = (Inr m, w')"
    using assms by (auto simp: ChangeMemberRole_def bnd_Inr_iff)
  show "CanGrantRole ar r"
    using chk by (auto simp: change_checks_def bnd_Inr_iff requireGrantRank_def split: if_splits)
  show "\<lparr> tmb_TeamID = t, tmb_UserID = u, tmb_Role = r \<rparr> \<in> set (w_members w')"
    using upsert_members(1) [OF up] in_upserted by simp
qed

section \<open>Claims\<close>

text \<open>
  C23. The tables stay well-formed. Whatever sequence of inviting, withdrawing, previewing, accepting, requesting,
  granting, denying, adding, ranking, removing and signing in or out is run, by anybody, with any outcome and any
  pattern of database failures: identifiers, addresses and memberships stay unique, there is one live invitation
  per team and address and one open request per team and person, and every stored rank is a rank.
\<close>

theorem access_schema:
  assumes "schema w" "(access_step ac)\<^sup>*\<^sup>* w w'"
  shows "schema w'"
  using lawful.steps [OF assms(2,1)] .

definition plain_access :: access_cfg where
  "plain_access = \<lparr> ax_auth = plain_auth, ax_mailer = True, ax_inbox = True, ax_baseURL = ''https://panel/'' \<rparr>"

definition invite_eve :: "world \<Rightarrow> (error + created_invite) \<times> world" where
  "invite_eve w = InvitesCreate plain_access ''inv_1'' ''S1'' ''tm_1'' ''eve@acme'' ''admin'' (person ''ann'' ''member'') ''owner'' w"

theorem access_schema_witness: "schema (snd (invite_eve crew)) \<and> length (w_invites (snd (invite_eve crew))) = 1"
proof -
  have "schema crew" by code_simp
  moreover have "(access_step plain_access)\<^sup>*\<^sup>* crew (snd (invite_eve crew))"
    unfolding invite_eve_def by (rule r_into_rtranclp, rule access_step.inviting)
  ultimately have "schema (snd (invite_eve crew))" by (rule access_schema)
  moreover have "length (w_invites (snd (invite_eve crew))) = 1" by code_simp
  ultimately show ?thesis by simp
qed

definition waiting :: world where
  "waiting = crew\<lparr>w_users := [person ''ann'' ''owner''], w_members := [], w_invites := [\<lparr> inv_ID = ''i'', inv_TeamID = ''tm_1'', inv_Email = ''eve@acme'', inv_Role = ''admin'',
     inv_TokenHash = ''S'', inv_InvitedBy = None, inv_InvitedByLabel = [], inv_ExpiresAt = 100, inv_AcceptedAt = None,
     inv_RevokedAt = None \<rparr>]\<rparr>"

definition knock :: "world \<Rightarrow> (error + accepted) \<times> world" where
  "knock w = Accept plain_access ''usr_9'' ''ses_9'' ''TOKEN'' ''i.S''
     \<lparr> ai_Password = ''hunter22'', ai_DisplayName = [], ai_TOTPCode = [] \<rparr> ''10.0.0.1'' w"

text \<open>Who has an account, who is in the team, and how the first and a second attempt were answered.\<close>

definition aftermath :: "(error + accepted) \<times> world \<Rightarrow> bool \<times> string list \<times> string list \<times> bool" where
  "aftermath x = (case x of (r, w) \<Rightarrow>
     (isl r, map usr_Email (w_users w), map tmb_UserID (w_members w), fst (knock w) = Inl ErrInvalidInvite))"

lemma knocked: "aftermath (knock waiting) = (False, [''ann@acme'', ''eve@acme''], [''usr_9''], True)"
  by code_simp

lemma knocked_facts:
  "schema waiting" "knock waiting = (Inr (projr (fst (knock waiting))), snd (knock waiting))"
  "map tmb_UserID (w_members (snd (knock waiting))) = [''usr_9'']"
  "map usr_Email (w_users (snd (knock waiting))) = [''ann@acme'', ''eve@acme'']"
proof -
  show "schema waiting" by code_simp
  obtain r w where k: "knock waiting = (r, w)" by fastforce
  with knocked show "knock waiting = (Inr (projr (fst (knock waiting))), snd (knock waiting))" by (cases r) (auto simp: aftermath_def)
  from k knocked show "map tmb_UserID (w_members (snd (knock waiting))) = [''usr_9'']"
    "map usr_Email (w_users (snd (knock waiting))) = [''ann@acme'', ''eve@acme'']" by (simp_all add: aftermath_def)
qed

text \<open>
  C24. An invitation is worth one membership. When \<open>Accept\<close> succeeds, the token names a stored invitation
  with the hash of its secret that was neither accepted, revoked nor expired; the account that is signed in has the
  invited address and now has, in that team, exactly the invited rank. From then on, after any number of
  operations of anybody, the same link is refused, both for accepting and for looking at it.
\<close>

theorem invitation_used_once:
  assumes "schema w" "Accept ac uid sid raw token inp ip w = (Inr a, w')" "(access_step ac)\<^sup>*\<^sup>* w' w''"
  shows "(\<exists>v. presented ac token w v \<and> usr_Email (ac_User a) = inv_Email v
      \<and> \<lparr> tmb_TeamID = inv_TeamID v, tmb_UserID = usr_ID (ac_User a), tmb_Role = inv_Role v \<rparr> \<in> set (w_members w'))
    \<and> (\<exists>e. fst (Accept ac uid' sid' raw' token inp' ip' w'') = Inl e) \<and> (\<exists>e. fst (Preview ac token ip' w'') = Inl e)"
proof -
  obtain v where v: "presented ac token w v" "usr_Email (ac_User a) = inv_Email v" "dead (inv_ID v) w'"
    "\<lparr> tmb_TeamID = inv_TeamID v, tmb_UserID = usr_ID (ac_User a), tmb_Role = inv_Role v \<rparr> \<in> set (w_members w')"
    using Accept_run [OF assms(2,1)] by blast
  have "schema w'" using keeps_run [OF lawful.Accept assms(1,2)] .
  with v(3) spent.both.steps [OF assms(3), of "inv_ID v"] have gone: "dead (inv_ID v) w''" by blast
  obtain secret where "splitToken token = Some (inv_ID v, secret)" using v(1) by (auto simp: presented_def)
  from dead_refused [OF gone this] v show ?thesis by blast
qed

theorem invitation_used_once_witness:
  "isl (fst (knock (snd (knock waiting)))) \<and> map tmb_UserID (w_members (snd (knock waiting))) = [''usr_9'']"
proof -
  from invitation_used_once [OF knocked_facts(1) knocked_facts(2) [unfolded knock_def] rtranclp.rtrancl_refl]
  have "isl (fst (knock (snd (knock waiting))))" unfolding knock_def by (metis isl_def)
  with knocked_facts(3) show ?thesis by simp
qed

text \<open>
  C25. Nothing in the access paths changes an account. After any sequence of those operations every account there was
  before is still there, in its place, with its identifier, address, password hash and panel role; accounts are only
  added. So inviting somebody's address never resets their password.
\<close>

theorem accounts_untouched:
  assumes "schema w" "(access_step ac)\<^sup>*\<^sup>* w w'"
  shows "keeps_accounts (w_users w) w'"
  using accounts.both.steps [OF assms(2), of "w_users w"] assms(1) by simp

theorem accounts_untouched_witness:
  "keeps_accounts [person ''ann'' ''owner''] (snd (knock waiting))
   \<and> map usr_Email (w_users (snd (knock waiting))) = [''ann@acme'', ''eve@acme'']"
proof -
  have "(access_step plain_access)\<^sup>*\<^sup>* waiting (snd (knock waiting))"
    unfolding knock_def by (rule r_into_rtranclp, rule access_step.accepting)
  from accounts_untouched [OF knocked_facts(1) this] knocked_facts(4) show ?thesis by (simp add: waiting_def)
qed

text \<open>
  A fresh link shows what was created. While the database answers and the client is within its budget, the
  token in the link \<open>Create\<close> returns leads the landing screen to the team's name, the inviter, the parsed and
  folded address, the rank (which the inviter could grant), the expiry a week later, and whether that address has an account.
\<close>

theorem fresh_link_previews:
  assumes "InvitesCreate ac i secret t em0 role0 actor ar w = (Inr c, w')" "w_faults w = (\<lambda>_. None)" "pays_in w ip"
    and "i \<noteq> []" "secret \<noteq> []" "CHR ''.'' \<notin> set secret"
  shows "\<exists>addr role team. au_address (ax_auth ac) (trim_space em0) = Some addr \<and> roleOrDefault role0 = Inr role
    \<and> CanGrantRole ar role \<and> List.find (\<lambda>x. team_ID x = t) (w_teams w) = Some team
    \<and> ci_AcceptURL c = acceptURL ac (i @ ''.'' @ secret)
    \<and> fst (Preview ac (i @ ''.'' @ secret) ip w') = Inr \<lparr> pv_TeamName = team_Name team, pv_InviterLabel = usr_Email actor,
        pv_Email = au_lower (ax_auth ac) addr, pv_Role = role, pv_ExpiresAt = w_now w + InviteTTL,
        pv_AccountExists = (List.find (\<lambda>u. usr_Email u = au_lower (ax_auth ac) addr) (w_users w) \<noteq> None) \<rparr>"
proof -
  obtain addr role v team where run: "au_address (ax_auth ac) (trim_space em0) = Some addr" "roleOrDefault role0 = Inr role"
    "CanGrantRole ar role" "List.find (\<lambda>x. team_ID x = t) (w_teams w) = Some team"
    "v = \<lparr> inv_ID = i, inv_TeamID = t, inv_Email = au_lower (ax_auth ac) addr, inv_Role = role,
          inv_TokenHash = HashToken (ax_auth ac) secret, inv_InvitedBy = Some (usr_ID actor), inv_InvitedByLabel = usr_Email actor,
          inv_ExpiresAt = w_now w + InviteTTL, inv_AcceptedAt = None, inv_RevokedAt = None \<rparr>"
    "List.find (\<lambda>x. inv_ID x = i) (w_invites w') = Some v" "w_teams w' = w_teams w" "w_users w' = w_users w"
    "w_faults w' = w_faults w" "w_now w' = w_now w" "w_byInvite w' = w_byInvite w" "ci_AcceptURL c = acceptURL ac (i @ ''.'' @ secret)"
    using InvitesCreate_run [OF assms(1)] by metis
  have "Acceptable v (w_now w')"
    unfolding run(5,10) by (simp add: Acceptable_def InviteState_def InviteTTL_def)
  moreover have "pays_in w' ip" using assms(3) run(10,11) by (simp add: pays_in_def)
  ultimately show ?thesis
    using Preview_calm [OF _ _ splitToken_join [OF assms(4-6)] run(6), of ip ac team] assms(2) run by simp
qed

theorem fresh_link_previews_witness:
  "ci_AcceptURL (projr (fst (invite_eve crew))) = ''https://panel/invite/inv_1.S1''
   \<and> map_sum id pv_Role (fst (Preview plain_access ''inv_1.S1'' ''10.0.0.1'' (snd (invite_eve crew)))) = Inr ''admin''"
proof -
  have "\<not> isl (fst (invite_eve crew))" by code_simp
  then obtain c where c: "invite_eve crew = (Inr c, snd (invite_eve crew))"
    by (cases "invite_eve crew"; cases "fst (invite_eve crew)") auto
  have "w_faults crew = (\<lambda>_. None)" "pays_in crew ''10.0.0.1''" by (simp_all add: crew_def pays_in_def)
  from fresh_link_previews [OF c [unfolded invite_eve_def] this] obtain p where
    "fst (Preview plain_access ''inv_1.S1'' ''10.0.0.1'' (snd (invite_eve crew))) = Inr p" "pv_Role p = ''admin''"
    "ci_AcceptURL c = acceptURL plain_access ''inv_1.S1''"
    unfolding invite_eve_def by (auto simp: roleOrDefault_def Let_def ValidRole_def RoleRank_def split: if_splits)
  moreover have "acceptURL plain_access ''inv_1.S1'' = ''https://panel/invite/inv_1.S1''" by code_simp
  moreover have "projr (fst (invite_eve crew)) = c" using c by (metis fst_conv sum.sel(2))
  ultimately show ?thesis by simp
qed

definition outage :: "nat \<Rightarrow> (error + accepted) \<times> world" where
  "outage n = knock (waiting\<lparr>w_faults := (\<lambda>k. if k = n then Some ''timeout'' else None)\<rparr>)"


text \<open>
  A granted request moved the membership. When \<open>Grant\<close> succeeds, there was an open request of a member of the
  team, the decider's rank allows handing out the requested rank, the requester now has it, and the request is
  recorded as granted; it cannot be granted or denied a second time.
\<close>

theorem Grant_moves_member:
  assumes "schema w" "Grant ac i actor ar w = (Inr d, w')"
  shows "(\<exists>r \<in> set (w_requests w). pending_id i r \<and> current_role w (acr_TeamID r) (acr_UserID r) \<noteq> []
      \<and> CanGrantRole ar (acr_RequestedRole r)
      \<and> \<lparr> tmb_TeamID = acr_TeamID r, tmb_UserID = acr_UserID r, tmb_Role = acr_RequestedRole r \<rparr> \<in> set (w_members w'))
    \<and> acr_ID d = i \<and> acr_State d = AccessRequestGranted
    \<and> (\<exists>e. fst (Grant ac i actor' ar' w') = Inl e) \<and> (\<exists>e. fst (Deny ac i reason actor' w') = Inl e)"
proof -
  obtain x w1 m w2 where pen: "pending_request i w = (Inr x, w1)" and cur: "acr_CurrentRole x \<noteq> []"
    and chg: "ChangeMemberRole (acr_TeamID x) (acr_UserID x) (acr_RequestedRole x) ar w1 = (Inr m, w2)"
    and dec: "decide_request ac x AccessRequestGranted actor [] w2 = (Inr d, w')"
    using assms(2) by (auto simp: Grant_def bnd_Inr_iff split: if_splits)
  note p = pending_request_run [OF pen] and c = ChangeMemberRole_run [OF chg]
  have "schema w1" using p(1) assms(1) by simp
  from keeps_run [OF lawful.change_role this chg] have s2: "schema w2" .
  have st: "AccessRequestGranted \<noteq> AccessRequestPending" by (simp add: AccessRequestGranted_def AccessRequestPending_def)
  note e = decide_request_run [OF dec s2 st]
  have none: "\<exists>e. fst (pending_request i w') = Inl e" using pending_request_none e(2) p(2) by simp
  then have "\<exists>e. fst (Grant ac i actor' ar' w') = Inl e" "\<exists>e. fst (Deny ac i reason actor' w') = Inl e"
    by (auto simp: Grant_def Deny_def runs lift_def split: prod.splits sum.splits)
  with p c cur e show ?thesis by auto
qed

definition asking :: world where
  "asking = crew\<lparr>w_requests := [\<lparr> acr_ID = ''r'', acr_TeamID = ''tm_1'', acr_UserID = ''cat'', acr_UserEmail = [], acr_CurrentRole = [],
     acr_RequestedRole = ''owner'', acr_Message = [], acr_State = ''pending'', acr_DecidedBy = None, acr_DecidedByLabel = [],
     acr_DecisionReason = [], acr_DecidedAt = None \<rparr>]\<rparr>"

definition ann_grants :: "world \<Rightarrow> (error + accessRequest) \<times> world" where
  "ann_grants w = Grant plain_access ''r'' (person ''ann'' ''member'') ''owner'' w"

theorem Grant_moves_member_witness:
  "isl (fst (ann_grants (snd (ann_grants asking)))) \<and> team_owners ''tm_1'' (snd (ann_grants asking)) = [''ann'', ''bob'', ''cat'']"
proof -
  have "schema asking" "(case ann_grants asking of (r, w) \<Rightarrow> (isl r, team_owners ''tm_1'' w)) = (False, [''ann'', ''bob'', ''cat''])"
    by code_simp+
  then obtain d where d: "ann_grants asking = (Inr d, snd (ann_grants asking))"
    "team_owners ''tm_1'' (snd (ann_grants asking)) = [''ann'', ''bob'', ''cat'']"
    by (cases "ann_grants asking"; cases "fst (ann_grants asking)") auto
  from Grant_moves_member [OF \<open>schema asking\<close> d(1) [unfolded ann_grants_def]]
  have "isl (fst (ann_grants (snd (ann_grants asking))))" unfolding ann_grants_def by (metis isl_def)
  with d(2) show ?thesis by simp
qed

text \<open>
  Addresses of accounts are compared as they are spelt, addresses of invitations are folded. Somebody whose account
  is spelt with a capital is therefore not recognised, although a member of the team already, and accepting gives
  them a second account.
\<close>

definition folding_access :: access_cfg where
  "folding_access = plain_access\<lparr>ax_auth := plain_auth\<lparr>au_lower := (\<lambda>s. if s = ''Eve@acme'' then ''eve@acme'' else s)\<rparr>\<rparr>"

definition shouting :: world where
  "shouting = crew\<lparr>w_users := [person ''Eve'' ''owner''],
     w_members := [\<lparr> tmb_TeamID = ''tm_1'', tmb_UserID = ''Eve'', tmb_Role = ''owner'' \<rparr>]\<rparr>"

lemma invite_second_account:
  "map_sum id (\<lambda>c. inv_Email (ci_Invite c)) (fst (InvitesCreate folding_access ''i'' ''S'' ''tm_1'' ''Eve@acme'' ''member''
      (person ''Eve'' ''owner'') ''owner'' shouting)) = Inr ''eve@acme''
   \<and> aftermath (knock (snd (InvitesCreate folding_access ''i'' ''S'' ''tm_1'' ''Eve@acme'' ''member''
      (person ''Eve'' ''owner'') ''owner'' shouting))) = (False, [''Eve@acme'', ''eve@acme''], [''Eve'', ''usr_9''], True)"
  by (rule conjI) code_simp+

end
