(* ===== verification/Versions.thy ===== *)
theory Versions
  imports Prelude "HOL-Library.List_Lexorder" "HOL-Library.Product_Lexorder" "HOL-Library.Char_ord"
begin

text \<open>
  Release tags and their order, as the agent (\<open>src/agent/updater/version.go\<close>) and the plane
  (\<open>src/core/agentupdates/version.go\<close>) compute them: two parsers and two comparisons in two Go modules that
  cannot import each other. Both are shown to realise one linear order, and to agree on every tag the plane accepts.
\<close>

section \<open>Strings and numbers\<close>

definition is_digit :: "char \<Rightarrow> bool" where
  "is_digit c \<longleftrightarrow> CHR ''0'' \<le> c \<and> c \<le> CHR ''9''"

text \<open>\<open>strings.Split\<close> by one character, and \<open>strings.Cut\<close>.\<close>

fun split_on :: "char \<Rightarrow> string \<Rightarrow> string list" where
  "split_on c [] = [[]]"
| "split_on c (x # xs) =
     (if x = c then [] # split_on c xs
      else (case split_on c xs of [] \<Rightarrow> [[x]] | y # ys \<Rightarrow> (x # y) # ys))"

definition cut :: "char \<Rightarrow> string \<Rightarrow> string \<times> string \<times> bool" where
  "cut c s = (takeWhile (\<lambda>x. x \<noteq> c) s, drop 1 (dropWhile (\<lambda>x. x \<noteq> c) s), c \<in> set s)"

text \<open>\<open>strconv.Atoi\<close>: a sign, then digits, within 64 bits.\<close>

definition atoi :: "string \<Rightarrow> int option" where
  "atoi s =
     (let (neg, ds) = (case s of [] \<Rightarrow> (False, []) | c # r \<Rightarrow>
          if c = CHR ''-'' then (True, r) else if c = CHR ''+'' then (False, r) else (False, s)) in
      if ds = [] \<or> \<not> list_all is_digit ds then None
      else (let v = (if neg then - int (undec ds) else int (undec ds)) in
            if v < - (2 ^ 63) \<or> v \<ge> 2 ^ 63 then None else Some v))"

definition trim_prefix :: "string \<Rightarrow> string \<Rightarrow> string" where
  "trim_prefix p s = (if has_prefix p s then drop (length p) s else s)"

section \<open>The agent's versions (agent/updater/version.go)\<close>

record version =
  ver_major :: int
  ver_minor :: int
  ver_patch :: int
  ver_pre :: string

text \<open>The three numbers of a version, each refused when it is not a number or negative.\<close>

definition numbers :: "string list \<Rightarrow> string \<Rightarrow> version option" where
  "numbers parts pre =
     (case map atoi parts of
        [Some a, Some b, Some c] \<Rightarrow>
          if a < 0 \<or> b < 0 \<or> c < 0 then None
          else Some \<lparr> ver_major = a, ver_minor = b, ver_patch = c, ver_pre = pre \<rparr>
      | _ \<Rightarrow> None)"

definition parseVersion :: "string \<Rightarrow> version option" where
  "parseVersion s0 =
     (let s = trim_prefix ''v'' (trim_space s0) in
      if s = [] then None
      else (case cut (CHR ''-'') s of (core, pre, _) \<Rightarrow> numbers (split_on (CHR ''.'') core) pre))"

definition compare_pre :: "string \<Rightarrow> string \<Rightarrow> int" where
  "compare_pre a b =
     (if a = b then 0 else if a = [] then 1 else if b = [] then -1 else if a < b then -1 else 1)"

fun compare_pairs :: "(int \<times> int) list \<Rightarrow> int option" where
  "compare_pairs [] = None"
| "compare_pairs ((x, y) # rest) = (if x \<noteq> y then Some (if x < y then -1 else 1) else compare_pairs rest)"

definition compare :: "version \<Rightarrow> version \<Rightarrow> int" where
  "compare a b =
     (case compare_pairs [(ver_major a, ver_major b), (ver_minor a, ver_minor b), (ver_patch a, ver_patch b)] of
        Some r \<Rightarrow> r
      | None \<Rightarrow> compare_pre (ver_pre a) (ver_pre b))"

definition isDowngrade :: "string \<Rightarrow> string \<Rightarrow> bool" where
  "isDowngrade running target =
     (case (parseVersion running, parseVersion target) of
        (Some r, Some t) \<Rightarrow> compare t r < 0
      | _ \<Rightarrow> False)"

text \<open>
  \<open>^v?[0-9]{1,6}\.[0-9]{1,6}\.[0-9]{1,6}(-[0-9A-Za-z.]{1,32})?$\<close>: a run of digits is followed by something that is
  not one, so taking runs whole loses no match.
\<close>

definition tag_char :: "char \<Rightarrow> bool" where
  "tag_char c \<longleftrightarrow> is_digit c \<or> CHR ''A'' \<le> c \<and> c \<le> CHR ''Z'' \<or> CHR ''a'' \<le> c \<and> c \<le> CHR ''z'' \<or> c = CHR ''.''"

definition short_run :: "string \<Rightarrow> bool" where
  "short_run ds \<longleftrightarrow> 1 \<le> length ds \<and> length ds \<le> 6"

definition suffix_ok :: "string \<Rightarrow> bool" where
  "suffix_ok s \<longleftrightarrow> s = [] \<or> hd s = CHR ''-'' \<and> 2 \<le> length s \<and> length s \<le> 33 \<and> list_all tag_char (tl s)"

definition tagShape :: "string \<Rightarrow> bool" where
  "tagShape s0 =
     (let s = trim_prefix ''v'' s0;
          a = takeWhile is_digit s; r = dropWhile is_digit s;
          b = takeWhile is_digit (tl r); r' = dropWhile is_digit (tl r);
          c = takeWhile is_digit (tl r') in
      short_run a \<and> r \<noteq> [] \<and> hd r = CHR ''.'' \<and> short_run b \<and> r' \<noteq> [] \<and> hd r' = CHR ''.'' \<and> short_run c
      \<and> suffix_ok (dropWhile is_digit (tl r')))"

definition validTag :: "string \<Rightarrow> bool" where
  "validTag s \<longleftrightarrow> length s \<le> 48 \<and> tagShape s"

section \<open>The plane's versions (core/agentupdates)\<close>

definition parse :: "string \<Rightarrow> version option" where
  "parse s0 =
     (let s = trim_space (trim_prefix ''v'' (trim_space s0)) in
      if s = [] then None
      else (case cut (CHR ''-'') s of (core, pre, _) \<Rightarrow> numbers (split_on (CHR ''.'') core) pre))"

definition cmp :: "version \<Rightarrow> version \<Rightarrow> int" where
  "cmp a b =
     (case compare_pairs [(ver_major a, ver_major b), (ver_minor a, ver_minor b), (ver_patch a, ver_patch b)] of
        Some r \<Rightarrow> r
      | None \<Rightarrow> compare_pre (ver_pre a) (ver_pre b))"

definition newerThanPanel :: "string \<Rightarrow> string \<Rightarrow> bool" where
  "newerThanPanel want panel =
     (case (parse want, parse panel) of (Some w, Some p) \<Rightarrow> cmp w p > 0 | _ \<Rightarrow> False)"

definition goesBackwards :: "string \<Rightarrow> string \<Rightarrow> bool" where
  "goesBackwards from to =
     (case (parse from, parse to) of (Some f, Some t) \<Rightarrow> cmp t f < 0 | _ \<Rightarrow> False)"

definition ValidTag :: "string \<Rightarrow> bool" where
  "ValidTag s \<longleftrightarrow> length s \<le> 48 \<and> tagShape s"

section \<open>One order\<close>

text \<open>The order both comparisons realise: the numbers, then pre-releases before the release, by their bytes.\<close>

definition version_key :: "version \<Rightarrow> int \<times> int \<times> int \<times> bool \<times> string" where
  "version_key v = (ver_major v, ver_minor v, ver_patch v, ver_pre v = [], ver_pre v)"

lemma compare_key: "compare a b = (if version_key a < version_key b then -1 else if version_key a = version_key b then 0 else 1)"
  by (auto simp: compare_def version_key_def less_prod_def less_eq_prod_def compare_pre_def)

lemma cmp_compare: "cmp a b = compare a b"
  by (simp add: cmp_def compare_def)

lemma versions_order_sym: "compare b a = - compare a b"
  by (auto simp: compare_key)

lemma version_key_inj: "version_key a = version_key b \<Longrightarrow> a = (b :: version)"
  by (cases a, cases b) (simp add: version_key_def)

section \<open>Tags\<close>

lemma is_digit_code: "is_digit c \<longleftrightarrow> 48 \<le> (of_char c :: nat) \<and> (of_char c :: nat) \<le> 57"
  by (simp add: is_digit_def less_eq_char_def)

lemma tag_char_plain: "tag_char c \<Longrightarrow> 45 < (of_char c :: nat) \<and> (of_char c :: nat) < 127"
  by (auto simp: tag_char_def is_digit_code less_eq_char_def)

text \<open>A tag is three runs of digits with dots between, and an optional suffix.\<close>

lemma tagShape_parts:
  assumes "tagShape s"
  obtains a b c p where "trim_prefix ''v'' s = a @ ''.'' @ b @ ''.'' @ c @ p" "short_run a" "short_run b" "short_run c"
    "list_all is_digit a" "list_all is_digit b" "list_all is_digit c" "suffix_ok p" "c = takeWhile is_digit (c @ p)"
proof -
  define t where "t = trim_prefix ''v'' s"
  define a r where "a = takeWhile is_digit t" and "r = dropWhile is_digit t"
  define b r' where "b = takeWhile is_digit (tl r)" and "r' = dropWhile is_digit (tl r)"
  define c p where "c = takeWhile is_digit (tl r')" and "p = dropWhile is_digit (tl r')"
  have sh: "short_run a" "r \<noteq> []" "hd r = CHR ''.''" "short_run b" "r' \<noteq> []" "hd r' = CHR ''.''" "short_run c" "suffix_ok p"
    using assms unfolding tagShape_def Let_def t_def a_def r_def b_def r'_def c_def p_def by auto
  have split: "t = a @ r" "tl r = b @ r'" "tl r' = c @ p"
    unfolding a_def r_def b_def r'_def c_def p_def by simp_all
  have "r = ''.'' @ tl r" "r' = ''.'' @ tl r'" using sh(2,3,5,6) by (cases r; simp) (use sh(5,6) in \<open>cases r'; simp\<close>)
  with split have "t = a @ ''.'' @ b @ ''.'' @ c @ p" by metis
  moreover have "list_all is_digit a" "list_all is_digit b" "list_all is_digit c"
    unfolding a_def b_def c_def list_all_iff by (auto dest: set_takeWhileD)
  moreover have "c = takeWhile is_digit (c @ p)" using split(3) by (simp add: c_def)
  ultimately show ?thesis using that sh unfolding t_def by blast
qed

lemma tagShape_chars:
  assumes "tagShape s" "x \<in> set (trim_prefix ''v'' s)"
  shows "tag_char x \<or> x = CHR ''-''"
proof -
  obtain a b c p where e: "trim_prefix ''v'' s = a @ ''.'' @ b @ ''.'' @ c @ p"
    "list_all is_digit a" "list_all is_digit b" "list_all is_digit c" "suffix_ok p"
    using tagShape_parts [OF assms(1)] by metis
  have "y \<in> set p \<Longrightarrow> tag_char y \<or> y = CHR ''-''" for y
    using e(5) by (cases p) (auto simp: suffix_ok_def list_all_iff)
  then show ?thesis using assms(2) e(2-4) unfolding e(1) by (auto simp: list_all_iff tag_char_def)
qed

lemma trim_prefix_set: "set s \<subseteq> set (trim_prefix p s) \<union> set p"
  by (auto simp: trim_prefix_def has_prefix_iff)

lemma tag_trimmed:
  assumes "tagShape s"
  shows "trim_space s = s" "trim_space (trim_prefix ''v'' s) = trim_prefix ''v'' s"
proof -
  have plain: "32 < (of_char x :: nat) \<and> (of_char x :: nat) < 127" if "x \<in> set (trim_prefix ''v'' s)" for x
    using tagShape_chars [OF assms that] tag_char_plain [of x] by auto
  then show "trim_space (trim_prefix ''v'' s) = trim_prefix ''v'' s" by (rule trim_space_plain)
  show "trim_space s = s"
  proof (rule trim_space_plain)
    fix x assume "x \<in> set s"
    then have "x \<in> set (trim_prefix ''v'' s) \<or> x = CHR ''v''" using trim_prefix_set [of s "''v''"] by auto
    with plain show "32 < (of_char x :: nat) \<and> (of_char x :: nat) < 127" by auto
  qed
qed

lemma parse_tag: "tagShape s \<Longrightarrow> parse s = parseVersion s"
  by (simp add: parse_def parseVersion_def tag_trimmed)

text \<open>The numbers of a tag are small, so reading them never overflows.\<close>

lemma undec_bound: "list_all is_digit ds \<Longrightarrow> undec ds < 10 ^ length ds"
proof (induction ds rule: rev_induct)
  case (snoc d ds)
  then have "undigit d \<le> 9" "undec ds < 10 ^ length ds" by (auto simp: undigit_def is_digit_code)
  then show ?case by (simp add: undec_def)
qed (simp add: undec_def)

lemma atoi_run:
  assumes "list_all is_digit ds" "short_run ds"
  shows "atoi ds = Some (int (undec ds))"
proof -
  obtain d r where ds: "ds = d # r" using assms(2) by (cases ds) (auto simp: short_run_def)
  then have "d \<noteq> CHR ''-''" "d \<noteq> CHR ''+''" using assms(1) by (auto simp: is_digit_code)
  moreover have "undec ds < 10 ^ 6"
  proof (rule less_le_trans [OF undec_bound [OF assms(1)]])
    show "(10 :: nat) ^ length ds \<le> 10 ^ 6" using assms(2) by (intro power_increasing) (auto simp: short_run_def)
  qed
  then have "int (undec ds) < 2 ^ 63" by simp
  ultimately show ?thesis using assms(1) ds by (simp add: atoi_def)
qed

lemma split_on_free: "c \<notin> set s \<Longrightarrow> split_on c s = [s]"
  by (induction s) auto

lemma split_on_append: "c \<notin> set s \<Longrightarrow> split_on c (s @ c # t) = s # split_on c t"
  by (induction s) auto

lemma digits_free: "list_all is_digit ds \<Longrightarrow> CHR ''.'' \<notin> set ds \<and> CHR ''-'' \<notin> set ds"
  by (auto simp: list_all_iff is_digit_code)

lemma parseVersion_tag:
  assumes "tagShape s"
  obtains v where "parseVersion s = Some v" "0 \<le> ver_major v" "0 \<le> ver_minor v" "0 \<le> ver_patch v"
proof -
  obtain a b c p where e: "trim_prefix ''v'' s = a @ ''.'' @ b @ ''.'' @ c @ p" "short_run a" "short_run b" "short_run c"
    "list_all is_digit a" "list_all is_digit b" "list_all is_digit c" "suffix_ok p"
    using tagShape_parts [OF assms] by metis
  let ?core = "a @ ''.'' @ b @ ''.'' @ c"
  note free = digits_free [OF e(5)] digits_free [OF e(6)] digits_free [OF e(7)]
  have nodash: "CHR ''-'' \<notin> set ?core" using free by auto
  have "takeWhile (\<lambda>x. x \<noteq> CHR ''-'') (?core @ p) = ?core"
  proof (cases p)
    case Nil
    show ?thesis unfolding Nil append_Nil2 takeWhile_eq_all_conv using nodash by blast
  next
    case (Cons q qs)
    with e(8) have "q = CHR ''-''" by (simp add: suffix_ok_def)
    then show ?thesis unfolding Cons using nodash by (subst takeWhile_append2) auto
  qed
  then obtain pre d where cut: "cut (CHR ''-'') (?core @ p) = (?core, pre, d)" by (simp add: cut_def)
  have "split_on (CHR ''.'') ?core = [a, b, c]" using free by (simp add: split_on_append split_on_free)
  then have "parseVersion s = numbers [a, b, c] pre"
    using cut by (simp add: parseVersion_def tag_trimmed(1) [OF assms] e(1))
  then show ?thesis
    using that e(2-7) by (simp add: numbers_def atoi_run)
qed

section \<open>Claims\<close>

text \<open>
  One order of versions. The agent's comparison and the plane's are the same function, and it is the
  comparison of a linear order: by the three numbers, then any pre-release below the release, then the bytes of
  the pre-release. Equal is only the same version.
\<close>

theorem versions_one_order:
  "cmp a b = compare a b \<and> (compare a b < 0 \<longleftrightarrow> version_key a < version_key b) \<and> (compare a b = 0 \<longleftrightarrow> a = b)
   \<and> compare b a = - compare a b"
  using version_key_inj [of a b] by (auto simp: cmp_compare compare_key)

text \<open>
  The two sides agree on tags. A tag that has the shape the plane accepts always parses, on both sides alike and
  without overflow, so the rollback flag the plane derives is set exactly when the agent would refuse to
  move, and it holds no character that could leave the path of a release.
\<close>

theorem rollback_flag_agrees:
  assumes "ValidTag from" "ValidTag to"
  shows "goesBackwards from to = isDowngrade from to \<and> newerThanPanel to from = isDowngrade to from
    \<and> validTag to \<and> parseVersion to \<noteq> None \<and> CHR ''/'' \<notin> set to \<and> CHR ''?'' \<notin> set to \<and> CHR ''%'' \<notin> set to"
proof -
  have tags: "tagShape from" "tagShape to" using assms by (simp_all add: ValidTag_def)
  obtain f where f: "parseVersion from = Some f" using parseVersion_tag [OF tags(1)] by blast
  obtain t where t: "parseVersion to = Some t" using parseVersion_tag [OF tags(2)] by blast
  have "compare t f > 0 \<longleftrightarrow> compare f t < 0" using versions_order_sym [of f t] by simp
  with f t have "goesBackwards from to = isDowngrade from to" "newerThanPanel to from = isDowngrade to from"
    by (simp_all add: goesBackwards_def isDowngrade_def newerThanPanel_def parse_tag tags cmp_compare)
  moreover have "x \<notin> set to" if "\<not> tag_char x" "x \<noteq> CHR ''-''" "x \<noteq> CHR ''v''" for x
    using tagShape_chars [OF tags(2)] trim_prefix_set [of to "''v''"] that by auto
  then have "CHR ''/'' \<notin> set to" "CHR ''?'' \<notin> set to" "CHR ''%'' \<notin> set to"
    by (simp_all add: tag_char_def is_digit_def less_eq_char_def)
  ultimately show ?thesis using assms(2) t by (simp add: ValidTag_def validTag_def)
qed

theorem rollback_flag_agrees_witness:
  "goesBackwards ''v1.2.0'' ''v1.2.0-rc.1'' \<and> isDowngrade ''v1.2.0'' ''v1.2.0-rc.1''"
proof -
  have "ValidTag ''v1.2.0''" "ValidTag ''v1.2.0-rc.1''" "isDowngrade ''v1.2.0'' ''v1.2.0-rc.1''" by code_simp+
  with rollback_flag_agrees [of "''v1.2.0''" "''v1.2.0-rc.1''"] show ?thesis by simp
qed

text \<open>
  The tenth release candidate is a downgrade. Pre-releases are compared as text, so the agent refuses to move from
  the ninth candidate to the tenth, and so does a plane that has the ninth set, which marks it a rollback.
\<close>

theorem tenth_candidate_refused:
  "isDowngrade ''v1.2.0-rc.9'' ''v1.2.0-rc.10'' \<and> goesBackwards ''v1.2.0-rc.9'' ''v1.2.0-rc.10''
   \<and> newerThanPanel ''v1.2.0-rc.9'' ''v1.2.0-rc.10''"
  by code_simp

end
