(* ===== verification/Updater.thy ===== *)
theory Updater
  imports Versions
begin

text \<open>
  The self-update of an agent (\<open>src/agent/updater\<close>): the trust store, the signed manifest, staging, pre-flight, the
  two-slot swap, the boot marker with its probation, and the roll-back that needs no control plane.

  The files the updater touches are those of \<open>path\<close>; a file is its bytes, or the JSON document of a
  marker or a note. Every system call may fail, decided by an arbitrary function of its number; a failing write leaves
  arbitrary bytes behind. A crash or a power cut is the fault pattern in which every call from some point on
  fails, since a failed call changes nothing else; so theorems about all patterns are theorems about all crashes.
  The digest, the signature check, what a binary prints when it is run, and what the network serves are parameters.
\<close>

section \<open>Trust store (keys.go)\<close>

text \<open>\<open>base64.StdEncoding\<close>: line breaks are ignored, padding is required and only at the end.\<close>

definition b64_value :: "char \<Rightarrow> nat option" where
  "b64_value c = (let n = of_char c :: nat in
     if 65 \<le> n \<and> n \<le> 90 then Some (n - 65) else if 97 \<le> n \<and> n \<le> 122 then Some (n - 71)
     else if 48 \<le> n \<and> n \<le> 57 then Some (n + 4) else if n = 43 then Some 62 else if n = 47 then Some 63 else None)"

fun b64_quads :: "string \<Rightarrow> string option" where
  "b64_quads [] = Some []"
| "b64_quads (a # b # c # d # rest) =
     (case (b64_value a, b64_value b) of
        (Some x, Some y) \<Rightarrow>
          (let first = char_of (x * 4 + y div 16) :: char in
           if c = CHR ''='' then (if d = CHR ''='' \<and> rest = [] then Some [first] else None)
           else (case b64_value c of
               None \<Rightarrow> None
             | Some z \<Rightarrow>
                 (let second = char_of (y mod 16 * 16 + z div 4) :: char in
                  if d = CHR ''='' then (if rest = [] then Some [first, second] else None)
                  else (case (b64_value d, b64_quads rest) of
                      (Some v, Some tail) \<Rightarrow> Some (first # second # char_of (z mod 4 * 64 + v) # tail)
                    | _ \<Rightarrow> None))))
      | _ \<Rightarrow> None)"
| "b64_quads _ = None"

definition b64_decode :: "string \<Rightarrow> string option" where
  "b64_decode s = b64_quads (filter (\<lambda>c. c \<noteq> CHR 0x0D \<and> c \<noteq> CHR 0x0A) s)"

definition PublicKeySize :: nat where "PublicKeySize = 32"
definition SignatureSize :: nat where "SignatureSize = 64"
definition maxTrustedKeys :: nat where "maxTrustedKeys = 2"

text \<open>A malformed entry is dropped; the loop stops at the second key.\<close>

definition key_of :: "string \<Rightarrow> string option" where
  "key_of entry0 =
     (let entry = trim_space entry0 in
      if entry = [] then None
      else (case b64_decode entry of
          None \<Rightarrow> None
        | Some b \<Rightarrow> if length b \<noteq> PublicKeySize then None else Some b))"

definition trustedKeys :: "string \<Rightarrow> string list" where
  "trustedKeys publicKeys = take maxTrustedKeys (List.map_filter key_of (split_on (CHR '','') publicKeys))"

section \<open>The signed manifest (manifest.go)\<close>

record upd_cfg =
  uc_Version :: string
  uc_Disabled :: bool
  uc_binary :: bool
  uc_writable :: bool
  uc_stateDir :: bool
  uc_publicKeys :: string
  uc_arch :: string
  uc_Probation :: int
  uc_verify :: "string \<Rightarrow> string \<Rightarrow> string \<Rightarrow> bool"
  uc_sha256 :: "string \<Rightarrow> string"
  uc_run :: "string \<Rightarrow> string + string"

definition ErrNoTrustedKeys :: string where
  "ErrNoTrustedKeys = ''updater: this build trusts no release key''"
definition ErrBadSignature :: string where
  "ErrBadSignature = ''updater: manifest signature does not verify''"
definition ErrNotInManifest :: string where
  "ErrNotInManifest = ''updater: artifact is not listed in the manifest''"
definition ErrDigestMismatch :: string where
  "ErrDigestMismatch = ''updater: downloaded artifact does not match its signed digest''"

text \<open>\<open>hex.DecodeString\<close>.\<close>

definition hex_value :: "char \<Rightarrow> nat option" where
  "hex_value c = (let n = of_char c :: nat in
     if 48 \<le> n \<and> n \<le> 57 then Some (n - 48) else if 97 \<le> n \<and> n \<le> 102 then Some (n - 87)
     else if 65 \<le> n \<and> n \<le> 70 then Some (n - 55) else None)"

fun hex_decode :: "string \<Rightarrow> string option" where
  "hex_decode [] = Some []"
| "hex_decode [c] = None"
| "hex_decode (a # b # rest) =
     (case (hex_value a, hex_value b, hex_decode rest) of
        (Some x, Some y, Some tail) \<Rightarrow> Some (char_of (x * 16 + y) # tail)
      | _ \<Rightarrow> None)"

text \<open>One line of \<open>sha256sum\<close> output: 64 hex digits, a space, an optional mark and the name.\<close>

definition manifest_line :: "string \<Rightarrow> (string \<times> string) option" where
  "manifest_line line0 =
     (let line = trim_space line0 in
      if line = [] \<or> has_prefix ''#'' line then None
      else (case cut (CHR '' '') line of (digest, rest, found) \<Rightarrow>
          if \<not> found \<or> length digest \<noteq> 64 then None
          else (case hex_decode digest of
              None \<Rightarrow> None
            | Some raw \<Rightarrow>
                (let name = trim_prefix ''./'' (trim_prefix ''*'' (trim_space rest)) in
                 if name = [] then None else Some (name, raw)))))"

text \<open>A later line for the same name overwrites an earlier one.\<close>

definition parseManifest :: "string \<Rightarrow> string + (string \<rightharpoonup> string)" where
  "parseManifest sums =
     (let out = foldl (\<lambda>m line. case manifest_line line of None \<Rightarrow> m | Some (name, raw) \<Rightarrow> m(name \<mapsto> raw))
                  Map.empty (split_on (CHR 0x0A) sums) in
      if list_all (\<lambda>line. manifest_line line = None) (split_on (CHR 0x0A) sums)
      then Inl ''updater: manifest lists no artifacts'' else Inr out)"

definition verifyManifest :: "upd_cfg \<Rightarrow> string \<Rightarrow> string \<Rightarrow> string + (string \<rightharpoonup> string)" where
  "verifyManifest cfg sums sig =
     (let keys = trustedKeys (uc_publicKeys cfg) in
      if keys = [] then Inl ErrNoTrustedKeys
      else if length sig \<noteq> SignatureSize
      then Inl (ErrBadSignature @ '': signature is '' @ dec (length sig) @ '' bytes'')
      else if \<not> list_ex (\<lambda>k. uc_verify cfg k sums sig) keys then Inl ErrBadSignature
      else parseManifest sums)"

definition artifactName :: "string \<Rightarrow> string" where
  "artifactName goarch = ''cypher-agent-linux-'' @ goarch"

section \<open>The host\<close>

datatype path = Binary | Staged | Previous | MarkerFile | MarkerTmp | NoteFile | NoteTmp

record marker =
  mk_Target :: string
  mk_Previous :: string
  mk_Attempts :: int
  mk_Probation :: int

datatype blob = Bytes string | MarkerDoc marker | NoteDoc string string

datatype phase = Idle | PhasePending | Verifying | Downloading | Swapping | RolledBack | PhaseFailed | PhaseDisabled

record node =
  nd_fs :: "path \<rightharpoonup> blob"
  nd_phase :: phase
  nd_target :: string
  nd_previous :: string
  nd_detail :: string
  nd_busy :: bool
  nd_dialed :: bool
  nd_exited :: bool
  nd_now :: int
  nd_calls :: nat
  nd_faults :: "nat \<Rightarrow> string option"
  nd_torn :: "nat \<Rightarrow> string"

type_synonym 'a act = "(node, string, 'a) comp"

definition sys :: "unit act" where
  "sys = (\<lambda>n. (case nd_faults n (nd_calls n) of None \<Rightarrow> Inr () | Some msg \<Rightarrow> Inl msg, n\<lparr>nd_calls := Suc (nd_calls n)\<rparr>))"

definition put_file :: "path \<Rightarrow> blob option \<Rightarrow> node \<Rightarrow> node" where
  "put_file p b n = n\<lparr>nd_fs := (nd_fs n)(p := b)\<rparr>"

definition context_of :: "string \<Rightarrow> 'a act \<Rightarrow> 'a act" where
  "context_of msg m = mapE (\<lambda>e. msg @ '': '' @ e) m"

text \<open>\<open>os.OpenFile\<close> with create and truncate, \<open>Write\<close>, \<open>Sync\<close> and \<open>Close\<close>.\<close>

definition create_file :: "path \<Rightarrow> unit act" where
  "create_file p = bnd sys (\<lambda>_. modify (put_file p (Some (Bytes []))))"

definition write_file :: "path \<Rightarrow> blob \<Rightarrow> unit act" where
  "write_file p b = (\<lambda>n. case sys n of
       (Inl e, n') \<Rightarrow> (Inl e, put_file p (Some (Bytes (nd_torn n (nd_calls n)))) n')
     | (Inr _, n') \<Rightarrow> (Inr (), put_file p (Some b) n'))"

definition ErrNotExist :: string where "ErrNotExist = ''file does not exist''"

definition remove_file :: "path \<Rightarrow> unit act" where
  "remove_file p = bnd sys (\<lambda>_. bnd (gets (\<lambda>n. nd_fs n p)) (\<lambda>f.
     case f of None \<Rightarrow> throw ErrNotExist | Some _ \<Rightarrow> modify (put_file p None)))"

definition read_file :: "path \<Rightarrow> blob act" where
  "read_file p = bnd sys (\<lambda>_. bnd (gets (\<lambda>n. nd_fs n p)) (\<lambda>f.
     case f of None \<Rightarrow> throw ErrNotExist | Some b \<Rightarrow> ret b))"

definition rename_file :: "path \<Rightarrow> path \<Rightarrow> unit act" where
  "rename_file p q = bnd sys (\<lambda>_. bnd (gets (\<lambda>n. nd_fs n p)) (\<lambda>f.
     case f of None \<Rightarrow> throw ErrNotExist | Some b \<Rightarrow> modify (\<lambda>n. put_file p None (put_file q (Some b) n))))"

definition link_file :: "path \<Rightarrow> path \<Rightarrow> unit act" where
  "link_file p q = bnd sys (\<lambda>_. bnd (gets (\<lambda>n. (nd_fs n p, nd_fs n q))) (\<lambda>f.
     case f of
       (None, _) \<Rightarrow> throw ErrNotExist
     | (Some b, Some _) \<Rightarrow> throw ''file exists''
     | (Some b, None) \<Rightarrow> modify (put_file q (Some b))))"

definition on_fail :: "'a act \<Rightarrow> unit act \<Rightarrow> 'a act" where
  "on_fail m h = bnd (attempt m) (\<lambda>r. case r of Inl e \<Rightarrow> bnd (attempt h) (\<lambda>_. throw e) | Inr x \<Rightarrow> ret x)"

section \<open>Slots and files (swap.go)\<close>

definition drop_tmp :: "path \<Rightarrow> unit act" where
  "drop_tmp tmp = bnd (attempt sys) (\<lambda>_. remove_file tmp)"

definition writeFileSynced :: "path \<Rightarrow> path \<Rightarrow> blob \<Rightarrow> unit act" where
  "writeFileSynced p tmp data =
     bnd (create_file tmp) (\<lambda>_.
     bnd (on_fail (write_file tmp data) (drop_tmp tmp)) (\<lambda>_.
     bnd (on_fail sys (drop_tmp tmp)) (\<lambda>_.
     bnd (on_fail sys (remove_file tmp)) (\<lambda>_.
     on_fail (rename_file tmp p) (remove_file tmp)))))"

definition stage_artifact :: "upd_cfg \<Rightarrow> string \<Rightarrow> string \<Rightarrow> unit act" where
  "stage_artifact cfg body want =
     bnd (context_of ''updater: creating the staged binary'' (create_file Staged)) (\<lambda>_.
     bnd (context_of ''updater: downloading'' (on_fail (write_file Staged (Bytes body)) (drop_tmp Staged))) (\<lambda>_.
     bnd (context_of ''updater: syncing the staged binary'' (on_fail sys (drop_tmp Staged))) (\<lambda>_.
     bnd (context_of ''updater: closing the staged binary'' (on_fail sys (remove_file Staged))) (\<lambda>_.
     if uc_sha256 cfg body \<noteq> want then bnd (attempt (remove_file Staged)) (\<lambda>_. throw ErrDigestMismatch)
     else ret ()))))"

definition firstLine :: "string \<Rightarrow> string" where
  "firstLine s = takeWhile (\<lambda>c. c \<noteq> CHR 0x0A) s"

definition exec_file :: "upd_cfg \<Rightarrow> path \<Rightarrow> string act" where
  "exec_file cfg p = bnd sys (\<lambda>_. bnd (gets (\<lambda>n. nd_fs n p)) (\<lambda>f.
     case f of
       Some (Bytes b) \<Rightarrow> (case uc_run cfg b of Inl e \<Rightarrow> throw e | Inr out \<Rightarrow> ret out)
     | _ \<Rightarrow> throw ErrNotExist))"

definition preflight :: "upd_cfg \<Rightarrow> string \<Rightarrow> unit act" where
  "preflight cfg wantVersion =
     bnd (context_of ''updater: staged binary failed its pre-flight'' (exec_file cfg Staged)) (\<lambda>out.
     let printed = trim_space out in
     if \<not> contains printed wantVersion
     then throw (''updater: staged binary reports '' @ quoted (firstLine printed) @ '', desired state named '' @ quoted wantVersion)
     else ret ())"

definition copyFile :: "path \<Rightarrow> path \<Rightarrow> unit act" where
  "copyFile p q =
     bnd (read_file p) (\<lambda>b.
     bnd (create_file q) (\<lambda>_.
     bnd (write_file q b) (\<lambda>_.
     bnd sys (\<lambda>_. sys))))"

definition clear_previous :: "unit act" where
  "clear_previous =
     bnd (attempt (remove_file Previous)) (\<lambda>r.
     case r of
       Inl e \<Rightarrow> if e \<noteq> ErrNotExist then throw (''updater: clearing the previous slot: '' @ e) else ret ()
     | Inr _ \<Rightarrow> ret ())"

definition keep_previous :: "unit act" where
  "keep_previous =
     bnd (attempt (link_file Binary Previous)) (\<lambda>l.
     case l of
       Inl _ \<Rightarrow> context_of ''updater: keeping the previous binary'' (copyFile Binary Previous)
     | Inr _ \<Rightarrow> ret ())"

definition swap :: "unit act" where
  "swap =
     bnd clear_previous (\<lambda>_.
     bnd keep_previous (\<lambda>_.
     context_of ''updater: installing the new binary'' (rename_file Staged Binary)))"

definition rollback :: "unit act" where
  "rollback =
     bnd (context_of ''updater: no previous binary to roll back to'' (bnd (read_file Previous) (\<lambda>_. ret ()))) (\<lambda>_.
     bnd (context_of ''updater: staging the previous binary'' (copyFile Previous Staged)) (\<lambda>_.
     context_of ''updater: restoring the previous binary'' (rename_file Staged Binary)))"

section \<open>The boot marker (marker.go)\<close>

definition maxAttempts :: int where "maxAttempts = 1"

definition errCorruptMarker :: string where
  "errCorruptMarker = ''updater: boot marker is unreadable; treating it as absent''"

definition readMarker :: "marker option act" where
  "readMarker =
     bnd (attempt (read_file MarkerFile)) (\<lambda>r.
     case r of
       Inl e \<Rightarrow> if e = ErrNotExist then ret None else throw (''updater: reading boot marker: '' @ e)
     | Inr (MarkerDoc m) \<Rightarrow> ret (Some m)
     | Inr _ \<Rightarrow> throw errCorruptMarker)"

definition writeMarker :: "marker \<Rightarrow> unit act" where
  "writeMarker m = writeFileSynced MarkerFile MarkerTmp (MarkerDoc m)"

definition clearMarker :: "unit act" where
  "clearMarker =
     bnd (attempt (remove_file MarkerFile)) (\<lambda>r.
     case r of
       Inl e \<Rightarrow> if e \<noteq> ErrNotExist then throw (''updater: clearing boot marker: '' @ e) else ret ()
     | Inr _ \<Rightarrow> ret ())"

section \<open>The reconciler (updater.go)\<close>

definition disabledReason :: "upd_cfg \<Rightarrow> string" where
  "disabledReason cfg =
     (if uc_Disabled cfg then ''CYPHER_UPDATE_DISABLE is set on this host''
      else if \<not> uc_binary cfg then ''this agent cannot locate its own binary''
      else if \<not> uc_writable cfg
      then ''this agent'' @ [CHR 0x27] @ ''s binary is not writable; it is managed outside the panel''
      else if trustedKeys (uc_publicKeys cfg) = []
      then ''this build trusts no release key, so it can verify no artifact''
      else [])"

text \<open>An excluded host keeps saying so.\<close>

definition setStatus :: "phase \<Rightarrow> string \<Rightarrow> string \<Rightarrow> unit act" where
  "setStatus ph target detail = modify (\<lambda>n.
     if nd_phase n = PhaseDisabled \<and> ph \<noteq> PhaseDisabled then n
     else n\<lparr>nd_phase := ph, nd_target := target, nd_detail := detail\<rparr>)"

text \<open>A process that starts: the fields of \<open>Updater\<close> are fresh, the disk is what it was.\<close>

definition NewUpdater :: "upd_cfg \<Rightarrow> unit act" where
  "NewUpdater cfg = modify (\<lambda>n.
     n\<lparr>nd_phase := (if disabledReason cfg \<noteq> [] then PhaseDisabled else Idle), nd_target := [],
       nd_detail := disabledReason cfg, nd_previous := [], nd_busy := False, nd_dialed := False, nd_exited := False\<rparr>)"

definition Degraded :: "node \<Rightarrow> string option" where
  "Degraded n = (if nd_phase n \<noteq> RolledBack then None else Some (''agent update rolled back: '' @ nd_detail n))"

definition exit_process :: "unit act" where
  "exit_process = modify (nd_exited_update (\<lambda>_. True))"

definition writeRolledBack :: "upd_cfg \<Rightarrow> string \<Rightarrow> string \<Rightarrow> unit act" where
  "writeRolledBack cfg target why =
     (if \<not> uc_stateDir cfg then ret () else writeFileSynced NoteFile NoteTmp (NoteDoc target why))"

definition rollNow :: "upd_cfg \<Rightarrow> marker \<Rightarrow> string \<Rightarrow> unit act" where
  "rollNow cfg m why =
     bnd (attempt rollback) (\<lambda>r.
     case r of
       Inl e \<Rightarrow> setStatus PhaseFailed (mk_Target m) (''rollback failed: '' @ e)
     | Inr _ \<Rightarrow>
         bnd (attempt clearMarker) (\<lambda>_.
         bnd (attempt (writeRolledBack cfg (mk_Target m) why)) (\<lambda>_.
         exit_process)))"

text \<open>The marker of a process put on probation, whose timer \<open>probation\<close> is.\<close>

definition RecoverBoot :: "upd_cfg \<Rightarrow> marker option act" where
  "RecoverBoot cfg =
     (if \<not> uc_binary cfg \<or> \<not> uc_stateDir cfg then ret None
      else
        bnd (attempt readMarker) (\<lambda>r.
        case r of
          Inl _ \<Rightarrow> ret None
        | Inr None \<Rightarrow> ret None
        | Inr (Some m) \<Rightarrow>
            if mk_Attempts m \<ge> maxAttempts
            then bnd (rollNow cfg m ''the new binary did not reach the bus'') (\<lambda>_. ret None)
            else
              (let m' = m\<lparr>mk_Attempts := mk_Attempts m + 1\<rparr> in
               bnd (attempt (writeMarker m')) (\<lambda>_.
               bnd (modify (nd_previous_update (\<lambda>_. mk_Previous m))) (\<lambda>_.
               ret (Some m'))))))"

definition probation_wait :: "upd_cfg \<Rightarrow> int \<Rightarrow> marker \<Rightarrow> int" where
  "probation_wait cfg now m = (if mk_Probation m - now \<le> 0 then uc_Probation cfg else mk_Probation m - now)"

text \<open>The timer has fired.\<close>

definition probation :: "upd_cfg \<Rightarrow> marker \<Rightarrow> unit act" where
  "probation cfg m =
     bnd (gets nd_dialed) (\<lambda>dialed.
     if dialed then ret ()
     else rollNow cfg m ''the new binary did not reach the bus within its probation'')"

definition DialedHome :: "upd_cfg \<Rightarrow> unit act" where
  "DialedHome cfg =
     bnd (gets nd_dialed) (\<lambda>dialed.
     if dialed then ret ()
     else
       bnd (modify (nd_dialed_update (\<lambda>_. True))) (\<lambda>_.
       if \<not> uc_stateDir cfg then ret () else bnd (attempt clearMarker) (\<lambda>_. ret ())))"

definition ReadRolledBack :: "upd_cfg \<Rightarrow> unit act" where
  "ReadRolledBack cfg =
     (if \<not> uc_stateDir cfg then ret ()
      else
        bnd (attempt (read_file NoteFile)) (\<lambda>r.
        case r of
          Inl _ \<Rightarrow> ret ()
        | Inr b \<Rightarrow>
            bnd (attempt (remove_file NoteFile)) (\<lambda>_.
            (case (case b of NoteDoc t d \<Rightarrow> (t, if d = [] then ''an update was rolled back'' else d)
                   | _ \<Rightarrow> ([], ''an update was rolled back'')) of
               (target, detail) \<Rightarrow>
                 modify (\<lambda>n. n\<lparr>nd_phase := RolledBack, nd_target := target, nd_previous := uc_Version cfg, nd_detail := detail\<rparr>)))))"

definition releaseBase :: string where
  "releaseBase = ''https://github.com/MaramHarsha/CypherPanel/releases/download/''"

definition trim_slash :: "string \<Rightarrow> string" where
  "trim_slash s = (if s \<noteq> [] \<and> last s = CHR ''/'' then butlast s else s)"

type_synonym network = "string \<Rightarrow> string + string"

text \<open>What is fetched and verified before anything is written: the digest signed for this host's artifact.\<close>

definition signed_digest :: "upd_cfg \<Rightarrow> network \<Rightarrow> string \<Rightarrow> string act" where
  "signed_digest cfg net base =
     (case net (base @ ''/'' @ ''SHA256SUMS'') of
        Inl e \<Rightarrow> throw (''fetching SHA256SUMS: '' @ e)
      | Inr sums \<Rightarrow>
          (case net (base @ ''/'' @ ''SHA256SUMS.sig'') of
             Inl e \<Rightarrow> throw (''fetching SHA256SUMS.sig: '' @ e)
           | Inr sig \<Rightarrow>
               (case verifyManifest cfg sums sig of
                  Inl e \<Rightarrow> throw e
                | Inr man \<Rightarrow>
                    (case man (artifactName (uc_arch cfg)) of
                       None \<Rightarrow> throw (ErrNotInManifest @ '': '' @ artifactName (uc_arch cfg))
                     | Some digest \<Rightarrow> ret digest))))"

text \<open>The marker goes to disk before the swap.\<close>

definition install :: "upd_cfg \<Rightarrow> string \<Rightarrow> unit act" where
  "install cfg want =
     bnd (setStatus Swapping want (''installing '' @ want)) (\<lambda>_.
     bnd (gets nd_now) (\<lambda>now.
     bnd (on_fail (writeMarker \<lparr> mk_Target = want, mk_Previous = uc_Version cfg, mk_Attempts = 0,
            mk_Probation = now + uc_Probation cfg \<rparr>) (remove_file Staged)) (\<lambda>_.
     bnd (on_fail swap (bnd (attempt clearMarker) (\<lambda>_. remove_file Staged))) (\<lambda>_.
     exit_process))))"

definition update :: "upd_cfg \<Rightarrow> network \<Rightarrow> string \<Rightarrow> string \<Rightarrow> unit act" where
  "update cfg net want artifactBase =
     (if \<not> validTag want then throw (quoted want @ '' does not look like a release tag'')
      else
        (let base0 = trim_space artifactBase;
             base = trim_slash (if base0 = [] then releaseBase @ want else base0) in
         if contains base ''..'' then throw (''refusing an artifact base containing '' @ quoted ''..'')
         else
           bnd (setStatus Verifying want ''verifying the release manifest'') (\<lambda>_.
           bnd (signed_digest cfg net base) (\<lambda>digest.
           let name = artifactName (uc_arch cfg) in
           bnd (setStatus Downloading want (''downloading '' @ name)) (\<lambda>_.
           (case net (base @ ''/'' @ name) of
              Inl e \<Rightarrow> throw (''downloading '' @ name @ '': '' @ e)
            | Inr body \<Rightarrow>
                bnd (stage_artifact cfg body digest) (\<lambda>_.
                bnd (setStatus Verifying want ''pre-flighting the new binary'') (\<lambda>_.
                bnd (on_fail (preflight cfg want) (remove_file Staged)) (\<lambda>_.
                install cfg want)))))))))"

record update_spec =
  us_Version :: string
  us_ArtifactBase :: string
  us_Rollback :: bool

text \<open>\<open>quiet\<close>: the host went quiet before the process was told to stop.\<close>

definition Apply :: "upd_cfg \<Rightarrow> network \<Rightarrow> bool \<Rightarrow> update_spec \<Rightarrow> unit act" where
  "Apply cfg net quiet spec =
     (if disabledReason cfg \<noteq> [] then ret ()
      else
        (let want = trim_space (us_Version spec) in
         if want = [] \<or> want = uc_Version cfg then setStatus Idle [] []
         else if isDowngrade (uc_Version cfg) want \<and> \<not> us_Rollback spec
         then setStatus PhaseFailed want (''refusing to move backwards from '' @ uc_Version cfg
                @ ''; the panel must allow a rollback explicitly'')
         else
           bnd (gets nd_busy) (\<lambda>busy.
           if busy then ret ()
           else
             bnd (modify (nd_busy_update (\<lambda>_. True))) (\<lambda>_.
             bnd (setStatus PhasePending want ''waiting for the host to go quiet'') (\<lambda>_.
             bnd (if \<not> quiet then setStatus Idle want []
                  else bnd (attempt (update cfg net want (us_ArtifactBase spec))) (\<lambda>r.
                       case r of Inl e \<Rightarrow> setStatus PhaseFailed want e | Inr _ \<Rightarrow> ret ())) (\<lambda>_.
             modify (nd_busy_update (\<lambda>_. False))))))))"

section \<open>A start of the agent (agent/cmd/cypher-agent/main.go)\<close>

text \<open>
  The updater is built, then the identity is loaded, then the marker is looked at, then the bus is dialled. \<open>identity\<close> and
  \<open>reaches\<close> say whether this binary on this host gets past loading its identity and reaches the bus.
\<close>

definition run_agent :: "upd_cfg \<Rightarrow> bool \<Rightarrow> bool \<Rightarrow> marker option act" where
  "run_agent cfg identity reaches =
     bnd (NewUpdater cfg) (\<lambda>_.
     if \<not> identity then bnd exit_process (\<lambda>_. throw ''loading identity'')
     else
       bnd (RecoverBoot cfg) (\<lambda>armed.
       bnd (gets nd_exited) (\<lambda>gone.
       if gone then ret None
       else
         bnd (ReadRolledBack cfg) (\<lambda>_.
         if \<not> reaches then bnd exit_process (\<lambda>_. throw ''connecting to the bus'')
         else bnd (DialedHome cfg) (\<lambda>_. ret armed)))))"

end
