(* ===== verification/Updater_Inv.thy ===== *)
theory Updater_Inv
  imports Updater
begin

text \<open>
  What an update can do to a host, under every pattern of failing system calls and so at every point a crash can
  hit: which files an operation touches, the chain of trust of the binaries in the slots, the roll-back of a binary
  that does not reach the bus, and the cases in which it does not happen or goes too far.
\<close>

section \<open>What an operation touches\<close>

definition touches :: "path set \<Rightarrow> 'a act \<Rightarrow> bool" where
  "touches P m \<longleftrightarrow> (\<forall>n. nd_faults (snd (m n)) = nd_faults n \<and> nd_calls n \<le> nd_calls (snd (m n))
     \<and> (\<forall>q. q \<notin> P \<longrightarrow> nd_fs (snd (m n)) q = nd_fs n q))"

named_theorems tch \<open>the files an operation touches\<close>

lemma touchesI:
  assumes "\<And>n. nd_faults (snd (m n)) = nd_faults n" "\<And>n. nd_calls n \<le> nd_calls (snd (m n))"
    "\<And>n q. q \<notin> P \<Longrightarrow> nd_fs (snd (m n)) q = nd_fs n q"
  shows "touches P m"
  using assms by (simp add: touches_def)

lemma touchesD:
  assumes "touches P m" "m n = (r, n')"
  shows "nd_faults n' = nd_faults n" "nd_calls n \<le> nd_calls n'" "q \<notin> P \<Longrightarrow> nd_fs n' q = nd_fs n q"
  using assms unfolding touches_def by (metis snd_conv)+

lemma touches_mono: "touches P m \<Longrightarrow> P \<subseteq> Q \<Longrightarrow> touches Q m"
  by (auto simp: touches_def)

lemma touches_basic [tch]: "touches P (ret x)" "touches P (throw e)" "touches P (gets f)" "touches P sys"
  by (simp_all add: touches_def sys_def)

lemma touches_bnd [tch]: "touches P m \<Longrightarrow> (\<And>x. touches P (f x)) \<Longrightarrow> touches P (bnd m f)"
proof (rule touchesI)
  fix n q
  assume m: "touches P m" and f: "\<And>x. touches P (f x)"
  obtain r n1 where r: "m n = (r, n1)" by fastforce
  note one = touchesD [OF m r]
  have "nd_faults (snd (bnd m f n)) = nd_faults n1 \<and> nd_calls n1 \<le> nd_calls (snd (bnd m f n))
      \<and> (\<forall>q. q \<notin> P \<longrightarrow> nd_fs (snd (bnd m f n)) q = nd_fs n1 q)"
    using f by (cases r) (auto simp: bnd_run r touches_def)
  with one show "nd_faults (snd (bnd m f n)) = nd_faults n" "nd_calls n \<le> nd_calls (snd (bnd m f n))"
    "q \<notin> P \<Longrightarrow> nd_fs (snd (bnd m f n)) q = nd_fs n q" by auto
qed

lemma touches_attempt [tch]: "touches P m \<Longrightarrow> touches P (attempt m)"
  by (simp add: touches_def attempt_run case_prod_unfold)

lemma touches_mapE [tch]: "touches P m \<Longrightarrow> touches P (mapE h m)"
  by (simp add: touches_def mapE_run case_prod_unfold split: sum.split)

lemma touches_cases [tch]:
  "(b \<Longrightarrow> touches P m) \<Longrightarrow> (\<not> b \<Longrightarrow> touches P m') \<Longrightarrow> touches P (if b then m else m')"
  "(x = None \<Longrightarrow> touches P m) \<Longrightarrow> (\<And>y. x = Some y \<Longrightarrow> touches P (f y)) \<Longrightarrow> touches P (case x of None \<Rightarrow> m | Some y \<Rightarrow> f y)"
  "(\<And>e. s = Inl e \<Longrightarrow> touches P (g e)) \<Longrightarrow> (\<And>y. s = Inr y \<Longrightarrow> touches P (h y)) \<Longrightarrow> touches P (case s of Inl e \<Rightarrow> g e | Inr y \<Rightarrow> h y)"
  "(\<And>a c. p = (a, c) \<Longrightarrow> touches P (k a c)) \<Longrightarrow> touches P (case p of (a, c) \<Rightarrow> k a c)"
  "(\<And>t. z = Bytes t \<Longrightarrow> touches P (k1 t)) \<Longrightarrow> (\<And>t. z = MarkerDoc t \<Longrightarrow> touches P (k2 t)) \<Longrightarrow> (\<And>t u. z = NoteDoc t u \<Longrightarrow> touches P (k3 t u))
   \<Longrightarrow> touches P (case z of Bytes t \<Rightarrow> k1 t | MarkerDoc t \<Rightarrow> k2 t | NoteDoc t u \<Rightarrow> k3 t u)"
  by (simp_all split: option.split sum.split prod.split blob.split)

lemma touches_memory:
  assumes "\<And>n. nd_faults (f n) = nd_faults n \<and> nd_calls (f n) = nd_calls n \<and> nd_fs (f n) = nd_fs n"
  shows "touches P (modify f)"
  using assms by (simp add: touches_def)

lemma touches_put [tch]: "p \<in> P \<Longrightarrow> touches P (modify (put_file p b))"
  by (auto simp: touches_def put_file_def)

lemma touches_files [tch]:
  "p \<in> P \<Longrightarrow> touches P (create_file p)" "p \<in> P \<Longrightarrow> touches P (write_file p b)" "p \<in> P \<Longrightarrow> touches P (remove_file p)"
  "touches P (read_file q)" "p \<in> P \<Longrightarrow> q \<in> P \<Longrightarrow> touches P (rename_file p q)" "q \<in> P \<Longrightarrow> touches P (link_file p q)"
  "touches P (exec_file cfg q)"
proof -
  show "touches P (create_file p)" "touches P (remove_file p)" if "p \<in> P"
    unfolding create_file_def remove_file_def using that by (intro tch; simp)+
  show "touches P (write_file p b)" if "p \<in> P"
    using that by (intro touchesI) (auto simp: write_file_def sys_def put_file_def split: option.split)
  show "touches P (read_file q)" "touches P (exec_file cfg q)" unfolding read_file_def exec_file_def by (intro tch)+
  have two: "touches P (modify (\<lambda>n. put_file p None (put_file q (Some b) n)))" if "p \<in> P" "q \<in> P" for b
    using that by (auto simp: touches_def put_file_def)
  show "touches P (rename_file p q)" if "p \<in> P" "q \<in> P"
    unfolding rename_file_def using that by (intro tch two; simp)
  show "touches P (link_file p q)" if "q \<in> P" unfolding link_file_def using that by (intro tch; simp)
qed

lemma touches_on_fail [tch]: "touches P m \<Longrightarrow> touches P h \<Longrightarrow> touches P (on_fail m h)"
  unfolding on_fail_def by (intro tch)

lemma touches_context [tch]: "touches P m \<Longrightarrow> touches P (context_of s m)"
  unfolding context_of_def by (intro tch)

lemma touches_synced [tch]: "p \<in> P \<Longrightarrow> tmp \<in> P \<Longrightarrow> touches P (writeFileSynced p tmp b)"
  unfolding writeFileSynced_def drop_tmp_def by (intro tch; simp)

lemma touches_ops [tch]:
  "Staged \<in> P \<Longrightarrow> touches P (stage_artifact cfg body want)" "touches P (preflight cfg want)" "q \<in> P \<Longrightarrow> touches P (copyFile p q)"
  "touches P readMarker" "{MarkerFile, MarkerTmp} \<subseteq> P \<Longrightarrow> touches P (writeMarker m)" "MarkerFile \<in> P \<Longrightarrow> touches P clearMarker"
  "touches P (setStatus ph t d)" "touches P (NewUpdater cfg)" "touches P exit_process"
  "{NoteFile, NoteTmp} \<subseteq> P \<Longrightarrow> touches P (writeRolledBack cfg t why)" "touches P (signed_digest cfg net base)"
proof -
  show "touches P (stage_artifact cfg body want)" if "Staged \<in> P" unfolding stage_artifact_def drop_tmp_def using that by (intro tch; simp)
  show "touches P (preflight cfg want)" unfolding preflight_def Let_def by (intro tch)
  show "touches P (copyFile p q)" if "q \<in> P" unfolding copyFile_def using that by (intro tch; simp)
  show "touches P readMarker" unfolding readMarker_def by (intro tch)
  show "touches P (writeMarker m)" if "{MarkerFile, MarkerTmp} \<subseteq> P" unfolding writeMarker_def using that by (intro tch) auto
  show "touches P clearMarker" if "MarkerFile \<in> P" unfolding clearMarker_def using that by (intro tch; simp)
  show "touches P (setStatus ph t d)" "touches P (NewUpdater cfg)" "touches P exit_process"
    unfolding setStatus_def NewUpdater_def exit_process_def by (intro touches_memory; simp)+
  show "touches P (writeRolledBack cfg t why)" if "{NoteFile, NoteTmp} \<subseteq> P"
    unfolding writeRolledBack_def using that by (intro tch) auto
  show "touches P (signed_digest cfg net base)" unfolding signed_digest_def by (intro tch)
qed

section \<open>Crashes\<close>

text \<open>Calls fail only because the machine or the process goes down: from then on all do.\<close>

definition crash_only :: "(nat \<Rightarrow> string option) \<Rightarrow> bool" where
  "crash_only faults \<longleftrightarrow> (\<forall>i j. i \<le> j \<longrightarrow> faults i \<noteq> None \<longrightarrow> faults j \<noteq> None)"

lemma crash_onlyD: "crash_only f \<Longrightarrow> f i = Some e \<Longrightarrow> i \<le> j \<Longrightarrow> \<exists>e'. f j = Some e'"
  unfolding crash_only_def by (metis not_None_eq option.distinct(1))

definition up :: "node \<Rightarrow> bool" where
  "up n \<longleftrightarrow> nd_faults n (nd_calls n) = None"

lemma down_stays:
  "crash_only (nd_faults n) \<Longrightarrow> \<not> up n \<Longrightarrow> nd_faults n' = nd_faults n \<Longrightarrow> nd_calls n \<le> nd_calls n' \<Longrightarrow> \<not> up n'"
  unfolding up_def using crash_onlyD by fastforce

lemma sys_run:
  "sys n = (case nd_faults n (nd_calls n) of None \<Rightarrow> Inr () | Some e \<Rightarrow> Inl e, n\<lparr>nd_calls := Suc (nd_calls n)\<rparr>)"
  by (simp add: sys_def)

text \<open>Elimination: the calls behind an outcome.\<close>

lemma bndE:
  assumes "bnd m f n = (r, n')"
  obtains (stop) e where "m n = (Inl e, n')" "r = Inl e" | (go) x n1 where "m n = (Inr x, n1)" "f x n1 = (r, n')"
  using assms by (auto simp: bnd_run split: prod.splits sum.splits)

lemma attemptE:
  assumes "bnd (attempt m) f n = (r, n')"
  obtains q n1 where "m n = (q, n1)" "f q n1 = (r, n')"
  using assms by (auto simp: bnd_run attempt_run split: prod.splits)

lemma contextE:
  assumes "context_of msg m n = (r, n')"
  obtains (stop) e where "m n = (Inl e, n')" "r \<noteq> Inr ()" | (go) "m n = (Inr (), n')" "r = Inr ()"
  using assms by (auto simp: context_of_def mapE_run split: prod.splits sum.splits)

text \<open>The outcome of one system call.\<close>

lemma remove_up: "remove_file p n = (r, n') \<Longrightarrow> up n \<Longrightarrow> nd_fs n' = (nd_fs n)(p := None) \<and> (r = Inr () \<or> r = Inl ErrNotExist)"
  by (cases "nd_fs n p") (auto simp: remove_file_def up_def sys_run runs put_file_def)

lemma remove_down: "remove_file p n = (r, n') \<Longrightarrow> \<not> up n \<Longrightarrow> nd_fs n' = nd_fs n \<and> r \<noteq> Inr ()"
  by (auto simp: remove_file_def up_def sys_run runs)

lemma link_up:
  "link_file p q n = (r, n') \<Longrightarrow> up n \<Longrightarrow> nd_fs n p = Some b \<Longrightarrow> nd_fs n q = None
   \<Longrightarrow> nd_fs n' = (nd_fs n)(q := Some b) \<and> r = Inr ()"
  by (auto simp: link_file_def up_def sys_run runs put_file_def)

lemma link_down: "link_file p q n = (r, n') \<Longrightarrow> \<not> up n \<Longrightarrow> nd_fs n' = nd_fs n \<and> r \<noteq> Inr ()"
  by (auto simp: link_file_def up_def sys_run runs)

lemma rename_up:
  "rename_file p q n = (r, n') \<Longrightarrow> up n \<Longrightarrow> nd_fs n p = Some b \<Longrightarrow> nd_fs n' = (nd_fs n)(q := Some b, p := None) \<and> r = Inr ()"
  by (auto simp: rename_file_def up_def sys_run runs put_file_def)

lemma rename_down: "rename_file p q n = (r, n') \<Longrightarrow> \<not> up n \<Longrightarrow> nd_fs n' = nd_fs n \<and> r \<noteq> Inr ()"
  by (auto simp: rename_file_def up_def sys_run runs)

lemma copyFile_down: "copyFile p q n = (r, n') \<Longrightarrow> \<not> up n \<Longrightarrow> nd_fs n' = nd_fs n \<and> r \<noteq> Inr ()"
  by (auto simp: copyFile_def read_file_def up_def sys_run runs)

definition vetted :: "string set \<Rightarrow> blob option \<Rightarrow> bool" where
  "vetted S f \<longleftrightarrow> (\<exists>b \<in> S. f = Some (Bytes b))"

text \<open>There is a binary, it is a vetted one, and so is the one in the previous slot if there is one.\<close>

definition sound_host :: "string set \<Rightarrow> node \<Rightarrow> bool" where
  "sound_host S n \<longleftrightarrow> vetted S (nd_fs n Binary) \<and> (nd_fs n Previous = None \<or> vetted S (nd_fs n Previous))"

lemma sound_host_cong: "nd_fs n' Binary = nd_fs n Binary \<Longrightarrow> nd_fs n' Previous = nd_fs n Previous \<Longrightarrow> sound_host S n' = sound_host S n"
  by (simp add: sound_host_def)

lemma touches_sound: "touches P m \<Longrightarrow> Binary \<notin> P \<Longrightarrow> Previous \<notin> P \<Longrightarrow> keeps (sound_host S) m"
  unfolding touches_def by (intro keepsI) (auto simp: sound_host_def)

lemma clear_run:
  assumes "clear_previous n = (r, n')"
  shows "up n \<Longrightarrow> nd_fs n' = (nd_fs n)(Previous := None) \<and> r = Inr ()" "\<not> up n \<Longrightarrow> nd_fs n' = nd_fs n"
    "nd_faults n' = nd_faults n" "nd_calls n \<le> nd_calls n'"
proof -
  have "touches {Previous} clear_previous" unfolding clear_previous_def by (intro tch) simp
  from touchesD [OF this assms] show "nd_faults n' = nd_faults n" "nd_calls n \<le> nd_calls n'" by auto
  from assms obtain q n1 where rem: "remove_file Previous n = (q, n1)"
    and rest: "(case q of Inl e \<Rightarrow> if e \<noteq> ErrNotExist then throw (''updater: clearing the previous slot: '' @ e) else ret () | Inr _ \<Rightarrow> ret ()) n1 = (r, n')"
    unfolding clear_previous_def by (rule attemptE)
  from rest have q: "n1 = n'" "q = Inr () \<or> q = Inl ErrNotExist \<longrightarrow> r = Inr ()"
    by (cases q; cases "q = Inl ErrNotExist"; simp)+
  from remove_up [OF rem] q show "up n \<Longrightarrow> nd_fs n' = (nd_fs n)(Previous := None) \<and> r = Inr ()" by auto
  from remove_down [OF rem] q(1) show "\<not> up n \<Longrightarrow> nd_fs n' = nd_fs n" by auto
qed

lemma keep_run:
  assumes "crash_only (nd_faults n)" "keep_previous n = (r, n')"
  shows "up n \<Longrightarrow> nd_fs n Binary = Some b \<Longrightarrow> nd_fs n Previous = None \<Longrightarrow> nd_fs n' = (nd_fs n)(Previous := Some b) \<and> r = Inr ()"
    "\<not> up n \<Longrightarrow> nd_fs n' = nd_fs n \<and> r \<noteq> Inr ()"
proof -
  from assms(2) obtain l n1 where l: "link_file Binary Previous n = (l, n1)"
    and rest: "(case l of Inl _ \<Rightarrow> context_of ''updater: keeping the previous binary'' (copyFile Binary Previous) | Inr _ \<Rightarrow> ret ()) n1 = (r, n')"
    unfolding keep_previous_def by (rule attemptE)
  have "touches {Previous} (link_file Binary Previous)" by (intro tch) simp
  note t = touchesD [OF this l]
  show "nd_fs n' = (nd_fs n)(Previous := Some b) \<and> r = Inr ()"
    if "up n" "nd_fs n Binary = Some b" "nd_fs n Previous = None"
    using link_up [OF l that] rest by simp
  show "nd_fs n' = nd_fs n \<and> r \<noteq> Inr ()" if "\<not> up n"
  proof -
    from link_down [OF l that] obtain e where e: "l = Inl e" "nd_fs n1 = nd_fs n" by (cases l) auto
    have "\<not> up n1" using down_stays [OF assms(1) that t(1,2)] .
    with rest e show ?thesis by (auto elim!: contextE dest: copyFile_down)
  qed
qed

lemma swap_run:
  assumes "crash_only (nd_faults n)" "sound_host S n" "nd_fs n Staged = Some (Bytes b)" "b \<in> S" "swap n = (r, n')"
  shows "sound_host S n' \<and> (r = Inr () \<longrightarrow> nd_fs n' Binary = Some (Bytes b) \<and> nd_fs n' Previous = nd_fs n Binary)"
proof -
  obtain old where old: "nd_fs n Binary = Some (Bytes old)" "old \<in> S" using assms(2) by (auto simp: sound_host_def vetted_def)
  obtain q1 n1 where c: "clear_previous n = (q1, n1)" by fastforce
  note c' = clear_run [OF c]
  show ?thesis
  proof (cases "up n")
    case True
    obtain q2 n2 where k: "keep_previous n1 = (q2, n2)" by fastforce
    from assms(1) c'(3) have co: "crash_only (nd_faults n1)" by simp
    note k' = keep_run [OF co k]
    have sw: "swap n = bnd keep_previous (\<lambda>_. context_of ''updater: installing the new binary'' (rename_file Staged Binary)) n1"
      using c c'(1) [OF True] unfolding swap_def by (simp only: bnd_Inr)
    show ?thesis
    proof (cases "up n1")
      case False
      from k'(2) [OF this] obtain e where e: "q2 = Inl e" "nd_fs n2 = nd_fs n1" by (cases q2) auto
      have "swap n = (Inl e, n2)" unfolding sw using k e(1) by (simp only: bnd_Inl)
      with e c'(1) [OF True] old assms(5) show ?thesis by (auto simp: sound_host_def vetted_def)
    next
      case up1: True
      have k1: "nd_fs n2 = (nd_fs n)(Previous := Some (Bytes old))" "q2 = Inr ()"
        using k'(1) [OF up1, of "Bytes old"] c'(1) [OF True] old by auto
      have "swap n = context_of ''updater: installing the new binary'' (rename_file Staged Binary) n2"
        unfolding sw using k k1(2) by (simp only: bnd_Inr)
      with assms(5) obtain q3 where q3: "rename_file Staged Binary n2 = (q3, n')" "r = Inr () \<longrightarrow> q3 = Inr ()"
        by (auto elim: contextE)
      have "nd_fs n2 Staged = Some (Bytes b)" using k1(1) assms(3) by simp
      from rename_up [OF q3(1) _ this] rename_down [OF q3(1)] q3(2)
      have "nd_fs n' = (nd_fs n2)(Binary := Some (Bytes b), Staged := None) \<or> nd_fs n' = nd_fs n2 \<and> r \<noteq> Inr ()" by (cases "up n2") auto
      with k1(1) old assms(4) show ?thesis by (auto simp: sound_host_def vetted_def)
    qed
  next
    case False
    have d: "\<not> up n1" using down_stays [OF assms(1) False c'(3,4)] .
    have "nd_fs n' = nd_fs n \<and> r \<noteq> Inr ()"
      using assms(5) unfolding swap_def
    proof (rule bndE)
      fix e assume "clear_previous n = (Inl e, n')" "r = Inl e"
      with c c'(2) [OF False] show ?thesis by auto
    next
      fix x m assume m: "clear_previous n = (Inr x, m)"
        "bnd keep_previous (\<lambda>_. context_of ''updater: installing the new binary'' (rename_file Staged Binary)) m = (r, n')"
      from m(1) c have "m = n1" by simp
      obtain q2 n2 where k: "keep_previous n1 = (q2, n2)" by fastforce
      from assms(1) c'(3) have co: "crash_only (nd_faults n1)" by simp
      from keep_run(2) [OF co k d] obtain e where e: "q2 = Inl e" "nd_fs n2 = nd_fs n1" by (cases q2) auto
      from m(2) have "(r, n') = (Inl e, n2)" unfolding \<open>m = n1\<close> using k e(1) by (simp only: bnd_Inl)
      with e c'(2) [OF False] show ?thesis by simp
    qed
    with assms(2) show ?thesis by (simp add: sound_host_def)
  qed
qed

text \<open>Rolling back is safe whatever fails: the binary is replaced only by a complete copy.\<close>

lemma copyFile_Inr:
  assumes "copyFile p q n = (Inr (), n')"
  shows "nd_fs n p \<noteq> None" "nd_fs n' q = nd_fs n p"
  using assms
  by (auto simp: copyFile_def read_file_def create_file_def write_file_def runs sys_run put_file_def split: option.splits)

lemma rollback_run:
  assumes "rollback n = (r, n')" "sound_host S n"
  shows "sound_host S n'" "r = Inr () \<Longrightarrow> nd_fs n' Binary = nd_fs n Previous \<and> nd_fs n' Previous = nd_fs n Previous"
proof -
  have "sound_host S n' \<and> (r = Inr () \<longrightarrow> nd_fs n' Binary = nd_fs n Previous \<and> nd_fs n' Previous = nd_fs n Previous)"
  proof -
    obtain r1 n1 where st: "context_of ''updater: no previous binary to roll back to'' (bnd (read_file Previous) (\<lambda>_. ret ())) n = (r1, n1)"
      by fastforce
    have "touches {} (context_of ''updater: no previous binary to roll back to'' (bnd (read_file Previous) (\<lambda>_. ret ())))" by (intro tch)
    note t1 = touchesD [OF this st]
    obtain r2 n2 where cp: "context_of ''updater: staging the previous binary'' (copyFile Previous Staged) n1 = (r2, n2)" by fastforce
    have "touches {Staged} (context_of ''updater: staging the previous binary'' (copyFile Previous Staged))" by (intro tch) simp
    note t2 = touchesD [OF this cp]
    have same: "nd_fs n2 Binary = nd_fs n Binary" "nd_fs n2 Previous = nd_fs n Previous" "nd_fs n1 Previous = nd_fs n Previous"
      using t1(3) t2(3) by simp_all
    have sound2: "sound_host S n1" "sound_host S n2" using assms(2) sound_host_cong [of n1 n S] sound_host_cong [of n2 n S] t1(3) same by simp_all
    show ?thesis
    proof (cases "r1 = Inr () \<and> r2 = Inr ()")
      case False
      then have "(n' = n1 \<or> n' = n2) \<and> r \<noteq> Inr ()"
        using assms(1) st cp by (auto simp: rollback_def runs split: sum.splits)
      with sound2 show ?thesis by auto
    next
      case True
      with cp have cpd: "copyFile Previous Staged n1 = (Inr (), n2)" by (simp add: context_of_def mapE_Inr_iff)
      note c = copyFile_Inr [OF cpd]
      have fin: "context_of ''updater: restoring the previous binary'' (rename_file Staged Binary) n2 = (r, n')"
        using assms(1) st cp True by (simp add: rollback_def runs)
      from c obtain b where b: "nd_fs n Previous = Some b" "nd_fs n2 Staged = Some b" using same(3) by auto
      have "nd_fs n' = (nd_fs n2)(Binary := Some b, Staged := None) \<or> r \<noteq> Inr () \<and> nd_fs n' = nd_fs n2"
        using fin b(2) by (auto simp: context_of_def rename_file_def runs sys_run put_file_def split: option.splits)
      with sound2(2) b same show ?thesis
        by (auto simp: sound_host_def vetted_def)
    qed
  qed
  then show "sound_host S n'" "r = Inr () \<Longrightarrow> nd_fs n' Binary = nd_fs n Previous \<and> nd_fs n' Previous = nd_fs n Previous" by auto
qed

section \<open>Vetted binaries\<close>

text \<open>What a host that runs \<open>cfg\<close> may install: bytes whose digest a manifest lists that one of its keys signed, and that run.\<close>

definition signed_for :: "upd_cfg \<Rightarrow> string \<Rightarrow> bool" where
  "signed_for cfg body \<longleftrightarrow> (\<exists>sums sig man k. k \<in> set (trustedKeys (uc_publicKeys cfg)) \<and> length sig = SignatureSize
     \<and> uc_verify cfg k sums sig \<and> parseManifest sums = Inr man \<and> man (artifactName (uc_arch cfg)) = Some (uc_sha256 cfg body))"

definition runs_as :: "upd_cfg \<Rightarrow> string \<Rightarrow> string \<Rightarrow> bool" where
  "runs_as cfg body want \<longleftrightarrow> (\<exists>out. uc_run cfg body = Inr out \<and> contains (trim_space out) want)"

text \<open>The binaries a host can come to run: what it was installed with, and what one of them accepts. Every binary brings its keys.\<close>

inductive_set lineage :: "(string \<Rightarrow> upd_cfg) \<Rightarrow> string \<Rightarrow> string set" for cfg_of first_binary where
  installed: "first_binary \<in> lineage cfg_of first_binary"
| released: "b \<in> lineage cfg_of first_binary \<Longrightarrow> signed_for (cfg_of b) body \<Longrightarrow> runs_as (cfg_of b) body want \<Longrightarrow> validTag want
    \<Longrightarrow> body \<in> lineage cfg_of first_binary"

definition safe_host :: "string set \<Rightarrow> node \<Rightarrow> bool" where
  "safe_host S n \<longleftrightarrow> sound_host S n \<and> crash_only (nd_faults n)"

definition staged_host :: "string set \<Rightarrow> string \<Rightarrow> node \<Rightarrow> bool" where
  "staged_host S body n \<longleftrightarrow> safe_host S n \<and> nd_fs n Staged = Some (Bytes body)"

lemma touches_safe: "touches P m \<Longrightarrow> Binary \<notin> P \<Longrightarrow> Previous \<notin> P \<Longrightarrow> keeps (safe_host S) m"
  unfolding touches_def by (intro keepsI) (auto simp: safe_host_def sound_host_def)

lemma touches_staged: "touches P m \<Longrightarrow> Binary \<notin> P \<Longrightarrow> Previous \<notin> P \<Longrightarrow> Staged \<notin> P \<Longrightarrow> keeps (staged_host S b) m"
  unfolding touches_def by (intro keepsI) (auto simp: staged_host_def safe_host_def sound_host_def)

lemma staged_safe: "staged_host S b n \<Longrightarrow> safe_host S n"
  by (simp add: staged_host_def)

lemma rollback_safe [tri]: "keeps (safe_host S) rollback"
proof (rule keepsI)
  fix n assume s: "safe_host S n"
  obtain r n' where run: "rollback n = (r, n')" by fastforce
  have "touches {Staged, Binary} rollback" unfolding rollback_def by (intro tch) auto
  from touchesD(1) [OF this run] rollback_run(1) [OF run] s show "safe_host S (snd (rollback n))" by (simp add: run safe_host_def)
qed

lemma triple_on_fail: "triple P m Q (\<lambda>_. R) \<Longrightarrow> keeps R h \<Longrightarrow> triple P (on_fail m h) Q (\<lambda>_. R)"
  unfolding on_fail_def triple_def keeps_def by (fastforce simp: runs split: sum.splits prod.splits)

lemma triple_of_keeps:
  assumes k: "keeps J m" and P: "\<And>n. P n \<Longrightarrow> J n" and Q: "\<And>n x n'. P n \<Longrightarrow> J n' \<Longrightarrow> m n = (Inr x, n') \<Longrightarrow> Q x n'"
    and R: "\<And>n. J n \<Longrightarrow> R n"
  shows "triple P m Q (\<lambda>_. R)"
proof (rule tripleI)
  fix n x n' assume n: "P n" "m n = (Inr x, n')"
  from keeps_run [OF k P [OF n(1)] n(2)] show "Q x n'" by (rule Q [OF n(1) _ n(2)])
next
  fix n e n' assume n: "P n" "m n = (Inl e, n')"
  from keeps_run [OF k P [OF n(1)] n(2)] show "R n'" by (rule R)
qed

lemma swap_safe: "b \<in> S \<Longrightarrow> triple (staged_host S b) swap (\<lambda>_. safe_host S) (\<lambda>_. safe_host S)"
proof -
  assume b: "b \<in> S"
  have "safe_host S n'" if "staged_host S b n" "swap n = (r, n')" for r n n'
  proof -
    have "touches UNIV swap" unfolding swap_def clear_previous_def keep_previous_def by (intro tch) auto
    from touchesD(1) [OF this that(2)] swap_run [OF _ _ _ b that(2)] that(1) show ?thesis
      by (simp add: staged_host_def safe_host_def)
  qed
  then show ?thesis by (intro tripleI)
qed

lemma install_safe: "b \<in> S \<Longrightarrow> triple (staged_host S b) (install cfg want) (\<lambda>_. safe_host S) (\<lambda>_. safe_host S)"
  unfolding install_def
proof (rule triple_bnd)
  assume b: "b \<in> S"
  show "triple (staged_host S b) (setStatus Swapping want (''installing '' @ want)) (\<lambda>_. staged_host S b) (\<lambda>_. safe_host S)"
    by (rule triple_conseq [OF touches_staged [of "{}", unfolded keeps_triple]]) (auto intro: tch staged_safe)
  fix u
  show "triple (staged_host S b)
     (bnd (gets nd_now) (\<lambda>now.
     bnd (on_fail (writeMarker \<lparr> mk_Target = want, mk_Previous = uc_Version cfg, mk_Attempts = 0,
            mk_Probation = now + uc_Probation cfg \<rparr>) (remove_file Staged)) (\<lambda>_.
     bnd (on_fail swap (bnd (attempt clearMarker) (\<lambda>_. remove_file Staged))) (\<lambda>_.
     exit_process)))) (\<lambda>_. safe_host S) (\<lambda>_. safe_host S)"
  proof (rule triple_bnd)
    show "triple (staged_host S b) (gets nd_now) (\<lambda>_. staged_host S b) (\<lambda>_. safe_host S)" by (simp add: triple_def)
    fix now
    show "triple (staged_host S b) (bnd (on_fail (writeMarker \<lparr> mk_Target = want, mk_Previous = uc_Version cfg, mk_Attempts = 0,
            mk_Probation = now + uc_Probation cfg \<rparr>) (remove_file Staged)) (\<lambda>_.
      bnd (on_fail swap (bnd (attempt clearMarker) (\<lambda>_. remove_file Staged))) (\<lambda>_. exit_process)))
      (\<lambda>_. safe_host S) (\<lambda>_. safe_host S)"
    proof (rule triple_bnd)
      let ?m = "\<lparr> mk_Target = want, mk_Previous = uc_Version cfg, mk_Attempts = 0, mk_Probation = now + uc_Probation cfg \<rparr>"
      have "triple (staged_host S b) (writeMarker ?m) (\<lambda>_. staged_host S b) (\<lambda>_. safe_host S)"
        by (rule triple_conseq [OF touches_staged [of "{MarkerFile, MarkerTmp}", unfolded keeps_triple]]) (auto intro: tch staged_safe)
      then show "triple (staged_host S b) (on_fail (writeMarker ?m) (remove_file Staged)) (\<lambda>_. staged_host S b) (\<lambda>_. safe_host S)"
        by (rule triple_on_fail) (rule touches_safe [of "{Staged}"]; (intro tch)?; simp)
      fix u
      show "triple (staged_host S b) (bnd (on_fail swap (bnd (attempt clearMarker) (\<lambda>_. remove_file Staged))) (\<lambda>_. exit_process))
        (\<lambda>_. safe_host S) (\<lambda>_. safe_host S)"
      proof (rule triple_bnd)
        have "touches {Staged, MarkerFile} (bnd (attempt clearMarker) (\<lambda>_. remove_file Staged))" by (intro tch) auto
        then have "keeps (safe_host S) (bnd (attempt clearMarker) (\<lambda>_. remove_file Staged))" by (rule touches_safe) auto
        with swap_safe [OF b] show "triple (staged_host S b) (on_fail swap (bnd (attempt clearMarker) (\<lambda>_. remove_file Staged)))
          (\<lambda>_. safe_host S) (\<lambda>_. safe_host S)" by (rule triple_on_fail)
        fix u
        show "triple (safe_host S) exit_process (\<lambda>_. safe_host S) (\<lambda>_. safe_host S)"
          unfolding keeps_triple [symmetric] by (rule touches_safe [of "{}"]; (intro tch)?; simp)
      qed
    qed
  qed
qed

lemma stage_Inr: "stage_artifact cfg body want n = (Inr (), n') \<Longrightarrow> nd_fs n' Staged = Some (Bytes body) \<and> uc_sha256 cfg body = want"
  unfolding stage_artifact_def on_fail_def
  by (auto simp: inverts context_of_def sys_run write_file_def put_file_def split: if_splits sum.splits prod.splits option.splits)

lemma preflight_Inr: "preflight cfg want n = (Inr (), n') \<Longrightarrow> nd_fs n Staged = Some (Bytes b) \<Longrightarrow> runs_as cfg b want"
  unfolding preflight_def runs_as_def exec_file_def
  by (auto simp: inverts context_of_def sys_run Let_def split: if_splits sum.splits)

lemma signed_digest_Inr:
  assumes "signed_digest cfg net base n = (Inr d, n')" "uc_sha256 cfg body = d"
  shows "signed_for cfg body"
  using assms unfolding signed_digest_def verifyManifest_def signed_for_def
  by (auto simp: Let_def list_ex_iff split: sum.splits option.splits if_splits)

text \<open>A set of binaries closed under what the running one accepts.\<close>

definition accepts_into :: "upd_cfg \<Rightarrow> string set \<Rightarrow> bool" where
  "accepts_into cfg S \<longleftrightarrow> (\<forall>body want. signed_for cfg body \<longrightarrow> runs_as cfg body want \<longrightarrow> validTag want \<longrightarrow> body \<in> S)"

lemma lineage_accepts: "b \<in> lineage cfg_of b0 \<Longrightarrow> accepts_into (cfg_of b) (lineage cfg_of b0)"
  unfolding accepts_into_def by (blast intro: lineage.released)

definition fetch_and_install :: "upd_cfg \<Rightarrow> string \<Rightarrow> string \<Rightarrow> string \<Rightarrow> unit act" where
  "fetch_and_install cfg want body digest =
     bnd (stage_artifact cfg body digest) (\<lambda>_.
     bnd (setStatus Verifying want ''pre-flighting the new binary'') (\<lambda>_.
     bnd (on_fail (preflight cfg want) (remove_file Staged)) (\<lambda>_.
     install cfg want)))"

lemma fetch_and_install_safe:
  assumes "accepts_into cfg S" "validTag want" "uc_sha256 cfg body = digest \<Longrightarrow> signed_for cfg body"
  shows "keeps (safe_host S) (fetch_and_install cfg want body digest)"
  unfolding fetch_and_install_def keeps_triple
proof (rule triple_bnd)
  let ?staged = "\<lambda>n. staged_host S body n \<and> uc_sha256 cfg body = digest"
  have k: "keeps (safe_host S) (stage_artifact cfg body digest)" by (rule touches_safe [of "{Staged}"]; (intro tch)?; simp)
  then show "triple (safe_host S) (stage_artifact cfg body digest) (\<lambda>_. ?staged) (\<lambda>_. safe_host S)"
    by (rule triple_of_keeps) (simp_all add: staged_host_def stage_Inr)
  fix u
  show "triple ?staged (bnd (setStatus Verifying want ''pre-flighting the new binary'') (\<lambda>_.
     bnd (on_fail (preflight cfg want) (remove_file Staged)) (\<lambda>_. install cfg want))) (\<lambda>_. safe_host S) (\<lambda>_. safe_host S)"
  proof (rule triple_bnd)
    have "keeps (staged_host S body) (setStatus Verifying want ''pre-flighting the new binary'')"
      by (rule touches_staged [of "{}"]; (intro tch)?; simp)
    then show "triple ?staged (setStatus Verifying want ''pre-flighting the new binary'') (\<lambda>_. ?staged) (\<lambda>_. safe_host S)"
      by (rule triple_of_keeps) (auto intro: staged_safe)
    fix u
    show "triple ?staged (bnd (on_fail (preflight cfg want) (remove_file Staged)) (\<lambda>_. install cfg want)) (\<lambda>_. safe_host S) (\<lambda>_. safe_host S)"
    proof (rule triple_bnd)
      let ?ready = "\<lambda>n. staged_host S body n \<and> body \<in> S"
      have p: "keeps (staged_host S body) (preflight cfg want)" by (rule touches_staged [of "{}"]; (intro tch)?; simp)
      have "body \<in> S" if "staged_host S body n" "uc_sha256 cfg body = digest" "preflight cfg want n = (Inr (), n')" for n n'
        using that preflight_Inr assms unfolding accepts_into_def staged_host_def by blast
      with p have "triple ?staged (preflight cfg want) (\<lambda>_. ?ready) (\<lambda>_. safe_host S)"
        by (intro triple_of_keeps [of "staged_host S body"]) (auto intro: staged_safe)
      then show "triple ?staged (on_fail (preflight cfg want) (remove_file Staged)) (\<lambda>_. ?ready) (\<lambda>_. safe_host S)"
        by (rule triple_on_fail) (rule touches_safe [of "{Staged}"]; (intro tch)?; simp)
      fix u
      show "triple ?ready (install cfg want) (\<lambda>_. safe_host S) (\<lambda>_. safe_host S)"
        using install_safe [of body S cfg want] by (cases "body \<in> S") (auto simp: triple_def)
    qed
  qed
qed

lemma update_fetches:
  "update cfg net want artifactBase =
     (if \<not> validTag want then throw (quoted want @ '' does not look like a release tag'')
      else
        (let base0 = trim_space artifactBase;
             base = trim_slash (if base0 = [] then releaseBase @ want else base0) in
         if contains base ''..'' then throw (''refusing an artifact base containing '' @ quoted ''..'')
         else
           bnd (setStatus Verifying want ''verifying the release manifest'') (\<lambda>_.
           bnd (signed_digest cfg net base) (\<lambda>digest.
           let name = artifactName (uc_arch cfg) in
           bnd (setStatus Downloading want (''downloading '' @ name)) (\<lambda>_.
           (case net (base @ ''/'' @ name) of
              Inl e \<Rightarrow> throw (''downloading '' @ name @ '': '' @ e)
            | Inr body \<Rightarrow> fetch_and_install cfg want body digest))))))"
  unfolding update_def fetch_and_install_def ..

lemma status_safe [tri]: "keeps (safe_host S) (setStatus ph t d)"
  by (rule touches_safe [of "{}"]; (intro tch)?; simp)

lemma memory_safe: "(\<And>n. nd_faults (f n) = nd_faults n \<and> nd_calls (f n) = nd_calls n \<and> nd_fs (f n) = nd_fs n) \<Longrightarrow> keeps (safe_host S) (modify f :: unit act)"
  by (rule touches_safe [of "{}"], rule touches_memory) simp_all

lemma update_safe [tri]:
  assumes "accepts_into cfg S"
  shows "keeps (safe_host S) (update cfg net want artifactBase)"
proof -
  have "keeps (safe_host S) (signed_digest cfg net base)" for base
    by (rule touches_safe [of "{}"]; (intro tch)?; simp)
  moreover have "keeps (safe_host S) (fetch_and_install cfg want body d)"
    if "validTag want" "signed_digest cfg net base n = (Inr d, n')" for body d base n n'
    using fetch_and_install_safe [OF assms that(1)] signed_digest_Inr [OF that(2)] by blast
  ultimately show ?thesis
    unfolding update_fetches Let_def by (intro tri keeps_bnd_run) auto
qed

lemma Apply_safe: "accepts_into cfg S \<Longrightarrow> keeps (safe_host S) (Apply cfg net quiet spec)"
  unfolding Apply_def Let_def by (intro tri memory_safe) auto

lemma rollNow_safe [tri]: "keeps (safe_host S) (rollNow cfg m why)"
  unfolding rollNow_def
proof (intro tri)
  show "keeps (safe_host S) clearMarker" by (rule touches_safe [of "{MarkerFile}"]; (intro tch)?; simp)
  show "keeps (safe_host S) (writeRolledBack cfg (mk_Target m) why)" by (rule touches_safe [of "{NoteFile, NoteTmp}"]; (intro tch)?; simp)
  show "keeps (safe_host S) exit_process" by (rule touches_safe [of "{}"]; (intro tch)?; simp)
qed

lemma RecoverBoot_safe [tri]: "keeps (safe_host S) (RecoverBoot cfg)"
proof -
  have "keeps (safe_host S) readMarker" by (rule touches_safe [of "{}"]; (intro tch)?; simp)
  moreover have "keeps (safe_host S) (writeMarker m)" for m by (rule touches_safe [of "{MarkerFile, MarkerTmp}"]; (intro tch)?; simp)
  ultimately show ?thesis unfolding RecoverBoot_def Let_def by (intro tri memory_safe) auto
qed

lemma probation_safe: "keeps (safe_host S) (probation cfg m)"
  unfolding probation_def by (intro tri)

lemma run_agent_safe: "keeps (safe_host S) (run_agent cfg identity reaches)"
proof -
  have "touches {NoteFile} (ReadRolledBack cfg)" unfolding ReadRolledBack_def by (intro tch touches_memory) auto
  then have "keeps (safe_host S) (ReadRolledBack cfg)" by (rule touches_safe) auto
  moreover have "touches {MarkerFile} (DialedHome cfg)" unfolding DialedHome_def by (intro tch touches_memory) auto
  then have "keeps (safe_host S) (DialedHome cfg)" by (rule touches_safe) auto
  moreover have "keeps (safe_host S) (NewUpdater cfg)" "keeps (safe_host S) exit_process"
    by (rule touches_safe [of "{}"]; (intro tch)?; simp)+
  ultimately show ?thesis unfolding run_agent_def by (intro tri) auto
qed

end
