(* ===== verification/Updater_Props.thy ===== *)
theory Updater_Props
  imports Updater_Inv
begin

text \<open>
  What the self-update of an agent guarantees: whatever happens, the binary in place is one the host vetted; a
  release that does not reach the bus is undone; and where the code falls short of that.
\<close>

section \<open>The host, step by step\<close>

text \<open>
  A state is the host and the binary its process was started from. The process starts with what is in place, is told
  about a release, its probation timer fires, or time passes: calls are counted anew and the machine may go down
  at any later call. A process that has gone down or ended does nothing to the disk.
\<close>

inductive host_step :: "(string \<Rightarrow> upd_cfg) \<Rightarrow> node \<times> string \<Rightarrow> node \<times> string \<Rightarrow> bool" for cfg_of where
  start: "nd_fs n Binary = Some (Bytes b) \<Longrightarrow> host_step cfg_of (n, b0) (snd (run_agent (cfg_of b) identity reaches n), b)"
| told: "host_step cfg_of (n, b) (snd (Apply (cfg_of b) net quiet spec n), b)"
| timer: "host_step cfg_of (n, b) (snd (probation (cfg_of b) m n), b)"
| later: "crash_only faults \<Longrightarrow> host_step cfg_of (n, b) (n\<lparr>nd_now := now, nd_faults := faults, nd_torn := torn, nd_calls := 0\<rparr>, b)"

inductive_cases host_stepE: "host_step cfg_of s s'"

definition host_run :: "(string \<Rightarrow> upd_cfg) \<Rightarrow> node \<times> string \<Rightarrow> node \<times> string \<Rightarrow> bool" where
  "host_run cfg_of = (host_step cfg_of)\<^sup>*\<^sup>*"

lemma host_step_safe:
  assumes "host_step cfg_of s s'" "safe_host (lineage cfg_of b0) (fst s)" "snd s \<in> lineage cfg_of b0"
  shows "safe_host (lineage cfg_of b0) (fst s') \<and> snd s' \<in> lineage cfg_of b0"
  using assms
proof (cases rule: host_step.cases)
  case (start n b b1 identity reaches)
  then have "b \<in> lineage cfg_of b0" using assms(2) by (auto simp: safe_host_def sound_host_def vetted_def)
  with start assms(2) keepsD [OF run_agent_safe] show ?thesis by auto
next
  case (told n b net quiet spec)
  then have "accepts_into (cfg_of b) (lineage cfg_of b0)" using assms(3) by (simp add: lineage_accepts)
  with told assms(2,3) keepsD [OF Apply_safe] show ?thesis by auto
next
  case (timer n b m)
  with assms(2,3) keepsD [OF probation_safe] show ?thesis by auto
next
  case (later faults n b now torn)
  with assms(2,3) show ?thesis by (simp add: safe_host_def sound_host_def)
qed

text \<open>
  C27. Whatever happens to a host, the binary in place is one it vetted. Take any sequence of starts, releases told by the panel
  whatever the network serves, probation timers and power cuts at any system call, on a host where calls fail only
  because the machine or process goes down. The binary file is there at every point and holds either the binary the
  host was installed with or bytes that a binary of that lineage accepted: listed for this architecture in a manifest signed by
  one of its trusted keys, and run before they were installed. The same holds of the slot a roll-back restores.
\<close>

theorem vetted_binary_in_place:
  assumes "host_run cfg_of (n, b0) (n', b')" "nd_fs n Binary = Some (Bytes b0)" "nd_fs n Previous = None" "crash_only (nd_faults n)"
  shows "vetted (lineage cfg_of b0) (nd_fs n' Binary) \<and> (nd_fs n' Previous = None \<or> vetted (lineage cfg_of b0) (nd_fs n' Previous))
    \<and> b' \<in> lineage cfg_of b0"
proof -
  have "safe_host (lineage cfg_of b0) (fst s') \<and> snd s' \<in> lineage cfg_of b0"
    if "(host_step cfg_of)\<^sup>*\<^sup>* (n, b0) s'" for s'
    using that
  proof (induction rule: rtranclp_induct)
    case base
    have "b0 \<in> lineage cfg_of b0" by (rule lineage.installed)
    with assms(2-4) show ?case by (auto simp: safe_host_def sound_host_def vetted_def)
  next
    case (step s s')
    from host_step_safe [OF step.hyps(2)] step.IH show ?case by simp
  qed
  from this [OF assms(1) [unfolded host_run_def]] show ?thesis by (simp add: safe_host_def sound_host_def)
qed

section \<open>A release that fails is undone\<close>

text \<open>No call fails. The effect of each operation is then exact, up to the number of calls made.\<close>

definition no_faults :: "node \<Rightarrow> bool" where
  "no_faults n \<longleftrightarrow> nd_faults n = (\<lambda>_. None)"

named_theorems calmed \<open>operations on a host where no call fails\<close>

lemma calm_upd [simp]: "no_faults (n\<lparr>nd_calls := k\<rparr>) = no_faults n" "no_faults (n\<lparr>nd_fs := fs\<rparr>) = no_faults n" "no_faults (put_file p b n) = no_faults n"
  "no_faults (n\<lparr>nd_busy := c\<rparr>) = no_faults n" "no_faults (n\<lparr>nd_exited := c\<rparr>) = no_faults n" "no_faults (n\<lparr>nd_dialed := c\<rparr>) = no_faults n"
  "no_faults (n\<lparr>nd_previous := t\<rparr>) = no_faults n" "no_faults (n\<lparr>nd_phase := ph\<rparr>) = no_faults n" "no_faults (n\<lparr>nd_target := t\<rparr>) = no_faults n" "no_faults (n\<lparr>nd_detail := t\<rparr>) = no_faults n"
  by (simp_all add: no_faults_def put_file_def)

lemma sys_calm [calmed]: "no_faults n \<Longrightarrow> sys n = (Inr (), n\<lparr>nd_calls := nd_calls n + 1\<rparr>)"
  by (simp add: sys_run no_faults_def)

lemma on_fail_Inr: "m n = (Inr x, n') \<Longrightarrow> on_fail m h n = (Inr x, n')"
  by (simp add: on_fail_def runs)

lemma context_Inr: "m n = (Inr x, n') \<Longrightarrow> context_of s m n = (Inr x, n')"
  by (simp add: context_of_def runs)

lemma files_calm [calmed]:
  assumes "no_faults n"
  shows "create_file p n = (Inr (), n\<lparr>nd_calls := nd_calls n + 1, nd_fs := (nd_fs n)(p \<mapsto> Bytes [])\<rparr>)"
    "write_file p b n = (Inr (), n\<lparr>nd_calls := nd_calls n + 1, nd_fs := (nd_fs n)(p \<mapsto> b)\<rparr>)"
    "read_file p n = (case nd_fs n p of None \<Rightarrow> Inl ErrNotExist | Some b \<Rightarrow> Inr b, n\<lparr>nd_calls := nd_calls n + 1\<rparr>)"
    "remove_file p n = (case nd_fs n p of None \<Rightarrow> Inl ErrNotExist | Some b \<Rightarrow> Inr (), n\<lparr>nd_calls := nd_calls n + 1, nd_fs := (nd_fs n)(p := None)\<rparr>)"
    "nd_fs n p = Some b \<Longrightarrow> rename_file p q n = (Inr (), n\<lparr>nd_calls := nd_calls n + 1, nd_fs := (nd_fs n)(q \<mapsto> b, p := None)\<rparr>)"
    "nd_fs n p = Some b \<Longrightarrow> nd_fs n q = None \<Longrightarrow> link_file p q n = (Inr (), n\<lparr>nd_calls := nd_calls n + 1, nd_fs := (nd_fs n)(q \<mapsto> b)\<rparr>)"
    "nd_fs n p = Some (Bytes c) \<Longrightarrow> exec_file cfg p n = (uc_run cfg c, n\<lparr>nd_calls := nd_calls n + 1\<rparr>)"
  using assms
  by (simp_all add: create_file_def write_file_def read_file_def remove_file_def rename_file_def link_file_def exec_file_def
      bnd_run sys_calm put_file_def fun_upd_idem split: option.split sum.split)

lemma synced_calm [calmed]:
  assumes "no_faults n" "p \<noteq> tmp"
  shows "writeFileSynced p tmp b n = (Inr (), n\<lparr>nd_calls := nd_calls n + 5, nd_fs := (nd_fs n)(tmp := None, p \<mapsto> b)\<rparr>)"
  using assms by (simp add: writeFileSynced_def bnd_run on_fail_def attempt_run calmed fun_upd_twist)

lemma copy_calm [calmed]:
  "no_faults n \<Longrightarrow> nd_fs n p = Some b \<Longrightarrow> copyFile p q n = (Inr (), n\<lparr>nd_calls := nd_calls n + 5, nd_fs := (nd_fs n)(q \<mapsto> b)\<rparr>)"
  by (simp add: copyFile_def bnd_run calmed)

lemma marker_calm [calmed]:
  assumes "no_faults n"
  shows "writeMarker m n = (Inr (), n\<lparr>nd_calls := nd_calls n + 5, nd_fs := (nd_fs n)(MarkerTmp := None, MarkerFile \<mapsto> MarkerDoc m)\<rparr>)"
    "clearMarker n = (Inr (), n\<lparr>nd_calls := nd_calls n + 1, nd_fs := (nd_fs n)(MarkerFile := None)\<rparr>)"
    "nd_fs n MarkerFile = Some (MarkerDoc m) \<Longrightarrow> readMarker n = (Inr (Some m), n\<lparr>nd_calls := nd_calls n + 1\<rparr>)"
    "nd_fs n MarkerFile = None \<Longrightarrow> readMarker n = (Inr None, n\<lparr>nd_calls := nd_calls n + 1\<rparr>)"
  using assms by (simp_all add: writeMarker_def clearMarker_def readMarker_def runs calmed split: option.split)

lemma swap_calm [calmed]:
  assumes "no_faults n" "nd_fs n Binary = Some old" "nd_fs n Staged = Some b"
  shows "swap n = (Inr (), n\<lparr>nd_calls := nd_calls n + 3, nd_fs := (nd_fs n)(Previous \<mapsto> old, Binary \<mapsto> b, Staged := None)\<rparr>)"
proof -
  have "clear_previous n = (Inr (), n\<lparr>nd_calls := nd_calls n + 1, nd_fs := (nd_fs n)(Previous := None)\<rparr>)"
    using assms(1) by (simp add: clear_previous_def runs calmed split: option.split)
  with assms show ?thesis by (simp add: swap_def keep_previous_def context_of_def runs calmed)
qed

lemma rollback_calm [calmed]:
  assumes "no_faults n" "nd_fs n Previous = Some old"
  shows "rollback n = (Inr (), n\<lparr>nd_calls := nd_calls n + 7, nd_fs := (nd_fs n)(Binary \<mapsto> old, Staged := None)\<rparr>)"
  using assms by (simp add: rollback_def context_of_def runs calmed fun_upd_twist)

lemma stage_calm [calmed]:
  assumes "no_faults n" "uc_sha256 cfg body = want"
  shows "stage_artifact cfg body want n = (Inr (), n\<lparr>nd_calls := nd_calls n + 4, nd_fs := (nd_fs n)(Staged \<mapsto> Bytes body)\<rparr>)"
  using assms by (simp add: stage_artifact_def context_of_def on_fail_def runs calmed)

lemma preflight_calm [calmed]:
  assumes "no_faults n" "nd_fs n Staged = Some (Bytes body)" "runs_as cfg body want"
  shows "preflight cfg want n = (Inr (), n\<lparr>nd_calls := nd_calls n + 1\<rparr>)"
  using assms by (auto simp: preflight_def context_of_def runs_as_def runs calmed)

definition with_status :: "phase \<Rightarrow> string \<Rightarrow> string \<Rightarrow> node \<Rightarrow> node" where
  "with_status ph t d n = snd (setStatus ph t d n)"

lemma setStatus_run: "setStatus ph t d n = (Inr (), with_status ph t d n)"
  by (simp add: with_status_def setStatus_def)

lemma with_status_keeps [simp]:
  "nd_fs (with_status ph t d n) = nd_fs n" "nd_calls (with_status ph t d n) = nd_calls n" "nd_now (with_status ph t d n) = nd_now n"
  "nd_exited (with_status ph t d n) = nd_exited n" "nd_busy (with_status ph t d n) = nd_busy n" "no_faults (with_status ph t d n) = no_faults n"
  by (simp_all add: with_status_def setStatus_def no_faults_def)

lemma install_calm:
  assumes "no_faults n" "nd_fs n Binary = Some old" "nd_fs n Staged = Some b" "install cfg want n = (r, n')"
  shows "nd_exited n' \<and> no_faults n' \<and> nd_fs n' = (nd_fs n)(MarkerTmp := None,
      MarkerFile \<mapsto> MarkerDoc \<lparr>mk_Target = want, mk_Previous = uc_Version cfg, mk_Attempts = 0, mk_Probation = nd_now n + uc_Probation cfg\<rparr>,
      Previous \<mapsto> old, Binary \<mapsto> b, Staged := None)"
  using assms(4,1-3) by (auto simp: install_def runs on_fail_def setStatus_run calmed exit_process_def)

text \<open>The panel names a release, the network serves it, and this agent accepts it.\<close>

definition want_of :: "update_spec \<Rightarrow> string" where
  "want_of spec = trim_space (us_Version spec)"

definition base_of :: "update_spec \<Rightarrow> string" where
  "base_of spec = trim_slash (if trim_space (us_ArtifactBase spec) = [] then releaseBase @ want_of spec else trim_space (us_ArtifactBase spec))"

definition serves :: "upd_cfg \<Rightarrow> network \<Rightarrow> update_spec \<Rightarrow> string \<Rightarrow> bool" where
  "serves cfg net spec body \<longleftrightarrow>
     disabledReason cfg = [] \<and> want_of spec \<noteq> [] \<and> want_of spec \<noteq> uc_Version cfg \<and> validTag (want_of spec)
     \<and> (isDowngrade (uc_Version cfg) (want_of spec) \<longrightarrow> us_Rollback spec) \<and> \<not> contains (base_of spec) ''..''
     \<and> (\<exists>sums sig man. net (base_of spec @ ''/'' @ ''SHA256SUMS'') = Inr sums \<and> net (base_of spec @ ''/'' @ ''SHA256SUMS.sig'') = Inr sig
          \<and> verifyManifest cfg sums sig = Inr man \<and> man (artifactName (uc_arch cfg)) = Some (uc_sha256 cfg body))
     \<and> net (base_of spec @ ''/'' @ artifactName (uc_arch cfg)) = Inr body \<and> runs_as cfg body (want_of spec)"

lemma fetch_calm:
  assumes "no_faults n" "runs_as cfg body want"
  shows "\<exists>m. no_faults m \<and> nd_fs m = (nd_fs n)(Staged \<mapsto> Bytes body) \<and> nd_now m = nd_now n
    \<and> fetch_and_install cfg want body (uc_sha256 cfg body) n = install cfg want m"
proof -
  define s where "s = with_status Verifying want ''pre-flighting the new binary''
      (n\<lparr>nd_calls := nd_calls n + 4, nd_fs := (nd_fs n)(Staged \<mapsto> Bytes body)\<rparr>)"
  have "fetch_and_install cfg want body (uc_sha256 cfg body) n = install cfg want (s\<lparr>nd_calls := nd_calls s + 1\<rparr>)"
    using assms unfolding fetch_and_install_def s_def by (simp add: bnd_run on_fail_def attempt_run setStatus_run calmed)
  moreover have "no_faults s" "nd_fs s = (nd_fs n)(Staged \<mapsto> Bytes body)" "nd_now s = nd_now n" using assms(1) by (simp_all add: s_def)
  ultimately show ?thesis by (intro exI [of _ "s\<lparr>nd_calls := nd_calls s + 1\<rparr>"]) simp
qed

lemma update_calm:
  assumes "serves cfg net spec body" "no_faults n" "nd_fs n Binary = Some old"
    "update cfg net (want_of spec) (us_ArtifactBase spec) n = (r, n')"
  shows "nd_exited n' \<and> no_faults n' \<and> nd_fs n' = (nd_fs n)(MarkerTmp := None,
      MarkerFile \<mapsto> MarkerDoc \<lparr>mk_Target = want_of spec, mk_Previous = uc_Version cfg, mk_Attempts = 0, mk_Probation = nd_now n + uc_Probation cfg\<rparr>,
      Previous \<mapsto> old, Binary \<mapsto> Bytes body, Staged := None)"
proof -
  from assms(1) have dg: "signed_digest cfg net (base_of spec) m = (Inr (uc_sha256 cfg body), m)" for m
    by (auto simp: serves_def signed_digest_def)
  have "update cfg net (want_of spec) (us_ArtifactBase spec) n = fetch_and_install cfg (want_of spec) body (uc_sha256 cfg body)
      (with_status Downloading (want_of spec) (''downloading '' @ artifactName (uc_arch cfg))
        (with_status Verifying (want_of spec) ''verifying the release manifest'' n))"
    using assms(1) unfolding update_fetches Let_def base_of_def [symmetric] by (simp add: serves_def bnd_run setStatus_run dg)
  moreover obtain m where m: "no_faults m" "nd_fs m = (nd_fs n)(Staged \<mapsto> Bytes body)" "nd_now m = nd_now n"
    "fetch_and_install cfg (want_of spec) body (uc_sha256 cfg body)
      (with_status Downloading (want_of spec) (''downloading '' @ artifactName (uc_arch cfg))
        (with_status Verifying (want_of spec) ''verifying the release manifest'' n)) = install cfg (want_of spec) m"
    using fetch_calm [of "with_status Downloading (want_of spec) (''downloading '' @ artifactName (uc_arch cfg))
        (with_status Verifying (want_of spec) ''verifying the release manifest'' n)" cfg body "want_of spec"] assms(1,2)
    by (auto simp: serves_def)
  ultimately have "install cfg (want_of spec) m = (r, n')" using assms(4) by simp
  from install_calm [OF m(1) _ _ this] assms(3) m(2,3) show ?thesis by (simp add: fun_upd_twist)
qed

lemma Apply_calm:
  assumes "serves cfg net spec body" "no_faults n" "\<not> nd_busy n" "nd_fs n Binary = Some old" "Apply cfg net True spec n = (r, n')"
  shows "nd_exited n' \<and> no_faults n' \<and> \<not> nd_busy n' \<and> nd_fs n' = (nd_fs n)(MarkerTmp := None,
      MarkerFile \<mapsto> MarkerDoc \<lparr>mk_Target = want_of spec, mk_Previous = uc_Version cfg, mk_Attempts = 0, mk_Probation = nd_now n + uc_Probation cfg\<rparr>,
      Previous \<mapsto> old, Binary \<mapsto> Bytes body, Staged := None)"
proof -
  define s where "s = with_status PhasePending (want_of spec) ''waiting for the host to go quiet'' (n\<lparr>nd_busy := True\<rparr>)"
  obtain q m where u: "update cfg net (want_of spec) (us_ArtifactBase spec) s = (q, m)" by fastforce
  have s: "no_faults s" "nd_fs s = nd_fs n" "nd_now s = nd_now n" using assms(2) by (simp_all add: s_def)
  note m = update_calm [OF assms(1) s(1) _ u]
  have "\<exists>m'. n' = m'\<lparr>nd_busy := False\<rparr> \<and> nd_fs m' = nd_fs m \<and> nd_exited m' = nd_exited m \<and> no_faults m' = no_faults m"
    using assms(5,1,3) unfolding Apply_def want_of_def [symmetric] Let_def
    by (cases q) (auto simp: serves_def bnd_run attempt_run setStatus_run u [unfolded s_def])
  with m assms(4) s show ?thesis by auto
qed

text \<open>A start of a binary on probation: the first one counts, the second one rolls back. Afterwards the old one reports it.\<close>

lemma first_start:
  assumes "no_faults n" "uc_binary cfg" "uc_stateDir cfg" "nd_fs n MarkerFile = Some (MarkerDoc m)" "mk_Attempts m = 0" "nd_fs n NoteFile = None"
    "run_agent cfg True False n = (r, n')"
  shows "no_faults n' \<and> \<not> nd_dialed n' \<and> nd_fs n' = (nd_fs n)(MarkerTmp := None, MarkerFile \<mapsto> MarkerDoc (m\<lparr>mk_Attempts := 1\<rparr>))"
  using assms(7,1-6)
  by (auto simp: run_agent_def RecoverBoot_def ReadRolledBack_def NewUpdater_def maxAttempts_def exit_process_def Let_def runs calmed)

lemma second_start:
  assumes "no_faults n" "uc_binary cfg" "uc_stateDir cfg" "nd_fs n MarkerFile = Some (MarkerDoc m)" "mk_Attempts m = 1" "nd_fs n Previous = Some old"
    "run_agent cfg True reaches n = (r, n')"
  shows "no_faults n' \<and> nd_exited n' \<and> nd_fs n' = (nd_fs n)(Binary \<mapsto> old, Staged := None, MarkerFile := None, NoteTmp := None,
    NoteFile \<mapsto> NoteDoc (mk_Target m) ''the new binary did not reach the bus'')"
  using assms(7,1-6)
  by (auto simp: run_agent_def RecoverBoot_def rollNow_def writeRolledBack_def NewUpdater_def maxAttempts_def exit_process_def Let_def runs calmed)

lemma start_after_rollback:
  assumes "no_faults n" "uc_binary cfg" "uc_stateDir cfg" "nd_fs n MarkerFile = None" "nd_fs n NoteFile = Some (NoteDoc t why)" "why \<noteq> []"
    "run_agent cfg True True n = (r, n')"
  shows "no_faults n' \<and> \<not> nd_busy n' \<and> nd_phase n' = RolledBack \<and> nd_target n' = t \<and> nd_fs n' = (nd_fs n)(NoteFile := None)"
  using assms(7,1-6)
  by (auto simp: run_agent_def RecoverBoot_def ReadRolledBack_def DialedHome_def NewUpdater_def runs calmed fun_upd_idem)

lemma timer_rolls_back:
  assumes "no_faults n" "\<not> nd_dialed n" "nd_fs n Previous = Some old" "probation cfg m n = (r, n')"
  shows "nd_fs n' Binary = Some old"
  using assms(4,1-3) by (auto simp: probation_def rollNow_def writeRolledBack_def exit_process_def runs calmed split: if_splits)

lemma disabledReason_binary: "disabledReason cfg = [] \<Longrightarrow> uc_binary cfg"
  by (auto simp: disabledReason_def split: if_splits)

text \<open>
  C28. A release that does not reach the bus is undone without the panel. The agent is told of a release it accepts and installs it,
  keeping the old binary. The new binary starts and does not reach the bus: if it hangs, the timer of its probation puts the old
  binary back; if it ends, its next start does, clearing the marker. The old binary then runs and reports the failed
  release as rolled back. And as long as the panel names that release, the next sync installs it again.
\<close>

theorem failed_update_undone:
  assumes "serves cfg net spec body" "uc_stateDir cfg" "uc_binary new" "uc_stateDir new"
    and "no_faults n" "\<not> nd_busy n" "nd_fs n Binary = Some (Bytes old)" "nd_fs n NoteFile = None"
  shows "let n1 = snd (Apply cfg net True spec n);
             n2 = snd (run_agent new True False n1);
             n3 = snd (run_agent new True reaches n2);
             n4 = snd (run_agent cfg True True n3) in
    nd_fs n1 Binary = Some (Bytes body) \<and> nd_fs n2 Binary = Some (Bytes body)
    \<and> nd_fs (snd (probation new m n2)) Binary = Some (Bytes old)
    \<and> nd_fs n3 Binary = Some (Bytes old) \<and> nd_fs n3 MarkerFile = None
    \<and> nd_fs n4 Binary = Some (Bytes old) \<and> nd_phase n4 = RolledBack \<and> nd_target n4 = want_of spec
    \<and> nd_fs (snd (Apply cfg net True spec n4)) Binary = Some (Bytes body)"
proof -
  define n1 where "n1 = snd (Apply cfg net True spec n)"
  define n2 where "n2 = snd (run_agent new True False n1)"
  define n3 where "n3 = snd (run_agent new True reaches n2)"
  define n4 where "n4 = snd (run_agent cfg True True n3)"
  note folds = n1_def [symmetric] n2_def [symmetric] n3_def [symmetric] n4_def [symmetric]
  have r: "Apply cfg net True spec n = (fst (Apply cfg net True spec n), n1)" "run_agent new True False n1 = (fst (run_agent new True False n1), n2)"
    "run_agent new True reaches n2 = (fst (run_agent new True reaches n2), n3)" "run_agent cfg True True n3 = (fst (run_agent cfg True True n3), n4)"
    "probation new m n2 = (fst (probation new m n2), snd (probation new m n2))"
    "Apply cfg net True spec n4 = (fst (Apply cfg net True spec n4), snd (Apply cfg net True spec n4))"
    unfolding n1_def n2_def n3_def n4_def by simp_all
  have bin: "uc_binary cfg" using assms(1) disabledReason_binary by (simp add: serves_def)
  note s1 = Apply_calm [OF assms(1,5,6,7) r(1)]
  note s2 = first_start [OF _ assms(3,4) _ _ _ r(2)]
  have 2: "no_faults n2 \<and> \<not> nd_dialed n2 \<and> nd_fs n2 Previous = Some (Bytes old) \<and> nd_fs n2 Binary = Some (Bytes body)
      \<and> (\<exists>m. nd_fs n2 MarkerFile = Some (MarkerDoc m) \<and> mk_Attempts m = 1 \<and> mk_Target m = want_of spec)"
    using s1 s2 assms(8) by fastforce
  then obtain mk where mk: "nd_fs n2 MarkerFile = Some (MarkerDoc mk)" "mk_Attempts mk = 1" "mk_Target mk = want_of spec" by auto
  note s3 = second_start [OF _ assms(3,4) mk(1,2) _ r(3), of "Bytes old"]
  have 3: "no_faults n3 \<and> nd_fs n3 Binary = Some (Bytes old) \<and> nd_fs n3 MarkerFile = None
      \<and> nd_fs n3 NoteFile = Some (NoteDoc (want_of spec) ''the new binary did not reach the bus'')"
    using s3 2 mk(3) by simp
  then have 4: "no_faults n4 \<and> \<not> nd_busy n4 \<and> nd_phase n4 = RolledBack \<and> nd_target n4 = want_of spec \<and> nd_fs n4 Binary = Some (Bytes old)"
    using start_after_rollback [OF _ bin assms(2) _ _ _ r(4), of "want_of spec" "''the new binary did not reach the bus''"] by simp
  have "nd_fs (snd (Apply cfg net True spec n4)) Binary = Some (Bytes body)"
    using Apply_calm [OF assms(1) _ _ _ r(6)] 4 by auto
  moreover have "nd_fs (snd (probation new m n2)) Binary = Some (Bytes old)"
    using timer_rolls_back [OF _ _ _ r(5)] 2 by blast
  ultimately show ?thesis unfolding Let_def folds using s1 2 3 4 by simp
qed

text \<open>A host with two releases: version 1.0.0 is installed, 1.1.0 is on offer.\<close>

definition hex_digits :: string where
  "hex_digits = replicate 64 (CHR ''0'')"

definition demo_cfg :: "string \<Rightarrow> upd_cfg" where
  "demo_cfg b =
     \<lparr> uc_Version = b, uc_Disabled = False, uc_binary = True, uc_writable = True, uc_stateDir = True,
       uc_publicKeys = replicate 43 (CHR ''A'') @ ''='', uc_arch = ''amd64'', uc_Probation = 600,
       uc_verify = (\<lambda>k sums sig. has_prefix hex_digits sums), uc_sha256 = (\<lambda>c. if c = ''v1.1.0'' then replicate 32 (CHR 0x00) else ''other''),
       uc_run = (\<lambda>c. Inr c) \<rparr>"

definition demo_net :: network where
  "demo_net url = (if contains url ''.sig'' then Inr (replicate 64 (CHR ''s''))
     else if contains url ''SUMS'' then Inr (hex_digits @ ''  cypher-agent-linux-amd64'') else Inr ''v1.1.0'')"

definition demo_spec :: update_spec where
  "demo_spec = \<lparr> us_Version = ''v1.1.0'', us_ArtifactBase = ''https://mirror/'', us_Rollback = False \<rparr>"

definition demo_host :: node where
  "demo_host =
     \<lparr> nd_fs = [Binary \<mapsto> Bytes ''v1.0.0''], nd_phase = Idle, nd_target = [], nd_previous = [], nd_detail = [], nd_busy = False,
       nd_dialed = True, nd_exited = False, nd_now = 0, nd_calls = 0, nd_faults = (\<lambda>_. None), nd_torn = (\<lambda>_. []) \<rparr>"

lemma demo_manifest:
  "map_option (\<lambda>m. m (artifactName ''amd64''))
     (case verifyManifest (demo_cfg ''v1.0.0'') (hex_digits @ ''  cypher-agent-linux-amd64'') (replicate 64 (CHR ''s'')) of Inl _ \<Rightarrow> None | Inr m \<Rightarrow> Some m)
   = Some (Some (replicate 32 (CHR 0x00)))"
  by code_simp

lemma demo_urls:
  "disabledReason (demo_cfg ''v1.0.0'') = []" "want_of demo_spec = ''v1.1.0''" "base_of demo_spec = ''https://mirror''" "validTag ''v1.1.0''"
  "\<not> isDowngrade ''v1.0.0'' ''v1.1.0''" "\<not> contains ''https://mirror'' ''..''"
  "demo_net (''https://mirror'' @ ''/'' @ ''SHA256SUMS'') = Inr (hex_digits @ ''  cypher-agent-linux-amd64'')"
  "demo_net (''https://mirror'' @ ''/'' @ ''SHA256SUMS.sig'') = Inr (replicate 64 (CHR ''s''))"
  "demo_net (''https://mirror'' @ ''/'' @ artifactName ''amd64'') = Inr ''v1.1.0''" "contains (trim_space ''v1.1.0'') ''v1.1.0''"
  by code_simp+

lemma demo_accepts:
  assumes "want_of spec \<noteq> []" "want_of spec \<noteq> b" "validTag (want_of spec)" "\<not> isDowngrade b (want_of spec)"
    "base_of spec = ''https://mirror''" "contains (trim_space ''v1.1.0'') (want_of spec)"
  shows "serves (demo_cfg b) demo_net spec ''v1.1.0''"
proof -
  have same: "disabledReason (demo_cfg b) = disabledReason (demo_cfg ''v1.0.0'')"
    "verifyManifest (demo_cfg b) sums sig = verifyManifest (demo_cfg ''v1.0.0'') sums sig" for sums sig
    by (simp_all add: disabledReason_def verifyManifest_def demo_cfg_def Let_def)
  have "\<exists>man. verifyManifest (demo_cfg b) (hex_digits @ ''  cypher-agent-linux-amd64'') (replicate 64 (CHR ''s'')) = Inr man
      \<and> man (artifactName ''amd64'') = Some (replicate 32 (CHR 0x00))"
    unfolding same using demo_manifest by (auto split: sum.splits)
  moreover have "uc_Version (demo_cfg b) = b" "uc_arch (demo_cfg b) = ''amd64''"
    "uc_sha256 (demo_cfg b) ''v1.1.0'' = replicate 32 (CHR 0x00)" "uc_run (demo_cfg b) ''v1.1.0'' = Inr ''v1.1.0''"
    by (simp_all add: demo_cfg_def)
  ultimately show ?thesis unfolding serves_def runs_as_def same(1) using demo_urls assms by simp
qed

lemma demo_serves: "serves (demo_cfg ''v1.0.0'') demo_net demo_spec ''v1.1.0''"
  by (rule demo_accepts) (simp_all add: demo_urls)

theorem vetted_binary_in_place_witness:
  "vetted (lineage demo_cfg ''v1.0.0'') (nd_fs (snd (Apply (demo_cfg ''v1.0.0'') demo_net True demo_spec demo_host)) Binary)"
proof -
  have "host_run demo_cfg (demo_host, ''v1.0.0'') (snd (Apply (demo_cfg ''v1.0.0'') demo_net True demo_spec demo_host), ''v1.0.0'')"
    unfolding host_run_def by (intro r_into_rtranclp host_step.told)
  then show ?thesis
    using vetted_binary_in_place [of demo_cfg demo_host "''v1.0.0''"] by (simp add: demo_host_def crash_only_def)
qed

theorem failed_update_undone_witness:
  "let n1 = snd (Apply (demo_cfg ''v1.0.0'') demo_net True demo_spec demo_host);
       n2 = snd (run_agent (demo_cfg ''v1.1.0'') True False n1);
       n3 = snd (run_agent (demo_cfg ''v1.1.0'') True False n2) in
   nd_fs n2 Binary = Some (Bytes ''v1.1.0'') \<and> nd_fs n3 Binary = Some (Bytes ''v1.0.0'')"
proof -
  have h: "uc_stateDir (demo_cfg b)" "uc_binary (demo_cfg b)" "no_faults demo_host" "\<not> nd_busy demo_host"
    "nd_fs demo_host Binary = Some (Bytes ''v1.0.0'')" "nd_fs demo_host NoteFile = None" for b
    by (simp_all add: demo_cfg_def demo_host_def no_faults_def)
  show ?thesis
    using failed_update_undone [OF demo_serves h(1) h(2) h(1) h(3-6), where reaches = False] unfolding Let_def by blast
qed

section \<open>Where the roll-back falls short\<close>

text \<open>
  C31. The roll-back does not cover a release that cannot load the identity of its host. The start-up loads the identity before it
  looks at the boot marker, so a new binary that fails there ends before its attempt is counted: however often it is started, it stays
  in place and the old binary never comes back.
\<close>

theorem identity_failure_strands_host:
  assumes "serves cfg net spec body" "no_faults n" "\<not> nd_busy n" "nd_fs n Binary = Some (Bytes old)"
  shows "let n1 = snd (Apply cfg net True spec n) in
    nd_fs (((\<lambda>s. snd (run_agent new False reaches s)) ^^ k) n1) Binary = Some (Bytes body)
    \<and> nd_fs (((\<lambda>s. snd (run_agent new False reaches s)) ^^ k) n1) Previous = Some (Bytes old)"
proof -
  obtain r n1 where run: "Apply cfg net True spec n = (r, n1)" by fastforce
  have "nd_fs (((\<lambda>s. snd (run_agent new False reaches s)) ^^ k) s) = nd_fs s" for s
    by (induction k) (simp_all add: run_agent_def NewUpdater_def exit_process_def runs)
  with Apply_calm [OF assms run] show ?thesis by (simp add: run)
qed

theorem identity_failure_strands_host_witness:
  "nd_fs (((\<lambda>s. snd (run_agent (demo_cfg ''v1.1.0'') False True s)) ^^ 9) (snd (Apply (demo_cfg ''v1.0.0'') demo_net True demo_spec demo_host))) Binary
   = Some (Bytes ''v1.1.0'')"
proof -
  have h: "no_faults demo_host" "\<not> nd_busy demo_host" "nd_fs demo_host Binary = Some (Bytes ''v1.0.0'')"
    by (simp_all add: demo_host_def no_faults_def)
  show ?thesis using identity_failure_strands_host [OF demo_serves h, where new = "demo_cfg ''v1.1.0''" and reaches = True and k = 9] unfolding Let_def by blast
qed

definition power_back :: "node \<Rightarrow> node" where
  "power_back n = n\<lparr>nd_faults := (\<lambda>_. None), nd_calls := 0\<rparr>"

definition cut_before_swap :: node where
  "cut_before_swap = demo_host\<lparr>nd_fs := [Binary \<mapsto> Bytes ''v1.0.0'', Previous \<mapsto> Bytes ''v0.9.0''],
     nd_faults := (\<lambda>i. if i < 10 then None else Some ''power cut'')\<rparr>"

definition slots :: "node \<Rightarrow> blob option list" where
  "slots n = map (nd_fs n) [Binary, Previous, MarkerFile, NoteFile]"

lemma cut_leaves_marker:
  "slots (snd (Apply (demo_cfg ''v1.0.0'') demo_net True demo_spec cut_before_swap))
   = [Some (Bytes ''v1.0.0''), Some (Bytes ''v0.9.0''),
      Some (MarkerDoc \<lparr>mk_Target = ''v1.1.0'', mk_Previous = ''v1.0.0'', mk_Attempts = 0, mk_Probation = 600\<rparr>), None]"
  by code_simp

lemma offline_starts_roll_back:
  assumes "no_faults n" "uc_binary cfg" "uc_stateDir cfg" "nd_fs n MarkerFile = Some (MarkerDoc m)" "mk_Attempts m = 0"
    "nd_fs n NoteFile = None" "nd_fs n Previous = Some old"
  shows "nd_fs (snd (run_agent cfg True False (snd (run_agent cfg True False n)))) Binary = Some old"
proof -
  obtain r1 n1 where r1: "run_agent cfg True False n = (r1, n1)" by fastforce
  obtain r2 n2 where r2: "run_agent cfg True False n1 = (r2, n2)" by fastforce
  note s1 = first_start [OF assms(1-6) r1]
  have "nd_fs n2 Binary = Some old" using second_start [OF _ assms(2,3) _ _ _ r2] s1 assms(7) by fastforce
  then show ?thesis by (simp add: r1 r2)
qed

text \<open>
  A marker without a swap is not harmless. Power fails after the boot marker of a release was written and before the swap; the
  previous slot still holds the binary an earlier update replaced. If the panel cannot be reached at the next two starts, the healthy
  binary in place is replaced by that older one.
\<close>

theorem stale_rollback:
  "let n1 = power_back (snd (Apply (demo_cfg ''v1.0.0'') demo_net True demo_spec cut_before_swap)) in
   nd_fs cut_before_swap Binary = Some (Bytes ''v1.0.0'') \<and> nd_fs n1 Binary = Some (Bytes ''v1.0.0'')
   \<and> nd_fs (snd (run_agent (demo_cfg ''v1.0.0'') True False (snd (run_agent (demo_cfg ''v1.0.0'') True False n1)))) Binary
     = Some (Bytes ''v0.9.0'')"
proof -
  define n1 where "n1 = power_back (snd (Apply (demo_cfg ''v1.0.0'') demo_net True demo_spec cut_before_swap))"
  have fs: "nd_fs n1 Binary = Some (Bytes ''v1.0.0'')" "nd_fs n1 Previous = Some (Bytes ''v0.9.0'')" "nd_fs n1 NoteFile = None"
    "nd_fs n1 MarkerFile = Some (MarkerDoc \<lparr>mk_Target = ''v1.1.0'', mk_Previous = ''v1.0.0'', mk_Attempts = 0, mk_Probation = 600\<rparr>)"
    using cut_leaves_marker by (simp_all add: n1_def power_back_def slots_def)
  have "no_faults n1" "uc_binary (demo_cfg b)" "uc_stateDir (demo_cfg b)" for b by (simp_all add: n1_def power_back_def no_faults_def demo_cfg_def)
  from offline_starts_roll_back [OF this fs(4) _ fs(3,2)] fs(1) show ?thesis
    unfolding Let_def n1_def [symmetric] by (simp add: cut_before_swap_def)
qed

end
