(* ===== verification/Channels.thy ===== *)
theory Channels
  imports Updater_Props
begin

text \<open>
  The release channels of agents (\<open>src/core/agentupdates/agentupdates.go\<close>): the version each channel names, the channel each
  server follows, the gate between canary and stable, and what a server is told. The state is the columns of
  \<open>agent_channels\<close> and \<open>servers\<close> that the service reads or writes, and the resync requests it sends. Every
  statement and every request may fail. Parsing a URL and the HEAD request for the manifest are parameters.
\<close>

section \<open>Data (domain.go)\<close>

definition ChannelStable :: string where "ChannelStable = ''stable''"
definition ChannelCanary :: string where "ChannelCanary = ''canary''"
definition AgentPhaseRolledBack :: string where "AgentPhaseRolledBack = ''rolled_back''"
definition StatusUnknown :: string where "StatusUnknown = ''unknown''"

definition ValidChannel :: "string \<Rightarrow> bool" where
  "ValidChannel c \<longleftrightarrow> c = ChannelStable \<or> c = ChannelCanary"

record agentChannelRow =
  ch_Channel :: string
  ch_DesiredVersion :: string
  ch_ArtifactBase :: string
  ch_Rollback :: bool
  ch_UpdatedBy :: string

record fleetServer =
  fs_ID :: string
  fs_Name :: string
  fs_Status :: string
  fs_AgentVersion :: string
  fs_AgentChannel :: string
  fs_AgentUpdatePhase :: string
  fs_AgentUpdateTarget :: string
  fs_AgentUpdateDetail :: string

datatype channelError =
    ErrUnknownChannel | ErrBadVersion string | ErrBadArtifactBase string | ErrNewerThanPanel string
  | ErrArtifactUnreachable string | ErrGateNoConverged string | ErrGateRolledBack string
  | RowMissing string | StoreFailed string

record url =
  url_Scheme :: string
  url_Host :: string
  url_User :: bool
  url_RawQuery :: string
  url_Fragment :: string
  url_Path :: string

record channels_cfg =
  cc_panelVer :: string
  cc_precheck :: bool
  cc_resync :: bool
  cc_parse_url :: "string \<Rightarrow> url option"
  cc_head :: "string \<Rightarrow> int option"

record fleet =
  fl_channels :: "agentChannelRow list"
  fl_servers :: "fleetServer list"
  fl_resyncs :: "(string option \<times> string) list"
  fl_calls :: nat
  fl_faults :: "nat \<Rightarrow> string option"

type_synonym 'a chop = "(fleet, channelError, 'a) comp"

section \<open>Store (store.go)\<close>

definition db_call :: "string \<Rightarrow> unit chop" where
  "db_call name = (\<lambda>f. (case fl_faults f (fl_calls f) of None \<Rightarrow> Inr () | Some msg \<Rightarrow> Inl (StoreFailed (''store: '' @ name @ '': '' @ msg)),
     f\<lparr>fl_calls := Suc (fl_calls f)\<rparr>))"

definition row_or_missing :: "string \<Rightarrow> 'a option \<Rightarrow> 'a chop" where
  "row_or_missing name r = (case r of None \<Rightarrow> throw (RowMissing (''store: '' @ name)) | Some x \<Rightarrow> ret x)"

text \<open>Two rows at most, in the order of their names.\<close>

definition ListAgentChannels :: "agentChannelRow list chop" where
  "ListAgentChannels = bnd (db_call ''listing agent channels'') (\<lambda>_. gets (\<lambda>f. sort_key ch_Channel (fl_channels f)))"

definition GetAgentChannel :: "string \<Rightarrow> agentChannelRow chop" where
  "GetAgentChannel channel =
     bnd (db_call ''reading an agent channel'') (\<lambda>_.
     bnd (gets (\<lambda>f. List.find (\<lambda>r. ch_Channel r = channel) (fl_channels f)))
       (row_or_missing ''reading an agent channel''))"

definition SetAgentChannel :: "string \<Rightarrow> string \<Rightarrow> string \<Rightarrow> bool \<Rightarrow> string \<Rightarrow> agentChannelRow chop" where
  "SetAgentChannel channel version artifactBase roll by' =
     bnd (db_call ''setting an agent channel'') (\<lambda>_.
     bnd (modify (\<lambda>f. f\<lparr>fl_channels := update_where (\<lambda>r. ch_Channel r = channel)
        (\<lambda>r. r\<lparr>ch_DesiredVersion := version, ch_ArtifactBase := artifactBase, ch_Rollback := roll, ch_UpdatedBy := by'\<rparr>) (fl_channels f)\<rparr>)) (\<lambda>_.
     bnd (gets (\<lambda>f. List.find (\<lambda>r. ch_Channel r = channel) (fl_channels f)))
       (row_or_missing ''setting an agent channel'')))"

definition SetServerAgentChannel :: "string \<Rightarrow> string \<Rightarrow> fleetServer chop" where
  "SetServerAgentChannel sid channel =
     bnd (db_call ''setting the agent channel'') (\<lambda>_.
     bnd (modify (\<lambda>f. f\<lparr>fl_servers := update_where (\<lambda>s. fs_ID s = sid) (\<lambda>s. s\<lparr>fs_AgentChannel := channel\<rparr>) (fl_servers f)\<rparr>)) (\<lambda>_.
     bnd (gets (\<lambda>f. List.find (\<lambda>s. fs_ID s = sid) (fl_servers f))) (row_or_missing ''setting the agent channel'')))"

definition SetServerAgentUpdate :: "string \<Rightarrow> string \<Rightarrow> string \<Rightarrow> string \<Rightarrow> unit chop" where
  "SetServerAgentUpdate sid ph target detail =
     bnd (db_call ''recording the agent update phase'') (\<lambda>_.
     modify (\<lambda>f. f\<lparr>fl_servers := update_where (\<lambda>s. fs_ID s = sid)
        (\<lambda>s. s\<lparr>fs_AgentUpdatePhase := ph, fs_AgentUpdateTarget := target, fs_AgentUpdateDetail := detail\<rparr>) (fl_servers f)\<rparr>))"

text \<open>Rows are kept in the order they were created; the newest comes first.\<close>

definition ListFleet :: "fleetServer list chop" where
  "ListFleet = bnd (db_call ''listing servers'') (\<lambda>_. gets (\<lambda>f. rev (fl_servers f)))"

definition GetFleetServer :: "string \<Rightarrow> fleetServer chop" where
  "GetFleetServer sid =
     bnd (db_call ''getting server'') (\<lambda>_.
     bnd (gets (\<lambda>f. List.find (\<lambda>s. fs_ID s = sid) (fl_servers f))) (row_or_missing ''getting server''))"

section \<open>The service (agentupdates.go)\<close>

definition channelOf :: "fleetServer \<Rightarrow> string" where
  "channelOf s = (if ValidChannel (fs_AgentChannel s) then fs_AgentChannel s else ChannelStable)"

definition releaseHost :: string where
  "releaseHost = ''https://github.com/MaramHarsha/CypherPanel/releases/download/''"

definition DefaultArtifactBase :: "string \<Rightarrow> string" where
  "DefaultArtifactBase version = releaseHost @ version"

definition validArtifactBase :: "channels_cfg \<Rightarrow> string \<Rightarrow> unit chop" where
  "validArtifactBase cfg base =
     (case cc_parse_url cfg base of
        None \<Rightarrow> throw (ErrBadArtifactBase base)
      | Some u \<Rightarrow>
          if (url_Scheme u \<noteq> ''http'' \<and> url_Scheme u \<noteq> ''https'') \<or> url_Host u = [] \<or> url_User u \<or> url_RawQuery u \<noteq> [] \<or> url_Fragment u \<noteq> []
          then throw (ErrBadArtifactBase base)
          else if contains (url_Path u) ''..'' then throw (ErrBadArtifactBase base)
          else ret ())"

text \<open>The request itself always builds, from a constant host and a tag. Redirects are followed by the client.\<close>

definition preflight_head :: "channels_cfg \<Rightarrow> string \<Rightarrow> string \<Rightarrow> unit chop" where
  "preflight_head cfg version artifactBase =
     (if \<not> cc_precheck cfg \<or> artifactBase \<noteq> [] then ret ()
      else if \<not> ValidTag version then throw (ErrBadVersion version)
      else
        (let target = DefaultArtifactBase version @ ''/SHA256SUMS'' in
         case cc_head cfg target of
           None \<Rightarrow> throw (ErrArtifactUnreachable target)
         | Some status \<Rightarrow>
             if status < 200 \<or> status > 299
             then throw (ErrArtifactUnreachable (target @ '' answered '' @ itoa status))
             else ret ()))"

definition request_resync :: "channels_cfg \<Rightarrow> string option \<Rightarrow> string \<Rightarrow> unit chop" where
  "request_resync cfg sid reason =
     (if \<not> cc_resync cfg then ret ()
      else bnd (attempt (bnd (db_call ''resync'') (\<lambda>_. modify (\<lambda>f. f\<lparr>fl_resyncs := fl_resyncs f @ [(sid, reason)]\<rparr>)))) (\<lambda>_. ret ()))"

definition nudge :: "channels_cfg \<Rightarrow> string \<Rightarrow> unit chop" where
  "nudge cfg reason = request_resync cfg None reason"

definition SpecFor :: "fleetServer \<Rightarrow> (string \<times> string \<times> bool) chop" where
  "SpecFor s = bnd (GetAgentChannel (channelOf s)) (\<lambda>row. ret (ch_DesiredVersion row, ch_ArtifactBase row, ch_Rollback row))"

definition SetChannel :: "channels_cfg \<Rightarrow> string \<Rightarrow> string \<Rightarrow> string \<Rightarrow> string \<Rightarrow> agentChannelRow chop" where
  "SetChannel cfg channel version0 artifactBase0 by' =
     (if \<not> ValidChannel channel then throw ErrUnknownChannel
      else
        (let version = trim_space version0; artifactBase = trim_space artifactBase0 in
         if version = [] then SetAgentChannel channel [] [] False by'
         else if \<not> ValidTag version then throw (ErrBadVersion version)
         else
           bnd (if artifactBase \<noteq> [] then validArtifactBase cfg artifactBase else ret ()) (\<lambda>_.
           if newerThanPanel version (cc_panelVer cfg) then throw (ErrNewerThanPanel (cc_panelVer cfg))
           else
             bnd (GetAgentChannel channel) (\<lambda>current.
             let roll = goesBackwards (ch_DesiredVersion current) version in
             bnd (preflight_head cfg version artifactBase) (\<lambda>_.
             bnd (SetAgentChannel channel version artifactBase roll by') (\<lambda>row.
             bnd (nudge cfg (''agent-channel-'' @ channel)) (\<lambda>_.
             ret row)))))))"

text \<open>The loop of \<open>Promote\<close>: servers that rolled back, the number that converged, and the versions running.\<close>

definition bump_count :: "string \<Rightarrow> (string \<times> nat) list \<Rightarrow> (string \<times> nat) list" where
  "bump_count v m = (if v \<in> fst ` set m then update_where (\<lambda>(w, _). w = v) (\<lambda>(w, c). (w, c + 1)) m else m @ [(v, 1)])"

definition canary_step :: "string \<Rightarrow> string list \<times> nat \<times> (string \<times> nat) list \<Rightarrow> fleetServer \<Rightarrow> string list \<times> nat \<times> (string \<times> nat) list" where
  "canary_step want acc s = (case acc of (rolledBack, converged, running) \<Rightarrow>
     if channelOf s \<noteq> ChannelCanary then acc
     else if fs_Status s = StatusUnknown then acc
     else if fs_AgentUpdatePhase s = AgentPhaseRolledBack \<and> fs_AgentUpdateTarget s = want
     then (rolledBack @ [fs_Name s], converged, running)
     else (rolledBack, if fs_AgentVersion s = want then converged + 1 else converged,
           if fs_AgentVersion s \<noteq> [] then bump_count (fs_AgentVersion s) running else running))"

fun join_comma :: "string list \<Rightarrow> string" where
  "join_comma [] = []"
| "join_comma [s] = s"
| "join_comma (s # ss) = s @ '', '' @ join_comma ss"

definition describe :: "(string \<times> nat) list \<Rightarrow> string" where
  "describe running =
     (if running = [] then ''nothing (no canary server has been heard from)''
      else join_comma (sort (map (\<lambda>(v, c). v @ '' on '' @ dec c) running)))"

definition Promote :: "channels_cfg \<Rightarrow> string \<Rightarrow> agentChannelRow chop" where
  "Promote cfg by' =
     bnd (GetAgentChannel ChannelCanary) (\<lambda>canary.
     if ch_DesiredVersion canary = [] then throw (ErrGateNoConverged ''canary names no version'')
     else
       bnd ListFleet (\<lambda>servers.
       case foldl (canary_step (ch_DesiredVersion canary)) ([], 0, []) servers of (rolledBack, converged, running) \<Rightarrow>
         if rolledBack \<noteq> [] then throw (ErrGateRolledBack (join_comma rolledBack))
         else if converged = 0 then throw (ErrGateNoConverged (''canary is running '' @ describe running))
         else
           bnd (SetAgentChannel ChannelStable (ch_DesiredVersion canary) (ch_ArtifactBase canary) False by') (\<lambda>row.
           bnd (nudge cfg ''agent-channel-promote'') (\<lambda>_.
           ret row))))"

definition SetServerChannel :: "channels_cfg \<Rightarrow> string \<Rightarrow> string \<Rightarrow> fleetServer chop" where
  "SetServerChannel cfg serverID channel =
     (if \<not> ValidChannel channel then throw ErrUnknownChannel
      else
        bnd (SetServerAgentChannel serverID channel) (\<lambda>s.
        bnd (request_resync cfg (Some serverID) ''agent-channel'') (\<lambda>_.
        ret s)))"

record serverView =
  sv_Server :: fleetServer
  sv_Desired :: string
  sv_Converged :: bool

record view =
  vw_PanelVersion :: string
  vw_Channels :: "agentChannelRow list"
  vw_Servers :: "serverView list"
  vw_Histogram :: "(string \<times> nat) list"

text \<open>A channel without a row reads as the zero row. Servers of equal names are listed in table order.\<close>

definition desired_of :: "agentChannelRow list \<Rightarrow> fleetServer \<Rightarrow> string" where
  "desired_of rows s = (case List.find (\<lambda>r. ch_Channel r = channelOf s) rows of None \<Rightarrow> [] | Some r \<Rightarrow> ch_DesiredVersion r)"

definition GetView :: "channels_cfg \<Rightarrow> view chop" where
  "GetView cfg =
     bnd ListAgentChannels (\<lambda>channels.
     bnd ListFleet (\<lambda>servers.
     ret \<lparr> vw_PanelVersion = cc_panelVer cfg, vw_Channels = channels,
       vw_Servers = sort_key (fs_Name \<circ> sv_Server)
         (map (\<lambda>s. \<lparr> sv_Server = s, sv_Desired = desired_of channels s,
            sv_Converged = (desired_of channels s = [] \<or> desired_of channels s = fs_AgentVersion s) \<rparr>) servers),
       vw_Histogram = foldl (\<lambda>h s. if fs_AgentVersion s \<noteq> [] then bump_count (fs_AgentVersion s) h else h) [] servers \<rparr>))"

section \<open>What a server is told (scheduler.go)\<close>

text \<open>Part of the desired state: a failed read tells nothing.\<close>

definition agent_update_of :: "string \<Rightarrow> update_spec option chop" where
  "agent_update_of serverID =
     bnd (attempt (bnd (GetFleetServer serverID) SpecFor)) (\<lambda>r.
     case r of
       Inl _ \<Rightarrow> ret None
     | Inr (version, base, roll) \<Rightarrow>
         if version \<noteq> [] then ret (Some \<lparr> us_Version = version, us_ArtifactBase = base, us_Rollback = roll \<rparr>) else ret None)"

end
