(* ===== verification/Channels_Props.thy ===== *)
theory Channels_Props
  imports Channels
begin

text \<open>
  What the release channels guarantee to the agents, and where an instruction an operator gave does not reach them.
\<close>

section \<open>The tables\<close>

definition tag_ok :: "channels_cfg \<Rightarrow> string \<Rightarrow> bool" where
  "tag_ok cfg v \<longleftrightarrow> v = [] \<or> ValidTag v \<and> \<not> newerThanPanel v (cc_panelVer cfg)"

definition base_ok :: "channels_cfg \<Rightarrow> string \<Rightarrow> bool" where
  "base_ok cfg b \<longleftrightarrow> b = [] \<or> (\<exists>u. cc_parse_url cfg b = Some u \<and> (url_Scheme u = ''http'' \<or> url_Scheme u = ''https'')
     \<and> url_Host u \<noteq> [] \<and> \<not> url_User u \<and> url_RawQuery u = [] \<and> url_Fragment u = [] \<and> \<not> contains (url_Path u) ''..'')"

definition row_ok :: "channels_cfg \<Rightarrow> agentChannelRow \<Rightarrow> bool" where
  "row_ok cfg r \<longleftrightarrow> tag_ok cfg (ch_DesiredVersion r) \<and> base_ok cfg (ch_ArtifactBase r)"

text \<open>Both channels have one row each, their content was vetted, and every server follows one of the two.\<close>

definition fleet_ok :: "channels_cfg \<Rightarrow> fleet \<Rightarrow> bool" where
  "fleet_ok cfg f \<longleftrightarrow> map ch_Channel (fl_channels f) = [ChannelStable, ChannelCanary]
     \<and> list_all (row_ok cfg) (fl_channels f) \<and> list_all (\<lambda>s. ValidChannel (fs_AgentChannel s)) (fl_servers f)"

definition seeded :: "fleet \<Rightarrow> bool" where
  "seeded f \<longleftrightarrow> fl_servers f = [] \<and> (\<exists>a b. fl_channels f
     = [\<lparr>ch_Channel = ChannelStable, ch_DesiredVersion = [], ch_ArtifactBase = [], ch_Rollback = False, ch_UpdatedBy = a\<rparr>,
        \<lparr>ch_Channel = ChannelCanary, ch_DesiredVersion = [], ch_ArtifactBase = [], ch_Rollback = False, ch_UpdatedBy = b\<rparr>])"

lemma seeded_ok: "seeded f \<Longrightarrow> fleet_ok cfg f"
  by (auto simp: seeded_def fleet_ok_def row_ok_def tag_ok_def base_ok_def)

lemma db_call_keeps [tri]: "keeps (fleet_ok cfg) (db_call name)"
  by (rule keepsI) (simp add: db_call_def fleet_ok_def)

lemma row_or_missing_keeps [tri]: "keeps (fleet_ok cfg) (row_or_missing name r)"
  unfolding row_or_missing_def by (intro tri)

lemma GetAgentChannel_keeps [tri]: "keeps (fleet_ok cfg) (GetAgentChannel c)"
  unfolding GetAgentChannel_def by (intro tri)

lemma lists_keep [tri]: "keeps (fleet_ok cfg) ListFleet" "keeps (fleet_ok cfg) ListAgentChannels" "keeps (fleet_ok cfg) (GetFleetServer i)"
  unfolding ListFleet_def ListAgentChannels_def GetFleetServer_def by (intro tri)+

lemma list_all_where_kept:
  "list_all P xs \<Longrightarrow> (\<And>x. P x \<Longrightarrow> p x \<Longrightarrow> P (g x)) \<Longrightarrow> list_all P (update_where p g xs)"
  by (induction xs) auto

lemma SetAgentChannel_keeps [tri]:
  assumes "tag_ok cfg v" "base_ok cfg b"
  shows "keeps (fleet_ok cfg) (SetAgentChannel c v b r by')"
  unfolding SetAgentChannel_def
proof (intro tri keeps_modify)
  fix f assume "fleet_ok cfg f"
  then show "fleet_ok cfg (f\<lparr>fl_channels := update_where (\<lambda>r. ch_Channel r = c)
      (\<lambda>x. x\<lparr>ch_DesiredVersion := v, ch_ArtifactBase := b, ch_Rollback := r, ch_UpdatedBy := by'\<rparr>) (fl_channels f)\<rparr>)"
    using assms by (auto simp: fleet_ok_def map_update_where row_ok_def intro: list_all_where_kept)
qed

lemma request_resync_keeps [tri]: "keeps (fleet_ok cfg) (request_resync cfg' i reason)" "keeps (fleet_ok cfg) (nudge cfg' reason)"
  unfolding nudge_def request_resync_def by (intro tri keeps_modify; simp add: fleet_ok_def)+

lemma heads_keep [tri]: "keeps (fleet_ok cfg) (validArtifactBase cfg' b)" "keeps (fleet_ok cfg) (preflight_head cfg' v b)"
  unfolding validArtifactBase_def preflight_head_def Let_def by (intro tri)+

lemma validArtifactBase_Inr: "validArtifactBase cfg b f = (Inr (), f') \<Longrightarrow> base_ok cfg b"
  by (auto simp: validArtifactBase_def base_ok_def split: option.splits if_splits)

lemma SetChannel_keeps: "keeps (fleet_ok cfg) (SetChannel cfg c v b by')"
proof -
  have base: "base_ok cfg x" if "(if x \<noteq> [] then validArtifactBase cfg x else ret ()) f = (Inr (), f')" for x f f'
    using that by (cases "x = []") (auto simp: base_ok_def [of cfg "[]"] intro: validArtifactBase_Inr)
  have empty: "tag_ok cfg []" "base_ok cfg []" by (simp_all add: tag_ok_def base_ok_def)
  show ?thesis
    unfolding SetChannel_def Let_def
  proof (intro keeps_if keeps_throw SetAgentChannel_keeps empty, rule keeps_bnd_run)
    show "keeps (fleet_ok cfg) (if trim_space b \<noteq> [] then validArtifactBase cfg (trim_space b) else ret ())" by (intro tri)
    fix f and u :: unit and f' assume "(if trim_space b \<noteq> [] then validArtifactBase cfg (trim_space b) else ret ()) f = (Inr u, f')"
      and tag: "\<not> \<not> ValidTag (trim_space v)"
    then have "base_ok cfg (trim_space b)" using base by simp
    with tag show "keeps (fleet_ok cfg) (if newerThanPanel (trim_space v) (cc_panelVer cfg) then throw (ErrNewerThanPanel (cc_panelVer cfg))
        else bnd (GetAgentChannel c) (\<lambda>current.
             bnd (preflight_head cfg (trim_space v) (trim_space b)) (\<lambda>_.
             bnd (SetAgentChannel c (trim_space v) (trim_space b) (goesBackwards (ch_DesiredVersion current) (trim_space v)) by') (\<lambda>row.
             bnd (nudge cfg (''agent-channel-'' @ c)) (\<lambda>_.
             ret row)))))"
      by (intro tri) (auto simp: tag_ok_def)
  qed
qed

lemma GetAgentChannel_Inr:
  "GetAgentChannel c f = (Inr r, f') \<Longrightarrow> f' = f\<lparr>fl_calls := Suc (fl_calls f)\<rparr> \<and> r \<in> set (fl_channels f) \<and> ch_Channel r = c"
  by (auto simp: GetAgentChannel_def inverts db_call_def row_or_missing_def dest: find_Some_set split: option.splits)

lemma Promote_keeps: "keeps (fleet_ok cfg) (Promote cfg by')"
  unfolding Promote_def
proof (rule keeps_bnd_run [OF GetAgentChannel_keeps])
  fix f canary f' assume "fleet_ok cfg f" "GetAgentChannel ChannelCanary f = (Inr canary, f')"
  then have "row_ok cfg canary" by (auto dest!: GetAgentChannel_Inr simp: fleet_ok_def list_all_iff)
  then show "keeps (fleet_ok cfg) (if ch_DesiredVersion canary = [] then throw (ErrGateNoConverged ''canary names no version'')
     else
       bnd ListFleet (\<lambda>servers.
       case foldl (canary_step (ch_DesiredVersion canary)) ([], 0, []) servers of (rolledBack, converged, running) \<Rightarrow>
         if rolledBack \<noteq> [] then throw (ErrGateRolledBack (join_comma rolledBack))
         else if converged = 0 then throw (ErrGateNoConverged (''canary is running '' @ describe running))
         else
           bnd (SetAgentChannel ChannelStable (ch_DesiredVersion canary) (ch_ArtifactBase canary) False by') (\<lambda>row.
           bnd (nudge cfg ''agent-channel-promote'') (\<lambda>_.
           ret row))))"
    by (intro tri) (auto simp: row_ok_def)
qed

lemma SetServerChannel_keeps: "keeps (fleet_ok cfg) (SetServerChannel cfg i c)"
  unfolding SetServerChannel_def SetServerAgentChannel_def
  by (intro tri keeps_modify) (auto simp: fleet_ok_def intro: list_all_where_kept)

lemma SetServerAgentUpdate_keeps: "keeps (fleet_ok cfg) (SetServerAgentUpdate i ph t d)"
  unfolding SetServerAgentUpdate_def by (intro tri keeps_modify) (auto simp: fleet_ok_def intro: list_all_where_kept)

lemma GetView_keeps: "keeps (fleet_ok cfg) (GetView cfg)"
  unfolding GetView_def by (intro tri)

section \<open>Runs of the service\<close>

text \<open>
  Requests of operators, reports of agents, heartbeats that record a status and a version, servers that join, and the weather:
  which of the next calls fail.
\<close>

inductive fleet_step :: "channels_cfg \<Rightarrow> fleet \<Rightarrow> fleet \<Rightarrow> bool" for cfg where
  set_version: "fleet_step cfg f (snd (SetChannel cfg c v b by' f))"
| promote: "fleet_step cfg f (snd (Promote cfg by' f))"
| move: "fleet_step cfg f (snd (SetServerChannel cfg i c f))"
| look: "fleet_step cfg f (snd (GetView cfg f))"
| report: "fleet_step cfg f (snd (SetServerAgentUpdate i ph t d f))"
| heartbeat: "fleet_step cfg f (f\<lparr>fl_servers := update_where (\<lambda>s. fs_ID s = i) (\<lambda>s. s\<lparr>fs_Status := st, fs_AgentVersion := v\<rparr>) (fl_servers f)\<rparr>)"
| join: "ValidChannel (fs_AgentChannel s) \<Longrightarrow> fleet_step cfg f (f\<lparr>fl_servers := fl_servers f @ [s]\<rparr>)"
| weather: "fleet_step cfg f (f\<lparr>fl_faults := g, fl_calls := 0\<rparr>)"

lemma fleet_step_ok:
  assumes "fleet_step cfg f f'" "fleet_ok cfg f"
  shows "fleet_ok cfg f'"
  using assms
proof (cases rule: fleet_step.cases)
  case (heartbeat i st v)
  with assms(2) show ?thesis by (auto simp: fleet_ok_def intro: list_all_where_kept)
qed (auto simp: fleet_ok_def [of cfg "fl_servers_update _ _"] fleet_ok_def [of cfg "fl_calls_update _ _"]
    intro: keepsD SetChannel_keeps Promote_keeps SetServerChannel_keeps GetView_keeps SetServerAgentUpdate_keeps
    simp: fleet_ok_def [of cfg f])

lemma tag_trims: "ValidTag v \<Longrightarrow> trim_space v = v"
proof (rule trim_space_plain)
  fix c assume v: "ValidTag v" "c \<in> set v"
  then have "tagShape v" by (simp add: ValidTag_def)
  have "tag_char c \<or> c = CHR ''-'' \<or> c = CHR ''v''"
    using tagShape_chars [OF \<open>tagShape v\<close>] trim_prefix_set [of v "''v''"] v(2) by auto
  then show "32 < (of_char c :: nat) \<and> (of_char c :: nat) < 127" using tag_char_plain [of c] by auto
qed

text \<open>
  C29. An agent is only ever told to run a release. From the tables a migration seeds, take any sequence of requests, agent reports,
  heartbeats and joining servers, with any statement failing. If a server is then told a version, the version has the
  shape of a release tag on the agent's side too, it is not newer than the panel, and its mirror is an absolute http or https address
  without credentials, query or fragment. Both channels keep exactly one row.
\<close>

theorem told_a_release:
  assumes "(fleet_step cfg)\<^sup>*\<^sup>* f0 f" "seeded f0" "agent_update_of sid f = (Inr (Some spec), f')"
  shows "validTag (want_of spec) \<and> \<not> newerThanPanel (want_of spec) (cc_panelVer cfg) \<and> base_ok cfg (us_ArtifactBase spec)
    \<and> map ch_Channel (fl_channels f) = [ChannelStable, ChannelCanary]"
proof -
  from assms(1) have ok: "fleet_ok cfg f"
    by (induction rule: rtranclp_induct) (auto intro: seeded_ok [OF assms(2)] fleet_step_ok)
  from assms(3) obtain q f3 where q: "bnd (GetFleetServer sid) SpecFor f = (q, f3)"
    "(case q of Inl _ \<Rightarrow> ret None | Inr (version, base, roll) \<Rightarrow>
         if version \<noteq> [] then ret (Some \<lparr> us_Version = version, us_ArtifactBase = base, us_Rollback = roll \<rparr>) else ret None) f3
      = (Inr (Some spec) :: channelError + update_spec option, f')"
    unfolding agent_update_of_def by (rule attemptE)
  obtain s f1 r f2 where g: "GetFleetServer sid f = (Inr s, f1)" "GetAgentChannel (channelOf s) f1 = (Inr r, f2)"
    and spec: "ch_DesiredVersion r \<noteq> []"
      "spec = \<lparr> us_Version = ch_DesiredVersion r, us_ArtifactBase = ch_ArtifactBase r, us_Rollback = ch_Rollback r \<rparr>"
    using q by (cases q) (auto simp: inverts SpecFor_def split: prod.splits if_splits)
  have "keeps (fleet_ok cfg) (GetFleetServer sid)" by (intro tri)
  from keeps_run [OF this ok g(1)] GetAgentChannel_Inr [OF g(2)] have "row_ok cfg r" by (auto simp: fleet_ok_def list_all_iff)
  with spec have "ValidTag (ch_DesiredVersion r)" "\<not> newerThanPanel (ch_DesiredVersion r) (cc_panelVer cfg)" "base_ok cfg (ch_ArtifactBase r)"
    by (auto simp: row_ok_def tag_ok_def)
  with spec ok show ?thesis by (simp add: want_of_def tag_trims ValidTag_def validTag_def fleet_ok_def)
qed

section \<open>The gate between the channels\<close>

definition online_canary :: "fleetServer \<Rightarrow> bool" where
  "online_canary s \<longleftrightarrow> channelOf s = ChannelCanary \<and> fs_Status s \<noteq> StatusUnknown"

definition rolled_back :: "string \<Rightarrow> fleetServer \<Rightarrow> bool" where
  "rolled_back want s \<longleftrightarrow> fs_AgentUpdatePhase s = AgentPhaseRolledBack \<and> fs_AgentUpdateTarget s = want"

lemma canary_step_counts:
  "fst (snd (canary_step want acc s)) = fst (snd acc) + (if online_canary s \<and> \<not> rolled_back want s \<and> fs_AgentVersion s = want then 1 else 0)"
  "fst (canary_step want acc s) = fst acc @ (if online_canary s \<and> rolled_back want s then [fs_Name s] else [])"
  by (cases acc; simp add: canary_step_def online_canary_def rolled_back_def)+

lemma canary_fold:
  "fst (snd (foldl (canary_step want) acc servers))
     = fst (snd acc) + length (filter (\<lambda>s. online_canary s \<and> \<not> rolled_back want s \<and> fs_AgentVersion s = want) servers)"
  "fst (foldl (canary_step want) acc servers) = fst acc @ map fs_Name (filter (\<lambda>s. online_canary s \<and> rolled_back want s) servers)"
  by (induction servers arbitrary: acc) (simp_all add: canary_step_counts)

lemma find_update_where_val:
  "List.find p (update_where p g xs) = Some y \<Longrightarrow> (\<And>x. p (g x) = p x) \<Longrightarrow> \<exists>x. y = g x \<and> p x"
  by (induction xs) (auto split: if_splits)

lemma SetAgentChannel_Inr:
  assumes "SetAgentChannel c v b r by' f = (Inr row, f')"
  shows "row \<in> set (fl_channels f') \<and> ch_Channel row = c \<and> ch_DesiredVersion row = v \<and> ch_ArtifactBase row = b \<and> ch_Rollback row = r"
    "fl_servers f' = fl_servers f"
    "fl_channels f' = update_where (\<lambda>r. ch_Channel r = c)
      (\<lambda>x. x\<lparr>ch_DesiredVersion := v, ch_ArtifactBase := b, ch_Rollback := r, ch_UpdatedBy := by'\<rparr>) (fl_channels f)"
proof -
  show rows: "fl_channels f' = update_where (\<lambda>r. ch_Channel r = c)
      (\<lambda>x. x\<lparr>ch_DesiredVersion := v, ch_ArtifactBase := b, ch_Rollback := r, ch_UpdatedBy := by'\<rparr>) (fl_channels f)"
    "fl_servers f' = fl_servers f"
    using assms by (auto simp: SetAgentChannel_def inverts db_call_def row_or_missing_def split: option.splits)
  have f: "List.find (\<lambda>r. ch_Channel r = c) (fl_channels f') = Some row"
    using assms by (auto simp: SetAgentChannel_def inverts db_call_def row_or_missing_def split: option.splits)
  from find_update_where_val [OF f [unfolded rows]]
  obtain x where "row = x\<lparr>ch_DesiredVersion := v, ch_ArtifactBase := b, ch_Rollback := r, ch_UpdatedBy := by'\<rparr>" by auto
  with find_Some_set [OF f]
  show "row \<in> set (fl_channels f') \<and> ch_Channel row = c \<and> ch_DesiredVersion row = v \<and> ch_ArtifactBase row = b \<and> ch_Rollback row = r"
    by simp
qed

lemma find_update_where_hit: "x \<in> set xs \<Longrightarrow> p x \<Longrightarrow> (\<And>y. p y \<Longrightarrow> p (g y)) \<Longrightarrow> List.find p (update_where p g xs) \<noteq> None"
  by (induction xs) auto

lemma SetAgentChannel_Inl:
  assumes "SetAgentChannel c v b r by' f = (Inl e, f')"
  shows "fl_channels f' = fl_channels f \<and> fl_servers f' = fl_servers f"
proof (cases "\<exists>x \<in> set (fl_channels f). ch_Channel x = c")
  case True
  then have "List.find (\<lambda>r. ch_Channel r = c) (update_where (\<lambda>r. ch_Channel r = c)
      (\<lambda>x. x\<lparr>ch_DesiredVersion := v, ch_ArtifactBase := b, ch_Rollback := r, ch_UpdatedBy := by'\<rparr>) (fl_channels f)) \<noteq> None"
    using find_update_where_hit [of _ "fl_channels f" "\<lambda>r. ch_Channel r = c"] by auto
  with assms show ?thesis
    by (auto simp: SetAgentChannel_def bnd_run db_call_def row_or_missing_def split: option.splits)
next
  case False
  then have "update_where (\<lambda>r. ch_Channel r = c) g (fl_channels f) = fl_channels f" for g
    by (auto simp: update_where_def intro: map_idI)
  with assms show ?thesis
    by (auto simp: SetAgentChannel_def bnd_run db_call_def row_or_missing_def split: option.splits)
qed

lemma nudge_ok: "nudge cfg reason f = (Inr (), snd (nudge cfg reason f))"
  by (simp add: nudge_def request_resync_def runs db_call_def split: option.split)

lemma nudge_rows: "fl_channels (snd (nudge cfg reason f)) = fl_channels f \<and> fl_servers (snd (nudge cfg reason f)) = fl_servers f"
  by (simp add: nudge_def request_resync_def runs db_call_def split: option.split)

text \<open>
  C30. Nothing reaches the stable channel untested. If a promotion succeeds, whatever calls fail, then the canary channel names a version,
  a canary server that is not silent runs exactly that version, no such server reports that it rolled that version back, and
  stable now names that version with the mirror of canary. Servers and the canary row are untouched. If it does not succeed, no
  channel changes.
\<close>

theorem promotion_gate:
  "case Promote cfg by' f of
     (Inr row, f') \<Rightarrow>
       (\<exists>canary \<in> set (fl_channels f). ch_Channel canary = ChannelCanary \<and> canary \<in> set (fl_channels f') \<and> ch_DesiredVersion canary \<noteq> []
          \<and> ch_DesiredVersion row = ch_DesiredVersion canary \<and> ch_ArtifactBase row = ch_ArtifactBase canary
          \<and> (\<exists>s \<in> set (fl_servers f). online_canary s \<and> fs_AgentVersion s = ch_DesiredVersion canary)
          \<and> \<not> (\<exists>s \<in> set (fl_servers f). online_canary s \<and> rolled_back (ch_DesiredVersion canary) s))
       \<and> row \<in> set (fl_channels f') \<and> ch_Channel row = ChannelStable \<and> fl_servers f' = fl_servers f
   | (Inl e, f') \<Rightarrow> fl_channels f' = fl_channels f \<and> fl_servers f' = fl_servers f"
proof -
  obtain q f1 where g: "GetAgentChannel ChannelCanary f = (q, f1)" by fastforce
  have same1: "fl_channels f1 = fl_channels f" "fl_servers f1 = fl_servers f"
    using g by (auto simp: GetAgentChannel_def row_or_missing_def bnd_run db_call_def split: option.splits)
  show ?thesis
  proof (cases q)
    case (Inl e)
    with g same1 show ?thesis by (simp add: Promote_def bnd_run)
  next
    case (Inr canary)
    note c = GetAgentChannel_Inr [OF g [unfolded Inr]]
    let ?want = "ch_DesiredVersion canary"
    obtain q2 f2 where l: "ListFleet f1 = (q2, f2)" by fastforce
    have same2: "fl_channels f2 = fl_channels f" "fl_servers f2 = fl_servers f" "\<And>ss. q2 = Inr ss \<Longrightarrow> ss = rev (fl_servers f)"
      using l same1 by (auto simp: ListFleet_def bnd_run db_call_def split: option.splits)
    obtain rb conv run where fold: "foldl (canary_step ?want) ([], 0, []) (rev (fl_servers f)) = (rb, conv, run)"
      by (metis prod_cases3)
    show ?thesis
    proof (cases "?want \<noteq> [] \<and> q2 = Inr (rev (fl_servers f)) \<and> rb = [] \<and> conv \<noteq> 0")
      case False
      with same1 same2 l show ?thesis
        by (cases q2) (auto simp: Promote_def bnd_run g Inr fold)
    next
      case True
      obtain q3 f3 where st: "SetAgentChannel ChannelStable ?want (ch_ArtifactBase canary) False by' f2 = (q3, f3)" by fastforce
      show ?thesis
      proof (cases q3)
        case q3: (Inl e)
        with SetAgentChannel_Inl [OF st [unfolded q3]] True same2 show ?thesis
          by (simp add: Promote_def bnd_run g Inr l fold st)
      next
        case q3: (Inr row)
        note s = SetAgentChannel_Inr [OF st [unfolded q3]]
        obtain f4 where nd: "nudge cfg ''agent-channel-promote'' f3 = (Inr (), f4)" using nudge_ok by blast
        have res: "Promote cfg by' f = (Inr row, f4)"
          using True by (simp add: Promote_def bnd_run g Inr l fold st q3 nd)
        have rows: "row \<in> set (fl_channels f3)" "ch_Channel row = ChannelStable" "ch_DesiredVersion row = ?want" "ch_ArtifactBase row = ch_ArtifactBase canary"
          using s(1) by simp_all
        have "canary \<in> set (fl_channels f3)" using c s(3) same2(1) by (auto simp: set_update_where ChannelStable_def ChannelCanary_def intro!: bexI [of _ canary])
        moreover have "\<exists>s \<in> set (fl_servers f). online_canary s \<and> fs_AgentVersion s = ?want"
          "\<not> (\<exists>s \<in> set (fl_servers f). online_canary s \<and> rolled_back ?want s)"
          using canary_fold [of ?want "([], 0, [])" "rev (fl_servers f)"] True fold by (auto simp: filter_empty_conv)
        moreover have "fl_channels f4 = fl_channels f3" "fl_servers f4 = fl_servers f"
          using nudge_rows [of cfg "''agent-channel-promote''" f3] s(2) same2(2) by (simp_all add: nd)
        ultimately show ?thesis unfolding res prod.case sum.case
          using rows c True by (intro conjI bexI [of _ canary]) simp_all
      qed
    qed
  qed
qed

section \<open>Instructions that do not arrive\<close>

text \<open>A panel at 1.3.0 whose fleet runs 1.2.0, with one canary server.\<close>

definition demo_panel :: channels_cfg where
  "demo_panel = \<lparr> cc_panelVer = ''v1.3.0'', cc_precheck = False, cc_resync = True,
     cc_parse_url = (\<lambda>b. Some \<lparr> url_Scheme = ''https'', url_Host = ''mirror'', url_User = False, url_RawQuery = [], url_Fragment = [], url_Path = b \<rparr>),
     cc_head = (\<lambda>_. None) \<rparr>"

definition channel_row :: "string \<Rightarrow> string \<Rightarrow> agentChannelRow" where
  "channel_row c v = \<lparr> ch_Channel = c, ch_DesiredVersion = v, ch_ArtifactBase = [], ch_Rollback = False, ch_UpdatedBy = ''eve'' \<rparr>"

definition demo_server :: "string \<Rightarrow> string \<Rightarrow> string \<Rightarrow> fleetServer" where
  "demo_server i c v = \<lparr> fs_ID = i, fs_Name = i, fs_Status = ''running'', fs_AgentVersion = v, fs_AgentChannel = c,
     fs_AgentUpdatePhase = ''idle'', fs_AgentUpdateTarget = [], fs_AgentUpdateDetail = [] \<rparr>"

definition demo_fleet :: "string \<Rightarrow> fleet" where
  "demo_fleet canary = \<lparr> fl_channels = [channel_row ChannelStable ''v1.2.0'', channel_row ChannelCanary ''v1.2.0''],
     fl_servers = [demo_server ''s1'' ChannelStable ''v1.2.0'', demo_server ''c1'' ChannelCanary canary],
     fl_resyncs = [], fl_calls = 0, fl_faults = (\<lambda>_. None) \<rparr>"

definition told :: "string \<Rightarrow> fleet \<Rightarrow> update_spec option" where
  "told sid f = (case fst (agent_update_of sid f) of Inr r \<Rightarrow> r | Inl _ \<Rightarrow> None)"

definition asked :: "bool \<Rightarrow> update_spec" where
  "asked roll = \<lparr> us_Version = ''v1.1.0'', us_ArtifactBase = [], us_Rollback = roll \<rparr>"

lemma Apply_refuses:
  assumes "isDowngrade (uc_Version cfg) (want_of spec)" "\<not> us_Rollback spec"
  shows "nd_fs (snd (Apply cfg net quiet spec n)) = nd_fs n"
  using assms unfolding Apply_def Let_def want_of_def [symmetric] by (auto simp: setStatus_def)

text \<open>The versions an operator sets, one after the other; \<open>None\<close> promotes.\<close>

fun operate :: "(string \<times> string) option list \<Rightarrow> fleet \<Rightarrow> fleet" where
  "operate [] f = f"
| "operate (Some (c, v) # ops) f = operate ops (snd (SetChannel demo_panel c v [] ''eve'' f))"
| "operate (None # ops) f = operate ops (snd (Promote demo_panel ''eve'' f))"

lemma find_update_where_map: "(\<And>x. p (g x) = p x) \<Longrightarrow> List.find p (update_where p g xs) = map_option g (List.find p xs)"
  by (induction xs) auto

lemma SetChannel_found:
  assumes "fl_faults f = (\<lambda>_. None)" "ValidChannel c" "ValidTag v" "\<not> newerThanPanel v (cc_panelVer cfg)" "\<not> cc_precheck cfg"
    "List.find (\<lambda>r. ch_Channel r = c) (fl_channels f) = Some cur"
  shows "List.find (\<lambda>r. ch_Channel r = c) (fl_channels (snd (SetChannel cfg c v [] by' f)))
      = Some (cur\<lparr>ch_DesiredVersion := v, ch_ArtifactBase := [], ch_Rollback := goesBackwards (ch_DesiredVersion cur) v, ch_UpdatedBy := by'\<rparr>)"
    "fl_servers (snd (SetChannel cfg c v [] by' f)) = fl_servers f" "fl_faults (snd (SetChannel cfg c v [] by' f)) = (\<lambda>_. None)"
proof -
  have v: "trim_space v = v" "v \<noteq> []" "trim_space [] = []"
    using tag_trims [OF assms(3)] assms(3) by (auto simp: ValidTag_def tagShape_def trim_prefix_def Let_def short_run_def intro!: trim_space_plain)
  note run = SetChannel_def Let_def bnd_run GetAgentChannel_def db_call_def row_or_missing_def preflight_head_def
    SetAgentChannel_def nudge_def request_resync_def attempt_run find_update_where_map
  show "List.find (\<lambda>r. ch_Channel r = c) (fl_channels (snd (SetChannel cfg c v [] by' f)))
      = Some (cur\<lparr>ch_DesiredVersion := v, ch_ArtifactBase := [], ch_Rollback := goesBackwards (ch_DesiredVersion cur) v, ch_UpdatedBy := by'\<rparr>)"
    "fl_servers (snd (SetChannel cfg c v [] by' f)) = fl_servers f" "fl_faults (snd (SetChannel cfg c v [] by' f)) = (\<lambda>_. None)"
    using assms by (simp_all add: run v)
qed

lemma told_row:
  assumes "fl_faults f = (\<lambda>_. None)" "List.find (\<lambda>s. fs_ID s = sid) (fl_servers f) = Some s"
    "List.find (\<lambda>r. ch_Channel r = channelOf s) (fl_channels f) = Some r" "ch_DesiredVersion r \<noteq> []"
  shows "told sid f = Some \<lparr> us_Version = ch_DesiredVersion r, us_ArtifactBase = ch_ArtifactBase r, us_Rollback = ch_Rollback r \<rparr>"
  using assms by (simp add: told_def agent_update_of_def GetFleetServer_def SpecFor_def GetAgentChannel_def db_call_def row_or_missing_def bnd_run attempt_run)

lemma SetChannel_cleared:
  assumes "fl_faults f = (\<lambda>_. None)" "ValidChannel c" "List.find (\<lambda>r. ch_Channel r = c) (fl_channels f) = Some cur"
  shows "List.find (\<lambda>r. ch_Channel r = c) (fl_channels (snd (SetChannel cfg c [] [] by' f)))
      = Some (cur\<lparr>ch_DesiredVersion := [], ch_ArtifactBase := [], ch_Rollback := False, ch_UpdatedBy := by'\<rparr>)"
    "fl_servers (snd (SetChannel cfg c [] [] by' f)) = fl_servers f" "fl_faults (snd (SetChannel cfg c [] [] by' f)) = (\<lambda>_. None)"
proof -
  have "trim_space [] = []" by (auto intro!: trim_space_plain)
  with assms show "List.find (\<lambda>r. ch_Channel r = c) (fl_channels (snd (SetChannel cfg c [] [] by' f)))
      = Some (cur\<lparr>ch_DesiredVersion := [], ch_ArtifactBase := [], ch_Rollback := False, ch_UpdatedBy := by'\<rparr>)"
    "fl_servers (snd (SetChannel cfg c [] [] by' f)) = fl_servers f" "fl_faults (snd (SetChannel cfg c [] [] by' f)) = (\<lambda>_. None)"
    by (simp_all add: SetChannel_def SetAgentChannel_def Let_def bnd_run db_call_def row_or_missing_def find_update_where_map)
qed

text \<open>The versions of the examples, parsed once.\<close>

lemma parse_plain:
  assumes "trim_space s = s" "trim_space (trim_prefix ''v'' s) = trim_prefix ''v'' s" "trim_prefix ''v'' s \<noteq> []"
    "cut (CHR ''-'') (trim_prefix ''v'' s) = (core, pre, found)"
  shows "parse s = numbers (split_on (CHR ''.'') core) pre"
  using assms by (simp add: parse_def)

lemma parse_demo:
  "parse ''v1.1.0'' = Some \<lparr>ver_major = 1, ver_minor = 1, ver_patch = 0, ver_pre = []\<rparr>"
  "parse ''v1.2.0'' = Some \<lparr>ver_major = 1, ver_minor = 2, ver_patch = 0, ver_pre = []\<rparr>"
  "parse ''v1.3.0'' = Some \<lparr>ver_major = 1, ver_minor = 3, ver_patch = 0, ver_pre = []\<rparr>"
proof -
  have trim: "trim_space ''v1.1.0'' = ''v1.1.0''" "trim_space ''1.1.0'' = ''1.1.0''" "trim_space ''v1.2.0'' = ''v1.2.0''"
    "trim_space ''1.2.0'' = ''1.2.0''" "trim_space ''v1.3.0'' = ''v1.3.0''" "trim_space ''1.3.0'' = ''1.3.0''"
    by (rule trim_space_plain; auto)+
  have cut: "trim_prefix ''v'' ''v1.1.0'' = ''1.1.0''" "trim_prefix ''v'' ''v1.2.0'' = ''1.2.0''" "trim_prefix ''v'' ''v1.3.0'' = ''1.3.0''"
    "cut (CHR ''-'') ''1.1.0'' = (''1.1.0'', [], False)" "cut (CHR ''-'') ''1.2.0'' = (''1.2.0'', [], False)"
    "cut (CHR ''-'') ''1.3.0'' = (''1.3.0'', [], False)"
    by code_simp+
  have nums: "numbers (split_on (CHR ''.'') ''1.1.0'') [] = Some \<lparr>ver_major = 1, ver_minor = 1, ver_patch = 0, ver_pre = []\<rparr>"
    "numbers (split_on (CHR ''.'') ''1.2.0'') [] = Some \<lparr>ver_major = 1, ver_minor = 2, ver_patch = 0, ver_pre = []\<rparr>"
    "numbers (split_on (CHR ''.'') ''1.3.0'') [] = Some \<lparr>ver_major = 1, ver_minor = 3, ver_patch = 0, ver_pre = []\<rparr>"
    by code_simp+
  show "parse ''v1.1.0'' = Some \<lparr>ver_major = 1, ver_minor = 1, ver_patch = 0, ver_pre = []\<rparr>"
    "parse ''v1.2.0'' = Some \<lparr>ver_major = 1, ver_minor = 2, ver_patch = 0, ver_pre = []\<rparr>"
    "parse ''v1.3.0'' = Some \<lparr>ver_major = 1, ver_minor = 3, ver_patch = 0, ver_pre = []\<rparr>"
    unfolding nums [symmetric] by (rule parse_plain; simp only: trim cut; simp)+
qed

lemma demo_facts:
  "ValidChannel ''stable''" "ValidTag ''v1.1.0''" "\<not> newerThanPanel ''v1.1.0'' (cc_panelVer demo_panel)" "\<not> cc_precheck demo_panel"
  "goesBackwards ''v1.2.0'' ''v1.1.0''" "\<not> goesBackwards ''v1.1.0'' ''v1.1.0''" "\<not> goesBackwards [] ''v1.1.0''"
  "channelOf (demo_server ''s1'' ''stable'' ''v1.2.0'') = ''stable''"
proof -
  show "ValidTag ''v1.1.0''" by code_simp
  have "trim_space [] = []" by (rule trim_space_plain) simp
  then have "parse [] = None" by (simp add: parse_def trim_prefix_def)
  then show "goesBackwards ''v1.2.0'' ''v1.1.0''" "\<not> goesBackwards ''v1.1.0'' ''v1.1.0''" "\<not> goesBackwards [] ''v1.1.0''"
    by (simp_all add: goesBackwards_def parse_demo cmp_def compare_pre_def)
  show "\<not> newerThanPanel ''v1.1.0'' (cc_panelVer demo_panel)"
    by (simp add: newerThanPanel_def demo_panel_def parse_demo cmp_def)
qed (simp_all add: ValidChannel_def ChannelStable_def demo_panel_def channelOf_def demo_server_def)

lemma demo_start:
  "fl_faults (demo_fleet c) = (\<lambda>_. None)"
  "List.find (\<lambda>r. ch_Channel r = ''stable'') (fl_channels (demo_fleet c)) = Some (channel_row ''stable'' ''v1.2.0'')"
  "List.find (\<lambda>s. fs_ID s = ''s1'') (fl_servers (demo_fleet c)) = Some (demo_server ''s1'' ''stable'' ''v1.2.0'')"
  by (simp_all add: demo_fleet_def channel_row_def ChannelStable_def demo_server_def)

lemma told_directly: "told ''s1'' (operate [Some (''stable'', ''v1.1.0'')] (demo_fleet ''v1.2.0'')) = Some (asked True)"
proof -
  note one = SetChannel_found [OF demo_start(1) demo_facts(1-4) demo_start(2), of "''eve''"]
  show ?thesis using told_row [OF one(3), of "''s1''"] demo_start(3) one(1,2) demo_facts(5,8) by (simp add: asked_def channel_row_def)
qed

lemma told_twice:
  "told ''s1'' (operate [Some (''stable'', ''v1.1.0''), Some (''stable'', ''v1.1.0'')] (demo_fleet ''v1.2.0'')) = Some (asked False)"
proof -
  note one = SetChannel_found [OF demo_start(1) demo_facts(1-4) demo_start(2), of "''eve''"]
  note two = SetChannel_found [OF one(3) demo_facts(1-4) one(1), of "''eve''"]
  show ?thesis
    using told_row [OF two(3), of "''s1''"] demo_start(3) one(2) two(1,2) demo_facts(6,8) by (simp add: asked_def channel_row_def)
qed

lemma told_after_clearing:
  "told ''s1'' (operate [Some (''stable'', []), Some (''stable'', ''v1.1.0'')] (demo_fleet ''v1.2.0'')) = Some (asked False)"
proof -
  note one = SetChannel_cleared [OF demo_start(1) demo_facts(1) demo_start(2), of demo_panel "''eve''"]
  note two = SetChannel_found [OF one(3) demo_facts(1-4) one(1), of "''eve''"]
  show ?thesis
    using told_row [OF two(3), of "''s1''"] demo_start(3) one(2) two(1,2) demo_facts(7,8) by (simp add: asked_def channel_row_def)
qed

lemma told_by_promotion:
  "told ''s1'' (operate [Some (''canary'', ''v1.1.0''), None] (demo_fleet ''v1.1.0'')) = Some (asked False)"
  by code_simp

text \<open>
  A downgrade an operator asks for may never reach the agents. Asked to go from 1.2.0 to 1.1.0 directly, the panel allows the roll-back. It does
  not when the operator clears the instruction first, when the same older version is set a second time before all hosts followed, or
  when the older version is promoted from canary. In each case the servers that still run 1.2.0 are told
  1.1.0 without the permission to go back, and nothing on their disk changes, whatever the network serves.
\<close>

theorem rollback_flag_lost:
  "told ''s1'' (operate [Some (''stable'', ''v1.1.0'')] (demo_fleet ''v1.2.0'')) = Some (asked True)
   \<and> told ''s1'' (operate [Some (''stable'', []), Some (''stable'', ''v1.1.0'')] (demo_fleet ''v1.2.0'')) = Some (asked False)
   \<and> told ''s1'' (operate [Some (''stable'', ''v1.1.0''), Some (''stable'', ''v1.1.0'')] (demo_fleet ''v1.2.0'')) = Some (asked False)
   \<and> told ''s1'' (operate [Some (''canary'', ''v1.1.0''), None] (demo_fleet ''v1.1.0'')) = Some (asked False)
   \<and> nd_fs (snd (Apply (demo_cfg ''v1.2.0'') net quiet (asked False) n)) = nd_fs n"
proof (intro conjI told_directly told_after_clearing told_twice told_by_promotion)
  have "isDowngrade ''v1.2.0'' (want_of (asked False))" "\<not> us_Rollback (asked False)" by code_simp+
  then show "nd_fs (snd (Apply (demo_cfg ''v1.2.0'') net quiet (asked False) n)) = nd_fs n"
    by (intro Apply_refuses) (simp_all add: demo_cfg_def)
qed

text \<open>
  A tag without its leading v is installed for ever. Releases report themselves as v1.1.0; both sides take 1.1.0 for a tag, and a mirror is
  not probed. An agent that runs v1.1.0 and is told 1.1.0 fetches and installs the very binary it runs and
  exits, and the slot for a roll-back is overwritten with that binary.
\<close>

definition bare_spec :: update_spec where
  "bare_spec = demo_spec\<lparr>us_Version := ''1.1.0''\<rparr>"

definition updated_host :: node where
  "updated_host = demo_host\<lparr>nd_fs := [Binary \<mapsto> Bytes ''v1.1.0'', Previous \<mapsto> Bytes ''v1.0.0'']\<rparr>"

lemma bare_serves: "serves (demo_cfg ''v1.1.0'') demo_net bare_spec ''v1.1.0''"
  by (rule demo_accepts) code_simp+

theorem bare_tag_reinstalls:
  "let n1 = snd (Apply (demo_cfg ''v1.1.0'') demo_net True bare_spec updated_host) in
   nd_exited n1 \<and> nd_fs n1 Binary = nd_fs updated_host Binary \<and> nd_fs updated_host Previous = Some (Bytes ''v1.0.0'')
   \<and> nd_fs n1 Previous = Some (Bytes ''v1.1.0'')"
proof -
  obtain r n1 where run: "Apply (demo_cfg ''v1.1.0'') demo_net True bare_spec updated_host = (r, n1)" by fastforce
  have "no_faults updated_host" "\<not> nd_busy updated_host" "nd_fs updated_host Binary = Some (Bytes ''v1.1.0'')"
    by (simp_all add: updated_host_def demo_host_def no_faults_def)
  from Apply_calm [OF bare_serves this run] show ?thesis unfolding run snd_conv Let_def by (simp add: updated_host_def)
qed

text \<open>The first claim at a run of the panel.\<close>

definition seed_fleet :: fleet where
  "seed_fleet = \<lparr> fl_channels = [channel_row ChannelStable [], channel_row ChannelCanary []], fl_servers = [], fl_resyncs = [], fl_calls = 0,
     fl_faults = (\<lambda>_. None) \<rparr>"

definition joined_fleet :: fleet where
  "joined_fleet = snd (SetChannel demo_panel ''stable'' '' v1.1.0 '' [] ''eve''
     (seed_fleet\<lparr>fl_servers := fl_servers seed_fleet @ [demo_server ''s1'' ChannelStable ''v1.2.0'']\<rparr>))"

theorem told_a_release_witness:
  "validTag (want_of (asked False)) \<and> map ch_Channel (fl_channels joined_fleet) = [ChannelStable, ChannelCanary]"
proof -
  have "seeded seed_fleet" by (simp add: seeded_def seed_fleet_def channel_row_def)
  moreover have "fleet_step demo_panel seed_fleet
      (seed_fleet\<lparr>fl_servers := fl_servers seed_fleet @ [demo_server ''s1'' ChannelStable ''v1.2.0'']\<rparr>)"
    by (rule fleet_step.join) code_simp
  then have "(fleet_step demo_panel)\<^sup>*\<^sup>* seed_fleet joined_fleet"
    unfolding joined_fleet_def by (rule converse_rtranclp_into_rtranclp) (intro r_into_rtranclp fleet_step.set_version)
  moreover have "fst (agent_update_of ''s1'' joined_fleet) = Inr (Some (asked False))" by code_simp
  then have "agent_update_of ''s1'' joined_fleet = (Inr (Some (asked False)), snd (agent_update_of ''s1'' joined_fleet))"
    by (metis prod.collapse)
  ultimately show ?thesis using told_a_release by blast
qed

end
