(* ===== verification/Tasks.thy ===== *)
theory Tasks
  imports Scheduler Protection
begin

text \<open>
  Scheduled tasks end to end: the service of the plane that keeps them (\<open>src/core/scheduledtasks\<close>, over the statements of
  \<open>src/core/store/scheduled_tasks.go\<close>) and the runner of an agent that arms and executes them (\<open>src/agent/cron\<close>). The
  cron library is a parameter: a parser takes an expression to the function from an instant to the next
  occurrence. What an execution does, and whether a message can be encoded, are parameters as well.
\<close>

section \<open>Statements (scheduled_tasks.go)\<close>

definition CreateScheduledTask :: "scheduledTask \<Rightarrow> scheduledTask op" where
  "CreateScheduledTask t = query ''creating scheduled task''
     (\<lambda>w. if \<exists>x \<in> set (w_tasks w). st_ID x = st_ID t \<or> st_ApplicationID x = st_ApplicationID t \<and> st_Name x = st_Name t then (Inl ErrConflict, w)
          else if \<forall>a \<in> set (w_apps w). app_ID a \<noteq> st_ApplicationID t then (Inl ErrNotFound, w)
          else (Inr t, w\<lparr>w_tasks := w_tasks w @ [t]\<rparr>))"

definition ListScheduledTasksByApp :: "string \<Rightarrow> scheduledTask list op" where
  "ListScheduledTasksByApp appID = query ''listing scheduled tasks''
     (many_rows (\<lambda>w. filter (\<lambda>t. st_ApplicationID t = appID) (w_tasks w)))"

definition UpdateScheduledTask :: "scheduledTask \<Rightarrow> scheduledTask op" where
  "UpdateScheduledTask t = query ''updating scheduled task''
     (bnd (one_row (\<lambda>x. st_ID x = st_ID t) w_tasks) (\<lambda>cur.
      bnd (gets w_tasks) (\<lambda>rows.
      if \<exists>x \<in> set rows. st_ID x \<noteq> st_ID t \<and> st_ApplicationID x = st_ApplicationID cur \<and> st_Name x = st_Name t then throw ErrConflict
      else
        bnd (modify (\<lambda>w. w\<lparr>w_tasks := update_where (\<lambda>x. st_ID x = st_ID t)
          (\<lambda>x. x\<lparr>st_Name := st_Name t, st_Schedule := st_Schedule t, st_Command := st_Command t, st_Enabled := st_Enabled t\<rparr>) (w_tasks w)\<rparr>)) (\<lambda>_.
        one_row (\<lambda>x. st_ID x = st_ID t) w_tasks))))"

text \<open>The runs of a task go with it.\<close>

definition DeleteScheduledTask :: "string \<Rightarrow> unit op" where
  "DeleteScheduledTask i = query ''deleting scheduled task''
     (modify (\<lambda>w. w\<lparr>w_tasks := filter (\<lambda>t. st_ID t \<noteq> i) (w_tasks w), w_runs := filter (\<lambda>r. str_TaskID r \<noteq> i) (w_runs w)\<rparr>))"

definition ListTaskRuns :: "string \<Rightarrow> nat \<Rightarrow> scheduledTaskRun list op" where
  "ListTaskRuns taskID lim = query ''listing task runs''
     (many_rows (\<lambda>w. kept_runs taskID lim (w_runs w)))"

section \<open>The service (scheduledtasks.go)\<close>

datatype taskError = ErrApplicationNotFound | TaskInvalid string | TaskStore error

type_synonym 'a top = "(world, taskError, 'a) comp"
type_synonym cron_parser = "string \<Rightarrow> string + (time \<Rightarrow> time)"

definition runHistoryLimit :: nat where "runHistoryLimit = 50"

record taskInput =
  ti_Name :: string
  ti_Schedule :: string
  ti_Command :: "string list"
  ti_Enabled :: bool

definition store_call :: "'a op \<Rightarrow> 'a top" where
  "store_call m = mapE TaskStore m"

text \<open>\<open>parseStandard\<close> is \<open>cron.ParseStandard\<close>.\<close>

definition validateTask :: "cron_parser \<Rightarrow> taskInput \<Rightarrow> taskError + (string \<times> string \<times> string list)" where
  "validateTask parseStandard inp =
     (let name = trim_space (ti_Name inp); schedule = trim_space (ti_Schedule inp) in
      if name = [] then Inl (TaskInvalid ''name is required'')
      else (case parseStandard schedule of
          Inl e \<Rightarrow> Inl (TaskInvalid (''schedule must be a valid 5-field cron expression: '' @ e))
        | Inr _ \<Rightarrow>
            (let command = filter (\<lambda>c. trim_space c \<noteq> []) (ti_Command inp) in
             if command = [] then Inl (TaskInvalid (''command is required (argv; use ['' @ quoted ''sh'' @ '','' @ quoted ''-c'' @ '','' @ [CHR 0x22, CHR 0xE2, CHR 0x80, CHR 0xA6, CHR 0x22] @ ''] for a shell)'')) else Inr (name, schedule, command))))"

definition converge_task :: "(string \<Rightarrow> unit op) option \<Rightarrow> string \<Rightarrow> unit top" where
  "converge_task converger appID =
     (case converger of None \<Rightarrow> ret () | Some conv \<Rightarrow> bnd (attempt (conv appID)) (\<lambda>_. ret ()))"

definition TasksCreate :: "cron_parser \<Rightarrow> (string \<Rightarrow> unit op) option \<Rightarrow> string \<Rightarrow> string \<Rightarrow> taskInput \<Rightarrow> scheduledTask top" where
  "TasksCreate parseStandard converger newID appID inp =
     bnd (attempt (GetApplication appID)) (\<lambda>a.
     case a of
       Inl e \<Rightarrow> if errors_is e ErrNotFound then throw ErrApplicationNotFound else throw (TaskStore e)
     | Inr _ \<Rightarrow>
         (case validateTask parseStandard inp of
            Inl e \<Rightarrow> throw e
          | Inr (name, schedule, command) \<Rightarrow>
              bnd (store_call (CreateScheduledTask \<lparr> st_ID = newID, st_ApplicationID = appID, st_Name = name, st_Schedule = schedule,
                st_Command = command, st_Enabled = ti_Enabled inp \<rparr>)) (\<lambda>t.
              bnd (converge_task converger appID) (\<lambda>_.
              ret t))))"

definition TasksUpdate :: "cron_parser \<Rightarrow> (string \<Rightarrow> unit op) option \<Rightarrow> string \<Rightarrow> taskInput \<Rightarrow> scheduledTask top" where
  "TasksUpdate parseStandard converger i inp =
     bnd (store_call (GetScheduledTask i)) (\<lambda>cur.
     case validateTask parseStandard inp of
       Inl e \<Rightarrow> throw e
     | Inr (name, schedule, command) \<Rightarrow>
         bnd (store_call (UpdateScheduledTask (cur\<lparr>st_Name := name, st_Schedule := schedule, st_Command := command, st_Enabled := ti_Enabled inp\<rparr>))) (\<lambda>t.
         bnd (converge_task converger (st_ApplicationID cur)) (\<lambda>_.
         ret t)))"

definition TasksGet :: "string \<Rightarrow> scheduledTask top" where
  "TasksGet i = store_call (GetScheduledTask i)"

definition TasksList :: "string \<Rightarrow> scheduledTask list top" where
  "TasksList appID = store_call (ListScheduledTasksByApp appID)"

definition TasksDelete :: "(string \<Rightarrow> unit op) option \<Rightarrow> string \<Rightarrow> unit top" where
  "TasksDelete converger i =
     bnd (store_call (GetScheduledTask i)) (\<lambda>cur.
     bnd (store_call (DeleteScheduledTask i)) (\<lambda>_.
     converge_task converger (st_ApplicationID cur)))"

definition TaskRuns :: "string \<Rightarrow> scheduledTaskRun list top" where
  "TaskRuns taskID =
     bnd (store_call (GetScheduledTask taskID)) (\<lambda>_. store_call (ListTaskRuns taskID runHistoryLimit))"

section \<open>The runner of an agent (agent/cron/cron.go)\<close>

definition outputTailCap :: nat where "outputTailCap = 4096"

record entry =
  en_appID :: string
  en_schedule :: string
  en_command :: "string list"
  en_parsed :: "time \<Rightarrow> time"
  en_next :: time

text \<open>
  \<open>armed\<close> in the order in which an iteration happens to visit it; \<open>exec\<close> are the goroutines that execute a task,
  each with its copy of the entry; \<open>published\<close> is what went out.
\<close>

record runner =
  rn_armed :: "(string \<times> entry) list"
  rn_running :: "string list"
  rn_exec :: "(string \<times> entry) list"
  rn_published :: "(string \<times> taskRunEvent) list"

definition NewRunner :: runner where
  "NewRunner = \<lparr> rn_armed = [], rn_running = [], rn_exec = [], rn_published = [] \<rparr>"

definition matchUnchanged :: "runner \<Rightarrow> wireTask \<Rightarrow> string \<Rightarrow> entry option" where
  "matchUnchanged r t appID =
     (case map_of (rn_armed r) (wt_Id t) of
        None \<Rightarrow> None
      | Some prev \<Rightarrow>
          if en_appID prev \<noteq> appID \<or> en_schedule prev \<noteq> wt_Schedule t \<or> en_command prev \<noteq> wt_Command t then None else Some prev)"

fun put :: "'k \<Rightarrow> 'v \<Rightarrow> ('k \<times> 'v) list \<Rightarrow> ('k \<times> 'v) list" where
  "put k v [] = [(k, v)]"
| "put k v ((k', v') # m) = (if k = k' then (k, v) # m else (k', v') # put k v m)"

definition arm_task :: "cron_parser \<Rightarrow> time \<Rightarrow> runner \<Rightarrow> string \<times> wireTask \<Rightarrow> (string \<times> entry) list \<Rightarrow> (string \<times> entry) list" where
  "arm_task parse now r at next' = (case at of (appID, t) \<Rightarrow>
     (case matchUnchanged r t appID of
        Some prev \<Rightarrow> put (wt_Id t) prev next'
      | None \<Rightarrow>
          (case parse (wt_Schedule t) of
             Inl _ \<Rightarrow> next'
           | Inr sched \<Rightarrow> put (wt_Id t) \<lparr> en_appID = appID, en_schedule = wt_Schedule t, en_command = wt_Command t,
                en_parsed = sched, en_next = sched now \<rparr> next')))"

definition tasks_of :: "appSpec list \<Rightarrow> (string \<times> wireTask) list" where
  "tasks_of specs = concat (map (\<lambda>s. map (Pair (spec_AppId s)) (spec_ScheduledTasks s)) specs)"

text \<open>
  One step with respect to the fire loop: entries are shared by pointer, so an advance that happens while the new map is built is seen in
  it, as if the loop had run first.
\<close>

definition CronSync :: "cron_parser \<Rightarrow> time \<Rightarrow> appSpec list \<Rightarrow> runner \<Rightarrow> runner" where
  "CronSync parse now specs r = r\<lparr>rn_armed := fold (arm_task parse now r) (tasks_of specs) []\<rparr>"

definition task_due :: "time \<Rightarrow> runner \<Rightarrow> string \<times> entry \<Rightarrow> bool" where
  "task_due now r ie \<longleftrightarrow> \<not> now < en_next (snd ie) \<and> fst ie \<notin> set (rn_running r)"

definition fireDue :: "time \<Rightarrow> runner \<Rightarrow> runner" where
  "fireDue now r =
     (let toRun = filter (task_due now r) (rn_armed r) in
      r\<lparr>rn_armed := map (\<lambda>(i, e). if task_due now r (i, e) then (i, e\<lparr>en_next := en_parsed e now\<rparr>) else (i, e)) (rn_armed r),
        rn_running := rn_running r @ map fst toRun,
        rn_exec := rn_exec r @ toRun\<rparr>)"

definition tail :: "bytes \<Rightarrow> nat \<Rightarrow> string" where
  "tail b cap = (if length b \<le> cap then b else drop (length b - cap) b)"

text \<open>
  What an execution meets: the look-up of the container, and if there is one the exit code, the output and the error of the exec; whether the
  message encodes and whether it can be published.
\<close>

record execution =
  ex_container :: "string + string option"
  ex_exit :: int
  ex_output :: bytes
  ex_err :: "string option"
  ex_runID :: string
  ex_started :: time
  ex_finished :: time
  ex_publishes :: bool

definition run_event :: "execution \<Rightarrow> string \<Rightarrow> taskRunEvent" where
  "run_event x taskID =
     (let failed = (ex_err x \<noteq> None \<or> ex_exit x \<noteq> 0);
          detail = (case ex_err x of None \<Rightarrow> ex_output x | Some e \<Rightarrow> ex_output x @ CHR 0x0A # e) in
      \<lparr> tr_RunId = ex_runID x, tr_TaskId = taskID, tr_Failed = failed, tr_ExitCode = sint (word_of_int (ex_exit x) :: 32 word),
        tr_StartedAt = Some (ex_started x), tr_FinishedAt = Some (ex_finished x), tr_OutputTail = tail detail outputTailCap \<rparr>)"

text \<open>\<open>encodes\<close> says which messages \<open>proto.Marshal\<close> accepts. The end of an execution frees the task.\<close>

definition execAndReport :: "(taskRunEvent \<Rightarrow> bool) \<Rightarrow> string \<Rightarrow> execution \<Rightarrow> string \<Rightarrow> runner \<Rightarrow> runner" where
  "execAndReport encodes serverID x taskID r =
     (let freed = r\<lparr>rn_running := filter (\<lambda>i. i \<noteq> taskID) (rn_running r), rn_exec := filter (\<lambda>(i, e). i \<noteq> taskID) (rn_exec r)\<rparr> in
      (case ex_container x of
         Inl _ \<Rightarrow> freed
       | Inr None \<Rightarrow> freed
       | Inr (Some _) \<Rightarrow>
           (let run = run_event x taskID in
            if \<not> encodes run then freed
            else if \<not> ex_publishes x then freed
            else freed\<lparr>rn_published := rn_published r @ [(serverID, run)]\<rparr>)))"

section \<open>Runs of the runner\<close>

text \<open>Desired state arrives, the ticker ticks, an execution ends.\<close>

inductive runner_step :: "cron_parser \<Rightarrow> (taskRunEvent \<Rightarrow> bool) \<Rightarrow> string \<Rightarrow> runner \<Rightarrow> runner \<Rightarrow> bool" for parse encodes serverID where
  sync: "runner_step parse encodes serverID r (CronSync parse now specs r)"
| tick: "runner_step parse encodes serverID r (fireDue now r)"
| ends: "(i, e) \<in> set (rn_exec r) \<Longrightarrow> runner_step parse encodes serverID r (execAndReport encodes serverID x i r)"

inductive_cases runner_stepE: "runner_step parse encodes serverID r r'"

end
