(* ===== verification/Promotion_Props.thy ===== *)
theory Promotion_Props
  imports Pipeline_Flow Pipeline_Props
begin

text \<open>
  What a promotion ships, and where the code goes beyond or falls short of what its plan promises.
\<close>

section \<open>What a promotion leaves alone\<close>

text \<open>The configuration: variables of applications, shared variables, environments, protection.\<close>

definition settings :: "world \<Rightarrow> (string \<times> envVar) list \<times> sharedVariable list \<times> environment list \<times> environmentProtection list" where
  "settings w = (w_envvars w, w_shared w, w_envs w, w_prot w)"

interpretation seen_settings: observation settings
  by unfold_locales (simp_all add: settings_def bump_def at_rest_def)

lemma settings_simps:
  "settings (w\<lparr>w_revs := x\<rparr>) = settings w" "settings (w\<lparr>w_deps := d\<rparr>) = settings w" "settings (w\<lparr>w_bus := b\<rparr>) = settings w"
  "settings (w\<lparr>w_apps := a\<rparr>) = settings w" "settings (w\<lparr>w_events := e\<rparr>) = settings w" "settings (w\<lparr>w_approvals := p\<rparr>) = settings w"
  "settings (w\<lparr>w_quotaStates := q\<rparr>) = settings w"
  by (simp_all add: settings_def)

context observation
begin

text \<open>Reading the artifact, publishing it, waiting for an approval.\<close>

lemma distributing:
  assumes "\<And>w b. obs (w\<lparr>w_deps := b\<rparr>) = obs w" "\<And>w b. obs (w\<lparr>w_bus := b\<rparr>) = obs w"
  shows "frames obs (startDistribute dep app rv)"
  unfolding startDistribute_def promotedSourceImage_def Let_def
  by (intro fr deps publishing reading_ops [THEN reading] assms)

lemma requesting_approval:
  assumes "\<And>w b. obs (w\<lparr>w_approvals := b\<rparr>) = obs w" "\<And>w b. obs (w\<lparr>w_events := b\<rparr>) = obs w"
  shows "frames obs (Park pc d e u ro)"
  unfolding Park_def noticeFor_def emailOf_def by (intro fr approvals emitting reading_ops [THEN reading] assms)

end

text \<open>The configuration, the revisions and the pattern of failures; and of one deployment what never changes once it is started.\<close>

definition around :: "world \<Rightarrow> ((string \<times> envVar) list \<times> sharedVariable list \<times> environment list \<times> environmentProtection list)
    \<times> revision list \<times> (nat \<Rightarrow> string option)" where
  "around w = (settings w, w_revs w, w_faults w)"

definition kin :: "string \<Rightarrow> world \<Rightarrow> (string \<times> string \<times> string option) option" where
  "kin i w = map_option (\<lambda>d. (dep_ApplicationID d, dep_RevisionID d, dep_BuilderServerID d)) (dep_row i (w_deps w))"

interpretation seen_around: observation around
  by unfold_locales (simp_all add: around_def settings_def bump_def at_rest_def)

interpretation seen_kin: observation "kin i"
  by unfold_locales (simp_all add: kin_def bump_def at_rest_def)

lemma around_simps:
  "around (w\<lparr>w_deps := d\<rparr>) = around w" "around (w\<lparr>w_bus := b\<rparr>) = around w"
  "around (w\<lparr>w_apps := a\<rparr>) = around w" "around (w\<lparr>w_events := e\<rparr>) = around w" "around (w\<lparr>w_approvals := p\<rparr>) = around w"
  "around (w\<lparr>w_quotaStates := q\<rparr>) = around w"
  by (simp_all add: around_def settings_simps)

lemma kin_simps:
  "kin i (w\<lparr>w_revs := x\<rparr>) = kin i w" "kin i (w\<lparr>w_bus := b\<rparr>) = kin i w"
  "kin i (w\<lparr>w_apps := a\<rparr>) = kin i w" "kin i (w\<lparr>w_events := e\<rparr>) = kin i w" "kin i (w\<lparr>w_approvals := p\<rparr>) = kin i w"
  by (simp_all add: kin_def)

lemma kin_status: "frames (kin i) (UpdateDeploymentStatus j s det)"
proof (rule frames_runI)
  fix w r w' assume "UpdateDeploymentStatus j s det w = (r, w')"
  from update_deps [OF this] show "kin i w' = kin i w"
    by (cases r) (auto simp: kin_def dep_row_upd set_status_def split: option.split)
qed

lemma kin_distribute: "frames (kin i) (startDistribute dep app rv)"
  unfolding startDistribute_def promotedSourceImage_def Let_def
  by (intro fr kin_status seen_kin.publishing kin_simps reading_ops [THEN seen_kin.reading])

text \<open>What starting or parking one deployment leaves alone.\<close>

definition only_row :: "string \<Rightarrow> world \<Rightarrow> world \<Rightarrow> bool" where
  "only_row i w w' \<longleftrightarrow> around w' = around w \<and> kin i w' = kin i w \<and> other_rows i w' = other_rows i w"

lemma only_row_refl: "only_row i w w"
  by (simp add: only_row_def)

lemma only_row_trans: "only_row i w w1 \<Longrightarrow> only_row i w1 w' \<Longrightarrow> only_row i w w'"
  by (simp add: only_row_def)

lemma only_row_reads: "reads m \<Longrightarrow> m w = (r, w') \<Longrightarrow> only_row i w w'"
  unfolding only_row_def by (auto intro: frames_run seen_around.reading seen_kin.reading seen_others.reading)

lemma status_only_row: "UpdateDeploymentStatus i s det w = (r, w') \<Longrightarrow> only_row i w w'"
  unfolding only_row_def
  by (auto intro!: frames_run [of "UpdateDeploymentStatus i s det"] kin_status seen_around.deps around_simps fr)

lemma park_only_row:
  assumes "park (protection_gate pc) dep app adm u w = (Inr d, w')"
  shows "only_row (dep_ID dep) w w'" "w_bus w' = w_bus w" "dep_ID d = dep_ID dep" "dep_row (dep_ID dep) (w_deps w') = Some d"
proof -
  obtain w1 where upd: "UpdateDeploymentStatus (dep_ID dep) DeployAwaitingApproval
      (''waiting for approval from '' @ articleFor (adm_RequiredRole adm)) w = (Inr d, w1)"
    and parked: "Park pc d (app_EnvironmentID app) u (adm_RequiredRole adm) w1 = (Inr (), w')"
    using park_Inr [OF assms] by (auto simp: protection_gate_def)
  have "w_bus w1 = w_bus w" using upd by (rule frames_run) (intro seen_bus.deps, simp)
  moreover have "around w' = around w1" using parked by (rule frames_run) (intro seen_around.requesting_approval around_simps)
  moreover have deps: "w_deps w' = w_deps w1" using parked by (rule frames_run) (rule Park_frames)
  moreover have "w_bus w' = w_bus w1" using parked by (rule frames_run) (rule Park_frames)
  ultimately show "only_row (dep_ID dep) w w'" "w_bus w' = w_bus w"
    using status_only_row [OF upd] by (simp_all add: only_row_def kin_def other_rows_def)
  show "dep_ID d = dep_ID dep" using updated_row [OF upd] by simp
  show "dep_row (dep_ID dep) (w_deps w') = Some d" using update_deps [OF upd] deps by auto
qed

lemma distribute_only_row: "startDistribute dep app rv w = (r, w') \<Longrightarrow> only_row (dep_ID dep) w w'"
  unfolding only_row_def
  by (auto intro!: frames_run [of "startDistribute dep app rv"] kin_distribute starting_others seen_around.distributing around_simps)

section \<open>The relay of a promoted revision\<close>

definition rev_row :: "world \<Rightarrow> string \<Rightarrow> revision option" where
  "rev_row w i = List.find (\<lambda>r. rev_ID r = i) (w_revs w)"

lemma GetRevision_rev_row: "GetRevision i w = (Inr rv, w') \<Longrightarrow> rev_row w i = Some rv"
  by (auto simp: GetRevision_def query_Inr_iff one_row_Inr_iff rev_row_def bump_def)

lemma rev_row_ID: "rev_row w i = Some rv \<Longrightarrow> rev_ID rv = i"
  unfolding rev_row_def using find_Some_set by fastforce

lemma calm_GetRevision: "w_faults w = (\<lambda>_. None) \<Longrightarrow> rev_row w i = Some rv \<Longrightarrow> fst (GetRevision i w) = Inr rv"
  by (simp add: GetRevision_def rev_row_def query_def runs io_run one_row_def bump_def)

text \<open>The images a promoted revision can be moved under: that of its source, or its own name when the source cannot be read.\<close>

definition artifact_names :: "world \<Rightarrow> revision \<Rightarrow> revision \<Rightarrow> string \<Rightarrow> bool" where
  "artifact_names w rv src img \<longleftrightarrow> img \<in> {rev_Image src, rev_Image rv} \<and> (w_faults w = (\<lambda>_. None) \<longrightarrow> img = rev_Image src)"

lemma promoted_image:
  assumes "promotedSourceImage rv w = (r, w')" "rev_PromotedFromRevisionID rv \<noteq> []"
    "rev_row w (rev_PromotedFromRevisionID rv) = Some src" "rev_Image src \<noteq> []"
  shows "at_rest w' = at_rest w \<and> (\<exists>img. r = Inr img \<and> artifact_names w rv src img)"
proof -
  obtain x w1 where get: "GetRevision (rev_PromotedFromRevisionID rv) w = (x, w1)" by fastforce
  note rest = reads_run [OF reads_store(10) get]
  show ?thesis
  proof (cases x)
    case (Inl e)
    then have "w_faults w \<noteq> (\<lambda>_. None)" using calm_GetRevision [OF _ assms(3)] get by fastforce
    with assms(1,2) get rest Inl show ?thesis by (auto simp: promotedSourceImage_def runs artifact_names_def)
  next
    case (Inr y)
    with get assms(3) GetRevision_rev_row have "y = src" by fastforce
    with assms(1,2,4) get rest Inr show ?thesis by (auto simp: promotedSourceImage_def runs artifact_names_def)
  qed
qed

lemma publish_Inr:
  "PublishWork s k wk w = (Inr (), w') \<longleftrightarrow> w_faults w (w_io w) = None \<and> w' = (bump w)\<lparr>w_bus := w_bus w @ [(s, k, wk)]\<rparr>"
  by (auto simp: PublishWork_def bnd_Inr_iff io_Inr_iff bump_def modify_def)

text \<open>A push to the holder of the artifact and a pull by the server of the application.\<close>

definition relayed :: "world \<Rightarrow> string \<Rightarrow> string \<Rightarrow> string \<Rightarrow> string \<Rightarrow> revision \<Rightarrow> revision \<Rightarrow> world \<Rightarrow> bool" where
  "relayed w holder server dep app rv src w' \<longleftrightarrow> (\<exists>pushed pulled. artifact_names w rv src pushed \<and> artifact_names w rv src pulled
     \<and> w_bus w' = w_bus w @ [(PushImage holder, dep @ ''.push'', PushImageWork dep app pushed),
         (Distribute server, dep @ ''.distribute'', DistributeWork dep app pulled (rev_Image rv))])"

lemma distribute_steps:
  assumes "startDistribute dep app rv w = (Inr (), w')" "rev_PromotedFromRevisionID rv \<noteq> []" "rev_Image rv \<noteq> []"
  shows "\<exists>d w1 p w2 w3 i w4. UpdateDeploymentStatus (dep_ID dep) DeployDistributing [] w = (Inr d, w1)
    \<and> promotedSourceImage rv w1 = (Inr p, w2)
    \<and> PublishWork (PushImage (builderFor dep app)) (dep_ID dep @ ''.push'')
        (PushImageWork (dep_ID dep) (app_ID app) (if p \<noteq> [] then p else rev_Image rv)) w2 = (Inr (), w3)
    \<and> promotedSourceImage rv w3 = (Inr i, w4)
    \<and> PublishWork (Distribute (rt_ServerID (app_Runtime app))) (dep_ID dep @ ''.distribute'')
        (DistributeWork (dep_ID dep) (app_ID app) (if i \<noteq> [] then i else rev_Image rv) (if i \<noteq> [] then rev_Image rv else [])) w4 = (Inr (), w')"
proof -
  define pub where "pub = (\<lambda>(image', target). mapE (Wrapped ''scheduler: publishing distribute'')
       (PublishWork (Distribute (rt_ServerID (app_Runtime app))) (dep_ID dep @ ''.distribute'')
         (DistributeWork (dep_ID dep) (app_ID app) image' target)))"
  have "bnd (UpdateDeploymentStatus (dep_ID dep) DeployDistributing []) (\<lambda>_.
     bnd (promotedSourceImage rv) (\<lambda>p.
     bnd (mapE (Wrapped ''scheduler: publishing push'') (PublishWork (PushImage (builderFor dep app)) (dep_ID dep @ ''.push'')
           (PushImageWork (dep_ID dep) (app_ID app) (if p \<noteq> [] then p else rev_Image rv)))) (\<lambda>_.
     bnd (bnd (promotedSourceImage rv) (\<lambda>i. if i \<noteq> [] then ret (i, rev_Image rv) else ret (rev_Image rv, []))) pub))) w = (Inr (), w')"
    using assms by (simp add: startDistribute_def Let_def pub_def)
  then obtain d w1 p w2 u w3 i w4 where
    "UpdateDeploymentStatus (dep_ID dep) DeployDistributing [] w = (Inr d, w1)" "promotedSourceImage rv w1 = (Inr p, w2)"
    "PublishWork (PushImage (builderFor dep app)) (dep_ID dep @ ''.push'')
        (PushImageWork (dep_ID dep) (app_ID app) (if p \<noteq> [] then p else rev_Image rv)) w2 = (Inr u, w3)"
    "promotedSourceImage rv w3 = (Inr i, w4)" "pub (if i \<noteq> [] then (i, rev_Image rv) else (rev_Image rv, [])) w4 = (Inr (), w')"
    unfolding bnd_Inr_iff mapE_Inr_iff by (elim exE conjE) (auto split: if_splits)
  then show ?thesis by (cases "i = []") (auto simp: pub_def mapE_Inr_iff)
qed

lemma startDistribute_relays:
  assumes "startDistribute dep app rv w = (Inr (), w')" "rev_PromotedFromRevisionID rv \<noteq> []" "rev_Image rv \<noteq> []"
    "rev_row w (rev_PromotedFromRevisionID rv) = Some src" "rev_Image src \<noteq> []"
  shows "relayed w (builderFor dep app) (rt_ServerID (app_Runtime app)) (dep_ID dep) (app_ID app) rv src w'"
proof -
  obtain d w1 p w2 w3 i w4 where
    upd: "UpdateDeploymentStatus (dep_ID dep) DeployDistributing [] w = (Inr d, w1)"
    and img1: "promotedSourceImage rv w1 = (Inr p, w2)"
    and push: "PublishWork (PushImage (builderFor dep app)) (dep_ID dep @ ''.push'')
      (PushImageWork (dep_ID dep) (app_ID app) (if p \<noteq> [] then p else rev_Image rv)) w2 = (Inr (), w3)"
    and img2: "promotedSourceImage rv w3 = (Inr i, w4)"
    and pull: "PublishWork (Distribute (rt_ServerID (app_Runtime app))) (dep_ID dep @ ''.distribute'')
      (DistributeWork (dep_ID dep) (app_ID app) (if i \<noteq> [] then i else rev_Image rv) (if i \<noteq> [] then rev_Image rv else [])) w4 = (Inr (), w')"
    using distribute_steps [OF assms(1-3)] by blast
  have w1: "w_bus w1 = w_bus w" "w_revs w1 = w_revs w" "w_faults w1 = w_faults w"
    using upd by (auto simp: UpdateDeploymentStatus_def query_Inr_iff bnd_Inr_iff upd_dep_def bump_def modify_def one_row_Inr_iff)
  have row: "rev_row v (rev_PromotedFromRevisionID rv) = Some src" if "w_revs v = w_revs w" for v
    using assms(4) that by (simp add: rev_row_def)
  from promoted_image [OF img1 assms(2) row [OF w1(2)] assms(5)]
  have p: "artifact_names w rv src p" and rest2: "at_rest w2 = at_rest w1" by (auto simp: artifact_names_def w1)
  have w3: "w_bus w3 = w_bus w @ [(PushImage (builderFor dep app), dep_ID dep @ ''.push'', PushImageWork (dep_ID dep) (app_ID app) p)]"
    "w_revs w3 = w_revs w" "w_faults w3 = w_faults w"
    using push p assms(3,5) at_rest_eqD [OF rest2] w1 by (auto simp: publish_Inr bump_def artifact_names_def)
  from promoted_image [OF img2 assms(2) row [OF w3(2)] assms(5)]
  have i: "artifact_names w rv src i" and rest4: "at_rest w4 = at_rest w3" by (auto simp: artifact_names_def w3)
  have "w_bus w' = w_bus w3 @ [(Distribute (rt_ServerID (app_Runtime app)), dep_ID dep @ ''.distribute'',
      DistributeWork (dep_ID dep) (app_ID app) i (rev_Image rv))]"
    using pull i assms(3,5) at_rest_eqD [OF rest4] by (auto simp: publish_Inr bump_def artifact_names_def)
  with w3(1) p i show ?thesis unfolding relayed_def by auto
qed

lemma tryStart_relays:
  assumes "tryStart cfg dep w = (Inr (), w')" "rev_row w (dep_RevisionID dep) = Some rv" "app_row w (dep_ApplicationID dep) = Some app"
    "rev_PromotedFromRevisionID rv \<noteq> []" "rev_Image rv \<noteq> []"
    "rev_row w (rev_PromotedFromRevisionID rv) = Some src" "rev_Image src \<noteq> []"
  shows "only_row (dep_ID dep) w w'"
    and "w_bus w' = w_bus w \<or> relayed w (builderFor dep app) (rt_ServerID (app_Runtime app)) (dep_ID dep) (app_ID app) rv src w'"
proof -
  obtain acts w1 where list: "ListActiveDeploymentsByApplication (dep_ApplicationID dep) w = (Inr acts, w1)"
    and go: "(case acts of [] \<Rightarrow> ret () | d # _ \<Rightarrow> if dep_ID d \<noteq> dep_ID dep then ret () else start cfg dep) w1 = (Inr (), w')"
    using assms(1) by (auto simp: tryStart_def bnd_Inr_iff mapE_Inr_iff)
  note rest1 = reads_run [OF reads_store(14) list]
  have "only_row (dep_ID dep) w w' \<and>
      (w_bus w' = w_bus w \<or> relayed w (builderFor dep app) (rt_ServerID (app_Runtime app)) (dep_ID dep) (app_ID app) rv src w')"
  proof (cases "w' = w1")
    case True
    then show ?thesis using only_row_reads [OF reads_store(14) list] at_rest_eqD [OF rest1] by simp
  next
    case False
    then have "start cfg dep w1 = (Inr (), w')" using go by (auto split: list.splits if_splits)
    then have "start_body (start cfg) cfg dep w1 = (Inr (), w')" using start_eq [of cfg dep w1] by simp
    then obtain rv' w2 app' w3 u w4 env w5 where
      rev: "GetRevision (dep_RevisionID dep) w1 = (Inr rv', w2)" and appl: "GetApplication (dep_ApplicationID dep) w2 = (Inr app', w3)"
      and st: "SetApplicationStatus (app_ID app') AppDeploying [] w3 = (Inr u, w4)"
      and env: "resolveEnv cfg app' envStrict w4 = (env, w5)"
      and body: "(case env of
           Inl e \<Rightarrow> bnd (fail_with (start cfg) cfg dep
                (case root_cause e of UnresolvedReferenceError a b c \<Rightarrow> error_text (UnresolvedReferenceError a b c)
                 | _ \<Rightarrow> ''could not resolve this application'' @ [CHR 0x27] @ ''s environment'')) (\<lambda>_. throw e)
         | Inr _ \<Rightarrow> start_stage (start cfg) cfg dep app' rv') w5 = (Inr (), w')"
      unfolding start_body_def bnd_Inr_iff mapE_Inr_iff attempt_Inr_iff by blast
    note rest2 = reads_run [OF reads_store(10) rev] and rest3 = reads_run [OF reads_store(1) appl]
    have rest: "at_rest w2 = at_rest w" "at_rest w3 = at_rest w" using rest1 rest2 rest3 by simp_all
    have rv': "rv' = rv" using GetRevision_rev_row [OF rev] assms(2) at_rest_eqD(2) [OF rest1] by (simp add: rev_row_def)
    have app': "app' = app" using GetApplication_row [OF appl] assms(3) policy_at_rest(3) [OF rest(1)] by simp
    obtain y where y: "env = Inr y" using body by (cases env) (auto simp: bnd_Inr_iff)
    have dist: "startDistribute dep app rv w5 = (Inr (), w')"
      using body assms(4) by (simp add: y rv' app' start_stage_def)
    have only3: "only_row (dep_ID dep) w w3"
      by (intro only_row_trans [OF only_row_reads [OF reads_store(14) list]] only_row_trans [OF only_row_reads [OF reads_store(10) rev]]
          only_row_reads [OF reads_store(1) appl])
    have "around w4 = around w3" using st by (rule frames_run) (intro seen_around.apps around_simps)
    moreover have "kin (dep_ID dep) w4 = kin (dep_ID dep) w3" using st by (rule frames_run) (intro seen_kin.apps kin_simps)
    moreover have "other_rows (dep_ID dep) w4 = other_rows (dep_ID dep) w3"
      using st by (rule frames_run) (intro seen_others.apps, simp add: other_rows_def)
    moreover have "w_bus w4 = w_bus w3" using st by (rule frames_run) (intro seen_bus.apps, simp)
    ultimately have only4: "only_row (dep_ID dep) w w4" and bus4: "w_bus w4 = w_bus w"
      using only3 at_rest_eqD [OF rest(2)] by (simp_all add: only_row_def)
    have renv: "reads (resolveEnv cfg app' envStrict)" by (rule reads_resolveEnv)
    have only5: "only_row (dep_ID dep) w w5" using only_row_trans [OF only4 only_row_reads [OF renv env]] .
    have same5: "w_bus w5 = w_bus w" "w_revs w5 = w_revs w" "w_faults w5 = w_faults w"
      using bus4 at_rest_eqD [OF reads_run [OF renv env]] only4 by (simp_all add: only_row_def around_def)
    have "relayed w5 (builderFor dep app) (rt_ServerID (app_Runtime app)) (dep_ID dep) (app_ID app) rv src w'"
      using assms(6) same5 by (intro startDistribute_relays [OF dist assms(4,5) _ assms(7)]) (simp add: rev_row_def)
    then show ?thesis using only_row_trans [OF only5 distribute_only_row [OF dist]] same5
      by (simp add: relayed_def artifact_names_def)
  qed
  then show "only_row (dep_ID dep) w w'"
    and "w_bus w' = w_bus w \<or> relayed w (builderFor dep app) (rt_ServerID (app_Runtime app)) (dep_ID dep) (app_ID app) rv src w'" by blast+
qed

section \<open>A promotion that succeeds\<close>

lemma app_row_ID: "app_row w i = Some app \<Longrightarrow> app_ID app = i"
  unfolding app_row_def using find_Some_set by fastforce

lemma rev_row_at_rest: "at_rest w' = at_rest w \<Longrightarrow> rev_row w' i = rev_row w i"
  using at_rest_eqD(2) [of w' w] unfolding rev_row_def by simp

lemma PlanPromotion_Inr:
  assumes "PlanPromotion cfg i a w = (Inr plan, w')"
  shows "\<exists>rv src tgt. rev_row w i = Some rv \<and> app_row w (rev_ApplicationID rv) = Some src \<and> app_row w a = Some tgt
    \<and> pp_SourceCommit plan = rev_SourceCommit rv \<and> (pp_Blockers plan = [] \<longrightarrow> rev_Image rv \<noteq> [] \<and> app_ID src \<noteq> app_ID tgt)"
proof -
  obtain rv w1 src w2 tgt w3 where rv: "GetRevision i w = (Inr rv, w1)" and src: "GetApplication (rev_ApplicationID rv) w1 = (Inr src, w2)"
    and tgt: "GetApplication a w2 = (Inr tgt, w3)"
    and plan: "pp_SourceCommit plan = rev_SourceCommit rv" "pp_Blockers plan = [] \<longrightarrow> rev_Image rv \<noteq> [] \<and> app_ID src \<noteq> app_ID tgt"
    using assms unfolding PlanPromotion_def bnd_Inr_iff mapE_Inr_iff ret_run
    by (elim exE conjE) (erule (2) that; clarsimp split: if_splits)
  note rest = reads_run [OF reads_store(10) rv] reads_run [OF reads_store(1) src]
  have "app_row w (rev_ApplicationID rv) = Some src" using GetApplication_row [OF src] policy_at_rest(3) [OF rest(1)] by simp
  moreover have "app_row w a = Some tgt" using GetApplication_row [OF tgt] policy_at_rest(3) [OF rest(1)] policy_at_rest(3) [OF rest(2)] by simp
  ultimately show ?thesis using GetRevision_rev_row [OF rv] plan by blast
qed

text \<open>The revision and the deployment a promotion writes.\<close>

definition promoted_revision :: "string \<Rightarrow> revision \<Rightarrow> application \<Rightarrow> revision" where
  "promoted_revision nr rv tgt = \<lparr> rev_ID = nr, rev_ApplicationID = app_ID tgt, rev_Image = imageTag (app_ID tgt) nr,
     rev_SourceCommit = rev_SourceCommit rv, rev_ConfigSnapshot = Some (snapshotOf tgt), rev_PromotedFromRevisionID = rev_ID rv \<rparr>"

definition same_ground :: "world \<Rightarrow> world \<Rightarrow> bool" where
  "same_ground w w' \<longleftrightarrow> around w' = around w \<and> w_deps w' = w_deps w \<and> w_bus w' = w_bus w \<and> w_apps w' = w_apps w"

lemma same_ground_reads:
  assumes "reads m" "m w = (r, w')"
  shows "same_ground w w'"
  using at_rest_eqD [OF reads_run [OF assms]] unfolding same_ground_def around_def settings_def by simp

lemma same_ground_trans: "same_ground w w1 \<Longrightarrow> same_ground w1 w' \<Longrightarrow> same_ground w w'"
  by (simp add: same_ground_def)

lemma same_ground_rows:
  assumes "same_ground w w'"
  shows "rev_row w' i = rev_row w i" "app_row w' a = app_row w a"
proof -
  have "w_revs w' = w_revs w" "w_apps w' = w_apps w" using assms by (auto simp: same_ground_def around_def)
  then show "rev_row w' i = rev_row w i" "app_row w' a = app_row w a" by (simp_all add: rev_row_def app_row_def)
qed

lemma same_ground_quota:
  assumes "admitQuota (wire pc cfg) app w = (r, w')"
  shows "same_ground w w'"
proof -
  have "around w' = around w" using assms by (rule frames_run) (intro seen_around.quota_asked around_simps)
  moreover have "w_deps w' = w_deps w" using assms by (rule frames_run) (intro seen_deps.quota_asked, simp_all)
  moreover have "w_bus w' = w_bus w" using assms by (rule frames_run) (intro seen_bus.quota_asked, simp_all)
  moreover have "w_apps w' = w_apps w" using assms by (rule frames_run) (intro seen_apps.quota_asked, simp_all)
  ultimately show ?thesis by (simp add: same_ground_def)
qed

lemma reads_wired_admit: "reads (admit (wire pc cfg) app)"
  unfolding admit_def wire_gates by (cases pc) (auto simp: protection_gate_def intro!: rd reads_Admit)

lemma promoted_rows:
  assumes "CreatePromotedRevision nr a commit snap img from w = (Inr rv, w')"
  shows "rv = \<lparr> rev_ID = nr, rev_ApplicationID = a, rev_Image = img, rev_SourceCommit = commit, rev_ConfigSnapshot = snap,
      rev_PromotedFromRevisionID = from \<rparr>"
    and "w_revs w' = w_revs w @ [rv]" "settings w' = settings w" "w_faults w' = w_faults w" "w_deps w' = w_deps w" "w_bus w' = w_bus w"
    "w_apps w' = w_apps w" "rev_row w nr = None"
  using assms by (auto simp: CreatePromotedRevision_def query_Inr_iff Let_def bump_def settings_def rev_row_def find_None_all split: if_splits)

lemma created_row:
  assumes "CreateDeployment nd a r t w = (Inr d, w')"
  shows "w_deps w' = w_deps w @ [d]" "dep_row nd (w_deps w) = None" "dep_ID d = nd" "dep_ApplicationID d = a" "dep_RevisionID d = r"
    "around w' = around w" "w_bus w' = w_bus w" "w_apps w' = w_apps w"
  using assms by (auto simp: CreateDeployment_def query_Inr_iff Let_def bump_def around_def settings_def dep_row_def find_None_all split: if_splits)

lemma builder_row:
  assumes "SetDeploymentBuilder i b w = (Inr d, w')"
  shows "dep_row i (w_deps w') = Some d" "dep_BuilderServerID d = Some b" "around w' = around w" "w_bus w' = w_bus w" "w_apps w' = w_apps w"
    "other_rows i w' = other_rows i w" "\<exists>x. dep_row i (w_deps w) = Some x \<and> d = x\<lparr>dep_BuilderServerID := Some b\<rparr>"
proof -
  have row: "dep_row i (w_deps w') = Some d" and eff: "w_deps w' = dep_upd i (dep_BuilderServerID_update (\<lambda>_. Some b)) (w_deps w)"
    using builder_deps [OF assms] by auto
  from row show "dep_row i (w_deps w') = Some d" .
  have "dep_row i (w_deps w') = map_option (dep_BuilderServerID_update (\<lambda>_. Some b)) (dep_row i (w_deps w))"
    unfolding eff by (subst dep_row_upd) simp_all
  with row show x: "\<exists>x. dep_row i (w_deps w) = Some x \<and> d = x\<lparr>dep_BuilderServerID := Some b\<rparr>" by auto
  then show "dep_BuilderServerID d = Some b" by auto
  show "around w' = around w" using assms by (rule frames_run) (intro seen_around.deps around_simps)
  show "w_bus w' = w_bus w" using assms by (rule frames_run) (intro seen_bus.deps, simp)
  show "w_apps w' = w_apps w" using assms by (rule frames_run) (intro seen_apps.deps, simp)
  show "other_rows i w' = other_rows i w" using assms by (rule frames_run) (intro fr)
qed


text \<open>The revision, the deployment and its builder, before the deployment is started or parked.\<close>

definition written :: "world \<Rightarrow> revision \<Rightarrow> string \<Rightarrow> string \<Rightarrow> string \<Rightarrow> deployment \<Rightarrow> world \<Rightarrow> bool" where
  "written w rv nd a server dep w' \<longleftrightarrow> around w' = (settings w, w_revs w @ [rv], w_faults w) \<and> other_rows nd w' = w_deps w
     \<and> kin nd w' = Some (a, rev_ID rv, Some server) \<and> w_bus w' = w_bus w \<and> w_apps w' = w_apps w
     \<and> dep_ID dep = nd \<and> dep_ApplicationID dep = a \<and> dep_RevisionID dep = rev_ID rv \<and> dep_BuilderServerID dep = Some server"

lemma find_append: "List.find P (xs @ ys) = (case List.find P xs of None \<Rightarrow> List.find P ys | Some x \<Rightarrow> Some x)"
  by (induction xs) auto

lemma filter_other_row: "dep_row i ds = None \<Longrightarrow> filter (\<lambda>d. dep_ID d \<noteq> i) ds = ds"
  by (induction ds) (auto simp: dep_row_def split: if_splits)

lemma promote_writes:
  assumes "CreatePromotedRevision nr a commit snap img i w = (Inr rv, w1)" "CreateDeployment nd a (rev_ID rv) t w1 = (Inr d0, w2)"
    "SetDeploymentBuilder (dep_ID d0) server w2 = (Inr dep, w3)"
  shows "written w rv nd a server dep w3"
proof -
  note one = promoted_rows [OF assms(1)] and two = created_row [OF assms(2)]
  have three: "SetDeploymentBuilder nd server w2 = (Inr dep, w3)" using assms(3) two(3) by simp
  note build = builder_row [OF three]
  have "dep_row nd (w_deps w2) = Some d0" using two(1,2) dep_row_snoc [of d0 "w_deps w1"] two(3) by simp
  then have dep: "dep = d0\<lparr>dep_BuilderServerID := Some server\<rparr>" using build(7) by auto
  have "other_rows nd w3 = w_deps w"
    using build(6) two(1-3) one(5) by (simp add: other_rows_def filter_other_row)
  moreover have "around w3 = (settings w, w_revs w @ [rv], w_faults w)" using build(3) two(6) one(2-4) by (simp add: around_def)
  ultimately show ?thesis using dep two build one unfolding written_def kin_def by simp
qed

text \<open>What the gate admitted, written and then parked or started.\<close>

lemma promote_admitted_ships:
  assumes "promote_admitted (wire pc cfg) nr nd plan i src tgt adm u w = (Inr d, w')"
    and "rev_row w i = Some rv" "rev_Image rv \<noteq> []" "i \<noteq> []" "app_row w (app_ID tgt) = Some tgt" "pp_SourceCommit plan = rev_SourceCommit rv"
  defines "new \<equiv> promoted_revision nr rv tgt"
  shows "around w' = (settings w, w_revs w @ [new], w_faults w) \<and> other_rows nd w' = w_deps w
    \<and> kin nd w' = Some (app_ID tgt, nr, Some (rt_ServerID (app_Runtime src))) \<and> dep_row nd (w_deps w') = Some d
    \<and> (w_bus w' = w_bus w \<or> relayed w (rt_ServerID (app_Runtime src)) (rt_ServerID (app_Runtime tgt)) nd (app_ID tgt) new rv w')"
proof -
  define fin where "fin = (\<lambda>dep. case (adm_NeedsApproval adm, sc_gate (wire pc cfg)) of
       (True, Some g) \<Rightarrow> park g dep tgt adm u
     | _ \<Rightarrow> bnd (tryStart (wire pc cfg) dep) (\<lambda>_. GetDeployment (dep_ID dep)))"
  obtain r w1 d0 w2 dep w3 where rev: "CreatePromotedRevision nr (app_ID tgt) (pp_SourceCommit plan) (Some (snapshotOf tgt))
        (imageTag (app_ID tgt) nr) i w = (Inr r, w1)"
    and cre: "CreateDeployment nd (app_ID tgt) (rev_ID r) ''promotion'' w1 = (Inr d0, w2)"
    and bld: "SetDeploymentBuilder (dep_ID d0) (rt_ServerID (app_Runtime src)) w2 = (Inr dep, w3)"
    and fin: "fin dep w3 = (Inr d, w')"
    using assms(1) unfolding promote_admitted_def bnd_Inr_iff mapE_Inr_iff fin_def by blast
  have r: "r = new" using promoted_rows(1) [OF rev] rev_row_ID [OF assms(2)] assms(6) by (simp add: new_def promoted_revision_def)
  have ids: "rev_ID new = nr" "rev_PromotedFromRevisionID new = i" "rev_Image new \<noteq> []"
    using rev_row_ID [OF assms(2)] by (simp_all add: new_def promoted_revision_def imageTag_def)
  have wr: "written w new nd (app_ID tgt) (rt_ServerID (app_Runtime src)) dep w3"
    using promote_writes [OF rev cre bld] r by simp
  have nd: "dep_ID dep = nd" using wr by (simp add: written_def)
  have fresh: "rev_row w nr = None" by (rule promoted_rows(8) [OF rev])
  have "w_revs w3 = w_revs w @ [new]" using wr by (simp add: written_def around_def)
  then have rows: "rev_row w3 nr = Some new" "rev_row w3 i = Some rv"
    using fresh assms(2) ids(1) unfolding rev_row_def by (simp_all add: find_append)
  have "only_row nd w3 w' \<and> dep_row nd (w_deps w') = Some d
    \<and> (w_bus w' = w_bus w3 \<or> relayed w3 (rt_ServerID (app_Runtime src)) (rt_ServerID (app_Runtime tgt)) nd (app_ID tgt) new rv w')"
  proof (cases "bnd (tryStart (wire pc cfg) dep) (\<lambda>_. GetDeployment (dep_ID dep)) w3 = (Inr d, w')")
    case True
    then obtain v w4 where go: "tryStart (wire pc cfg) dep w3 = (Inr v, w4)" and get: "GetDeployment nd w4 = (Inr d, w')"
      unfolding bnd_Inr_iff nd by blast
    have "rev_row w3 (dep_RevisionID dep) = Some new" "app_row w3 (dep_ApplicationID dep) = Some tgt"
      using wr rows ids(1) assms(5) by (simp_all add: written_def app_row_def)
    from tryStart_relays [OF _ this, of "wire pc cfg" w4] go ids assms(3,4) rows(2)
    have only: "only_row nd w3 w4" and bus: "w_bus w4 = w_bus w3
        \<or> relayed w3 (builderFor dep tgt) (rt_ServerID (app_Runtime tgt)) nd (app_ID tgt) new rv w4"
      by (simp_all add: nd)
    have row: "dep_row nd (w_deps w4) = Some d" and w': "w' = bump w4"
      using get by (auto simp: GetDeployment_def query_Inr_iff one_row_Inr_iff dep_row_def bump_def)
    moreover have "builderFor dep tgt = rt_ServerID (app_Runtime src)" using wr by (simp add: written_def builderFor_def)
    moreover have "only_row nd w4 w'" unfolding w' by (simp add: only_row_def around_def settings_def kin_def other_rows_def bump_def)
    ultimately show ?thesis using only bus only_row_trans [OF only] by (auto simp: relayed_def bump_def)
  next
    case False
    then have "sc_gate (wire pc cfg) \<noteq> None \<and> adm_NeedsApproval adm" using fin by (auto simp: fin_def split: bool.splits option.splits)
    then obtain p where "pc = Some p" and "park (protection_gate p) dep tgt adm u w3 = (Inr d, w')"
      using fin by (auto simp: fin_def)
    from park_only_row [OF this(2)] show ?thesis by (simp add: nd)
  qed
  then show ?thesis using wr ids(1) by (auto simp: only_row_def written_def relayed_def artifact_names_def around_def)
qed

lemma mustSourceApp_run:
  assumes "mustSourceApp i w = (Inr sa, w')" "rev_row w i = Some rv"
  shows "sa = [] \<or> sa = rev_ApplicationID rv"
proof -
  obtain x w1 where get: "GetRevision i w = (x, w1)" by fastforce
  with assms(1) have "sa = (case x of Inl _ \<Rightarrow> [] | Inr rv \<Rightarrow> rev_ApplicationID rv)" by (auto simp: mustSourceApp_def runs)
  then show ?thesis using get GetRevision_rev_row [of i w] assms(2) by (auto split: sum.splits)
qed

text \<open>
  C36. A promotion ships the artifact of its source and nothing else. When \<open>PromoteRevision\<close> returns a deployment, the source revision had
  been built and belongs to another application than the target; exactly one revision was added, which carries the commit of the
  source, the configuration and the canonical image name of the target and the reference to its source; exactly one deployment was
  added, of the target, on that revision, built on the server of the source; every other deployment, and every environment variable,
  shared variable, environment and protection rule is as before; and what was published is nothing (the deployment waits for an
  approval or for its turn) or a push by the server that holds the artifact followed by a pull of it by the server of the target under
  the target's name: never a build.
\<close>

theorem promotion_ships_artifact:
  assumes "PromoteRevision (wire pc cfg) nr nd i a u w = (Inr d, w')" "i \<noteq> []" "app_row w [] = None"
  shows "\<exists>rv src tgt. rev_row w i = Some rv \<and> rev_Image rv \<noteq> [] \<and> app_row w (rev_ApplicationID rv) = Some src \<and> app_row w a = Some tgt
    \<and> rev_ApplicationID rv \<noteq> a \<and> w_revs w' = w_revs w @ [promoted_revision nr rv tgt]
    \<and> filter (\<lambda>x. dep_ID x \<noteq> nd) (w_deps w') = w_deps w \<and> settings w' = settings w
    \<and> dep_row nd (w_deps w') = Some d \<and> dep_ApplicationID d = a \<and> dep_RevisionID d = nr \<and> dep_BuilderServerID d = Some (rt_ServerID (app_Runtime src))
    \<and> (w_bus w' = w_bus w \<or> relayed w (rt_ServerID (app_Runtime src)) (rt_ServerID (app_Runtime tgt)) nd a (promoted_revision nr rv tgt) rv w')"
proof -
  obtain plan w1 where plan: "PlanPromotion (wire pc cfg) i a w = (Inr plan, w1)"
    and rest: "(case pp_Blockers plan of b # _ \<Rightarrow> throw (ErrNotPromotable b) | [] \<Rightarrow>
         bnd (mustSourceApp i) (\<lambda>sourceApp. bnd (GetApplication sourceApp) (\<lambda>source. bnd (GetApplication a) (\<lambda>target.
         bnd (admit (wire pc cfg) target) (\<lambda>admission.
         if adm_Frozen admission then throw (FrozenError (adm_FreezeDetail admission))
         else bnd (admitQuota (wire pc cfg) target) (\<lambda>_.
           promote_admitted (wire pc cfg) nr nd plan i source target admission u)))))) w1 = (Inr d, w')"
    using assms(1) unfolding PromoteRevision_def bnd_Inr_iff by blast
  have open_plan: "pp_Blockers plan = []" using rest by (cases "pp_Blockers plan") auto
  obtain rv src0 tgt0 where rv: "rev_row w i = Some rv" and src: "app_row w (rev_ApplicationID rv) = Some src0" and tgt: "app_row w a = Some tgt0"
    and commit: "pp_SourceCommit plan = rev_SourceCommit rv" and built: "rev_Image rv \<noteq> []" and other: "app_ID src0 \<noteq> app_ID tgt0"
    using PlanPromotion_Inr [OF plan] open_plan by blast
  obtain sa w2 src w3 tgt w4 adm w5 q w6 where sa: "mustSourceApp i w1 = (Inr sa, w2)" and get_src: "GetApplication sa w2 = (Inr src, w3)"
    and get_tgt: "GetApplication a w3 = (Inr tgt, w4)" and adm: "admit (wire pc cfg) tgt w4 = (Inr adm, w5)"
    and quota: "admitQuota (wire pc cfg) tgt w5 = (Inr q, w6)"
    and ship: "promote_admitted (wire pc cfg) nr nd plan i src tgt adm u w6 = (Inr d, w')"
    using rest unfolding open_plan list.case bnd_Inr_iff by (elim exE conjE) (auto simp: bnd_Inr_iff split: if_splits)
  have "same_ground w w1" "same_ground w1 w2" "same_ground w2 w3" "same_ground w3 w4" "same_ground w4 w5" "same_ground w5 w6"
    using same_ground_reads [OF reads_plan(1) plan] same_ground_reads [OF reads_plan(3) sa] same_ground_reads [OF reads_store(1) get_src]
      same_ground_reads [OF reads_store(1) get_tgt] same_ground_reads [OF reads_wired_admit adm] same_ground_quota [OF quota] .
  then have g: "same_ground w w1" "same_ground w w2" "same_ground w w3" "same_ground w w6" by (auto simp: same_ground_def)
  have "sa = [] \<or> sa = rev_ApplicationID rv"
    by (rule mustSourceApp_run [OF sa]) (use rv same_ground_rows(1) [OF g(1)] in simp)
  moreover have "app_row w sa = Some src" using GetApplication_row [OF get_src] same_ground_rows(2) [OF g(2)] by simp
  ultimately have s: "src = src0" using src assms(3) by auto
  have t: "tgt = tgt0" using GetApplication_row [OF get_tgt] same_ground_rows(2) [OF g(3)] tgt by simp
  have a: "app_ID tgt0 = a" "app_ID src0 = rev_ApplicationID rv" by (rule app_row_ID [OF tgt], rule app_row_ID [OF src])
  have "rev_row w6 i = Some rv" "app_row w6 (app_ID tgt0) = Some tgt0" using rv tgt a same_ground_rows [OF g(4)] by simp_all
  from promote_admitted_ships [OF ship [unfolded s t] this(1) built assms(2) this(2) commit]
  have "settings w' = settings w \<and> w_revs w' = w_revs w @ [promoted_revision nr rv tgt0] \<and> filter (\<lambda>x. dep_ID x \<noteq> nd) (w_deps w') = w_deps w
    \<and> dep_row nd (w_deps w') = Some d \<and> kin nd w' = Some (a, nr, Some (rt_ServerID (app_Runtime src0)))
    \<and> (w_bus w' = w_bus w \<or> relayed w (rt_ServerID (app_Runtime src0)) (rt_ServerID (app_Runtime tgt0)) nd a (promoted_revision nr rv tgt0) rv w')"
    using g(4) by (auto simp: around_def same_ground_def other_rows_def a relayed_def artifact_names_def)
  with rv src tgt built other a show ?thesis by (auto simp: kin_def)
qed

section \<open>Staging and production\<close>

text \<open>Two environments of one project, on two servers; a revision that runs in staging.\<close>

definition staged_revision :: revision where
  "staged_revision = \<lparr> rev_ID = ''rev_0'', rev_ApplicationID = ''app_1'', rev_Image = ''cypher/app_1:rev_0'', rev_SourceCommit = ''c0ffee'',
     rev_ConfigSnapshot = None, rev_PromotedFromRevisionID = [] \<rparr>"

definition production_app :: application where
  "production_app = blank_app\<lparr>app_ID := ''app_2'', app_EnvironmentID := ''env_2'', app_Runtime := (app_Runtime blank_app)\<lparr>rt_ServerID := ''srv_2''\<rparr>\<rparr>"

definition environment_of :: "string \<Rightarrow> string \<Rightarrow> environment" where
  "environment_of i project = \<lparr> env_ID = i, env_ProjectID = project, env_Name = i, env_Kind = ''standard'', env_CreatedAt = 0, env_UpdatedAt = 0 \<rparr>"

definition promo_world :: "string \<Rightarrow> world" where
  "promo_world project = frozen_world\<lparr> w_prot := [], w_apps := [blank_app, production_app], w_revs := [staged_revision],
     w_envs := [environment_of ''env_1'' ''prj_1'', environment_of ''env_2'' project] \<rparr>"

definition promo_cfg :: sched_cfg where
  "promo_cfg = wire (Some utc_protection) plain_cfg"

abbreviation promo :: "world \<Rightarrow> (error + deployment) \<times> world" where
  "promo \<equiv> PromoteRevision promo_cfg ''rev_1'' ''dep_1'' ''rev_0'' ''app_2'' ''ann''"

theorem promotion_ships_artifact_witness:
  "\<exists>rv (src :: application) tgt. rev_row (promo_world ''prj_1'') ''rev_0'' = Some rv \<and> rev_Image rv \<noteq> []
     \<and> w_revs (snd (promo (promo_world ''prj_1''))) = [staged_revision, promoted_revision ''rev_1'' rv tgt]
     \<and> relayed (promo_world ''prj_1'') (rt_ServerID (app_Runtime src)) (rt_ServerID (app_Runtime tgt)) ''dep_1'' ''app_2''
         (promoted_revision ''rev_1'' rv tgt) rv (snd (promo (promo_world ''prj_1'')))"
proof -
  have "\<not> isl (fst (promo (promo_world ''prj_1'')))" "w_bus (snd (promo (promo_world ''prj_1''))) \<noteq> []" by code_simp+
  then obtain d w' where run: "promo (promo_world ''prj_1'') = (Inr d, w')" and busy: "w_bus w' \<noteq> []"
    by (cases "promo (promo_world ''prj_1'')"; cases "fst (promo (promo_world ''prj_1''))") auto
  have no_app: "app_row (promo_world ''prj_1'') [] = None" and old: "w_revs (promo_world ''prj_1'') = [staged_revision]"
    "w_bus (promo_world ''prj_1'') = []" by code_simp+
  have after: "snd (promo (promo_world ''prj_1'')) = w'" using run by simp
  have source: "''rev_0'' \<noteq> []" by simp
  obtain rv and src :: application and tgt where "rev_row (promo_world ''prj_1'') ''rev_0'' = Some rv" "rev_Image rv \<noteq> []"
    "w_revs w' = [staged_revision] @ [promoted_revision ''rev_1'' rv tgt]"
    "w_bus w' = [] \<or> relayed (promo_world ''prj_1'') (rt_ServerID (app_Runtime src)) (rt_ServerID (app_Runtime tgt)) ''dep_1'' ''app_2''
       (promoted_revision ''rev_1'' rv tgt) rv w'"
    using promotion_ships_artifact [OF run [unfolded promo_cfg_def] source no_app] unfolding old by blast
  with busy show ?thesis unfolding after by (intro exI [of _ rv] exI [of _ src] exI [of _ tgt]) simp
qed

text \<open>
  Applications of different projects: the plan refuses. But the check compares the projects only when both environments could be
  read: when a read fails, the promotion goes through.
\<close>

definition environment_lost :: "nat \<Rightarrow> world \<Rightarrow> world" where
  "environment_lost n w = w\<lparr>w_faults := (\<lambda>i. if i = n then Some ''connection reset'' else None)\<rparr>"

lemma cross_project_promotion:
  "fst (promo (promo_world ''prj_2'')) = Inl (ErrNotPromotable other_project)"
  "\<not> isl (fst (promo (environment_lost 3 (promo_world ''prj_2''))))"
  "map rev_PromotedFromRevisionID (w_revs (snd (promo (environment_lost 3 (promo_world ''prj_2''))))) = [[], ''rev_0'']"
  by code_simp+

text \<open>
  Two environments on the same server: the plan says so, and calls it instant, but the builder is recorded and the server is asked to
  push the image to itself all the same.
\<close>

definition one_server :: "world \<Rightarrow> world" where
  "one_server w = w\<lparr>w_apps := [blank_app, production_app\<lparr>app_Runtime := app_Runtime blank_app\<rparr>]\<rparr>"

lemma same_server_promotion_pushes:
  "map_sum id pp_SameServer (fst (PlanPromotion promo_cfg ''rev_0'' ''app_2'' (one_server (promo_world ''prj_1'')))) = Inr True"
  "map (\<lambda>(s, k, _). (s, k)) (w_bus (snd (promo (one_server (promo_world ''prj_1'')))))
     = [(PushImage ''srv_1'', ''dep_1.push''), (Distribute ''srv_1'', ''dep_1.distribute'')]"
  by code_simp+

text \<open>
  A rollback to a promoted revision starts a deployment that records no builder: the push is asked of the target's own server, under
  the name the image has on the server of the source.
\<close>

definition promoted_once :: world where
  "promoted_once = (let w = promo_world ''prj_1''; tgt = production_app in
     w\<lparr>w_revs := w_revs w @ [promoted_revision ''rev_1'' staged_revision tgt],
       w_deps := [ended_dep\<lparr>dep_ID := ''dep_1'', dep_ApplicationID := ''app_2'', dep_RevisionID := ''rev_1'', dep_Status := DeploySucceeded,
         dep_BuilderServerID := Some ''srv_1''\<rparr>]\<rparr>)"

lemma rollback_asks_itself:
  "w_bus (snd (RollbackAs promo_cfg ''dep_2'' ''dep_1'' ''ann'' promoted_once))
     = [(PushImage ''srv_2'', ''dep_2.push'', PushImageWork ''dep_2'' ''app_2'' ''cypher/app_1:rev_0''),
        (Distribute ''srv_2'', ''dep_2.distribute'', DistributeWork ''dep_2'' ''app_2'' ''cypher/app_1:rev_0'' ''cypher/app_2:rev_1'')]"
  by code_simp

end
