(* ===== verification/Quota_Props.thy ===== *)
theory Quota_Props
  imports Pipeline_Flow Pipeline_Props
begin

text \<open>
  What the quota gate answers: a rule over the caps and the readings, on every combination of failing reads; that a crossing is
  announced once; and what the answer does to a deploy.
\<close>

section \<open>The rule\<close>

definition quota_row :: "world \<Rightarrow> string \<Rightarrow> string \<Rightarrow> resourceQuota option" where
  "quota_row w kind i = List.find (\<lambda>q. i \<noteq> [] \<and> (if kind = QuotaScopeTeam then rq_TeamID q else rq_ProjectID q) = i) (w_quotas w)"

definition projects_of :: "world \<Rightarrow> string \<Rightarrow> string \<Rightarrow> string list" where
  "projects_of w kind i = (if kind = QuotaScopeTeam then map fst (filter (\<lambda>p. snd p = i) (w_projects w)) else [i])"

text \<open>What the projects of a scope use: the sums of the five readings.\<close>

definition used_by :: "world \<Rightarrow> string list \<Rightarrow> reading" where
  "used_by w ps = \<lparr> md_memory = sum_list (map (declared_memory w) ps), md_disk = sum_list (map (observed_disk w) ps),
     md_previews = sum_list (map (live_previews w) ps),
     md_stacks = sum_list (map (\<lambda>p. int (length (filter (\<lambda>c. in_project w p (snd c)) (w_stacks w)))) ps),
     md_unlimited = concat (map (unlimited_resources w) ps) \<rparr>"

definition quota_scopes :: "world \<Rightarrow> string \<Rightarrow> (string \<times> string) list" where
  "quota_scopes w p = (QuotaScopeProject, p) #
     (case List.find (\<lambda>x. fst x = p) (w_projects w) of
        Some (_, team) \<Rightarrow> if team \<noteq> [] then [(QuotaScopeTeam, team)] else []
      | None \<Rightarrow> [])"

text \<open>The dimension a scope refuses, if any: memory past the cap, disk at the cap, previews only when some are asked for.\<close>

definition over_caps :: "quotaDelta \<Rightarrow> resourceQuota \<Rightarrow> reading \<Rightarrow> string option" where
  "over_caps delta q md =
     (if exceeds (md_memory md + dl_MemoryBytes delta) (rq_MemoryLimitBytes q) then Some QuotaMemory
      else if exceeds (md_disk md + 1) (rq_DiskLimitBytes q) then Some QuotaDisk
      else if 0 < dl_Previews delta \<and> exceeds (md_previews md + dl_Previews delta) (rq_PreviewLimit q) then Some QuotaPreviews
      else None)"

definition over :: "world \<Rightarrow> quotaDelta \<Rightarrow> string \<times> string \<Rightarrow> string option" where
  "over w delta sc = (case quota_row w (fst sc) (snd sc) of
       None \<Rightarrow> None
     | Some q \<Rightarrow> over_caps delta q (used_by w (projects_of w (fst sc) (snd sc))))"

fun first_over :: "world \<Rightarrow> quotaDelta \<Rightarrow> (string \<times> string) list \<Rightarrow> string option" where
  "first_over w delta [] = None"
| "first_over w delta (sc # scs) = (case over w delta sc of Some d \<Rightarrow> Some d | None \<Rightarrow> first_over w delta scs)"

text \<open>The tables the rule reads.\<close>

definition books :: "world \<Rightarrow> resourceQuota list \<times> (string \<times> string) list \<times> application list \<times> environment list \<times> database list
    \<times> diskSample list \<times> previewRow list \<times> (string \<times> string) list \<times> (nat \<Rightarrow> string option)" where
  "books w = (w_quotas w, w_projects w, w_apps w, w_envs w, w_dbs w, w_disk w, w_previews w, w_stacks w, w_faults w)"

interpretation seen_books: observation books
  by unfold_locales (simp_all add: books_def bump_def at_rest_def)

lemma books_simps: "books (w\<lparr>w_quotaStates := b\<rparr>) = books w" "books (w\<lparr>w_events := e\<rparr>) = books w" "books (bump w) = books w"
  by (simp_all add: books_def bump_def)

lemma books_readings:
  assumes "books w' = books w"
  shows "declared_memory w' p = declared_memory w p" "observed_disk w' p = observed_disk w p" "live_previews w' p = live_previews w p"
    "in_project w' p e = in_project w p e" "unlimited_resources w' p = unlimited_resources w p" "w_stacks w' = w_stacks w"
    "w_projects w' = w_projects w" "w_quotas w' = w_quotas w" "w_faults w' = w_faults w"
  using assms by (simp_all add: books_def declared_memory_def observed_disk_def live_previews_def unlimited_resources_def
      project_apps_def project_dbs_def in_project_def)

lemma books_rule:
  assumes "books w' = books w"
  shows "quota_row w' k i = quota_row w k i" "projects_of w' k i = projects_of w k i" "used_by w' ps = used_by w ps"
    "over w' delta sc = over w delta sc" "quota_scopes w' p = quota_scopes w p"
proof -
  note r = books_readings [OF assms]
  show "quota_row w' k i = quota_row w k i" "projects_of w' k i = projects_of w k i" "used_by w' ps = used_by w ps" for k i ps
    unfolding quota_row_def projects_of_def used_by_def r by simp_all
  note same = this
  show "over w' delta sc = over w delta sc" unfolding over_def same ..
  show "quota_scopes w' p = quota_scopes w p" unfolding quota_scopes_def r by simp
qed

lemma first_over_books: "books w' = books w \<Longrightarrow> first_over w' delta scs = first_over w delta scs"
  by (induction scs) (simp_all add: books_rule(4) [of w' w] split: option.split)

section \<open>The meter\<close>

abbreviation calm :: "world \<Rightarrow> bool" where
  "calm w \<equiv> w_faults w = (\<lambda>_. None)"

lemma gets_query:
  "query c (gets f) w = (case w_faults w (w_io w) of None \<Rightarrow> (Inr (f (bump w)), bump w)
     | Some msg \<Rightarrow> (Inl (Wrapped (''store: '' @ c) (Driver msg)), bump w))"
  by (simp add: query_def runs io_run split: option.split)

lemma reads_books: "reads m \<Longrightarrow> m w = (r, w') \<Longrightarrow> books w' = books w"
  by (rule frames_run, assumption, rule seen_books.reading)

lemma quotaFor_run:
  assumes "quotaFor k i w = (r, w')"
  shows "books w' = books w" "r = Inr q \<Longrightarrow> quota_row w k i = Some q" "calm w \<Longrightarrow> quota_row w k i = Some q \<Longrightarrow> r = Inr q"
proof -
  show "books w' = books w" by (rule reads_books [OF reads_meter(3) assms])
  show "quota_row w k i = Some q" if "r = Inr q"
    using assms that by (auto simp: quotaFor_def GetTeamQuota_def GetProjectQuota_def query_Inr_iff one_row_Inr_iff quota_row_def bump_def
        split: if_splits)
  show "r = Inr q" if "calm w" "quota_row w k i = Some q"
    using assms that by (auto simp: quotaFor_def GetTeamQuota_def GetProjectQuota_def query_def runs io_run one_row_def quota_row_def bump_def
        split: if_splits)
qed

text \<open>
  A reading that comes back is that of the tables, and without failures it comes back: of every world with the tables of \<open>w\<close>.
\<close>

definition told :: "world \<Rightarrow> 'a op \<Rightarrow> 'a \<Rightarrow> bool" where
  "told w m x \<longleftrightarrow> (\<forall>v r v'. books v = books w \<longrightarrow> m v = (r, v') \<longrightarrow> books v' = books w \<and> (isl r \<or> r = Inr x) \<and> (calm w \<longrightarrow> r = Inr x))"

lemma toldI:
  assumes "\<And>v r v'. books v = books w \<Longrightarrow> m v = (r, v') \<Longrightarrow> books v' = books w \<and> (isl r \<or> r = Inr x) \<and> (calm w \<longrightarrow> r = Inr x)"
  shows "told w m x"
  using assms unfolding told_def by blast

lemma toldD:
  assumes "told w m x" "books v = books w" "m v = (r, v')"
  shows "books v' = books w" "isl r \<or> r = Inr x" "calm w \<Longrightarrow> r = Inr x"
  using assms unfolding told_def by blast+

lemma bumped_books: "books (bump w) = books w"
  by (simp add: books_simps)

lemma told_query:
  assumes "\<And>v. books v = books w \<Longrightarrow> f v = x"
  shows "told w (query c (gets f)) x"
proof (rule toldI)
  fix v r v' assume v: "books v = books w" and run: "query c (gets f) v = (r, v')"
  have fx: "f (bump v) = x" by (rule assms) (simp add: bumped_books v)
  have calm: "calm w \<Longrightarrow> w_faults v (w_io v) = None" using books_readings(9) [OF v] by simp
  show "books v' = books w \<and> (isl r \<or> r = Inr x) \<and> (calm w \<longrightarrow> r = Inr x)"
  proof (cases "w_faults v (w_io v)")
    case None
    then show ?thesis using run fx v bumped_books [of v] by (simp add: gets_query)
  next
    case (Some msg)
    then show ?thesis using run v bumped_books [of v] calm by (auto simp: gets_query)
  qed
qed

lemma told_bnd:
  assumes "told w m x" "told w (k x) y"
  shows "told w (bnd m k) y"
proof (rule toldI)
  fix v r v' assume v: "books v = books w" and run: "bnd m k v = (r, v')"
  obtain r1 v1 where m: "m v = (r1, v1)" by fastforce
  note one = toldD [OF assms(1) v m]
  show "books v' = books w \<and> (isl r \<or> r = Inr y) \<and> (calm w \<longrightarrow> r = Inr y)"
  proof (cases r1)
    case (Inl e)
    then show ?thesis using run m one by (auto simp: bnd_run)
  next
    case (Inr z)
    then have "k x v1 = (r, v')" using run m one(2) by (simp add: bnd_run)
    from toldD [OF assms(2) one(1) this] show ?thesis by blast
  qed
qed

lemma told_ret: "told w (ret x) x"
  by (rule toldI) simp

lemma told_readings:
  "told w (ProjectDeclaredMemory p) (declared_memory w p)" "told w (ProjectObservedDisk p) (observed_disk w p)"
  "told w (ProjectLivePreviews p) (live_previews w p)" "told w (ProjectUnlimitedResources p) (unlimited_resources w p)"
  "told w (ProjectComposeStackCount p) (int (length (filter (\<lambda>c. in_project w p (snd c)) (w_stacks w))))"
  "told w (ListProjectsInTeam t) (map fst (filter (\<lambda>p. snd p = t) (w_projects w)))"
proof -
  have same: "(\<lambda>c. in_project v p (snd c)) = (\<lambda>c. in_project w p (snd c))" "w_stacks v = w_stacks w" "w_projects v = w_projects w"
    if "books v = books w" for v using books_readings [OF that] by simp_all
  show "told w (ProjectDeclaredMemory p) (declared_memory w p)" "told w (ProjectObservedDisk p) (observed_disk w p)"
    "told w (ProjectLivePreviews p) (live_previews w p)" "told w (ProjectUnlimitedResources p) (unlimited_resources w p)"
    unfolding ProjectDeclaredMemory_def ProjectObservedDisk_def ProjectLivePreviews_def ProjectUnlimitedResources_def many_rows_def
    by (rule told_query, erule books_readings)+
  show "told w (ProjectComposeStackCount p) (int (length (filter (\<lambda>c. in_project w p (snd c)) (w_stacks w))))"
    unfolding ProjectComposeStackCount_def
  proof (rule told_query)
    fix v assume v: "books v = books w"
    show "int (length (filter (\<lambda>c. in_project v p (snd c)) (w_stacks v))) = int (length (filter (\<lambda>c. in_project w p (snd c)) (w_stacks w)))"
      unfolding same [OF v] ..
  qed
  show "told w (ListProjectsInTeam t) (map fst (filter (\<lambda>p. snd p = t) (w_projects w)))"
    unfolding ListProjectsInTeam_def many_rows_def
  proof (rule told_query)
    fix v assume v: "books v = books w"
    show "map fst (filter (\<lambda>p. snd p = t) (w_projects v)) = map fst (filter (\<lambda>p. snd p = t) (w_projects w))" unfolding same [OF v] ..
  qed
qed

definition add_reading :: "reading \<Rightarrow> reading \<Rightarrow> reading" where
  "add_reading a b = \<lparr> md_memory = md_memory a + md_memory b, md_disk = md_disk a + md_disk b, md_previews = md_previews a + md_previews b,
     md_stacks = md_stacks a + md_stacks b, md_unlimited = md_unlimited a @ md_unlimited b \<rparr>"

lemma told_meter_loop: "told w (meter_loop ps acc) (add_reading acc (used_by w ps))"
proof (induction ps arbitrary: acc)
  case Nil
  have "add_reading acc (used_by w []) = acc" by (simp add: add_reading_def used_by_def)
  then show ?case using told_ret [of w acc] unfolding meter_loop.simps by (simp only:)
next
  case (Cons p ps)
  have sum: "add_reading acc (used_by w (p # ps)) = add_reading \<lparr> md_memory = md_memory acc + declared_memory w p,
      md_disk = md_disk acc + observed_disk w p, md_previews = md_previews acc + live_previews w p,
      md_stacks = md_stacks acc + int (length (filter (\<lambda>c. in_project w p (snd c)) (w_stacks w))),
      md_unlimited = md_unlimited acc @ unlimited_resources w p \<rparr> (used_by w ps)"
    by (simp add: add_reading_def used_by_def)
  show ?case unfolding sum meter_loop.simps
    by (rule told_bnd [OF told_readings(1)], rule told_bnd [OF told_readings(2)], rule told_bnd [OF told_readings(3)],
        rule told_bnd [OF told_readings(5)], rule told_bnd [OF told_readings(4)], rule Cons.IH)
qed

lemma told_meter: "told w (meter k i) (used_by w (projects_of w k i))"
proof -
  have "told w (projectsIn k i) (projects_of w k i)"
  proof (cases "k = QuotaScopeTeam")
    case True
    then have "projectsIn k i = ListProjectsInTeam i" "projects_of w k i = map fst (filter (\<lambda>p. snd p = i) (w_projects w))"
      by (simp_all add: projectsIn_def projects_of_def)
    then show ?thesis using told_readings(6) by (simp only:)
  next
    case False
    then have "projectsIn k i = ret [i]" "projects_of w k i = [i]" unfolding projectsIn_def projects_of_def by (simp_all only: if_False)
    then show ?thesis using told_ret by (simp only:)
  qed
  moreover have "add_reading no_reading (used_by w ps) = used_by w ps" for ps by (simp add: add_reading_def no_reading_def used_by_def)
  ultimately show ?thesis unfolding meter_def using told_bnd told_meter_loop [of w _ no_reading] by metis
qed

section \<open>The answer\<close>

text \<open>An announcement changes at most the recorded states and the events, and never fails.\<close>

lemma announce_never_fails: "\<exists>w'. announceIfChanged ann k i d used limit w = (Inr (), w')"
proof -
  obtain r w1 where get: "GetQuotaState k i d w = (r, w1)" by fastforce
  obtain s w2 where set: "SetQuotaState k i d (QuotaState used limit) w1 = (s, w2)" by fastforce
  show ?thesis
  proof (cases ann)
    case None
    with get set show ?thesis by (simp add: announceIfChanged_def runs Let_def)
  next
    case (Some tell)
    obtain t w3 where "tell k i d (QuotaState used limit) (usage_of d used limit None) w2 = (t, w3)" by fastforce
    with get set Some show ?thesis by (simp add: announceIfChanged_def runs Let_def)
  qed
qed

lemma announce_then: "bnd (announceIfChanged ann k i d used limit) f w = f () (snd (announceIfChanged ann k i d used limit w))"
  using announce_never_fails [of ann k i d used limit w] by (auto simp: bnd_run)

lemma refuse_then: "bnd (refuse ann k i d reason used limit) f w
    = f \<lparr> qa_Allowed = False, qa_Dimension = d, qa_Reason = reason, qa_Unlimited = [] \<rparr> (snd (announceIfChanged ann k i d used limit w))"
proof -
  have "refuse ann k i d reason used limit w = (Inr \<lparr> qa_Allowed = False, qa_Dimension = d, qa_Reason = reason, qa_Unlimited = [] \<rparr>,
      snd (announceIfChanged ann k i d used limit w))"
    unfolding refuse_def announce_then by simp
  then show ?thesis by (simp add: bnd_run)
qed

lemma admit_caps_open:
  assumes "over_caps delta q md = None"
  shows "admit_caps ann delta k i q md =
     bnd (announceIfChanged ann k i QuotaMemory (md_memory md) (rq_MemoryLimitBytes q)) (\<lambda>_.
     bnd (announceIfChanged ann k i QuotaDisk (md_disk md) (rq_DiskLimitBytes q)) (\<lambda>_.
     bnd (announceIfChanged ann k i QuotaPreviews (md_previews md) (rq_PreviewLimit q)) (\<lambda>_. ret None)))"
proof -
  have "\<not> exceeds (md_memory md + dl_MemoryBytes delta) (rq_MemoryLimitBytes q)" "\<not> exceeds (md_disk md + 1) (rq_DiskLimitBytes q)"
    "\<not> (0 < dl_Previews delta \<and> exceeds (md_previews md + dl_Previews delta) (rq_PreviewLimit q))"
    using assms unfolding over_caps_def by (metis option.distinct(1))+
  then show ?thesis unfolding admit_caps_def Let_def by (simp only: if_False)
qed

text \<open>The answer of one scope is determined by its caps and readings, and is the one of the rule.\<close>

definition answers :: "quotaAdmission option \<Rightarrow> string option \<Rightarrow> bool" where
  "answers a d \<longleftrightarrow> map_option qa_Dimension a = d \<and> (\<forall>x. a = Some x \<longrightarrow> \<not> qa_Allowed x)"

lemma admit_caps_answer:
  "\<exists>a. answers a (over_caps delta q md) \<and> (\<forall>i w. fst (admit_caps ann delta k i q md w) = Inr a)"
proof -
  consider "exceeds (md_memory md + dl_MemoryBytes delta) (rq_MemoryLimitBytes q)"
    | "\<not> exceeds (md_memory md + dl_MemoryBytes delta) (rq_MemoryLimitBytes q)" "exceeds (md_disk md + 1) (rq_DiskLimitBytes q)"
    | "\<not> exceeds (md_memory md + dl_MemoryBytes delta) (rq_MemoryLimitBytes q)" "\<not> exceeds (md_disk md + 1) (rq_DiskLimitBytes q)"
      "0 < dl_Previews delta \<and> exceeds (md_previews md + dl_Previews delta) (rq_PreviewLimit q)"
    | "over_caps delta q md = None"
    unfolding over_caps_def by argo
  then show ?thesis
  proof cases
    case 4
    then show ?thesis by (intro exI [of _ None]) (simp add: answers_def announce_then admit_caps_open)
  qed (simp_all add: admit_caps_def Let_def refuse_then over_caps_def answers_def)
qed

lemma quotaFor_run':
  assumes "quotaFor k i w = (r, w')"
  shows "isl r \<and> (calm w \<longrightarrow> quota_row w k i = None) \<or> (\<exists>q. r = Inr q \<and> quota_row w k i = Some q)"
  using quotaFor_run(2,3) [OF assms] by (cases r; cases "quota_row w k i") auto

text \<open>One scope, the answer \<open>None\<close> being that it lets the deploy pass: always given, and without failures as the rule says.\<close>

lemma admit_scope_answer:
  assumes run: "admit_scope (Some AnnounceQuota) delta sc w = (r, w')"
  shows "books w' = books w"
    and "\<exists>a. r = Inr a \<and> (a = None \<or> answers a (over w delta sc)) \<and> (calm w \<longrightarrow> answers a (over w delta sc))"
proof -
  show "books w' = books w" using run by (rule frames_run) (intro seen_books.asking_scope books_simps)
  obtain k i where sc: "sc = (k, i)" by (cases sc)
  obtain r1 w1 where quota: "quotaFor k i w = (r1, w1)" by fastforce
  note same = quotaFor_run(1) [OF quota]
  show "\<exists>a. r = Inr a \<and> (a = None \<or> answers a (over w delta sc)) \<and> (calm w \<longrightarrow> answers a (over w delta sc))"
  proof (cases r1)
    case (Inl e)
    then have "r = Inr None" using run quota by (simp add: admit_scope_def sc runs)
    moreover have "calm w \<Longrightarrow> over w delta sc = None" using quotaFor_run' [OF quota] Inl by (simp add: over_def sc)
    ultimately show ?thesis by (simp add: answers_def)
  next
    case (Inr q)
    then have row: "quota_row w k i = Some q" using quotaFor_run' [OF quota] by simp
    obtain r2 w2 where meter: "meter k i w1 = (r2, w2)" by fastforce
    note told = toldD [OF told_meter same meter]
    define md where "md = used_by w (projects_of w k i)"
    have over: "over w delta sc = over_caps delta q md" by (simp add: over_def sc row md_def)
    obtain a where a: "answers a (over_caps delta q md)" "\<And>i w. fst (admit_caps (Some AnnounceQuota) delta k i q md w) = Inr a"
      using admit_caps_answer by blast
    from told(2) show ?thesis
    proof
      assume "isl r2"
      then have "r = Inr None" using run quota Inr meter by (cases r2) (auto simp: admit_scope_def sc runs)
      moreover have "\<not> calm w" using told(3) \<open>isl r2\<close> by auto
      ultimately show ?thesis by blast
    next
      assume "r2 = Inr (used_by w (projects_of w k i))"
      then have "r = fst (admit_caps (Some AnnounceQuota) delta k i q md w2)" using run quota Inr meter
        by (simp add: admit_scope_def sc runs md_def)
      then show ?thesis using a over by auto
    qed
  qed
qed

lemma admit_scopes_answer:
  assumes "admit_scopes (Some AnnounceQuota) delta scs w = (r, w')"
  shows "books w' = books w \<and> (\<exists>adm. r = Inr adm \<and> (qa_Allowed adm \<or> (\<exists>sc \<in> set scs. over w delta sc = Some (qa_Dimension adm)))
    \<and> (calm w \<longrightarrow> (if qa_Allowed adm then None else Some (qa_Dimension adm)) = first_over w delta scs))"
  using assms
proof (induction scs arbitrary: w r w')
  case Nil
  have run: "r = Inr room_left" "w' = w" using Nil.prems unfolding admit_scopes.simps ret_run by blast+
  show ?case unfolding run first_over.simps by (intro conjI exI [of _ room_left]) (simp_all add: room_left_def)
next
  case (Cons sc scs)
  obtain r1 w1 where one: "admit_scope (Some AnnounceQuota) delta sc w = (r1, w1)" by fastforce
  note same = admit_scope_answer(1) [OF one]
  obtain a where a: "r1 = Inr a" "a = None \<or> answers a (over w delta sc)" "calm w \<longrightarrow> answers a (over w delta sc)"
    using admit_scope_answer(2) [OF one] by blast
  show ?case
  proof (cases a)
    case None
    then have "admit_scopes (Some AnnounceQuota) delta scs w1 = (r, w')" using Cons.prems one a(1) by (simp add: bnd_run)
    note rest = Cons.IH [OF this]
    have "calm w1 \<longleftrightarrow> calm w" using books_readings(9) [OF same] by simp
    moreover have "calm w \<Longrightarrow> over w delta sc = None" using a None by (simp add: answers_def)
    ultimately show ?thesis using rest same by (auto simp: books_rule(4) [OF same] first_over_books [OF same])
  next
    case (Some adm)
    then have "r = Inr adm" "w' = w1" using Cons.prems one a(1) by (simp_all add: bnd_run)
    moreover have "over w delta sc = Some (qa_Dimension adm)" "\<not> qa_Allowed adm" using a(2) Some by (auto simp: answers_def)
    ultimately show ?thesis using same by simp
  qed
qed

lemma scopes_of_run:
  assumes "scopes_of p w = (r, w')"
  shows "books w' = books w" "\<exists>scs. r = Inr scs \<and> set scs \<subseteq> set (quota_scopes w p) \<and> (calm w \<longrightarrow> scs = quota_scopes w p)"
proof -
  show "books w' = books w" by (rule reads_books [OF reads_scopes assms])
  obtain r1 w1 where get: "GetProject p w = (r1, w1)" by fastforce
  have r: "r = Inr ((QuotaScopeProject, p) # (case r1 of Inr (_, team) \<Rightarrow> if team \<noteq> [] then [(QuotaScopeTeam, team)] else [] | Inl _ \<Rightarrow> []))"
    using assms get by (simp add: scopes_of_def runs)
  show "\<exists>scs. r = Inr scs \<and> set scs \<subseteq> set (quota_scopes w p) \<and> (calm w \<longrightarrow> scs = quota_scopes w p)"
  proof (cases r1)
    case (Inr x)
    then have "List.find (\<lambda>x. fst x = p) (w_projects w) = Some x"
      using get by (auto simp: GetProject_def query_Inr_iff one_row_Inr_iff bump_def)
    then show ?thesis unfolding r Inr by (simp add: quota_scopes_def)
  next
    case (Inl e)
    have "List.find (\<lambda>x. fst x = p) (w_projects w) = None" if "calm w"
    proof (rule ccontr)
      assume "List.find (\<lambda>x. fst x = p) (w_projects w) \<noteq> None"
      then obtain x where "List.find (\<lambda>x. fst x = p) (w_projects (bump w)) = Some x" by (auto simp: bump_def)
      then have "GetProject p w = (Inr x, bump w)" using that by (simp add: GetProject_def query_Inr_iff one_row_Inr_iff)
      with get Inl show False by simp
    qed
    then show ?thesis unfolding r Inl by (simp add: quota_scopes_def)
  qed
qed

text \<open>The answer for a project.\<close>

lemma quota_verdict:
  "\<exists>adm w'. QuotaAdmit (Some AnnounceQuota) p delta w = (Inr adm, w')
     \<and> (qa_Allowed adm \<or> (\<exists>sc \<in> set (quota_scopes w p). over w delta sc = Some (qa_Dimension adm)))
     \<and> (w_faults w = (\<lambda>_. None) \<longrightarrow> (if qa_Allowed adm then None else Some (qa_Dimension adm)) = first_over w delta (quota_scopes w p))"
proof -
  obtain scs w1 where scopes: "scopes_of p w = (Inr scs, w1)" and sub: "set scs \<subseteq> set (quota_scopes w p)"
    and exact: "calm w \<longrightarrow> scs = quota_scopes w p"
    using scopes_of_run(2) [of p w] by (cases "scopes_of p w") fastforce
  note same = scopes_of_run(1) [OF scopes]
  obtain r w' where run: "admit_scopes (Some AnnounceQuota) delta scs w1 = (r, w')" by fastforce
  have calm: "calm w1 \<longleftrightarrow> calm w" using books_readings(9) [OF same] by simp
  have "QuotaAdmit (Some AnnounceQuota) p delta w = (r, w')" using scopes run by (simp add: QuotaAdmit_def bnd_run)
  moreover obtain adm where "r = Inr adm" "qa_Allowed adm \<or> (\<exists>sc \<in> set scs. over w delta sc = Some (qa_Dimension adm))"
      "calm w \<longrightarrow> (if qa_Allowed adm then None else Some (qa_Dimension adm)) = first_over w delta scs"
    using admit_scopes_answer [OF run] unfolding calm books_rule(4) [OF same] first_over_books [OF same] by blast
  ultimately show ?thesis using sub exact by auto
qed


section \<open>A deploy over the cap\<close>

text \<open>The tables a deploy writes, and its work items.\<close>

definition deploy_tables :: "world \<Rightarrow> revision list \<times> deployment list \<times> application list \<times> (string \<times> string \<times> work) list" where
  "deploy_tables w = (w_revs w, w_deps w, w_apps w, w_bus w)"

interpretation seen_tables: observation deploy_tables
  by unfold_locales (simp_all add: deploy_tables_def bump_def at_rest_def)

lemma deploy_tables_simps: "deploy_tables (w\<lparr>w_quotaStates := b\<rparr>) = deploy_tables w" "deploy_tables (w\<lparr>w_events := e\<rparr>) = deploy_tables w"
  by (simp_all add: deploy_tables_def)

definition no_delta :: quotaDelta where
  "no_delta = \<lparr> dl_MemoryBytes = 0, dl_Previews = 0 \<rparr>"

text \<open>Whatever the caps, an application that is asked about is in a project over them.\<close>

definition over_quota :: "world \<Rightarrow> application \<Rightarrow> string \<Rightarrow> bool" where
  "over_quota w app dim \<longleftrightarrow> calm w \<and> (\<exists>env. env_row w (app_EnvironmentID app) = Some env
     \<and> first_over w no_delta (quota_scopes w (env_ProjectID env)) = Some dim)"

lemma over_quota_at_rest:
  assumes "at_rest w' = at_rest w"
  shows "over_quota w' app dim = over_quota w app dim"
proof -
  have books: "books w' = books w" using at_rest_eqD [OF assms] unfolding books_def by simp
  then have "env_row w' = env_row w" by (simp add: env_row_def books_def fun_eq_iff)
  then show ?thesis unfolding over_quota_def books_rule(5) [OF books] first_over_books [OF books] books_readings(9) [OF books] by simp
qed

lemma over_quota_later: "over_quota w app dim \<Longrightarrow> at_rest w' = at_rest w \<Longrightarrow> over_quota w' app dim"
  using over_quota_at_rest [of w' w app dim] by (simp only:)

lemma admitQuota_over:
  assumes "over_quota w app dim"
  shows "\<exists>reason w'. admitQuota (wire pc cfg) app w = (Inl (QuotaError dim reason), w') \<and> deploy_tables w' = deploy_tables w"
proof -
  obtain env where calm: "calm w" and env: "env_row w (app_EnvironmentID app) = Some env"
    and first: "first_over w no_delta (quota_scopes w (env_ProjectID env)) = Some dim"
    using assms unfolding over_quota_def by blast
  have get: "GetEnvironment (app_EnvironmentID app) w = (Inr env, bump w)"
    using env calm by (simp add: GetEnvironment_def query_Inr_iff one_row_Inr_iff env_row_def bump_def)
  have bump: "calm (bump w)" "first_over (bump w) no_delta (quota_scopes (bump w) (env_ProjectID env)) = Some dim"
    unfolding books_rule(5) [OF bumped_books] first_over_books [OF bumped_books] books_readings(9) [OF bumped_books] by (rule calm, rule first)
  obtain adm w' where ask: "QuotaAdmit (Some AnnounceQuota) (env_ProjectID env) no_delta (bump w) = (Inr adm, w')"
    and ans: "\<not> qa_Allowed adm" "qa_Dimension adm = dim"
    using quota_verdict [of "env_ProjectID env" no_delta "bump w"] bump by (auto split: if_splits)
  have run: "admitQuota (wire pc cfg) app w = (Inl (QuotaError dim (qa_Reason adm)), w')"
    using get ask ans by (simp add: admitQuota_def runs quotaGate_def no_delta_def)
  moreover have "deploy_tables w' = deploy_tables w" using run by (rule frames_run) (intro seen_tables.quota_asked deploy_tables_simps)
  ultimately show ?thesis by blast
qed

text \<open>Refused, with nothing written that a deploy writes.\<close>

definition declined :: "(error \<Rightarrow> bool) \<Rightarrow> 'a op \<Rightarrow> world \<Rightarrow> bool" where
  "declined E m w \<longleftrightarrow> (\<exists>e w'. m w = (Inl e, w') \<and> E e \<and> deploy_tables w' = deploy_tables w)"

lemma declined_throw: "E e \<Longrightarrow> declined E (throw e) w"
  by (simp add: declined_def)

lemma declined_reading:
  assumes "reads m" "\<And>e w1. m w = (Inl e, w1) \<Longrightarrow> E e"
    and "\<And>x w1. m w = (Inr x, w1) \<Longrightarrow> at_rest w1 = at_rest w \<Longrightarrow> declined E (f x) w1"
  shows "declined E (bnd m f) w"
proof -
  obtain r w1 where m: "m w = (r, w1)" by fastforce
  have same: "deploy_tables w1 = deploy_tables w" using m by (rule frames_run) (rule seen_tables.reading [OF assms(1)])
  show ?thesis
  proof (cases r)
    case (Inl e)
    then show ?thesis using m same assms(2) by (simp add: declined_def bnd_run)
  next
    case (Inr x)
    from assms(3) [OF m [unfolded Inr] reads_run [OF assms(1) m]] show ?thesis
      using m same by (auto simp: Inr declined_def bnd_run)
  qed
qed

lemma declined_quota:
  assumes "over_quota w app dim" "\<And>reason. E (QuotaError dim reason)"
  shows "declined E (bnd (admitQuota (wire pc cfg) app) f) w"
  using admitQuota_over [OF assms(1), of pc cfg] assms(2) by (auto simp: declined_def bnd_run)

lemma declined_gate:
  assumes "over_quota w app dim"
  shows "declined (\<lambda>_. True) (bnd (admit (wire pc cfg) app) (\<lambda>adm. if adm_Frozen adm then throw (FrozenError (adm_FreezeDetail adm))
      else bnd (admitQuota (wire pc cfg) app) (m adm))) w"
proof (rule declined_reading)
  show "reads (admit (wire pc cfg) app)"
    unfolding admit_def wire_gates by (cases pc) (auto simp: protection_gate_def intro!: rd reads_Admit)
  fix adm w1 assume "at_rest w1 = at_rest w"
  then have later: "over_quota w1 app dim" by (rule over_quota_later [OF assms])
  show "declined (\<lambda>_. True) (if adm_Frozen adm then throw (FrozenError (adm_FreezeDetail adm)) else bnd (admitQuota (wire pc cfg) app) (m adm)) w1"
    by (split if_split, intro conjI impI declined_throw declined_quota [OF later]) simp_all
qed simp

lemma declined_getting:
  assumes "app_row w a = Some app" "\<And>w1. at_rest w1 = at_rest w \<Longrightarrow> declined (\<lambda>_. True) (f app) w1"
  shows "declined (\<lambda>_. True) (bnd (GetApplication a) f) w" "declined (\<lambda>_. True) (bnd (mapE h (GetApplication a)) f) w"
proof -
  have app: "x = app" if "GetApplication a w = (Inr x, w1)" for x w1 using GetApplication_row [OF that] assms(1) by simp
  show "declined (\<lambda>_. True) (bnd (GetApplication a) f) w" by (rule declined_reading, rule reads_store) (auto dest: app intro: assms(2))
  show "declined (\<lambda>_. True) (bnd (mapE h (GetApplication a)) f) w"
    by (rule declined_reading, rule rd, rule reads_store) (auto simp: mapE_Inr_iff dest: app intro: assms(2))
qed

lemma deploy_over_quota:
  assumes "app_row w a = Some app" "over_quota w app dim"
  shows "declined (\<lambda>_. True) (DeployAs (wire pc cfg) nr nd a t ref u) w"
  unfolding DeployAs_def
  by (rule declined_getting [OF assms(1)], rule declined_gate, rule over_quota_later [OF assms(2)])

lemma promote_over_quota:
  assumes "app_row w a = Some app" "over_quota w app dim"
  shows "declined (\<lambda>_. True) (PromoteRevision (wire pc cfg) nr nd i a u) w"
proof -
  have go: "declined (\<lambda>_. True) (bnd (GetApplication a) (\<lambda>target. bnd (admit (wire pc cfg) target) (\<lambda>admission.
      if adm_Frozen admission then throw (FrozenError (adm_FreezeDetail admission))
      else bnd (admitQuota (wire pc cfg) target) (m target admission)))) v"
    if "at_rest v = at_rest w" for v and m :: "application \<Rightarrow> deployAdmission \<Rightarrow> unit \<Rightarrow> deployment op"
    by (rule declined_getting, simp add: policy_at_rest(3) [OF that] assms(1), rule declined_gate, rule over_quota_later [OF assms(2)],
        simp only: that)
  show ?thesis unfolding PromoteRevision_def
    by (rule declined_reading, rule reads_plan, simp, split list.split, intro conjI impI allI, rule declined_reading, rule reads_plan, simp,
        rule declined_reading, rule reads_store, simp, rule go, simp, rule declined_throw, simp)
qed

lemma deploy_over_exact:
  assumes "app_row w a = Some app" "over_quota w app dim"
  shows "declined (\<lambda>e. \<exists>reason. e = QuotaError dim reason) (DeployAs (wire None cfg) nr nd a t ref u) w"
proof -
  have "calm w" using assms(2) by (simp add: over_quota_def)
  then have get: "GetApplication a w = (Inr app, bump w)"
    using assms(1) by (simp add: GetApplication_def query_Inr_iff one_row_Inr_iff app_row_def bump_def)
  obtain reason w' where "admitQuota (wire None cfg) app (bump w) = (Inl (QuotaError dim reason), w')" "deploy_tables w' = deploy_tables (bump w)"
    using admitQuota_over [OF over_quota_later [OF assms(2), of "bump w"], of None cfg] by (auto simp: at_rest_def bump_def)
  moreover have "deploy_tables (bump w) = deploy_tables w" by (simp add: deploy_tables_def bump_def)
  ultimately show ?thesis using get by (simp add: declined_def DeployAs_def runs admit_def zeroAdmission_def)
qed


section \<open>A crossing is announced once\<close>

definition recorded :: "world \<Rightarrow> string \<Rightarrow> string \<Rightarrow> string \<Rightarrow> string option" where
  "recorded w k i d = map_option snd (List.find (\<lambda>s. fst s = (k, i, d)) (w_quotaStates w))"

lemma GetQuotaState_recorded:
  assumes "recorded w k i d = Some s" "calm w"
  shows "GetQuotaState k i d w = (Inr s, bump w)"
proof -
  obtain x where "List.find (\<lambda>s. fst s = (k, i, d)) (w_quotaStates (bump w)) = Some x" "snd x = s"
    using assms(1) by (auto simp: recorded_def bump_def)
  then show ?thesis using assms(2) by (simp add: GetQuotaState_def query_Inr_iff bnd_run one_row_def)
qed

lemma announce_again:
  assumes "recorded w k i d = Some (QuotaState used limit)" "calm w"
  shows "announceIfChanged ann k i d used limit w = (Inr (), bump w)"
  by (simp add: announceIfChanged_def runs GetQuotaState_recorded [OF assms] Let_def)

lemma find_other: "k' \<noteq> k \<Longrightarrow> List.find (\<lambda>s. fst s = k') (filter (\<lambda>s. fst s \<noteq> k) xs) = List.find (\<lambda>s. fst s = k') xs"
  by (induction xs) auto

lemma SetQuotaState_run:
  assumes "calm w"
  shows "\<exists>w'. SetQuotaState k i d s w = (Inr (), w') \<and> recorded w' k i d = Some s
    \<and> (\<forall>k' i' d'. (k', i', d') \<noteq> (k, i, d) \<longrightarrow> recorded w' k' i' d' = recorded w k' i' d')"
proof -
  have "SetQuotaState k i d s w = (Inr (), (bump w)\<lparr>w_quotaStates := ((k, i, d), s) # filter (\<lambda>s. fst s \<noteq> (k, i, d)) (w_quotaStates (bump w))\<rparr>)"
    using assms by (simp add: SetQuotaState_def query_Inr_iff)
  then show ?thesis by (simp add: recorded_def bump_def find_other)
qed

interpretation seen_states: observation w_quotaStates
  by unfold_locales (simp_all add: bump_def at_rest_def)

lemma announcing_states: "frames w_quotaStates (AnnounceQuota k i d s u)"
  unfolding AnnounceQuota_def RecordQuota_def by (intro fr reads_io [THEN seen_states.reading] seen_states.emitting) simp_all

lemma GetQuotaState_states:
  assumes "calm w" "GetQuotaState k i d w = (r, w')"
  shows "w' = bump w \<and> (\<forall>s. r = Inr s \<longrightarrow> recorded w k i d = Some s)"
  using assms unfolding GetQuotaState_def
  by (cases "List.find (\<lambda>s. fst s = (k, i, d)) (w_quotaStates w)") (auto simp: query_def runs io_run one_row_def recorded_def bump_def)

lemma announce_records:
  assumes "calm w" "announceIfChanged (Some AnnounceQuota) k i d used limit w = (r, w')"
  shows "recorded w' k i d = Some (QuotaState used limit)"
    and "(k', i', d') \<noteq> (k, i, d) \<Longrightarrow> recorded w' k' i' d' = recorded w k' i' d'"
proof -
  obtain r1 where get: "GetQuotaState k i d w = (r1, bump w)" and known: "\<And>s. r1 = Inr s \<Longrightarrow> recorded w k i d = Some s"
    using GetQuotaState_states [OF assms(1)] by (cases "GetQuotaState k i d w") blast
  have rec: "recorded (bump w) = recorded w" by (simp add: recorded_def bump_def fun_eq_iff)
  have "calm (bump w)" using assms(1) by (simp add: bump_def)
  from SetQuotaState_run [OF this] obtain w2 where set: "SetQuotaState k i d (QuotaState used limit) (bump w) = (Inr (), w2)"
    and now: "recorded w2 k i d = Some (QuotaState used limit)"
    and rest: "\<And>k' i' d'. (k', i', d') \<noteq> (k, i, d) \<Longrightarrow> recorded w2 k' i' d' = recorded w k' i' d'" unfolding rec by blast
  have "recorded w' = recorded w \<and> r1 = Inr (QuotaState used limit) \<or> recorded w' = recorded w2"
  proof (cases "r1 = Inr (QuotaState used limit)")
    case True
    then have "w' = bump w" using assms(2) get by (simp add: announceIfChanged_def runs Let_def)
    then show ?thesis using True rec by simp
  next
    case False
    obtain t w3 where tell: "AnnounceQuota k i d (QuotaState used limit) (usage_of d used limit None) w2 = (t, w3)" by fastforce
    have "w_quotaStates w3 = w_quotaStates w2" using tell by (rule frames_run) (rule announcing_states)
    then have "recorded w3 = recorded w2" by (simp add: recorded_def fun_eq_iff)
    moreover have "w' = w2 \<or> w' = w3" using assms(2) get set tell False by (auto simp: announceIfChanged_def runs Let_def split: if_splits)
    ultimately show ?thesis by auto
  qed
  with now rest known show "recorded w' k i d = Some (QuotaState used limit)"
    "(k', i', d') \<noteq> (k, i, d) \<Longrightarrow> recorded w' k' i' d' = recorded w k' i' d'" by auto
qed

text \<open>What one scope announces: the dimension it refuses, or all three.\<close>

definition caps_of :: "resourceQuota \<Rightarrow> reading \<Rightarrow> (string \<times> int \<times> int option) list" where
  "caps_of q md = [(QuotaMemory, md_memory md, rq_MemoryLimitBytes q), (QuotaDisk, md_disk md, rq_DiskLimitBytes q),
     (QuotaPreviews, md_previews md, rq_PreviewLimit q)]"

definition dues :: "quotaDelta \<Rightarrow> resourceQuota \<Rightarrow> reading \<Rightarrow> (string \<times> int \<times> int option) list" where
  "dues delta q md = (case over_caps delta q md of
       None \<Rightarrow> caps_of q md
     | Some d \<Rightarrow> filter (\<lambda>c. fst c = d) (caps_of q md))"

fun announce_all :: "announcer option \<Rightarrow> string \<Rightarrow> string \<Rightarrow> (string \<times> int \<times> int option) list \<Rightarrow> world \<Rightarrow> world" where
  "announce_all ann k i [] w = w"
| "announce_all ann k i (c # cs) w = announce_all ann k i cs (snd (announceIfChanged ann k i (fst c) (fst (snd c)) (snd (snd c)) w))"

lemma dimensions: "QuotaMemory \<noteq> QuotaDisk" "QuotaMemory \<noteq> QuotaPreviews" "QuotaDisk \<noteq> QuotaPreviews"
  by (simp_all add: QuotaMemory_def QuotaDisk_def QuotaPreviews_def)

lemma caps_of_distinct: "distinct (map fst (caps_of q md))"
  using dimensions by (simp add: caps_of_def)

lemma dues_distinct: "distinct (map fst (dues delta q md))"
  using caps_of_distinct [of q md] by (auto simp: dues_def distinct_map inj_on_def split: option.split)

lemma admit_caps_world: "snd (admit_caps ann delta k i q md w) = announce_all ann k i (dues delta q md) w"
proof -
  consider "exceeds (md_memory md + dl_MemoryBytes delta) (rq_MemoryLimitBytes q)"
    | "\<not> exceeds (md_memory md + dl_MemoryBytes delta) (rq_MemoryLimitBytes q)" "exceeds (md_disk md + 1) (rq_DiskLimitBytes q)"
    | "\<not> exceeds (md_memory md + dl_MemoryBytes delta) (rq_MemoryLimitBytes q)" "\<not> exceeds (md_disk md + 1) (rq_DiskLimitBytes q)"
      "0 < dl_Previews delta \<and> exceeds (md_previews md + dl_Previews delta) (rq_PreviewLimit q)"
    | "over_caps delta q md = None"
    unfolding over_caps_def by argo
  then show ?thesis
  proof cases
    case 4
    then show ?thesis by (simp add: admit_caps_open announce_then dues_def caps_of_def)
  qed (use dimensions in \<open>simp_all add: admit_caps_def Let_def refuse_then over_caps_def dues_def caps_of_def\<close>)
qed

lemma announce_books:
  assumes "announceIfChanged (Some AnnounceQuota) k i d u l w = (r, w')"
  shows "books w' = books w"
  using assms by (rule frames_run) (intro seen_books.announcing books_simps)

lemma announce_all_books: "books (announce_all (Some AnnounceQuota) k i cs w) = books w"
proof (induction cs arbitrary: w)
  case (Cons c cs)
  have "books (snd (announceIfChanged (Some AnnounceQuota) k i (fst c) (fst (snd c)) (snd (snd c)) w)) = books w"
    by (rule announce_books) (rule prod.collapse [symmetric])
  then show ?case by (simp add: Cons.IH)
qed simp

text \<open>All recorded; then announcing them again only costs reads.\<close>

definition all_recorded :: "world \<Rightarrow> string \<Rightarrow> string \<Rightarrow> (string \<times> int \<times> int option) list \<Rightarrow> bool" where
  "all_recorded w k i cs \<longleftrightarrow> (\<forall>c \<in> set cs. recorded w k i (fst c) = Some (QuotaState (fst (snd c)) (snd (snd c))))"

lemma announce_all_records:
  assumes "calm w" "distinct (map fst cs)"
  shows "all_recorded (announce_all (Some AnnounceQuota) k i cs w) k i cs
    \<and> (\<forall>k' i' d. (k', i') \<noteq> (k, i) \<or> d \<notin> fst ` set cs \<longrightarrow>
         recorded (announce_all (Some AnnounceQuota) k i cs w) k' i' d = recorded w k' i' d)"
  using assms
proof (induction cs arbitrary: w)
  case Nil
  then show ?case by (simp add: all_recorded_def)
next
  case (Cons c cs)
  obtain x w1 where one: "announceIfChanged (Some AnnounceQuota) k i (fst c) (fst (snd c)) (snd (snd c)) w = (x, w1)" by fastforce
  note rec = announce_records [OF Cons.prems(1) one]
  have "calm w1" using books_readings(9) [OF announce_books [OF one]] Cons.prems(1) by simp
  note ih = Cons.IH [OF this] and dist = Cons.prems(2)
  define v where "v = announce_all (Some AnnounceQuota) k i cs w1"
  have v: "announce_all (Some AnnounceQuota) k i (c # cs) w = v" using one by (simp add: v_def)
  have ih: "all_recorded v k i cs" "\<And>k' i' d. (k', i') \<noteq> (k, i) \<or> d \<notin> fst ` set cs \<Longrightarrow> recorded v k' i' d = recorded w1 k' i' d"
    using ih dist unfolding v_def by simp_all
  have "recorded v k i (fst c) = Some (QuotaState (fst (snd c)) (snd (snd c)))" using ih(2) [of k i "fst c"] dist rec(1) by auto
  moreover have "recorded v k' i' d = recorded w k' i' d" if "(k', i') \<noteq> (k, i) \<or> d \<notin> fst ` set (c # cs)" for k' i' d
    using ih(2) [of k' i' d] rec(2) [of k' i' d] that by auto
  ultimately show ?case unfolding v using ih(1) by (simp add: all_recorded_def)
qed

lemma announce_all_again:
  assumes "all_recorded w k i cs" "calm w"
  shows "at_rest (announce_all ann k i cs w) = at_rest w"
  using assms
proof (induction cs arbitrary: w)
  case (Cons c cs)
  have "announceIfChanged ann k i (fst c) (fst (snd c)) (snd (snd c)) w = (Inr (), bump w)"
    using Cons.prems by (intro announce_again) (simp_all add: all_recorded_def)
  moreover have "all_recorded (bump w) k i cs" "calm (bump w)"
    using Cons.prems by (simp_all add: all_recorded_def recorded_def bump_def)
  moreover have "at_rest (bump w) = at_rest w" by (simp add: at_rest_def bump_def)
  ultimately show ?case using Cons.IH [of "bump w"] by simp
qed simp

text \<open>A scope is settled when all it announces is recorded; a list of scopes when those the gate comes to are.\<close>

definition settled :: "world \<Rightarrow> quotaDelta \<Rightarrow> string \<times> string \<Rightarrow> bool" where
  "settled w delta sc \<longleftrightarrow> (case quota_row w (fst sc) (snd sc) of
       None \<Rightarrow> True
     | Some q \<Rightarrow> all_recorded w (fst sc) (snd sc) (dues delta q (used_by w (projects_of w (fst sc) (snd sc)))))"

fun all_settled :: "world \<Rightarrow> quotaDelta \<Rightarrow> (string \<times> string) list \<Rightarrow> bool" where
  "all_settled w delta [] \<longleftrightarrow> True"
| "all_settled w delta (sc # scs) \<longleftrightarrow> settled w delta sc \<and> (over w delta sc = None \<longrightarrow> all_settled w delta scs)"

text \<open>Without failures: a scope without quota costs two reads, one with a quota announces what is due.\<close>

lemma calm_scope:
  assumes "calm w" "admit_scope (Some AnnounceQuota) delta sc w = (r, w')"
  shows "\<exists>v. at_rest v = at_rest w \<and> calm v \<and> (case quota_row w (fst sc) (snd sc) of
      None \<Rightarrow> r = Inr None \<and> w' = v
    | Some q \<Rightarrow> r = fst (admit_caps (Some AnnounceQuota) delta (fst sc) (snd sc) q (used_by w (projects_of w (fst sc) (snd sc))) v)
        \<and> w' = announce_all (Some AnnounceQuota) (fst sc) (snd sc) (dues delta q (used_by w (projects_of w (fst sc) (snd sc)))) v)"
proof -
  obtain r1 w1 where quota: "quotaFor (fst sc) (snd sc) w = (r1, w1)" by fastforce
  have rest1: "at_rest w1 = at_rest w" by (rule reads_run [OF reads_meter(3) quota])
  note same = quotaFor_run(1) [OF quota]
  have calm1: "calm w1" using books_readings(9) [OF same] assms(1) by simp
  show ?thesis
  proof (cases "quota_row w (fst sc) (snd sc)")
    case None
    then obtain e where "r1 = Inl e" using quotaFor_run' [OF quota] by (cases r1) auto
    then have "r = Inr None \<and> w' = w1" using assms(2) quota by (cases sc) (simp add: admit_scope_def runs)
    then show ?thesis using None rest1 calm1 by auto
  next
    case (Some q)
    then have q: "r1 = Inr q" using quotaFor_run(3) [OF quota assms(1)] by blast
    obtain r2 w2 where meter: "meter (fst sc) (snd sc) w1 = (r2, w2)" by fastforce
    have rest2: "at_rest w2 = at_rest w" using reads_run [OF reads_meter(2) meter] rest1 by simp
    note told = toldD [OF told_meter same meter]
    have "calm w2" using books_readings(9) [OF told(1)] assms(1) by simp
    moreover have "(r, w') = admit_caps (Some AnnounceQuota) delta (fst sc) (snd sc) q (used_by w (projects_of w (fst sc) (snd sc))) w2"
      using assms(2) quota q meter told(3) [OF assms(1)] by (cases sc) (simp add: admit_scope_def runs)
    then have "r = fst (admit_caps (Some AnnounceQuota) delta (fst sc) (snd sc) q (used_by w (projects_of w (fst sc) (snd sc))) w2)
        \<and> w' = announce_all (Some AnnounceQuota) (fst sc) (snd sc) (dues delta q (used_by w (projects_of w (fst sc) (snd sc)))) w2"
      unfolding admit_caps_world [symmetric] by (metis fst_conv snd_conv)
    ultimately show ?thesis using Some rest2 by auto
  qed
qed

lemma recorded_at_rest: "at_rest v = at_rest w \<Longrightarrow> recorded v = recorded w"
  by (drule at_rest_eqD) (simp add: recorded_def fun_eq_iff)

lemma settled_same:
  assumes "books w' = books w" "\<And>d. recorded w' (fst sc) (snd sc) d = recorded w (fst sc) (snd sc) d"
  shows "settled w' delta sc = settled w delta sc"
  unfolding settled_def all_recorded_def books_rule(1,2,3) [OF assms(1)] assms(2) ..

lemma scope_settles:
  assumes "calm w" "admit_scope (Some AnnounceQuota) delta sc w = (r, w')"
  shows "settled w' delta sc" "(k, i) \<noteq> sc \<Longrightarrow> recorded w' k i d = recorded w k i d"
proof -
  note books = admit_scope_answer(1) [OF assms(2)]
  obtain v where rest: "at_rest v = at_rest w" and calm: "calm v" and run: "case quota_row w (fst sc) (snd sc) of
      None \<Rightarrow> r = Inr None \<and> w' = v
    | Some q \<Rightarrow> r = fst (admit_caps (Some AnnounceQuota) delta (fst sc) (snd sc) q (used_by w (projects_of w (fst sc) (snd sc))) v)
        \<and> w' = announce_all (Some AnnounceQuota) (fst sc) (snd sc) (dues delta q (used_by w (projects_of w (fst sc) (snd sc)))) v"
    using calm_scope [OF assms] by blast
  have rec: "recorded v = recorded w" by (rule recorded_at_rest [OF rest])
  show "settled w' delta sc"
  proof (cases "quota_row w (fst sc) (snd sc)")
    case None
    then show ?thesis unfolding settled_def books_rule(1) [OF books] by simp
  next
    case (Some q)
    then have "w' = announce_all (Some AnnounceQuota) (fst sc) (snd sc) (dues delta q (used_by w (projects_of w (fst sc) (snd sc)))) v"
      using run by simp
    then show ?thesis unfolding settled_def books_rule(1-3) [OF books] using announce_all_records [OF calm dues_distinct] Some by simp
  qed
  show "recorded w' k i d = recorded w k i d" if "(k, i) \<noteq> sc"
  proof (cases "quota_row w (fst sc) (snd sc)")
    case None
    then show ?thesis using run rec by simp
  next
    case (Some q)
    then have "w' = announce_all (Some AnnounceQuota) (fst sc) (snd sc) (dues delta q (used_by w (projects_of w (fst sc) (snd sc)))) v"
      using run by simp
    then show ?thesis using announce_all_records [OF calm dues_distinct] rec that by (cases sc) auto
  qed
qed

lemma calm_over:
  assumes "calm w" "admit_scope (Some AnnounceQuota) delta sc w = (r, w')"
  shows "\<exists>a. r = Inr a \<and> (a = None \<longleftrightarrow> over w delta sc = None)"
  using admit_scope_answer(2) [OF assms(2)] assms(1) by (auto simp: answers_def)

lemma scopes_settle:
  assumes "calm w" "distinct scs" "admit_scopes (Some AnnounceQuota) delta scs w = (r, w')"
  shows "all_settled w' delta scs \<and> (\<forall>k i d. (k, i) \<notin> set scs \<longrightarrow> recorded w' k i d = recorded w k i d)"
  using assms
proof (induction scs arbitrary: w)
  case Nil
  have "w' = w" using Nil.prems(3) unfolding admit_scopes.simps ret_run by blast
  then show ?case by simp
next
  case (Cons sc scs)
  obtain r1 w1 where one: "admit_scope (Some AnnounceQuota) delta sc w = (r1, w1)" by fastforce
  note set = scope_settles [OF Cons.prems(1) one] and books = admit_scope_answer(1) [OF one]
  have calm1: "calm w1" using books_readings(9) [OF books] Cons.prems(1) by simp
  obtain a where a: "r1 = Inr a" "a = None \<longleftrightarrow> over w delta sc = None" using calm_over [OF Cons.prems(1) one] by (elim exE conjE) (rule that)
  show ?case
  proof (cases a)
    case None
    then have run: "admit_scopes (Some AnnounceQuota) delta scs w1 = (r, w')" using Cons.prems(3) one a(1) by (simp add: bnd_run)
    from Cons.IH [OF calm1 _ run] Cons.prems(2)
    have ih: "all_settled w' delta scs" "\<And>k i d. (k, i) \<notin> set scs \<Longrightarrow> recorded w' k i d = recorded w1 k i d" by auto
    have "books w' = books w1" using admit_scopes_answer [OF run] by simp
    then have "settled w' delta sc = settled w1 delta sc" using Cons.prems(2) by (intro settled_same ih(2)) auto
    with set(1) ih set(2) show ?thesis by auto
  next
    case (Some adm)
    then have "w' = w1" using Cons.prems(3) one a(1) by (simp add: bnd_run)
    moreover have "over w1 delta sc \<noteq> None" using a(2) Some books_rule(4) [OF books] by simp
    ultimately show ?thesis using set by auto
  qed
qed

lemma settled_again:
  assumes "calm w" "settled w delta sc" "admit_scope (Some AnnounceQuota) delta sc w = (r, w')"
  shows "at_rest w' = at_rest w"
proof -
  obtain v where rest: "at_rest v = at_rest w" and calm: "calm v" and run: "case quota_row w (fst sc) (snd sc) of
      None \<Rightarrow> r = Inr None \<and> w' = v
    | Some q \<Rightarrow> r = fst (admit_caps (Some AnnounceQuota) delta (fst sc) (snd sc) q (used_by w (projects_of w (fst sc) (snd sc))) v)
        \<and> w' = announce_all (Some AnnounceQuota) (fst sc) (snd sc) (dues delta q (used_by w (projects_of w (fst sc) (snd sc)))) v"
    using calm_scope [OF assms(1,3)] by blast
  show ?thesis
  proof (cases "quota_row w (fst sc) (snd sc)")
    case None
    then show ?thesis using run rest by simp
  next
    case (Some q)
    then have w': "w' = announce_all (Some AnnounceQuota) (fst sc) (snd sc) (dues delta q (used_by w (projects_of w (fst sc) (snd sc)))) v"
      using run by simp
    have "all_recorded v (fst sc) (snd sc) (dues delta q (used_by w (projects_of w (fst sc) (snd sc))))"
      using assms(2) Some recorded_at_rest [OF rest] by (simp add: settled_def all_recorded_def)
    from announce_all_again [OF this calm] show ?thesis unfolding w' rest .
  qed
qed

lemma books_at_rest:
  assumes "at_rest v = at_rest w"
  shows "books v = books w"
  using at_rest_eqD [OF assms] unfolding books_def by simp

lemma all_settled_at_rest: "at_rest v = at_rest w \<Longrightarrow> all_settled v delta scs = all_settled w delta scs"
proof (induction scs)
  case (Cons sc scs)
  note books = books_at_rest [OF Cons.prems] and rec = recorded_at_rest [OF Cons.prems]
  have "settled v delta sc = settled w delta sc" by (rule settled_same [OF books]) (simp add: rec)
  then show ?case using Cons.IH [OF Cons.prems] books_rule(4) [OF books] by simp
qed simp

lemma all_settled_again:
  assumes "calm w" "all_settled w delta scs" "admit_scopes (Some AnnounceQuota) delta scs w = (r, w')"
  shows "at_rest w' = at_rest w"
  using assms
proof (induction scs arbitrary: w)
  case Nil
  have "w' = w" using Nil.prems(3) unfolding admit_scopes.simps ret_run by blast
  then show ?case by simp
next
  case (Cons sc scs)
  obtain r1 w1 where one: "admit_scope (Some AnnounceQuota) delta sc w = (r1, w1)" by fastforce
  have rest: "at_rest w1 = at_rest w" using Cons.prems by (intro settled_again [OF _ _ one]) simp_all
  have calm1: "calm w1" using books_readings(9) [OF books_at_rest [OF rest]] Cons.prems(1) by simp
  obtain a where a: "r1 = Inr a" "a = None \<longleftrightarrow> over w delta sc = None" using calm_over [OF Cons.prems(1) one] by (elim exE conjE) (rule that)
  show ?case
  proof (cases a)
    case None
    then have "admit_scopes (Some AnnounceQuota) delta scs w1 = (r, w')" using Cons.prems(3) one a(1) by (simp add: bnd_run)
    moreover have "all_settled w1 delta scs" using Cons.prems(2) a(2) None all_settled_at_rest [OF rest] by simp
    ultimately show ?thesis using Cons.IH [OF calm1] rest by simp
  next
    case (Some adm)
    then show ?thesis using Cons.prems(3) one a(1) rest by (simp add: bnd_run)
  qed
qed

text \<open>The same caps and readings, the same answer.\<close>

lemma scope_same:
  assumes "calm w" "books v = books w" "admit_scope (Some AnnounceQuota) delta sc w = (r, w')" "admit_scope (Some AnnounceQuota) delta sc v = (s, v')"
  shows "s = r"
proof -
  have calm: "calm v" using books_readings(9) [OF assms(2)] assms(1) by simp
  show ?thesis
  proof (cases "quota_row w (fst sc) (snd sc)")
    case None
    then show ?thesis using calm_scope [OF assms(1,3)] calm_scope [OF calm assms(4)] books_rule(1) [OF assms(2)] by auto
  next
    case (Some q)
    define md where "md = used_by w (projects_of w (fst sc) (snd sc))"
    obtain a where a: "\<And>i w. fst (admit_caps (Some AnnounceQuota) delta (fst sc) i q md w) = Inr a"
      using admit_caps_answer by blast
    have "r = Inr a" using calm_scope [OF assms(1,3)] Some a unfolding md_def by auto
    moreover have "s = Inr a" using calm_scope [OF calm assms(4)] Some a unfolding books_rule(1-3) [OF assms(2)] md_def by auto
    ultimately show ?thesis by simp
  qed
qed

lemma scopes_same:
  assumes "calm w" "books v = books w" "admit_scopes (Some AnnounceQuota) delta scs w = (r, w')" "admit_scopes (Some AnnounceQuota) delta scs v = (s, v')"
  shows "s = r"
  using assms
proof (induction scs arbitrary: w v)
  case Nil
  then show ?case unfolding admit_scopes.simps ret_run by blast
next
  case (Cons sc scs)
  obtain r1 w1 where one: "admit_scope (Some AnnounceQuota) delta sc w = (r1, w1)" by fastforce
  obtain s1 v1 where two: "admit_scope (Some AnnounceQuota) delta sc v = (s1, v1)" by fastforce
  have same: "s1 = r1" by (rule scope_same [OF Cons.prems(1,2) one two])
  note bw = admit_scope_answer(1) [OF one] and bv = admit_scope_answer(1) [OF two]
  have calm1: "calm w1" using books_readings(9) [OF bw] Cons.prems(1) by simp
  obtain a where a: "r1 = Inr a" using admit_scope_answer(2) [OF one] by blast
  show ?case
  proof (cases a)
    case None
    have "admit_scopes (Some AnnounceQuota) delta scs w1 = (r, w')" "admit_scopes (Some AnnounceQuota) delta scs v1 = (s, v')"
      using Cons.prems(3,4) one two a same None by (simp_all add: bnd_run)
    from Cons.IH [OF calm1 _ this] show ?thesis using bw bv Cons.prems(2) by simp
  next
    case (Some adm)
    then show ?thesis using Cons.prems(3,4) one two a same by (simp add: bnd_run)
  qed
qed

text \<open>
  C39. A crossing is announced once. When no call fails, asking the gate about a project again, with the caps, the readings and the
  recorded states as the first answer left them, gives the same answer and changes nothing: no announcement is repeated, whether the
  project is refused, warned or within its caps.
\<close>

theorem crossing_announced_once:
  assumes "w_faults w = (\<lambda>_. None)" "QuotaAdmit (Some AnnounceQuota) p delta w = (r, w1)"
    and "books v = books w1" "w_quotaStates v = w_quotaStates w1"
  shows "\<exists>v'. QuotaAdmit (Some AnnounceQuota) p delta v = (r, v') \<and> at_rest v' = at_rest v"
proof -
  obtain x w0 where scopes: "scopes_of p w = (x, w0)" by fastforce
  note b0 = scopes_of_run(1) [OF scopes]
  have x: "x = Inr (quota_scopes w p)" using scopes_of_run(2) [OF scopes] assms(1) by auto
  have run: "admit_scopes (Some AnnounceQuota) delta (quota_scopes w p) w0 = (r, w1)"
    using assms(2) scopes x by (simp add: QuotaAdmit_def bnd_run)
  have calm0: "calm w0" using books_readings(9) [OF b0] assms(1) by simp
  have b1: "books w1 = books w0" using admit_scopes_answer [OF run] by simp
  have bv: "books v = books w0" using assms(3) b1 by simp
  have calmv: "calm v" using books_readings(9) [OF bv] calm0 by simp
  obtain y v0 where scopes': "scopes_of p v = (y, v0)" by fastforce
  have rest: "at_rest v0 = at_rest v" by (rule reads_run [OF reads_scopes scopes'])
  have y: "y = Inr (quota_scopes w p)"
    using scopes_of_run(2) [OF scopes'] calmv books_rule(5) [OF bv] books_rule(5) [OF b0] by auto
  obtain s v' where again: "admit_scopes (Some AnnounceQuota) delta (quota_scopes w p) v0 = (s, v')" by fastforce
  have bv0: "books v0 = books w0" using scopes_of_run(1) [OF scopes'] bv by simp
  have calmv0: "calm v0" using books_readings(9) [OF bv0] calm0 by simp
  have "distinct (quota_scopes w p)"
    by (auto simp: quota_scopes_def QuotaScopeProject_def QuotaScopeTeam_def split: option.split)
  then have settled1: "all_settled w1 delta (quota_scopes w p)" using scopes_settle [OF calm0 _ run] by simp
  have "recorded v0 = recorded w1" using recorded_at_rest [OF rest] assms(4) by (simp add: recorded_def fun_eq_iff)
  then have "settled v0 delta sc = settled w1 delta sc" "over v0 delta sc = over w1 delta sc" for sc
    using bv0 b1 by (auto intro!: settled_same books_rule(4))
  then have "all_settled v0 delta scs = all_settled w1 delta scs" for scs by (induction scs) simp_all
  with settled1 have "at_rest v' = at_rest v0" using all_settled_again [OF calmv0 _ again] by simp
  moreover have "s = r" by (rule scopes_same [OF calm0 bv0 run again])
  moreover have "QuotaAdmit (Some AnnounceQuota) p delta v = (s, v')" using scopes' y again by (simp add: QuotaAdmit_def bnd_run)
  ultimately show ?thesis using rest by simp
qed

lemma over_caps_no_delta:
  assumes "over_caps no_delta q md = Some d"
  shows "d = QuotaMemory \<and> rq_MemoryLimitBytes q \<noteq> None \<or> d = QuotaDisk \<and> rq_DiskLimitBytes q \<noteq> None"
proof -
  have cap: "l \<noteq> None" if "exceeds n l" for n l using that by (cases l) (simp_all add: exceeds_def)
  have none: "\<not> (0 < dl_Previews no_delta \<and> exceeds (md_previews md + dl_Previews no_delta) (rq_PreviewLimit q))" by (simp add: no_delta_def)
  show ?thesis
  proof (cases "exceeds (md_memory md + dl_MemoryBytes no_delta) (rq_MemoryLimitBytes q)")
    case True
    then show ?thesis using assms cap unfolding over_caps_def by (simp only: if_True option.inject) blast
  next
    case False
    then have "exceeds (md_disk md + 1) (rq_DiskLimitBytes q)" using assms none unfolding over_caps_def by (metis option.distinct(1))
    with False show ?thesis using assms cap unfolding over_caps_def by (simp only: if_True if_False option.inject) blast
  qed
qed

text \<open>
  C40. The preview cap is never enforced. The scheduler is the only caller of the gate and always passes an empty delta, so whatever
  calls fail the gate refuses for memory or disk only; and where quotas cap nothing but previews it lets every deploy pass, however
  many previews are live.
\<close>

theorem preview_cap_never_asked:
  "\<exists>adm w'. quotaGate p w = (Inr adm, w') \<and> (qa_Allowed adm \<or> qa_Dimension adm \<in> {QuotaMemory, QuotaDisk})
     \<and> ((\<forall>q \<in> set (w_quotas w). rq_MemoryLimitBytes q = None \<and> rq_DiskLimitBytes q = None) \<longrightarrow> qa_Allowed adm)"
proof -
  obtain adm w' where run: "quotaGate p w = (Inr adm, w')"
    and ans: "qa_Allowed adm \<or> (\<exists>sc \<in> set (quota_scopes w p). over w no_delta sc = Some (qa_Dimension adm))"
    using quota_verdict [of p no_delta w] unfolding quotaGate_def no_delta_def by blast
  show ?thesis
  proof (cases "qa_Allowed adm")
    case False
    then obtain sc where "over w no_delta sc = Some (qa_Dimension adm)" using ans by (elim disjE bexE) (simp, rule that)
    then obtain q where row: "quota_row w (fst sc) (snd sc) = Some q"
      and over: "over_caps no_delta q (used_by w (projects_of w (fst sc) (snd sc))) = Some (qa_Dimension adm)"
      unfolding over_def by (cases "quota_row w (fst sc) (snd sc)") simp_all
    have mem: "q \<in> set (w_quotas w)" by (rule find_Some_set [OF row [unfolded quota_row_def], THEN conjunct1])
    note refused = over_caps_no_delta [OF over]
    have dim: "qa_Dimension adm = QuotaMemory \<or> qa_Dimension adm = QuotaDisk" using refused by (elim disjE conjE) simp_all
    have "\<not> (rq_MemoryLimitBytes q = None \<and> rq_DiskLimitBytes q = None)" using refused by (elim disjE conjE) simp_all
    then have "\<not> (\<forall>q \<in> set (w_quotas w). rq_MemoryLimitBytes q = None \<and> rq_DiskLimitBytes q = None)" using mem by (metis (lifting))
    then show ?thesis using run dim by (intro exI [of _ adm] exI [of _ w'] conjI impI) (simp_all only: insert_iff, blast+)
  qed (use run in auto)
qed

section \<open>A capped project\<close>

text \<open>One application that declares two replicas of 512 MB, in a project with a memory cap.\<close>

definition sized_app :: application where
  "sized_app = blank_app\<lparr>app_Runtime := (app_Runtime blank_app)\<lparr>rt_Replicas := 2, rt_MemoryLimitMB := Some 512\<rparr>\<rparr>"

definition capped_world :: "int option \<Rightarrow> int option \<Rightarrow> world" where
  "capped_world memory previews = frozen_world\<lparr> w_prot := [], w_apps := [sized_app], w_projects := [(''prj_1'', ''team_1'')],
     w_previews := [\<lparr> prw_SourceAppID = ''app_1'', prw_Status = ''running'' \<rparr>, \<lparr> prw_SourceAppID = ''app_1'', prw_Status = ''running'' \<rparr>],
     w_quotas := [\<lparr> rq_ID = ''quo_1'', rq_ProjectID = ''prj_1'', rq_TeamID = [], rq_MemoryLimitBytes = memory, rq_DiskLimitBytes = None,
                    rq_PreviewLimit = previews, rq_UpdatedBy = ''ann'' \<rparr>] \<rparr>"

lemma capped_rule:
  "first_over (capped_world (Some 1073741823) None) no_delta (quota_scopes (capped_world (Some 1073741823) None) ''prj_1'') = Some QuotaMemory"
  by code_simp



theorem crossing_announced_once_witness:
  "\<exists>v'. QuotaAdmit (Some AnnounceQuota) ''prj_1'' no_delta (snd (quotaGate ''prj_1'' (capped_world (Some 1073741824) None)))
       = (fst (quotaGate ''prj_1'' (capped_world (Some 1073741824) None)), v')
     \<and> map (\<lambda>_. ()) (w_events v') = [()]"
proof -
  have calm: "calm (capped_world (Some 1073741824) None)" by (simp add: capped_world_def frozen_world_def)
  obtain r w1 where run: "QuotaAdmit (Some AnnounceQuota) ''prj_1'' no_delta (capped_world (Some 1073741824) None) = (r, w1)" by fastforce
  then have gate: "quotaGate ''prj_1'' (capped_world (Some 1073741824) None) = (r, w1)" by (simp only: quotaGate_def no_delta_def)
  have "map (\<lambda>_. ()) (w_events (snd (quotaGate ''prj_1'' (capped_world (Some 1073741824) None)))) = [()]" by code_simp
  then have told: "map (\<lambda>_. ()) (w_events w1) = [()]" unfolding gate snd_conv .
  obtain v' where again: "QuotaAdmit (Some AnnounceQuota) ''prj_1'' no_delta w1 = (r, v')" and rest: "at_rest v' = at_rest w1"
    using crossing_announced_once [OF calm run refl refl] by (elim exE conjE) (rule that)
  have "w_events v' = w_events w1" using at_rest_eqD [OF rest] by simp
  then show ?thesis unfolding gate fst_conv snd_conv using again told by (intro exI [of _ v']) simp
qed

theorem preview_cap_never_asked_witness:
  "\<exists>adm w'. quotaGate ''prj_1'' (capped_world None (Some 1)) = (Inr adm, w') \<and> qa_Allowed adm"
  using preview_cap_never_asked [of "''prj_1''" "capped_world None (Some 1)"] by (auto simp: capped_world_def)

text \<open>
  What the inbox is told and what the gate does part ways at the cap: memory at exactly the cap, and live previews past it, are
  announced as a cap that refuses new deploys, while the gate lets them pass.
\<close>

lemma told_refused_but_admitted:
  "map_sum id qa_Allowed (fst (quotaGate ''prj_1'' (capped_world (Some 1073741824) None))) = Inr True"
  "map (\<lambda>e. case e of QuotaItem k r t b \<Rightarrow> (k, r) | _ \<Rightarrow> ([], [])) (w_events (snd (quotaGate ''prj_1'' (capped_world (Some 1073741824) None))))
     = [(InboxQuotaExceeded, ''project:prj_1:memory'')]"
  "map_sum id qa_Allowed (fst (quotaGate ''prj_1'' (capped_world None (Some 1)))) = Inr True"
  "map (\<lambda>e. case e of QuotaItem k r t b \<Rightarrow> (k, r) | _ \<Rightarrow> ([], [])) (w_events (snd (quotaGate ''prj_1'' (capped_world None (Some 1)))))
     = [(InboxQuotaExceeded, ''project:prj_1:previews'')]"
  by code_simp+

end
